(* ===== verification/Prelude.thy ===== *)
theory Prelude
  imports Main "HOL-Library.State_Monad"
begin

text \<open>
  What every component of the model shares: the result type of fallible Rust code, small
  facts about lists and options, and the accumulator through which the ingestion code
  records its findings (a \<open>&mut Vec<IngestIssue>\<close> argument in the source, a state here).
  The theorem collections that the components fill and the proofs use are declared here.
\<close>

named_theorems emits_intros \<open>composition rules for computations that only append to a log\<close>
named_theorems yields_intros \<open>composition rules for the value such a computation returns\<close>
named_theorems text_simps \<open>evaluation of the string operations of the standard library\<close>

subsection \<open>Fallible results\<close>

text \<open>\<open>Result<T, E>\<close> of the source: \<open>Inl\<close> carries the error, \<open>Inr\<close> the value.\<close>

type_synonym ('e, 'a) result = "'e + 'a"

definition and_then :: "'e + 'a \<Rightarrow> ('a \<Rightarrow> 'e + 'b) \<Rightarrow> 'e + 'b" where
  "and_then r f = (case r of Inl e \<Rightarrow> Inl e | Inr x \<Rightarrow> f x)"

definition map_err :: "('e \<Rightarrow> 'f) \<Rightarrow> 'e + 'a \<Rightarrow> 'f + 'a" where
  "map_err g r = (case r of Inl e \<Rightarrow> Inl (g e) | Inr x \<Rightarrow> Inr x)"

definition ok_or :: "'e \<Rightarrow> 'a option \<Rightarrow> 'e + 'a" where
  "ok_or e v = (case v of None \<Rightarrow> Inl e | Some x \<Rightarrow> Inr x)"

definition is_ok :: "'e + 'a \<Rightarrow> bool" where
  "is_ok r = (case r of Inl _ \<Rightarrow> False | Inr _ \<Rightarrow> True)"

lemma and_then_simps [simp]:
  "and_then (Inl e) f = Inl e"
  "and_then (Inr x) f = f x"
  by (simp_all add: and_then_def)

lemma map_err_simps [simp]:
  "map_err g (Inl e) = Inl (g e)"
  "map_err g (Inr x) = Inr x"
  by (simp_all add: map_err_def)

lemma ok_or_simps [simp]:
  "ok_or e None = Inl e"
  "ok_or e (Some x) = Inr x"
  by (simp_all add: ok_or_def)

lemma is_ok_simps [simp]:
  "\<not> is_ok (Inl e)"
  "is_ok (Inr x)"
  by (simp_all add: is_ok_def)

lemma and_then_Inr_iff: "and_then r f = Inr y \<longleftrightarrow> (\<exists>x. r = Inr x \<and> f x = Inr y)"
  by (cases r) auto

lemma and_then_Inl_iff: "and_then r f = Inl e \<longleftrightarrow> r = Inl e \<or> (\<exists>x. r = Inr x \<and> f x = Inl e)"
  by (cases r) auto

lemma map_err_Inr_iff [simp]: "map_err g r = Inr x \<longleftrightarrow> r = Inr x"
  by (cases r) auto

lemma ok_or_Inr_iff [simp]: "ok_or e v = Inr x \<longleftrightarrow> v = Some x"
  by (cases v) auto

lemma ok_or_Inl_iff [simp]: "ok_or e v = Inl d \<longleftrightarrow> v = None \<and> d = e"
  by (cases v) auto

text \<open>Collecting an iterator of results: the first error wins, as \<open>collect::<Result<_, _>>()\<close>.\<close>

fun collect_results :: "('e + 'a) list \<Rightarrow> 'e + 'a list" where
  "collect_results [] = Inr []"
| "collect_results (r # rs) =
     and_then r (\<lambda>x. and_then (collect_results rs) (\<lambda>xs. Inr (x # xs)))"

lemma collect_results_Inr_iff: "collect_results rs = Inr xs \<longleftrightarrow> rs = map Inr xs"
  by (induction rs arbitrary: xs) (auto simp: and_then_Inr_iff)

subsection \<open>First match in a list\<close>

text \<open>\<open>Iterator::find\<close> is \<open>List.find\<close>; a lookup over a duplicate-free table inverts it.\<close>

lemma find_distinct_key:
  assumes "distinct (map f xs)" and "x \<in> set xs"
  shows "List.find (\<lambda>y. f y = f x) xs = Some x"
  using assms by (induction xs) (auto simp: image_iff)

lemma find_Some_key: "List.find (\<lambda>y. f y = k) xs = Some x \<Longrightarrow> x \<in> set xs \<and> f x = k"
  by (auto simp: find_Some_iff)

subsection \<open>Accumulating a log\<close>

text \<open>
  \<open>('w, 'a) logger\<close> is a computation that reads and extends a list of \<open>'w\<close>. The state monad
  of the library gives the sequencing; \<open>push\<close> is \<open>Vec::push\<close>. \<open>emits P m\<close> says that \<open>m\<close>
  never reads the log, only appends to it, and appends only entries satisfying \<open>P\<close>.
\<close>

type_synonym ('w, 'a) logger = "('w list, 'a) state"

definition push :: "'w \<Rightarrow> ('w, unit) logger" where
  "push w = State (\<lambda>ws. ((), ws @ [w]))"

definition push_when :: "bool \<Rightarrow> 'w \<Rightarrow> ('w, unit) logger" where
  "push_when b w = (if b then push w else State_Monad.return ())"

definition outcome :: "('w, 'a) logger \<Rightarrow> 'a" where
  "outcome m = fst (run_state m [])"

definition emitted :: "('w, 'a) logger \<Rightarrow> 'w list" where
  "emitted m = snd (run_state m [])"

definition emits :: "('w \<Rightarrow> bool) \<Rightarrow> ('w, 'a) logger \<Rightarrow> bool" where
  "emits P m \<longleftrightarrow>
     (\<forall>ws. run_state m ws = (outcome m, ws @ emitted m)) \<and> list_all P (emitted m)"

lemma run_state_push [simp]: "run_state (push w) ws = ((), ws @ [w])"
  by (simp add: push_def)

lemma run_state_push_when [simp]:
  "run_state (push_when b w) ws = ((), if b then ws @ [w] else ws)"
  by (simp add: push_when_def)

lemma emitsI:
  assumes "\<And>ws. run_state m ws = (v, ws @ es)" and "list_all P es"
  shows "emits P m"
proof -
  have "outcome m = v" and "emitted m = es"
    using assms(1) [of "[]"] by (simp_all add: outcome_def emitted_def)
  with assms show ?thesis by (simp add: emits_def)
qed

lemma emits_run: "emits P m \<Longrightarrow> run_state m ws = (outcome m, ws @ emitted m)"
  by (simp add: emits_def)

lemma emits_all: "emits P m \<Longrightarrow> list_all P (emitted m)"
  by (simp add: emits_def)

lemma emits_mono: "emits P m \<Longrightarrow> (\<And>w. P w \<Longrightarrow> Q w) \<Longrightarrow> emits Q m"
  by (auto simp: emits_def list_all_iff)

lemma emits_return [emits_intros]: "emits P (State_Monad.return x)"
  by (rule emitsI [where es = "[]" and v = x]) simp_all

lemma emits_push [emits_intros]: "P w \<Longrightarrow> emits P (push w)"
  by (rule emitsI [where es = "[w]" and v = "()"]) simp_all

lemma emits_push_when [emits_intros]: "(b \<Longrightarrow> P w) \<Longrightarrow> emits P (push_when b w)"
  by (cases b) (simp_all add: push_when_def emits_push emits_return)

lemma emits_bind_run:
  assumes "emits P m" and "\<And>x. emits P (f x)"
  shows "run_state (State_Monad.bind m f) ws =
           (outcome (f (outcome m)), ws @ emitted m @ emitted (f (outcome m)))"
  using emits_run [OF assms(1)] emits_run [OF assms(2)] by simp

lemma emits_bind [emits_intros]:
  assumes "emits P m" and "\<And>x. emits P (f x)"
  shows "emits P (State_Monad.bind m f)"
  by (rule emitsI [OF emits_bind_run [OF assms]])
     (simp add: emits_all [OF assms(1)] emits_all [OF assms(2)])

lemma emitted_bind:
  assumes "emits P m" and "\<And>x. emits P (f x)"
  shows "emitted (State_Monad.bind m f) = emitted m @ emitted (f (outcome m))"
    and "outcome (State_Monad.bind m f) = outcome (f (outcome m))"
  using emits_bind_run [OF assms, where ws = "[]"] by (simp_all add: emitted_def outcome_def)

lemma emits_if [emits_intros]:
  "(b \<Longrightarrow> emits P m) \<Longrightarrow> (\<not> b \<Longrightarrow> emits P n) \<Longrightarrow> emits P (if b then m else n)"
  by simp

lemma emits_case_option [emits_intros]:
  "(v = None \<Longrightarrow> emits P m) \<Longrightarrow> (\<And>x. v = Some x \<Longrightarrow> emits P (f x)) \<Longrightarrow>
     emits P (case v of None \<Rightarrow> m | Some x \<Rightarrow> f x)"
  by (cases v) simp_all

lemma emits_case_prod [emits_intros]:
  "(\<And>a b. v = (a, b) \<Longrightarrow> emits P (f a b)) \<Longrightarrow> emits P (case v of (a, b) \<Rightarrow> f a b)"
  by (cases v) simp

text \<open>\<open>filter_map\<close> with an effect, in list order; it is the loop of the source's collections.\<close>

fun traverse_filter :: "('a \<Rightarrow> ('w, 'b option) logger) \<Rightarrow> 'a list \<Rightarrow> ('w, 'b list) logger" where
  "traverse_filter f [] = State_Monad.return []"
| "traverse_filter f (x # xs) =
     do { y \<leftarrow> f x;
          ys \<leftarrow> traverse_filter f xs;
          State_Monad.return (case y of None \<Rightarrow> ys | Some z \<Rightarrow> z # ys) }"

lemma emits_traverse_filter [emits_intros]:
  "(\<And>x. x \<in> set xs \<Longrightarrow> emits P (f x)) \<Longrightarrow> emits P (traverse_filter f xs)"
  by (induction xs) (auto intro!: emits_intros)

lemma outcome_return [simp]: "outcome (State_Monad.return x) = x"
  by (simp add: outcome_def)

lemma emitted_return [simp]: "emitted (State_Monad.return x) = []"
  by (simp add: emitted_def)

lemma outcome_push_when [simp]: "outcome (push_when b w) = ()"
  by (simp add: outcome_def)

lemma emitted_push_when [simp]: "emitted (push_when b w) = (if b then [w] else [])"
  by (simp add: emitted_def)

lemma emitted_push [simp]: "emitted (push w) = [w]"
  by (simp add: emitted_def)

lemma outcome_traverse_filter:
  assumes "\<And>x. x \<in> set xs \<Longrightarrow> emits P (f x)"
  shows "outcome (traverse_filter f xs) = List.map_filter (\<lambda>x. outcome (f x)) xs"
  using assms
proof (induction xs)
  case Nil
  then show ?case by (simp add: map_filter_simps)
next
  case (Cons x xs)
  have fx: "emits P (f x)" and fxs: "emits P (traverse_filter f xs)"
    using Cons.prems by (auto intro: emits_intros)
  have "outcome (traverse_filter f (x # xs)) =
          (case outcome (f x) of None \<Rightarrow> outcome (traverse_filter f xs)
             | Some z \<Rightarrow> z # outcome (traverse_filter f xs))"
    unfolding outcome_def [of "traverse_filter f (x # xs)"]
    by (simp add: emits_run [OF fx] emits_run [OF fxs])
  with Cons.IH Cons.prems show ?case
    by (simp add: map_filter_simps split: option.splits)
qed

subsection \<open>What a computation returns, whatever the log\<close>

definition yields :: "('a \<Rightarrow> bool) \<Rightarrow> ('w, 'a) logger \<Rightarrow> bool" where
  "yields Q m \<longleftrightarrow> (\<forall>ws. Q (fst (run_state m ws)))"

lemma yieldsD: "yields Q m \<Longrightarrow> Q (fst (run_state m ws))"
  by (simp add: yields_def)

lemma yields_outcome: "yields Q m \<Longrightarrow> Q (outcome m)"
  by (simp add: yields_def outcome_def)

lemma yields_mono: "yields Q m \<Longrightarrow> (\<And>x. Q x \<Longrightarrow> R x) \<Longrightarrow> yields R m"
  by (auto simp: yields_def)

lemma yields_return [yields_intros]: "Q x \<Longrightarrow> yields Q (State_Monad.return x)"
  by (simp add: yields_def)

lemma yields_bind_any: "(\<And>x. yields Q (f x)) \<Longrightarrow> yields Q (State_Monad.bind m f)"
  by (auto simp: yields_def split: prod.splits)

lemma yields_bind:
  "yields R m \<Longrightarrow> (\<And>x. R x \<Longrightarrow> yields Q (f x)) \<Longrightarrow> yields Q (State_Monad.bind m f)"
  by (auto simp: yields_def split: prod.splits) (metis fst_conv)

lemma yields_bind_outcome:
  "emits P m \<Longrightarrow> yields Q (f (outcome m)) \<Longrightarrow> yields Q (State_Monad.bind m f)"
  by (auto simp: yields_def emits_run split: prod.splits)

lemma yields_if [yields_intros]:
  "(b \<Longrightarrow> yields Q m) \<Longrightarrow> (\<not> b \<Longrightarrow> yields Q n) \<Longrightarrow> yields Q (if b then m else n)"
  by simp

lemma yields_case_option [yields_intros]:
  "(v = None \<Longrightarrow> yields Q m) \<Longrightarrow> (\<And>x. v = Some x \<Longrightarrow> yields Q (f x)) \<Longrightarrow>
     yields Q (case v of None \<Rightarrow> m | Some x \<Rightarrow> f x)"
  by (cases v) simp_all

lemma yields_case_prod [yields_intros]:
  "(\<And>a b. v = (a, b) \<Longrightarrow> yields Q (f a b)) \<Longrightarrow> yields Q (case v of (a, b) \<Rightarrow> f a b)"
  by (cases v) simp

lemma yields_traverse_filter:
  assumes "\<And>x. x \<in> set xs \<Longrightarrow> yields (\<lambda>v. \<forall>z. v = Some z \<longrightarrow> Q z) (f x)"
  shows "yields (list_all Q) (traverse_filter f xs)"
  using assms
proof (induction xs)
  case (Cons x xs)
  from Cons.IH Cons.prems have "yields (list_all Q) (traverse_filter f xs)" by simp
  then show ?case using Cons.prems
    by (auto intro!: yields_bind [where R = "\<lambda>v. \<forall>z. v = Some z \<longrightarrow> Q z"]
        yields_bind [where R = "list_all Q"] yields_return split: option.splits)
qed (simp add: yields_return)

text \<open>The items of a collection, read through \<open>g\<close>, are what \<open>h\<close> makes of the entries, in order.\<close>

lemma yields_traverse_map_filter:
  assumes "\<And>x. x \<in> set xs \<Longrightarrow> yields (\<lambda>v. map_option g v = h x) (f x)"
  shows "yields (\<lambda>ys. map g ys = List.map_filter h xs) (traverse_filter f xs)"
  using assms
proof (induction xs)
  case (Cons x xs)
  let ?R = "\<lambda>ys. map g ys = List.map_filter h xs"
  from Cons.IH Cons.prems have "yields ?R (traverse_filter f xs)" by simp
  then show ?case using Cons.prems
    by (auto intro!: yields_bind [where R = "\<lambda>v. map_option g v = h x"] yields_bind [where R = ?R]
        yields_return simp: map_filter_simps split: option.splits)
qed (simp add: yields_return map_filter_simps)

subsection \<open>What a computation has recorded\<close>

lemma emitted_bind_left:
  "emits P m \<Longrightarrow> (\<And>x. emits P (f x)) \<Longrightarrow> set (emitted m) \<subseteq> set (emitted (State_Monad.bind m f))"
  by (simp add: emitted_bind)

lemma emitted_bind_right:
  "emits P m \<Longrightarrow> (\<And>x. emits P (f x)) \<Longrightarrow> A \<subseteq> set (emitted (f (outcome m))) \<Longrightarrow>
     A \<subseteq> set (emitted (State_Monad.bind m f))"
  by (auto simp: emitted_bind)

lemma traverse_filter_accounts:
  assumes "\<And>x. x \<in> set xs \<Longrightarrow> emits P (f x)"
    and "\<And>x i. x \<in> set xs \<Longrightarrow> outcome (f x) = Some i \<Longrightarrow> F i (set (emitted (f x)))"
    and mono: "\<And>i A B. F i A \<Longrightarrow> A \<subseteq> B \<Longrightarrow> F i B"
  shows "\<forall>i \<in> set (outcome (traverse_filter f xs)). F i (set (emitted (traverse_filter f xs)))"
  using assms(1,2)
proof (induction xs)
  case (Cons x xs)
  have fx: "emits P (f x)" and fxs: "emits P (traverse_filter f xs)"
    using Cons.prems by (auto intro: emits_intros)
  have tail: "emits P (do { ys \<leftarrow> traverse_filter f xs;
      State_Monad.return (case y of None \<Rightarrow> ys | Some z \<Rightarrow> z # ys) })" for y
    by (intro emits_intros fxs)
  have "emitted (traverse_filter f (x # xs)) = emitted (f x) @ emitted (traverse_filter f xs)"
    and "outcome (traverse_filter f (x # xs)) = (case outcome (f x) of
        None \<Rightarrow> outcome (traverse_filter f xs) | Some z \<Rightarrow> z # outcome (traverse_filter f xs))"
    by (simp_all add: emitted_bind [OF fx tail] emitted_bind [OF fxs emits_return])
  moreover have "\<forall>i \<in> set (outcome (traverse_filter f xs)). F i (set (emitted (traverse_filter f xs)))"
    using Cons by simp
  ultimately show ?case using Cons.prems(2) [of x]
    by (auto split: option.splits intro: mono [OF _ Un_upper1] mono [OF _ Un_upper2])
qed simp

end
