(* ===== verification/Rust_Str.thy ===== *)
theory Rust_Str
  imports Prelude "HOL-Library.Sublist"
begin

text \<open>
  The part of Rust's string library the program uses. A Rust \<open>&str\<close> is its UTF-8 byte
  sequence, so it is modelled as an Isabelle \<open>string\<close> whose characters are those bytes:
  \<open>length\<close> is \<open>str::len\<close>. Operations that look at Unicode scalar values (\<open>trim\<close>,
  \<open>split_whitespace\<close>, \<open>chars\<close>) work on \<open>utf8_chars\<close>, the sequence of encoded scalars;
  \<open>is_whitespace\<close> and \<open>is_control\<close> list the encodings of Rust's two classes completely.
\<close>

subsection \<open>Bytes\<close>

abbreviation byte :: "char \<Rightarrow> nat" where
  "byte c \<equiv> of_char c"

definition is_ascii_digit :: "char \<Rightarrow> bool" where
  "is_ascii_digit c \<longleftrightarrow> 48 \<le> byte c \<and> byte c \<le> 57"

definition is_ascii_uppercase :: "char \<Rightarrow> bool" where
  "is_ascii_uppercase c \<longleftrightarrow> 65 \<le> byte c \<and> byte c \<le> 90"

definition is_ascii_lowercase :: "char \<Rightarrow> bool" where
  "is_ascii_lowercase c \<longleftrightarrow> 97 \<le> byte c \<and> byte c \<le> 122"

definition is_ascii_alphabetic :: "char \<Rightarrow> bool" where
  "is_ascii_alphabetic c \<longleftrightarrow> is_ascii_uppercase c \<or> is_ascii_lowercase c"

definition is_ascii_hexdigit :: "char \<Rightarrow> bool" where
  "is_ascii_hexdigit c \<longleftrightarrow>
     is_ascii_digit c \<or> (65 \<le> byte c \<and> byte c \<le> 70) \<or> (97 \<le> byte c \<and> byte c \<le> 102)"

definition is_ascii_graphic :: "char \<Rightarrow> bool" where
  "is_ascii_graphic c \<longleftrightarrow> 33 \<le> byte c \<and> byte c \<le> 126"

definition ascii_lower :: "char \<Rightarrow> char" where
  "ascii_lower c = (if is_ascii_uppercase c then char_of (byte c + 32) else c)"

definition ascii_upper :: "char \<Rightarrow> char" where
  "ascii_upper c = (if is_ascii_lowercase c then char_of (byte c - 32) else c)"

definition to_ascii_lowercase :: "string \<Rightarrow> string" where
  "to_ascii_lowercase s = map ascii_lower s"

definition to_ascii_uppercase :: "string \<Rightarrow> string" where
  "to_ascii_uppercase s = map ascii_upper s"

definition eq_ignore_ascii_case :: "string \<Rightarrow> string \<Rightarrow> bool" where
  "eq_ignore_ascii_case s t \<longleftrightarrow> to_ascii_lowercase s = to_ascii_lowercase t"

lemmas byte_class_defs = is_ascii_digit_def is_ascii_uppercase_def is_ascii_lowercase_def
  is_ascii_alphabetic_def is_ascii_hexdigit_def is_ascii_graphic_def

lemma byte_less_256 [simp]: "byte c < 256"
  by simp

lemma length_to_ascii_lowercase [simp]: "length (to_ascii_lowercase s) = length s"
  by (simp add: to_ascii_lowercase_def)

lemma to_ascii_lowercase_append [simp]:
  "to_ascii_lowercase (s @ t) = to_ascii_lowercase s @ to_ascii_lowercase t"
  by (simp add: to_ascii_lowercase_def)

subsection \<open>Prefixes, suffixes, substrings\<close>

definition starts_with :: "string \<Rightarrow> string \<Rightarrow> bool" where
  "starts_with p s \<longleftrightarrow> take (length p) s = p"

definition ends_with :: "string \<Rightarrow> string \<Rightarrow> bool" where
  "ends_with p s \<longleftrightarrow> starts_with (rev p) (rev s)"

definition strip_prefix :: "string \<Rightarrow> string \<Rightarrow> string option" where
  "strip_prefix p s = (if starts_with p s then Some (drop (length p) s) else None)"

definition strip_suffix :: "string \<Rightarrow> string \<Rightarrow> string option" where
  "strip_suffix p s =
     (if ends_with p s then Some (take (length s - length p) s) else None)"

text \<open>\<open>str::find\<close>: the byte offset of the first occurrence.\<close>

fun str_find :: "string \<Rightarrow> string \<Rightarrow> nat option" where
  "str_find p [] = (if p = [] then Some 0 else None)"
| "str_find p (c # s) =
     (if starts_with p (c # s) then Some 0 else map_option Suc (str_find p s))"

definition str_contains :: "string \<Rightarrow> string \<Rightarrow> bool" where
  "str_contains p s \<longleftrightarrow> str_find p s \<noteq> None"

text \<open>\<open>str::split_once\<close> and \<open>str::split\<close> at a single-byte character.\<close>

fun split_once :: "char \<Rightarrow> string \<Rightarrow> (string \<times> string) option" where
  "split_once d [] = None"
| "split_once d (c # s) =
     (if c = d then Some ([], s)
      else map_option (\<lambda>(a, b). (c # a, b)) (split_once d s))"

fun split_char :: "char \<Rightarrow> string \<Rightarrow> string list" where
  "split_char d [] = [[]]"
| "split_char d (c # s) =
     (if c = d then [] # split_char d s
      else (case split_char d s of [] \<Rightarrow> [[c]] | p # ps \<Rightarrow> (c # p) # ps))"

text \<open>\<open>str::splitn(n, d)\<close>: at most \<open>n\<close> pieces, the last one unsplit.\<close>

fun splitn :: "nat \<Rightarrow> char \<Rightarrow> string \<Rightarrow> string list" where
  "splitn 0 d s = []"
| "splitn (Suc 0) d s = [s]"
| "splitn (Suc (Suc n)) d s =
     (case split_once d s of None \<Rightarrow> [s] | Some (a, b) \<Rightarrow> a # splitn (Suc n) d b)"

lemma starts_with_iff: "starts_with p s \<longleftrightarrow> (\<exists>t. s = p @ t)"
  by (metis append_eq_conv_conj append_take_drop_id starts_with_def)

lemma starts_with_append [simp]: "starts_with p (p @ s)"
  by (simp add: starts_with_def)

lemma strip_prefix_Some_iff: "strip_prefix p s = Some t \<longleftrightarrow> s = p @ t"
  by (auto simp: strip_prefix_def starts_with_iff)

lemma strip_prefix_None_iff: "strip_prefix p s = None \<longleftrightarrow> \<not> starts_with p s"
  by (simp add: strip_prefix_def)

lemma ends_with_iff: "ends_with p s \<longleftrightarrow> (\<exists>t. s = t @ p)"
proof
  assume "ends_with p s"
  then obtain t where "rev s = rev p @ t"
    by (auto simp: ends_with_def starts_with_iff)
  then have "s = rev t @ p" by (metis rev_append rev_rev_ident)
  then show "\<exists>t. s = t @ p" ..
qed (auto simp: ends_with_def starts_with_iff)

lemma strip_suffix_Some_iff: "strip_suffix p s = Some t \<longleftrightarrow> s = t @ p"
  by (auto simp: strip_suffix_def ends_with_iff)

lemma split_once_Some_iff:
  "split_once d s = Some (a, b) \<longleftrightarrow> s = a @ d # b \<and> d \<notin> set a"
proof (induction s arbitrary: a)
  case Nil
  then show ?case by simp
next
  case (Cons c s)
  show ?case
  proof (cases "c = d")
    case True
    then show ?thesis by (cases a) auto
  next
    case False
    then show ?thesis using Cons.IH by (cases a) auto
  qed
qed

lemma split_once_None_iff: "split_once d s = None \<longleftrightarrow> d \<notin> set s"
  by (induction s) auto

lemma split_char_nonempty [simp]: "split_char d s \<noteq> []"
  by (induction s) (auto split: list.splits)

lemma split_char_none: "d \<notin> set s \<Longrightarrow> split_char d s = [s]"
  by (induction s) auto

lemma split_char_parts: "p \<in> set (split_char d s) \<Longrightarrow> d \<notin> set p \<and> set p \<subseteq> set s"
proof (induction s arbitrary: p)
  case Nil
  then show ?case by simp
next
  case (Cons c s)
  obtain q qs where "split_char d s = q # qs"
    by (metis list.exhaust split_char_nonempty)
  with Cons.IH [of q] Cons.IH Cons.prems show ?case by (auto split: if_splits) blast
qed

lemma split_char_append: "d \<notin> set a \<Longrightarrow> split_char d (a @ d # b) = a # split_char d b"
  by (induction a) auto

text \<open>Joining the pieces with the separator gives the text back.\<close>

fun join_with :: "string \<Rightarrow> string list \<Rightarrow> string" where
  "join_with d [] = []"
| "join_with d [p] = p"
| "join_with d (p # q # ps) = p @ d @ join_with d (q # ps)"

lemma join_split_char [simp]: "join_with [d] (split_char d s) = s"
proof (induction s)
  case Nil
  then show ?case by simp
next
  case (Cons c s)
  obtain q qs where "split_char d s = q # qs"
    by (metis list.exhaust split_char_nonempty)
  with Cons show ?case by (cases qs) auto
qed

lemma str_find_Some: "str_find p s = Some i \<Longrightarrow> \<exists>a b. s = a @ p @ b \<and> length a = i"
proof (induction s arbitrary: i)
  case Nil
  then show ?case by (auto split: if_splits)
next
  case (Cons c s)
  show ?case
  proof (cases "starts_with p (c # s)")
    case True
    with Cons.prems show ?thesis by (auto simp: starts_with_iff)
  next
    case False
    with Cons.prems obtain j where "str_find p s = Some j" and "i = Suc j" by auto
    with Cons.IH obtain a b where "s = a @ p @ b" and "length a = j" by blast
    with \<open>i = Suc j\<close> have "c # s = (c # a) @ p @ b \<and> length (c # a) = i" by simp
    then show ?thesis by blast
  qed
qed

lemma str_find_append: "str_find p (a @ p @ b) \<noteq> None"
proof (induction a)
  case Nil
  have "starts_with p (p @ b)" by simp
  then show ?case by (cases "p @ b") auto
next
  case (Cons c a)
  then show ?case by simp
qed

lemma str_contains_iff: "str_contains p s \<longleftrightarrow> (\<exists>a b. s = a @ p @ b)"
  unfolding str_contains_def using str_find_Some str_find_append by fastforce

lemma splitn_join: "n > 0 \<Longrightarrow> join_with [d] (splitn n d s) = s"
proof (induction n d s rule: splitn.induct)
  case (3 n d s)
  show ?case
  proof (cases "split_once d s")
    case None
    then show ?thesis by simp
  next
    case (Some ab)
    then obtain a b where ab: "split_once d s = Some (a, b)" by (cases ab) auto
    then have s: "s = a @ d # b" by (simp add: split_once_Some_iff)
    have ne: "splitn (Suc n) d b \<noteq> []"
      by (cases n) (auto split: option.splits)
    have "join_with [d] (splitn (Suc n) d b) = b"
      using "3.IH" [OF ab refl] by simp
    with ne ab s show ?thesis by (cases "splitn (Suc n) d b") auto
  qed
qed simp_all

subsection \<open>Unicode scalar values\<close>

definition is_continuation :: "char \<Rightarrow> bool" where
  "is_continuation c \<longleftrightarrow> 128 \<le> byte c \<and> byte c < 192"

function utf8_chars :: "string \<Rightarrow> string list" where
  "utf8_chars [] = []"
| "utf8_chars (c # s) =
     (c # takeWhile is_continuation s) # utf8_chars (dropWhile is_continuation s)"
  by pat_completeness auto
termination
  by (relation "measure length") (auto simp: le_imp_less_Suc length_dropWhile_le)

text \<open>\<open>char::is_whitespace\<close>, by encoding: U+0009-000D, 0020, 0085, 00A0, 1680, 2000-200A, 2028,
  2029, 202F, 205F and 3000.\<close>

definition is_whitespace :: "string \<Rightarrow> bool" where
  "is_whitespace ch = (case map byte ch of
       [b] \<Rightarrow> (9 \<le> b \<and> b \<le> 13) \<or> b = 32
     | [b, c] \<Rightarrow> b = 194 \<and> (c = 133 \<or> c = 160)
     | [b, c, d] \<Rightarrow> (b = 225 \<and> c = 154 \<and> d = 128)
         \<or> (b = 226 \<and> c = 128 \<and> ((128 \<le> d \<and> d \<le> 138) \<or> d = 168 \<or> d = 169 \<or> d = 175))
         \<or> (b = 226 \<and> c = 129 \<and> d = 159)
         \<or> (b = 227 \<and> c = 128 \<and> d = 128)
     | _ \<Rightarrow> False)"

text \<open>\<open>char::is_control\<close>: U+0000-001F and 007F-009F.\<close>

definition is_control :: "string \<Rightarrow> bool" where
  "is_control ch = (case map byte ch of
       [b] \<Rightarrow> b < 32 \<or> b = 127
     | [b, c] \<Rightarrow> b = 194 \<and> 128 \<le> c \<and> c < 160
     | _ \<Rightarrow> False)"

definition trim_start :: "string \<Rightarrow> string" where
  "trim_start s = concat (dropWhile is_whitespace (utf8_chars s))"

definition trim_end :: "string \<Rightarrow> string" where
  "trim_end s = concat (rev (dropWhile is_whitespace (rev (utf8_chars s))))"

definition trim :: "string \<Rightarrow> string" where
  "trim s = trim_end (trim_start s)"

text \<open>\<open>split_whitespace\<close>: the non-empty runs between white space.\<close>

fun ws_words :: "string \<Rightarrow> string list \<Rightarrow> string list" where
  "ws_words w [] = (if w = [] then [] else [w])"
| "ws_words w (ch # chs) =
     (if is_whitespace ch then (if w = [] then ws_words [] chs else w # ws_words [] chs)
      else ws_words (w @ ch) chs)"

definition split_whitespace :: "string \<Rightarrow> string list" where
  "split_whitespace s = ws_words [] (utf8_chars s)"

text \<open>\<open>chars().filter(|c| !c.is_control()).take(n).collect()\<close>, used wherever text is bounded.\<close>

definition bounded_printable :: "nat \<Rightarrow> string \<Rightarrow> string" where
  "bounded_printable n s = concat (take n (filter (\<lambda>ch. \<not> is_control ch) (utf8_chars s)))"

lemma concat_utf8_chars [simp]: "concat (utf8_chars s) = s"
  by (induction s rule: utf8_chars.induct) simp_all

lemma utf8_chars_eq_Nil_iff [simp]: "utf8_chars s = [] \<longleftrightarrow> s = []"
  by (cases s) simp_all

text \<open>A list of encoded scalars: only the lead byte of each is not a continuation byte. The
  first element is exempt, so that the notion also covers text cut in the middle.\<close>

fun chunk_ok :: "string \<Rightarrow> bool" where
  "chunk_ok [] = False"
| "chunk_ok (c # s) = list_all is_continuation s"

fun scalar_ok :: "string \<Rightarrow> bool" where
  "scalar_ok [] = False"
| "scalar_ok (c # s) = (\<not> is_continuation c \<and> list_all is_continuation s)"

fun chunked :: "string list \<Rightarrow> bool" where
  "chunked [] = True"
| "chunked (ch # chs) = (chunk_ok ch \<and> list_all scalar_ok chs)"

lemma scalar_ok_chunk_ok: "scalar_ok ch \<Longrightarrow> chunk_ok ch"
  by (cases ch) simp_all

lemma head_dropWhile: "dropWhile P xs \<noteq> [] \<Longrightarrow> \<not> P (hd (dropWhile P xs))"
  by (induction xs) auto

lemma utf8_chars_head_ok:
  "s \<noteq> [] \<Longrightarrow> \<not> is_continuation (hd s) \<Longrightarrow> list_all scalar_ok (utf8_chars s)"
proof (induction s rule: utf8_chars.induct)
  case (2 c s)
  let ?rest = "dropWhile is_continuation s"
  have "list_all scalar_ok (utf8_chars ?rest)"
    using "2.IH" head_dropWhile [of is_continuation s] by (cases "?rest = []") (auto simp del: dropWhile_eq_Nil_conv)
  moreover have "list_all is_continuation (takeWhile is_continuation s)"
    by (auto simp: list_all_iff dest: set_takeWhileD)
  ultimately show ?case using "2.prems" by simp
qed simp

lemma chunked_utf8_chars: "chunked (utf8_chars s)"
proof (cases s)
  case (Cons c t)
  have "list_all is_continuation (takeWhile is_continuation t)"
    by (auto simp: list_all_iff dest: set_takeWhileD)
  moreover have "list_all scalar_ok (utf8_chars (dropWhile is_continuation t))"
    using utf8_chars_head_ok head_dropWhile [of is_continuation t]
    by (cases "dropWhile is_continuation t = []") (auto simp del: dropWhile_eq_Nil_conv)
  ultimately show ?thesis using Cons by simp
qed simp

lemma takeWhile_chunk:
  assumes "list_all is_continuation s" and "list_all scalar_ok chs"
  shows "takeWhile is_continuation (s @ concat chs) = s"
    and "dropWhile is_continuation (s @ concat chs) = concat chs"
proof -
  have "takeWhile is_continuation (concat chs) = [] \<and>
        dropWhile is_continuation (concat chs) = concat chs"
  proof (cases chs)
    case (Cons ch rest)
    with assms(2) obtain c t where "ch = c # t" and "\<not> is_continuation c"
      by (cases ch) auto
    with Cons show ?thesis by simp
  qed simp
  with assms(1) show "takeWhile is_continuation (s @ concat chs) = s"
    and "dropWhile is_continuation (s @ concat chs) = concat chs"
    by (auto simp: list_all_iff takeWhile_append dropWhile_append)
qed

lemma utf8_chars_concat: "chunked chs \<Longrightarrow> utf8_chars (concat chs) = chs"
proof (induction chs)
  case (Cons ch chs)
  then obtain c s where ch: "ch = c # s" and s: "list_all is_continuation s"
    and chs: "list_all scalar_ok chs"
    by (cases ch) auto
  from chs have "chunked chs" by (cases chs) (auto intro: scalar_ok_chunk_ok)
  with Cons.IH have "utf8_chars (concat chs) = chs" by simp
  with ch s chs show ?case by (simp add: takeWhile_chunk)
qed simp

lemma chunked_subseq: "subseq ys chs \<Longrightarrow> chunked chs \<Longrightarrow> chunked ys"
proof (induction ys chs rule: list_emb.induct)
  case (list_emb_Cons xs ys y)
  then have "chunked ys" by (cases ys) (auto intro: scalar_ok_chunk_ok)
  with list_emb_Cons show ?case by simp
next
  case (list_emb_Cons2 x y xs ys)
  then have "list_all scalar_ok xs"
    using list_emb_set [OF list_emb_Cons2(2)] by (fastforce simp: list_all_iff)
  with list_emb_Cons2 show ?case by simp
qed simp

lemma subseq_dropWhile: "subseq (dropWhile P xs) xs"
  by (simp add: suffix_dropWhile suffix_imp_subseq)

lemma subseq_take: "subseq (take n xs) xs"
  by (simp add: take_is_prefix prefix_imp_subseq)

lemma prefix_rev_dropWhile: "prefix (rev (dropWhile P (rev xs))) xs"
  by (metis rev_rev_ident suffix_dropWhile suffix_to_prefix)

lemma utf8_chars_trim_start: "utf8_chars (trim_start s) = dropWhile is_whitespace (utf8_chars s)"
  unfolding trim_start_def
  by (rule utf8_chars_concat, rule chunked_subseq [OF subseq_dropWhile chunked_utf8_chars])

lemma utf8_chars_trim_end:
  "utf8_chars (trim_end s) = rev (dropWhile is_whitespace (rev (utf8_chars s)))"
  unfolding trim_end_def
  by (rule utf8_chars_concat,
      rule chunked_subseq [OF prefix_imp_subseq [OF prefix_rev_dropWhile] chunked_utf8_chars])

lemma utf8_chars_trim:
  "utf8_chars (trim s) =
     rev (dropWhile is_whitespace (rev (dropWhile is_whitespace (utf8_chars s))))"
  by (simp add: trim_def utf8_chars_trim_end utf8_chars_trim_start)

lemma list_all_dropWhile: "list_all P (dropWhile P xs) \<longleftrightarrow> list_all P xs"
  by (induction xs) auto

lemma trim_eq_Nil_iff: "trim s = [] \<longleftrightarrow> list_all is_whitespace (utf8_chars s)"
proof -
  have "trim s = [] \<longleftrightarrow> utf8_chars (trim s) = []" by simp
  also have "\<dots> \<longleftrightarrow> list_all is_whitespace (dropWhile is_whitespace (utf8_chars s))"
    by (simp add: utf8_chars_trim list_all_iff del: utf8_chars_eq_Nil_iff)
  also have "\<dots> \<longleftrightarrow> list_all is_whitespace (utf8_chars s)"
    by (rule list_all_dropWhile)
  finally show ?thesis .
qed

lemma dropWhile_prefix_of_dropped:
  assumes "prefix zs (dropWhile P xs)"
  shows "dropWhile P zs = zs"
proof (cases zs)
  case (Cons z zs')
  with assms obtain t where "dropWhile P xs = z # t" by (auto simp: prefix_def)
  then have "\<not> P z" using head_dropWhile [of P xs] by simp
  with Cons show ?thesis by simp
qed simp

lemma dropWhile_both_idem:
  "dropWhile P (rev (dropWhile P (rev (dropWhile P xs)))) = rev (dropWhile P (rev (dropWhile P xs)))"
  by (rule dropWhile_prefix_of_dropped, rule prefix_rev_dropWhile)

lemma trim_idem [simp]: "trim (trim s) = trim s"
proof -
  have "utf8_chars (trim (trim s)) = utf8_chars (trim s)"
    by (simp only: utf8_chars_trim dropWhile_both_idem rev_rev_ident dropWhile_idem)
  then show ?thesis by (metis concat_utf8_chars)
qed

lemma utf8_chars_bounded_printable:
  "utf8_chars (bounded_printable n s) = take n (filter (\<lambda>ch. \<not> is_control ch) (utf8_chars s))"
  unfolding bounded_printable_def
  by (rule utf8_chars_concat,
      rule chunked_subseq [OF subseq_order.trans [OF subseq_take subseq_filter_left] chunked_utf8_chars])

lemma bounded_printable_length: "length (utf8_chars (bounded_printable n s)) \<le> n"
  by (simp add: utf8_chars_bounded_printable)

lemma bounded_printable_no_control:
  "list_all (\<lambda>ch. \<not> is_control ch) (utf8_chars (bounded_printable n s))"
  by (auto simp: utf8_chars_bounded_printable list_all_iff dest: in_set_takeD)

subsection \<open>Parsing integers\<close>

text \<open>
  \<open>str::parse\<close> for the integer types: an optional sign (\<open>-\<close> only for the signed ones), then
  at least one ASCII digit, and a value in range; everything else is an error.
\<close>

definition digit_value :: "char \<Rightarrow> int" where
  "digit_value c = int (byte c) - 48"

definition digits_value :: "string \<Rightarrow> int" where
  "digits_value s = fold (\<lambda>c n. 10 * n + digit_value c) s 0"

definition parse_digits :: "string \<Rightarrow> int option" where
  "parse_digits s = (if s \<noteq> [] \<and> list_all is_ascii_digit s then Some (digits_value s) else None)"

definition in_range :: "int \<Rightarrow> int \<Rightarrow> int \<Rightarrow> int option" where
  "in_range lo hi n = (if lo \<le> n \<and> n \<le> hi then Some n else None)"

definition parse_unsigned :: "int \<Rightarrow> string \<Rightarrow> int option" where
  "parse_unsigned hi s =
     Option.bind (parse_digits (case s of CHR ''+'' # t \<Rightarrow> t | _ \<Rightarrow> s)) (in_range 0 hi)"

definition parse_signed :: "int \<Rightarrow> int \<Rightarrow> string \<Rightarrow> int option" where
  "parse_signed lo hi s =
     (case s of
        CHR ''-'' # t \<Rightarrow> Option.bind (parse_digits t) (\<lambda>n. in_range lo hi (- n))
      | CHR ''+'' # t \<Rightarrow> Option.bind (parse_digits t) (in_range lo hi)
      | _ \<Rightarrow> Option.bind (parse_digits s) (in_range lo hi))"

definition i16_min :: int where "i16_min = - 32768"
definition i16_max :: int where "i16_max = 32767"
definition i32_min :: int where "i32_min = - 2147483648"
definition i32_max :: int where "i32_max = 2147483647"
definition u16_max :: int where "u16_max = 65535"
definition u32_max :: int where "u32_max = 4294967295"
definition u64_max :: nat where "u64_max = 18446744073709551615"
definition i64_max :: int where "i64_max = 9223372036854775807"

lemmas int_bounds = i16_min_def i16_max_def i32_min_def i32_max_def u16_max_def u32_max_def
  u64_max_def i64_max_def

abbreviation parse_i16 :: "string \<Rightarrow> int option" where
  "parse_i16 \<equiv> parse_signed i16_min i16_max"

abbreviation parse_i32 :: "string \<Rightarrow> int option" where
  "parse_i32 \<equiv> parse_signed i32_min i32_max"

lemma in_range_Some_iff: "in_range lo hi n = Some m \<longleftrightarrow> m = n \<and> lo \<le> n \<and> n \<le> hi"
  by (auto simp: in_range_def)

lemma parse_signed_range: "parse_signed lo hi s = Some n \<Longrightarrow> lo \<le> n \<and> n \<le> hi"
  by (auto simp: parse_signed_def in_range_Some_iff bind_eq_Some_conv
      split: list.splits char.splits bool.splits)

lemma parse_unsigned_range: "parse_unsigned hi s = Some n \<Longrightarrow> 0 \<le> n \<and> n \<le> hi"
  by (auto simp: parse_unsigned_def in_range_Some_iff bind_eq_Some_conv)

subsection \<open>Lower-case hexadecimal\<close>

text \<open>The encoding every digest column expects; the source writes it three times, once with a
  table of nibbles and twice with a two-digit format.\<close>

definition hex_table :: string where
  "hex_table = ''0123456789abcdef''"

definition hex_byte :: "char \<Rightarrow> string" where
  "hex_byte b = [hex_table ! (byte b div 16), hex_table ! (byte b mod 16)]"

definition is_lower_hex :: "char \<Rightarrow> bool" where
  "is_lower_hex c \<longleftrightarrow> is_ascii_digit c \<or> (97 \<le> byte c \<and> byte c \<le> 102)"

lemma hex_table_lower: "n < 16 \<Longrightarrow> is_lower_hex (hex_table ! n)"
proof -
  have "list_all is_lower_hex hex_table"
    by (simp add: hex_table_def is_lower_hex_def is_ascii_digit_def)
  moreover assume "n < 16"
  ultimately show ?thesis by (simp add: list_all_length hex_table_def)
qed

lemma hex_byte_lower: "list_all is_lower_hex (hex_byte b)"
proof -
  have "byte b div 16 < 16" using byte_less_256 [of b] by linarith
  then show ?thesis by (simp add: hex_byte_def hex_table_lower)
qed

lemma length_hex_byte [simp]: "length (hex_byte b) = 2"
  by (simp add: hex_byte_def)

lemma hex_table_inj: "m < 16 \<Longrightarrow> n < 16 \<Longrightarrow> hex_table ! m = hex_table ! n \<longleftrightarrow> m = n"
  by (simp add: hex_table_def nth_eq_iff_index_eq)

lemma hex_byte_inj: "hex_byte a = hex_byte b \<longleftrightarrow> a = b"
proof
  assume eq: "hex_byte a = hex_byte b"
  have "byte a div 16 < 16" "byte b div 16 < 16" using byte_less_256 [of a] byte_less_256 [of b]
    by linarith+
  with eq have "byte a div 16 = byte b div 16" and "byte a mod 16 = byte b mod 16"
    by (simp_all add: hex_byte_def hex_table_inj)
  then have "byte a = byte b" by (metis div_mult_mod_eq)
  then show "a = b" by simp
qed simp

subsection \<open>Rendering numbers, searching from the end\<close>

function show_nat :: "nat \<Rightarrow> string" where
  "show_nat n =
     (if n < 10 then [char_of (48 + n)] else show_nat (n div 10) @ [char_of (48 + n mod 10)])"
  by pat_completeness auto
termination by (relation "measure id") auto

declare show_nat.simps [simp del]

definition show_int :: "int \<Rightarrow> string" where
  "show_int i = (if i < 0 then CHR ''-'' # show_nat (nat (- i)) else show_nat (nat i))"

text \<open>\<open>str::rfind\<close> of a single-byte character.\<close>

fun rfind_char :: "char \<Rightarrow> string \<Rightarrow> nat option" where
  "rfind_char d [] = None"
| "rfind_char d (c # s) =
     (case rfind_char d s of Some i \<Rightarrow> Some (Suc i)
        | None \<Rightarrow> if c = d then Some 0 else None)"

text \<open>\<open>trim_matches\<close> with a predicate that holds of every byte of a non-ASCII scalar.\<close>

definition trim_bytes :: "(char \<Rightarrow> bool) \<Rightarrow> string \<Rightarrow> string" where
  "trim_bytes P s = rev (dropWhile P (rev (dropWhile P s)))"

lemma rfind_char_None_iff: "rfind_char d s = None \<longleftrightarrow> d \<notin> set s"
  by (induction s) (auto split: option.splits)

lemma rfind_char_last: "d \<notin> set b \<Longrightarrow> rfind_char d (a @ d # b) = Some (length a)"
  by (induction a) (auto simp: rfind_char_None_iff split: option.splits)

end
