(* ===== verification/Vocabulary.thy ===== *)
theory Vocabulary
  imports Rust_Str
begin

text \<open>
  Two interfaces many types of the program share. \<open>closed_vocabulary\<close>: an enum with a constant
  list of all its variants and a spelling for each, parsed by searching that list
  (\<open>PowerSetting\<close>, \<open>SurfaceType\<close>, \<open>Catalog\<close>, \<open>Scope\<close> and others). \<open>validated_text\<close>: a newtype
  over \<open>String\<close> that only a checking constructor builds (\<open>DecimalString\<close>, \<open>UnitCode\<close>, \<open>Slug\<close>
  and others). Each provider discharges the laws on its own definitions.
\<close>

subsection \<open>Closed vocabularies\<close>

text \<open>The shape of every lookup: \<open>Self::ALL.into_iter().find(|v| v.code() == code).ok_or(e)\<close>.\<close>

definition lookup_code :: "'a list \<Rightarrow> ('a \<Rightarrow> string) \<Rightarrow> 'e \<Rightarrow> string \<Rightarrow> 'e + 'a" where
  "lookup_code all spell e s = ok_or e (List.find (\<lambda>v. spell v = s) all)"

locale closed_vocabulary =
  fixes all :: "'a list"
    and spell :: "'a \<Rightarrow> string"
  assumes complete: "v \<in> set all"
    and distinct_spelling: "distinct (map spell all)"
begin

lemma spell_inj: "spell v = spell w \<longleftrightarrow> v = w"
  using distinct_spelling complete [of v] complete [of w]
  by (auto simp: distinct_map inj_on_def)

lemma lookup_spell [simp]: "lookup_code all spell e (spell v) = Inr v"
  by (simp add: lookup_code_def find_distinct_key [OF distinct_spelling complete])

lemma lookup_Inr_iff: "lookup_code all spell e s = Inr v \<longleftrightarrow> spell v = s"
proof
  assume "lookup_code all spell e s = Inr v"
  then show "spell v = s" by (auto simp: lookup_code_def dest: find_Some_key)
qed auto

lemma lookup_Inl_iff: "lookup_code all spell e s = Inl d \<longleftrightarrow> d = e \<and> s \<notin> range spell"
proof -
  have "List.find (\<lambda>v. spell v = s) all = None \<longleftrightarrow> s \<notin> range spell"
    by (auto simp: find_None_iff complete)
  then show ?thesis by (auto simp: lookup_code_def)
qed

lemma distinct_all: "distinct all"
  using distinct_spelling by (simp add: distinct_map)

lemma finite_vocabulary: "set all = UNIV"
  using complete by auto

end

subsection \<open>Validated text\<close>

locale validated_text =
  fixes parse :: "string \<Rightarrow> 'e + 'a"
    and text_of :: "'a \<Rightarrow> string"
    and shape :: "string \<Rightarrow> bool"
  assumes parse_ok: "shape s \<Longrightarrow> \<exists>v. parse s = Inr v \<and> text_of v = s"
    and parse_shape: "parse s = Inr v \<Longrightarrow> shape s"
begin

lemma is_ok_iff: "is_ok (parse s) \<longleftrightarrow> shape s"
  using parse_ok [of s] parse_shape [of s] by (cases "parse s") auto

lemma parse_verbatim: "parse s = Inr v \<Longrightarrow> text_of v = s"
  using parse_ok [of s] parse_shape [of s v] by auto

lemma parse_idem: "parse s = Inr v \<Longrightarrow> parse (text_of v) = Inr v"
  using parse_verbatim by auto

lemma parsed_shape: "parse s = Inr v \<Longrightarrow> shape (text_of v)"
  using parse_verbatim parse_shape by auto

lemma parse_inj: "parse s = Inr v \<Longrightarrow> parse t = Inr v \<Longrightarrow> s = t"
  using parse_verbatim by auto

end

end
