(* ===== verification/Catalog.thy ===== *)
theory Catalog
  imports Vocabulary Complex_Main
begin

text \<open>
  The domain values of the catalog: the validated newtypes and typed keys of
  \<open>aircraft_domain::catalog\<close>, the closed list of reference catalogs of
  \<open>aircraft_domain::reference\<close>, and the two ingestion invariants of
  \<open>aircraft_domain::ingestion\<close> (confidence and production years).
\<close>

subsection \<open>Validated text\<close>

datatype InvalidCatalogValue = InvalidSlug | InvalidLookupCode | InvalidCountryCode

text \<open>The macro \<open>validated_text!\<close>: keep the text when the check holds, else the variant's error.\<close>

definition validated :: "(string \<Rightarrow> 'a) \<Rightarrow> InvalidCatalogValue \<Rightarrow> (string \<Rightarrow> bool) \<Rightarrow>
    string \<Rightarrow> InvalidCatalogValue + 'a" where
  "validated build variant check value = (if check value then Inr (build value) else Inl variant)"

lemma validated_text_validated:
  assumes "\<And>s. text_of (build s) = s"
  shows "validated_text (validated build variant check) text_of check"
  by unfold_locales (auto simp: validated_def assms split: if_splits)

datatype Slug = Slug (slug_text: string)

definition slug_check :: "string \<Rightarrow> bool" where
  "slug_check value \<longleftrightarrow> value \<noteq> [] \<and>
     list_all (\<lambda>part. part \<noteq> [] \<and> list_all (\<lambda>b. is_ascii_lowercase b \<or> is_ascii_digit b) part)
       (split_char (CHR ''-'') value)"

definition Slug_try_from :: "string \<Rightarrow> InvalidCatalogValue + Slug" where
  "Slug_try_from = validated Slug InvalidSlug slug_check"

datatype LookupCode = LookupCode (lookup_text: string)

definition lookup_check :: "string \<Rightarrow> bool" where
  "lookup_check value \<longleftrightarrow>
     (case value of [] \<Rightarrow> False | first # _ \<Rightarrow> is_ascii_uppercase first) \<and>
     list_all (\<lambda>b. is_ascii_uppercase b \<or> is_ascii_digit b \<or> b = CHR ''_'') (tl value)"

definition LookupCode_try_from :: "string \<Rightarrow> InvalidCatalogValue + LookupCode" where
  "LookupCode_try_from = validated LookupCode InvalidLookupCode lookup_check"

datatype CountryCode = CountryCode (country_text: string)

definition country_check :: "string \<Rightarrow> bool" where
  "country_check value \<longleftrightarrow> length value = 3 \<and> list_all is_ascii_uppercase value"

definition CountryCode_try_from :: "string \<Rightarrow> InvalidCatalogValue + CountryCode" where
  "CountryCode_try_from = validated CountryCode InvalidCountryCode country_check"

interpretation slug: validated_text Slug_try_from slug_text slug_check
  unfolding Slug_try_from_def by (rule validated_text_validated) simp

interpretation lookup: validated_text LookupCode_try_from lookup_text lookup_check
  unfolding LookupCode_try_from_def by (rule validated_text_validated) simp

interpretation country: validated_text CountryCode_try_from country_text country_check
  unfolding CountryCode_try_from_def by (rule validated_text_validated) simp

text \<open>The documented shape of a slug: non-empty words joined by single hyphens.\<close>

definition slug_word :: "string \<Rightarrow> bool" where
  "slug_word w \<longleftrightarrow> w \<noteq> [] \<and> list_all (\<lambda>b. is_ascii_lowercase b \<or> is_ascii_digit b) w"

lemma slug_word_no_hyphen: "slug_word w \<Longrightarrow> CHR ''-'' \<notin> set w"
  by (auto simp: slug_word_def list_all_iff byte_class_defs)

lemma split_char_join:
  "ws \<noteq> [] \<Longrightarrow> (\<And>w. w \<in> set ws \<Longrightarrow> d \<notin> set w) \<Longrightarrow> split_char d (join_with [d] ws) = ws"
proof (induction "[d]" ws rule: join_with.induct)
  case (3 p q ps)
  then show ?case by (simp add: split_char_append)
qed (simp_all add: split_char_none)

lemma slug_check_iff:
  "slug_check s \<longleftrightarrow> (\<exists>ws. ws \<noteq> [] \<and> list_all slug_word ws \<and> s = join_with ''-'' ws)"
proof
  assume "slug_check s"
  then have "list_all slug_word (split_char (CHR ''-'') s)"
    by (auto simp: slug_check_def slug_word_def list_all_iff)
  moreover have "s = join_with ''-'' (split_char (CHR ''-'') s)" by simp
  ultimately show "\<exists>ws. ws \<noteq> [] \<and> list_all slug_word ws \<and> s = join_with ''-'' ws"
    by (meson split_char_nonempty)
next
  assume "\<exists>ws. ws \<noteq> [] \<and> list_all slug_word ws \<and> s = join_with ''-'' ws"
  then obtain ws where ws: "ws \<noteq> []" "list_all slug_word ws" "s = join_with ''-'' ws" by blast
  then have "split_char (CHR ''-'') s = ws"
    by (auto simp: list_all_iff slug_word_no_hyphen intro!: split_char_join)
  moreover from this ws have "s \<noteq> []" by (auto simp: slug_word_def)
  ultimately show "slug_check s" using ws(2) by (auto simp: slug_check_def slug_word_def list_all_iff)
qed

subsection \<open>Typed keys\<close>

datatype FamilyId = FamilyId (family_key: int)
datatype ModelId = ModelId (model_key: int)
datatype VariantId = VariantId (variant_key: int)

subsection \<open>Reference catalogs\<close>

datatype Catalog =
  UnitCategories | MeasurementUnits | AircraftRoles | ServiceStatuses | VariantTypes |
  LandingGearTypes | PropulsionCategories | FuelTypes | DimensionMetricTypes |
  WeightMetricTypes | PerformanceMetricTypes | CertificationAuthorities |
  AirworthinessCategories | PilotCertificateTypes | OperatingApprovalTypes |
  MilitaryMissionTypes | WeaponCategories | HardpointPositionTypes | StoresTypes |
  Currencies | CostItemTypes | AircraftConditionGrades | AdTypes | SbComplianceStatuses |
  AvailabilityGrades | SourceTypes | SourceReliabilityGrades | CurationFlagStatuses |
  CurationEntityTypes | AssertionStatuses | MissionProfileTypes | ComparisonCriterionTypes |
  OrganizationTypes | OrgRelationshipTypes | SystemsCategories | EquipmentProvisionTypes

definition Catalog_ALL :: "Catalog list" where
  "Catalog_ALL =
     [UnitCategories, MeasurementUnits, AircraftRoles, ServiceStatuses, VariantTypes,
      LandingGearTypes, PropulsionCategories, FuelTypes, DimensionMetricTypes,
      WeightMetricTypes, PerformanceMetricTypes, CertificationAuthorities,
      AirworthinessCategories, PilotCertificateTypes, OperatingApprovalTypes,
      MilitaryMissionTypes, WeaponCategories, HardpointPositionTypes, StoresTypes,
      Currencies, CostItemTypes, AircraftConditionGrades, AdTypes, SbComplianceStatuses,
      AvailabilityGrades, SourceTypes, SourceReliabilityGrades, CurationFlagStatuses,
      CurationEntityTypes, AssertionStatuses, MissionProfileTypes, ComparisonCriterionTypes,
      OrganizationTypes, OrgRelationshipTypes, SystemsCategories, EquipmentProvisionTypes]"

primrec Catalog_slug :: "Catalog \<Rightarrow> string" where
  "Catalog_slug UnitCategories = ''unit-categories''"
| "Catalog_slug MeasurementUnits = ''measurement-units''"
| "Catalog_slug AircraftRoles = ''aircraft-roles''"
| "Catalog_slug ServiceStatuses = ''service-statuses''"
| "Catalog_slug VariantTypes = ''variant-types''"
| "Catalog_slug LandingGearTypes = ''landing-gear-types''"
| "Catalog_slug PropulsionCategories = ''propulsion-categories''"
| "Catalog_slug FuelTypes = ''fuel-types''"
| "Catalog_slug DimensionMetricTypes = ''dimension-metric-types''"
| "Catalog_slug WeightMetricTypes = ''weight-metric-types''"
| "Catalog_slug PerformanceMetricTypes = ''performance-metric-types''"
| "Catalog_slug CertificationAuthorities = ''certification-authorities''"
| "Catalog_slug AirworthinessCategories = ''airworthiness-categories''"
| "Catalog_slug PilotCertificateTypes = ''pilot-certificate-types''"
| "Catalog_slug OperatingApprovalTypes = ''operating-approval-types''"
| "Catalog_slug MilitaryMissionTypes = ''military-mission-types''"
| "Catalog_slug WeaponCategories = ''weapon-categories''"
| "Catalog_slug HardpointPositionTypes = ''hardpoint-position-types''"
| "Catalog_slug StoresTypes = ''stores-types''"
| "Catalog_slug Currencies = ''currencies''"
| "Catalog_slug CostItemTypes = ''cost-item-types''"
| "Catalog_slug AircraftConditionGrades = ''aircraft-condition-grades''"
| "Catalog_slug AdTypes = ''ad-types''"
| "Catalog_slug SbComplianceStatuses = ''sb-compliance-statuses''"
| "Catalog_slug AvailabilityGrades = ''availability-grades''"
| "Catalog_slug SourceTypes = ''source-types''"
| "Catalog_slug SourceReliabilityGrades = ''source-reliability-grades''"
| "Catalog_slug CurationFlagStatuses = ''curation-flag-statuses''"
| "Catalog_slug CurationEntityTypes = ''curation-entity-types''"
| "Catalog_slug AssertionStatuses = ''assertion-statuses''"
| "Catalog_slug MissionProfileTypes = ''mission-profile-types''"
| "Catalog_slug ComparisonCriterionTypes = ''comparison-criterion-types''"
| "Catalog_slug OrganizationTypes = ''organization-types''"
| "Catalog_slug OrgRelationshipTypes = ''org-relationship-types''"
| "Catalog_slug SystemsCategories = ''systems-categories''"
| "Catalog_slug EquipmentProvisionTypes = ''equipment-provision-types''"

datatype UnknownCatalog = UnknownCatalog

definition Catalog_try_from :: "string \<Rightarrow> UnknownCatalog + Catalog" where
  "Catalog_try_from = lookup_code Catalog_ALL Catalog_slug UnknownCatalog"

interpretation catalog: closed_vocabulary Catalog_ALL Catalog_slug
proof
  show "v \<in> set Catalog_ALL" for v by (cases v) (simp_all add: Catalog_ALL_def)
qed (simp add: Catalog_ALL_def)

lemma length_Catalog_ALL: "length Catalog_ALL = 36"
  by (simp add: Catalog_ALL_def)

lemma Catalog_slug_check: "slug_check (Catalog_slug c)"
  by (cases c) (simp_all add: slug_check_def byte_class_defs)

text \<open>\<open>derive(Ord)\<close> compares the positions of the variants in the declaration.\<close>

definition catalog_rank :: "Catalog \<Rightarrow> nat" where
  "catalog_rank c = length (takeWhile (\<lambda>d. d \<noteq> c) Catalog_ALL)"

lemma catalog_rank_less: "catalog_rank c < length Catalog_ALL"
  by (cases c) (simp_all add: catalog_rank_def Catalog_ALL_def)

lemma nth_catalog_rank: "Catalog_ALL ! catalog_rank c = c"
  using catalog_rank_less [of c] nth_length_takeWhile [of "\<lambda>d. d \<noteq> c" Catalog_ALL]
  by (simp add: catalog_rank_def)

lemma catalog_rank_inj: "catalog_rank c = catalog_rank d \<longleftrightarrow> c = d"
  by (metis nth_catalog_rank)

instantiation Catalog :: linorder
begin

definition less_eq_Catalog :: "Catalog \<Rightarrow> Catalog \<Rightarrow> bool" where
  "less_eq_Catalog c d \<longleftrightarrow> catalog_rank c \<le> catalog_rank d"

definition less_Catalog :: "Catalog \<Rightarrow> Catalog \<Rightarrow> bool" where
  "less_Catalog c d \<longleftrightarrow> catalog_rank c < catalog_rank d"

instance
  by standard (auto simp: less_eq_Catalog_def less_Catalog_def catalog_rank_inj)

end

lemma Catalog_ALL_sorted: "sorted Catalog_ALL"
proof -
  have "catalog_rank (Catalog_ALL ! i) = i" if "i < length Catalog_ALL" for i
    using nth_catalog_rank [of "Catalog_ALL ! i"] catalog_rank_less [of "Catalog_ALL ! i"]
      that catalog.distinct_all by (simp add: nth_eq_iff_index_eq)
  then show ?thesis by (simp add: sorted_iff_nth_mono less_eq_Catalog_def)
qed

subsection \<open>Ingestion invariants\<close>

text \<open>
  An \<open>f32\<close> is not a number, an infinity, or a rational (negative zero is not distinguished
  from zero: no operation here tells them apart). \<open>SCRAPED_SOURCE\<close> is the float nearest to 0.20.
\<close>

datatype f32 = NaN | Infinite bool | Finite rat

fun f32_is_finite :: "f32 \<Rightarrow> bool" where
  "f32_is_finite (Finite _) = True"
| "f32_is_finite _ = False"

fun f32_in_unit_interval :: "f32 \<Rightarrow> bool" where
  "f32_in_unit_interval (Finite q) \<longleftrightarrow> 0 \<le> q \<and> q \<le> 1"
| "f32_in_unit_interval _ \<longleftrightarrow> False"

datatype Confidence = Confidence (confidence_get: f32)

datatype IngestionInvariantError =
    InvalidConfidence
  | ProductionYearsReversed int int
  | YearOutOfRange int

definition SCRAPED_SOURCE :: Confidence where
  "SCRAPED_SOURCE = Confidence (Finite (13421773 / 67108864))"

definition Confidence_new :: "f32 \<Rightarrow> IngestionInvariantError + Confidence" where
  "Confidence_new value =
     (if f32_is_finite value \<and> f32_in_unit_interval value then Inr (Confidence value)
      else Inl InvalidConfidence)"

record ProductionYears =
  years_start :: "int option"
  years_end :: "int option"

fun check_years :: "int list \<Rightarrow> IngestionInvariantError + unit" where
  "check_years [] = Inr ()"
| "check_years (year # years) =
     (if \<not> (1800 \<le> year \<and> year \<le> 2200) then Inl (YearOutOfRange year) else check_years years)"

definition ProductionYears_new ::
  "int option \<Rightarrow> int option \<Rightarrow> IngestionInvariantError + ProductionYears" where
  "ProductionYears_new start fin =
     (case (start, fin) of
        (Some s, Some e) \<Rightarrow> if e < s then Inl (ProductionYearsReversed s e)
          else and_then (check_years [s, e]) (\<lambda>_. Inr \<lparr> years_start = start, years_end = fin \<rparr>)
      | _ \<Rightarrow> and_then (check_years (List.map_filter id [start, fin]))
               (\<lambda>_. Inr \<lparr> years_start = start, years_end = fin \<rparr>))"

definition year_ok :: "int option \<Rightarrow> bool" where
  "year_ok y \<longleftrightarrow> (case y of None \<Rightarrow> True | Some v \<Rightarrow> 1800 \<le> v \<and> v \<le> 2200)"

definition years_ordered :: "int option \<Rightarrow> int option \<Rightarrow> bool" where
  "years_ordered s e \<longleftrightarrow> (case (s, e) of (Some a, Some b) \<Rightarrow> a \<le> b | _ \<Rightarrow> True)"

lemma ProductionYears_new_Inr_iff:
  "ProductionYears_new s e = Inr y \<longleftrightarrow>
     y = \<lparr> years_start = s, years_end = e \<rparr> \<and> year_ok s \<and> year_ok e \<and> years_ordered s e"
  by (auto simp: ProductionYears_new_def year_ok_def years_ordered_def map_filter_simps
      split: option.splits)

lemma ProductionYears_new_ok_iff:
  "is_ok (ProductionYears_new s e) \<longleftrightarrow> year_ok s \<and> year_ok e \<and> years_ordered s e"
  using ProductionYears_new_Inr_iff [of s e] by (cases "ProductionYears_new s e") auto

lemma SCRAPED_SOURCE_valid: "Confidence_new (confidence_get SCRAPED_SOURCE) = Inr SCRAPED_SOURCE"
  by (simp add: Confidence_new_def SCRAPED_SOURCE_def)

end
