(* ===== verification/Ingest_Types.thy ===== *)
theory Ingest_Types
  imports Catalog
begin

text \<open>
  The data of the ingestion pipeline: JSON documents as \<open>serde_json\<close> holds them, the records
  \<open>aircraft_app::ingestion\<close> passes between the parser, the service and the store, and the
  functions of third-party libraries the code calls, gathered in one record that the
  definitions take as an argument.
\<close>

subsection \<open>JSON documents\<close>

text \<open>
  \<open>serde_json::Value\<close>. A number is the text its \<open>Display\<close> gives. An object is the list of its
  members in iteration order (a \<open>BTreeMap\<close>, so sorted by key and duplicate-free).
\<close>

datatype json =
    JNull
  | JBool bool
  | JNumber string
  | JString string
  | JArray "json list"
  | JObject "(string \<times> json) list"

type_synonym json_object = "(string \<times> json) list"

abbreviation get :: "json_object \<Rightarrow> string \<Rightarrow> json option" where
  "get obj field \<equiv> map_of obj field"

definition bool_text :: "bool \<Rightarrow> string" where
  "bool_text b = (if b then ''true'' else ''false'')"

text \<open>
  Library code: \<open>Value::to_string\<close>, the \<open>url\<close> crate's parser, \<open>join\<close>, \<open>scheme\<close> and conversion to
  text, and SHA-256 on a byte string.
\<close>

record 'u libs =
  json_text :: "json \<Rightarrow> string"
  url_parse :: "string \<Rightarrow> 'u option"
  url_join :: "'u \<Rightarrow> string \<Rightarrow> 'u option"
  url_scheme :: "'u \<Rightarrow> string"
  url_text :: "'u \<Rightarrow> string"
  sha256 :: "string \<Rightarrow> string"

text \<open>An instance with the simplest functions of these types, for concrete examples.\<close>

definition sample_libs :: "string libs" where
  "sample_libs = \<lparr> json_text = (\<lambda>_. ''null''), url_parse = (\<lambda>s. Some s), url_join = (\<lambda>_ s. Some s),
     url_scheme = (\<lambda>_. ''https''), url_text = (\<lambda>u. u), sha256 = (\<lambda>s. s) \<rparr>"

subsection \<open>Descriptors and requests\<close>

definition REPORT_SCHEMA_VERSION :: nat where "REPORT_SCHEMA_VERSION = 2"

record SourceDescriptor =
  src_slug :: string
  src_name :: string
  src_base_url :: "string option"
  src_parser_name :: string
  src_parser_version :: string

record ArtifactDescriptor =
  content_sha256 :: string
  byte_length :: nat
  display_locator :: string
  captured_at :: int

record PreflightSummary =
  pf_record_count :: nat
  pf_warning_count :: nat
  pf_record_keys_sha256 :: string

record ImportRequest =
  req_source :: SourceDescriptor
  req_artifact :: ArtifactDescriptor
  req_preflight :: PreflightSummary

subsection \<open>Prepared records\<close>

record AircraftIdentityInput =
  manufacturer_name :: string
  aircraft_name :: string
  id_source_link :: "string option"
  id_page_url :: "string option"
  id_title :: "string option"
  id_description :: "string option"

record LifecycleInput =
  variant_type_code :: "string option"
  landing_gear_code :: "string option"
  service_status_code :: "string option"
  production_start_year :: "int option"
  production_end_year :: "int option"
  is_in_production :: "bool option"
  passenger_capacity :: "int option"
  crew_count :: "int option"

record MeasurementInput =
  mi_source_field :: string
  mi_metric_code :: "string option"
  mi_raw_value :: string
  mi_numeric_value :: "string option"
  mi_raw_unit :: "string option"
  mi_unit_code :: "string option"

record PerformanceInput =
  performance_measurements :: "MeasurementInput list"

record WeightInput =
  weight_measurements :: "MeasurementInput list"

record PropulsionInput =
  pr_category :: "string option"
  pr_manufacturer :: "string option"
  pr_model :: "string option"
  pr_horsepower :: "string option"
  pr_thrust_newtons :: "string option"
  pr_engine_count :: "int option"
  pr_tbo_hours :: "int option"
  pr_tbo_years :: "int option"

record ValuationInput =
  papi_price_estimate :: "string option"
  for_sale_count :: "int option"

record CostItemInput =
  ci_source_key :: string
  ci_raw_value :: string
  ci_mapped_code :: "string option"
  ci_numeric_value :: "string option"
  ci_is_aggregate :: bool
  ci_is_numeric :: bool

record OperatingCostInput =
  cost_line_items :: "CostItemInput list"

record ImageMetadataInput =
  array_position :: int
  href_raw :: string
  href_resolved :: "string option"
  img_title :: "string option"
  img_holder :: "string option"
  dimensions_raw :: "string option"
  width_px :: "int option"
  height_px :: "int option"
  is_primary :: bool

record ProvenanceInput =
  source_system_key :: string
  source_url :: "string option"
  source_path :: "string option"
  prov_confidence :: f32

datatype IssueSeverity = SevWarning | SevError

record IngestIssue =
  issue_code :: string
  issue_severity :: IssueSeverity
  issue_field_path :: string
  issue_message :: string
  issue_raw_value :: "string option"

record PreparedAircraftRecord =
  source_record_key :: string
  rec_identity :: AircraftIdentityInput
  rec_lifecycle :: LifecycleInput
  rec_performance :: PerformanceInput
  rec_weights :: WeightInput
  rec_propulsion :: PropulsionInput
  rec_valuation :: ValuationInput
  rec_operating_costs :: OperatingCostInput
  rec_images :: "ImageMetadataInput list"
  rec_provenance :: ProvenanceInput
  rec_issues :: "IngestIssue list"
  raw_document :: json

text \<open>The \<open>Default\<close> values of the types that derive it.\<close>

definition LifecycleInput_default :: LifecycleInput where
  "LifecycleInput_default =
     \<lparr> variant_type_code = None, landing_gear_code = None, service_status_code = None,
       production_start_year = None, production_end_year = None, is_in_production = None,
       passenger_capacity = None, crew_count = None \<rparr>"

definition PropulsionInput_default :: PropulsionInput where
  "PropulsionInput_default =
     \<lparr> pr_category = None, pr_manufacturer = None, pr_model = None, pr_horsepower = None,
       pr_thrust_newtons = None, pr_engine_count = None, pr_tbo_hours = None, pr_tbo_years = None \<rparr>"

definition ValuationInput_default :: ValuationInput where
  "ValuationInput_default = \<lparr> papi_price_estimate = None, for_sale_count = None \<rparr>"

text \<open>A record carrying an error-level issue is refused by the preflight.\<close>

definition is_error :: "IngestIssue \<Rightarrow> bool" where
  "is_error i \<longleftrightarrow> issue_severity i = SevError"

definition is_warning :: "IngestIssue \<Rightarrow> bool" where
  "is_warning i \<longleftrightarrow> issue_severity i = SevWarning"

lemma is_error_iff: "is_error i \<longleftrightarrow> \<not> is_warning i"
  by (cases "issue_severity i") (simp_all add: is_error_def is_warning_def)

subsection \<open>Attempts and reports\<close>

datatype ImportStatus = Received | Importing | Succeeded | ValidationFailed | Failed

record ImportReport =
  rep_schema_version :: nat
  rep_run_id :: int
  rep_attempt_id :: int
  rep_status :: ImportStatus
  rep_content_sha256 :: string
  rep_staged_records :: nat
  rep_promoted_records :: nat
  rep_flagged_records :: nat
  rep_warning_count :: nat
  already_imported :: bool

datatype RecordDisposition = Promoted | Flagged

record RecordOutcome =
  out_staged :: bool
  out_disposition :: RecordDisposition
  out_warning_count :: nat

end
