(* ===== verification/Source_Text.thy ===== *)
theory Source_Text
  imports Ingest_Types
begin

text \<open>
  How \<open>aircraft_ingest::normalization\<close> reads single pieces of source text: sentinels, numbers,
  units, years spelled in a name, occupants and image sizes; and the tables that map the
  source's vocabulary to reference codes, with the dimensional check between the two.
\<close>

subsection \<open>Sentinels, numbers and units\<close>

definition parse_sentinel :: "string \<Rightarrow> string option" where
  "parse_sentinel raw =
     (let v = trim raw; lower = to_ascii_lowercase v
      in if \<not> (v = [] \<or> starts_with ''none'' lower \<or> lower \<in> {''n/a'', ''-'', ''--''})
         then Some v else None)"

text \<open>The loop of \<open>parse_numeric\<close>: the characters kept before the first that does not belong.\<close>

fun numeric_prefix :: "nat \<Rightarrow> string \<Rightarrow> string" where
  "numeric_prefix index [] = []"
| "numeric_prefix index (c # cs) =
     (if is_ascii_digit c \<or> c = CHR ''.'' \<or> (index = 0 \<and> c = CHR ''-'')
      then c # numeric_prefix (Suc index) cs
      else [])"

definition numeric_parts_valid :: "string list \<Rightarrow> bool" where
  "numeric_parts_valid parts =
     (let whole = (case parts of [] \<Rightarrow> [] | w # _ \<Rightarrow> w);
          fraction = (case parts of _ # f # _ \<Rightarrow> Some f | _ \<Rightarrow> None)
      in length parts \<le> 2 \<and>
         (whole \<noteq> [] \<or> (case fraction of None \<Rightarrow> False | Some part \<Rightarrow> part \<noteq> [])) \<and>
         list_all is_ascii_digit whole \<and>
         (case fraction of None \<Rightarrow> True | Some part \<Rightarrow> list_all is_ascii_digit part))"

definition parse_numeric :: "string \<Rightarrow> string option" where
  "parse_numeric raw =
     (case parse_sentinel raw of
        None \<Rightarrow> None
      | Some v \<Rightarrow>
          (let cleaned = filter (\<lambda>c. c \<noteq> CHR '','') (dropWhile (\<lambda>c. c = CHR ''$'') v);
               output = numeric_prefix 0 cleaned;
               unsigned = (case strip_prefix ''-'' output of None \<Rightarrow> output | Some u \<Rightarrow> u)
           in if numeric_parts_valid (split_char (CHR ''.'') unsigned) then Some output else None))"

definition parse_unit :: "string \<Rightarrow> string option" where
  "parse_unit raw =
     (case parse_sentinel raw of
        None \<Rightarrow> None
      | Some v \<Rightarrow>
          (let ws = split_whitespace v
           in if ws = [] then None
              else (let token = trim_bytes (\<lambda>c. \<not> is_ascii_alphabetic c) (last ws)
                    in if token \<noteq> [] then Some (to_ascii_uppercase token) else None)))"

definition unit_code :: "string \<Rightarrow> string option" where
  "unit_code raw = map_of
     [(''KIAS'', ''KIAS''), (''KTAS'', ''KTAS''),
      (''KCAS'', ''KNOTS''), (''KT'', ''KNOTS''), (''KTS'', ''KNOTS''), (''KNOTS'', ''KNOTS''),
      (''NM'', ''NM''), (''FT'', ''FT''), (''FPM'', ''FPM''), (''GPH'', ''GPH''),
      (''LBS'', ''LBS''), (''LB'', ''LBS''), (''KG'', ''KG''), (''GAL'', ''US_GAL''),
      (''HP'', ''HP''), (''KW'', ''KW''), (''N'', ''NEWTONS''), (''LBF'', ''LBF''),
      (''HRS'', ''HRS''), (''HR'', ''HRS''), (''PPH'', ''PPH'')] raw"

subsection \<open>Dimensions\<close>

datatype Dimension =
  Speed | Length | ClimbRate | FuelFlow | Mass | Volume | Power | Thrust | Time

definition unit_dimension :: "string \<Rightarrow> Dimension option" where
  "unit_dimension u = map_of
     [(''KIAS'', Speed), (''KNOTS'', Speed), (''KTAS'', Speed),
      (''NM'', Length), (''FT'', Length), (''FPM'', ClimbRate),
      (''GPH'', FuelFlow), (''PPH'', FuelFlow), (''LBS'', Mass), (''KG'', Mass),
      (''US_GAL'', Volume), (''HP'', Power), (''KW'', Power),
      (''NEWTONS'', Thrust), (''LBF'', Thrust), (''HRS'', Time)] u"

definition metric_dimensions :: "string \<Rightarrow> Dimension list" where
  "metric_dimensions metric =
     (if metric \<in> {''SPEED_CRUISE_BEST'', ''SPEED_STALL_CLEAN''} then [Speed]
      else if metric \<in> {''RANGE_NORMAL'', ''CEILING_SERVICE'', ''CEILING_OEI'',
        ''DIST_TO_GROUND_ROLL'', ''DIST_TO_50FT'', ''DIST_LDG_GROUND_ROLL'', ''DIST_LDG_50FT''}
      then [Length]
      else if metric \<in> {''CLIMB_RATE_SL'', ''CLIMB_RATE_OEI''} then [ClimbRate]
      else if metric = ''FUEL_BURN_CRUISE'' then [FuelFlow]
      else if metric \<in> {''WEIGHT_EMPTY'', ''WEIGHT_MTOW'', ''WEIGHT_PAYLOAD'',
        ''WEIGHT_USEFUL_LOAD'', ''FUEL_WEIGHT_MAX'', ''WEIGHT_PAYLOAD_FULL_FUEL''}
      then [Mass]
      else if metric = ''FUEL_CAPACITY_USABLE'' then [Volume, Mass]
      else [])"

definition unit_fits_metric :: "string \<Rightarrow> string \<Rightarrow> bool" where
  "unit_fits_metric metric u =
     (case unit_dimension u of
        None \<Rightarrow> True
      | Some actual \<Rightarrow>
          (let expected = metric_dimensions metric
           in expected = [] \<or> actual \<in> set expected))"

subsection \<open>Field vocabularies\<close>

definition perf_code :: "string \<Rightarrow> string option" where
  "perf_code field = map_of
     [(''best_cruise_speed'', ''SPEED_CRUISE_BEST''),
      (''best_range_i'', ''RANGE_NORMAL''),
      (''ceiling'', ''CEILING_SERVICE''),
      (''fuel_burn'', ''FUEL_BURN_CRUISE''),
      (''fuel_burn_75'', ''FUEL_BURN_CRUISE''),
      (''rate_of_climb'', ''CLIMB_RATE_SL''),
      (''rate_of_climb_1_engine_out'', ''CLIMB_RATE_OEI''),
      (''ceiling_1_engine_out'', ''CEILING_OEI''),
      (''takeoff_distance'', ''DIST_TO_GROUND_ROLL''),
      (''takeoff_distance_over_50ft_obstacle'', ''DIST_TO_50FT''),
      (''landing_distance'', ''DIST_LDG_GROUND_ROLL''),
      (''landing_distance_over_50ft_obstacle'', ''DIST_LDG_50FT''),
      (''stall_speed'', ''SPEED_STALL_CLEAN'')] field"

definition weight_code :: "string \<Rightarrow> string option" where
  "weight_code field = map_of
     [(''empty_weight'', ''WEIGHT_EMPTY''),
      (''gross_weight'', ''WEIGHT_MTOW''),
      (''fuel_capacity'', ''FUEL_CAPACITY_USABLE''),
      (''maximum_payload'', ''WEIGHT_PAYLOAD''),
      (''useful_load'', ''WEIGHT_USEFUL_LOAD''),
      (''fuel_weight'', ''FUEL_WEIGHT_MAX''),
      (''payload_full_fuel'', ''WEIGHT_PAYLOAD_FULL_FUEL'')] field"

definition cost_mappings :: "(string \<times> string) list" where
  "cost_mappings =
     [(''miscellaneous'', ''MISC_VARIABLE''),
      (''inspection'', ''ANNUAL_INSPECTION''),
      (''insurance'', ''INSURANCE''),
      (''hangar'', ''HANGAR_STORAGE''),
      (''storage'', ''HANGAR_STORAGE''),
      (''depreciation'', ''DEPRECIATION''),
      (''weather'', ''WEATHER_SERVICE''),
      (''training'', ''PILOT_TRAINING''),
      (''refurbish'', ''REFURBISHING''),
      (''registration'', ''REGISTRATION_TAXES''),
      (''financ'', ''FINANCING''),
      (''fuel'', ''FUEL''),
      (''oil'', ''OIL''),
      (''avionics'', ''AVIONICS_RESERVE''),
      (''landing'', ''LANDING_FEES''),
      (''unscheduled'', ''UNSCHEDULED_MAINT''),
      (''maint'', ''HOURLY_MAINTENANCE'')]"

text \<open>\<open>cost_code\<close>: the mapped item code, whether the value is a number, whether it is a total.\<close>

definition cost_code :: "string \<Rightarrow> string option \<times> bool \<times> bool" where
  "cost_code raw_key =
     (let key = to_ascii_lowercase raw_key in
      if str_contains ''total'' key \<and> str_contains ''fixed'' key
      then (Some ''TOTAL_FIXED_COST'', True, True)
      else if str_contains ''total'' key \<and> str_contains ''variable'' key
      then (Some ''TOTAL_VARIABLE_COST'', True, True)
      else if str_contains ''total'' key \<and>
        (str_contains ''annual'' key \<or> str_contains ''yearly'' key \<or>
         str_contains ''cost_per_year'' key \<or> str_contains ''ownership'' key)
      then (Some ''TOTAL_COST_ANNUAL'', True, True)
      else if str_contains ''pilot_salary'' key
      then (Some ''PILOT_SALARY'', True, False)
      else if str_contains ''engine'' key \<and>
        list_ex (\<lambda>part. str_contains part key) [''reserve'', ''overhaul'', ''fund'', ''tbo'']
      then (Some ''ENGINE_RESERVE'', True, False)
      else if str_contains ''prop'' key \<and>
        list_ex (\<lambda>part. str_contains part key) [''reserve'', ''overhaul'', ''fund'']
      then (Some ''PROP_RESERVE'', True, False)
      else (case List.find (\<lambda>(part, _). str_contains part key) cost_mappings of
          Some (_, code) \<Rightarrow> (Some code, True, False)
        | None \<Rightarrow>
            if list_ex (\<lambda>part. str_contains part key) [''reserve'', ''overhaul'']
            then (Some ''OVERHAUL_RESERVE'', True, False)
            else (None, True, False)))"

subsection \<open>Prose\<close>

definition variant_type :: "int option \<Rightarrow> string option" where
  "variant_type production_start =
     (case production_start of Some _ \<Rightarrow> Some ''PRODUCTION_STANDARD'' | None \<Rightarrow> None)"

definition landing_gear_type :: "string \<Rightarrow> string option" where
  "landing_gear_type lowered =
     (let tricycle = str_contains ''tricycle'' lowered;
          tailwheel = str_contains ''tailwheel'' lowered \<or> str_contains ''taildragger'' lowered
      in if str_contains ''retractable'' lowered
         then Some (if tricycle then ''RETRACTABLE_TRICYCLE''
                    else if tailwheel then ''RETRACTABLE_TAILWHEEL''
                    else ''RETRACTABLE_UNSPECIFIED'')
         else if str_contains ''fixed landing gear'' lowered
         then Some (if tricycle then ''FIXED_TRICYCLE''
                    else if tailwheel then ''FIXED_TAILWHEEL''
                    else ''FIXED_UNSPECIFIED'')
         else None)"

fun service_status :: "bool option \<Rightarrow> string option" where
  "service_status (Some True) = Some ''IN_PRODUCTION''"
| "service_status (Some False) = Some ''DISCONTINUED''"
| "service_status None = None"

definition propulsion_category :: "string \<Rightarrow> string option" where
  "propulsion_category lowered =
     (if str_contains ''piston'' lowered then Some ''PISTON_RECIPROCATING''
      else if str_contains ''turboprop'' lowered then Some ''TURBOPROP''
      else if str_contains ''turbojet'' lowered then Some ''TURBOJET''
      else None)"

type_synonym ProductionRange = "int option \<times> int option \<times> bool option"

definition trailing_parenthetical :: "string \<Rightarrow> string option" where
  "trailing_parenthetical text =
     (case strip_suffix '')'' (trim_end text) of
        None \<Rightarrow> None
      | Some inner \<Rightarrow>
          (case rfind_char (CHR ''('') inner of
             None \<Rightarrow> None
           | Some open_at \<Rightarrow> Some (trim (drop (open_at + 1) inner))))"

definition parsed_production_range :: "string \<Rightarrow> string + ProductionRange" where
  "parsed_production_range aircraft =
     (case trailing_parenthetical aircraft of
        None \<Rightarrow> Inr (None, None, None)
      | Some range_text \<Rightarrow>
          (case split_once (CHR ''-'') range_text of
             None \<Rightarrow> Inr (None, None, None)
           | Some (start_part, end_part) \<Rightarrow>
               (let start_text = trim start_part; end_text = trim end_part in
                if \<not> (case start_text of [] \<Rightarrow> False | c # _ \<Rightarrow> is_ascii_digit c)
                then Inr (None, None, None)
                else (case parse_i16 start_text of
                    None \<Rightarrow> Inl ''aircraft name opens a production range that is not a year''
                  | Some start \<Rightarrow>
                      if eq_ignore_ascii_case end_text ''present''
                      then Inr (Some start, None, Some True)
                      else (case parse_i16 end_text of
                          None \<Rightarrow> Inl ''aircraft name closes a production range that is not a year''
                        | Some fin \<Rightarrow> Inr (Some start, Some fin, Some False))))))"

definition parse_engine_count :: "string \<Rightarrow> int option" where
  "parse_engine_count raw0 =
     (case parse_sentinel raw0 of
        None \<Rightarrow> None
      | Some raw \<Rightarrow>
          if str_contains '' x '' (to_ascii_lowercase raw)
          then (case split_whitespace raw of [] \<Rightarrow> None | w # _ \<Rightarrow> parse_i16 w)
          else Some 1)"

definition number_after :: "string \<Rightarrow> string \<Rightarrow> int option" where
  "number_after v marker =
     (let lower = to_ascii_lowercase v in
      case str_find marker lower of
        None \<Rightarrow> None
      | Some found_at \<Rightarrow>
          (case split_whitespace (drop (found_at + length marker) lower) of
             [] \<Rightarrow> None | w # _ \<Rightarrow> parse_i16 w))"

definition occupants :: "string \<Rightarrow> int option \<times> int option" where
  "occupants prose = (number_after prose ''seats up to '', number_after prose ''plus '')"

definition dimensions_px :: "string \<Rightarrow> (int \<times> int) option" where
  "dimensions_px raw =
     (case split_once (CHR ''x'') (to_ascii_lowercase raw) of
        None \<Rightarrow> None
      | Some (width, height) \<Rightarrow>
          (case parse_i16 (trim width) of
             None \<Rightarrow> None
           | Some w \<Rightarrow>
               (case parse_i16 (trim height) of None \<Rightarrow> None | Some h \<Rightarrow> Some (w, h))))"

subsection \<open>Record keys\<close>

definition hex_digest :: "string \<Rightarrow> string" where
  "hex_digest bytes = concat (map hex_byte bytes)"

definition record_key_preimage :: "string \<Rightarrow> string \<Rightarrow> string" where
  "record_key_preimage manufacturer aircraft =
     ''planephd'' @ [CHR 0x00] @ manufacturer @ [CHR 0x00] @ aircraft"

definition record_key :: "(string \<Rightarrow> string) \<Rightarrow> string \<Rightarrow> string \<Rightarrow> string" where
  "record_key sha manufacturer aircraft = hex_digest (sha (record_key_preimage manufacturer aircraft))"

subsection \<open>Facts about the readers\<close>

lemma parse_sentinel_trimmed: "parse_sentinel raw = Some v \<Longrightarrow> v = trim raw \<and> v \<noteq> []"
  by (auto simp: parse_sentinel_def Let_def split: if_splits)

text \<open>The shape of an accepted number: digits with at most one point, at least one digit.\<close>

definition unsigned_numeric :: "string \<Rightarrow> bool" where
  "unsigned_numeric s \<longleftrightarrow>
     (s \<noteq> [] \<and> list_all is_ascii_digit s) \<or>
     (\<exists>w f. s = w @ ''.'' @ f \<and> list_all is_ascii_digit (w @ f) \<and> w @ f \<noteq> [])"

definition numeric_shape :: "string \<Rightarrow> bool" where
  "numeric_shape s \<longleftrightarrow> unsigned_numeric s \<or> (\<exists>u. s = ''-'' @ u \<and> unsigned_numeric u)"

lemma numeric_parts_shape:
  assumes "numeric_parts_valid (split_char (CHR ''.'') u)"
  shows "unsigned_numeric u"
proof -
  let ?parts = "split_char (CHR ''.'') u"
  have u: "u = join_with ''.'' ?parts" by simp
  consider (one) w where "?parts = [w]" | (two) w f where "?parts = [w, f]"
    using assms split_char_nonempty [of "CHR ''.''" u]
    by (auto simp: numeric_parts_valid_def Let_def le_Suc_eq length_Suc_conv numeral_2_eq_2)
  then show ?thesis
  proof cases
    case one
    then have "u = w" using u by (metis join_with.simps(2))
    with one assms show ?thesis by (simp add: numeric_parts_valid_def unsigned_numeric_def)
  next
    case two
    then have "u = w @ ''.'' @ f" using u by (metis join_with.simps(2,3))
    with two assms show ?thesis by (auto simp: numeric_parts_valid_def unsigned_numeric_def)
  qed
qed

lemma parse_numeric_shape:
  assumes "parse_numeric raw = Some n"
  shows "numeric_shape n"
proof -
  have valid: "unsigned_numeric (case strip_prefix ''-'' n of None \<Rightarrow> n | Some u \<Rightarrow> u)"
    using assms numeric_parts_shape
    by (cases "parse_sentinel raw") (auto simp: parse_numeric_def Let_def split: if_splits)
  show ?thesis
  proof (cases "strip_prefix ''-'' n")
    case None
    with valid show ?thesis by (simp add: numeric_shape_def)
  next
    case (Some u)
    then have "n = ''-'' @ u" by (simp only: strip_prefix_Some_iff)
    moreover have "unsigned_numeric u" using valid by (simp only: Some option.case)
    ultimately show ?thesis unfolding numeric_shape_def by blast
  qed
qed

lemma hex_byte_not_Nil [simp]: "hex_byte b \<noteq> []"
  by (simp add: hex_byte_def)

lemma length_hex_digest [simp]: "length (hex_digest bytes) = 2 * length bytes"
  by (induction bytes) (simp_all add: hex_digest_def)

lemma hex_digest_lower: "list_all is_lower_hex (hex_digest bytes)"
  using hex_byte_lower by (induction bytes) (simp_all add: hex_digest_def)

lemma hex_digest_inj: "hex_digest a = hex_digest b \<longleftrightarrow> a = b"
proof (induction a arbitrary: b)
  case Nil
  then show ?case by (cases b) (simp_all add: hex_digest_def)
next
  case (Cons x a)
  then show ?case by (cases b) (auto simp: hex_digest_def hex_byte_inj)
qed

lemma record_key_preimage_inj:
  assumes "CHR 0x00 \<notin> set m" and "CHR 0x00 \<notin> set m'"
    and "record_key_preimage m a = record_key_preimage m' a'"
  shows "m = m' \<and> a = a'"
proof -
  have key: "split_once (CHR 0x00) (m @ CHR 0x00 # a) = Some (m, a)" if "CHR 0x00 \<notin> set m" for m a
    using that by (simp add: split_once_Some_iff)
  have "m @ CHR 0x00 # a = m' @ CHR 0x00 # a'"
    using assms(3) by (simp add: record_key_preimage_def)
  then show ?thesis using key [OF assms(1), of a] key [OF assms(2), of a']
    by (metis option.inject prod.inject)
qed

end
