(* ===== verification/Normalization.thy ===== *)
theory Normalization
  imports Source_Text
begin

text \<open>
  \<open>aircraft_ingest::normalization::normalize_record\<close>: one raw JSON record of the source becomes a
  prepared record and a list of issues. Helpers that take \<open>&mut issues\<close> in the source are
  computations of the \<open>logger\<close> monad here, run in the order in which the source evaluates them.
\<close>

type_synonym 'a issues = "(IngestIssue, 'a) logger"

subsection \<open>Issues\<close>

definition mk_issue :: "'u libs \<Rightarrow> string \<Rightarrow> IssueSeverity \<Rightarrow> string \<Rightarrow> string \<Rightarrow> json option \<Rightarrow> IngestIssue" where
  "mk_issue L code severity path message raw =
     \<lparr> issue_code = code, issue_severity = severity, issue_field_path = path,
       issue_message = message,
       issue_raw_value = map_option (\<lambda>v. bounded_printable 256 (json_text L v)) raw \<rparr>"

abbreviation warn :: "'u libs \<Rightarrow> string \<Rightarrow> string \<Rightarrow> string \<Rightarrow> json option \<Rightarrow> unit issues" where
  "warn L code path message raw \<equiv> push (mk_issue L code SevWarning path message raw)"

lemma is_warning_mk_issue [simp]:
  "is_warning (mk_issue L code SevWarning path message raw)"
  "\<not> is_warning (mk_issue L code SevError path message raw)"
  by (simp_all add: mk_issue_def is_warning_def)

lemma issue_code_mk_issue [simp]: "issue_code (mk_issue L code sev path message raw) = code"
  by (simp add: mk_issue_def)

lemma issue_field_path_mk_issue [simp]:
  "issue_field_path (mk_issue L code sev path message raw) = path"
  by (simp add: mk_issue_def)

subsection \<open>Scalar fields\<close>

definition scalar :: "'u libs \<Rightarrow> json option \<Rightarrow> string \<Rightarrow> string option issues" where
  "scalar L v field =
     (case v of
        None \<Rightarrow> State_Monad.return None
      | Some JNull \<Rightarrow> State_Monad.return None
      | Some (JString s) \<Rightarrow> State_Monad.return (parse_sentinel s)
      | Some (JNumber n) \<Rightarrow> State_Monad.return (Some n)
      | Some (JBool b) \<Rightarrow> State_Monad.return (Some (bool_text b))
      | Some other \<Rightarrow>
          do { warn L ''FIELD_NOT_SCALAR'' field ''field must be a scalar value'' (Some other);
               State_Monad.return None })"

fun value_text :: "json \<Rightarrow> string option" where
  "value_text (JString s) = parse_sentinel s"
| "value_text (JNumber n) = Some n"
| "value_text (JBool b) = Some (bool_text b)"
| "value_text _ = None"

definition nested :: "'u libs \<Rightarrow> json_object \<Rightarrow> string \<Rightarrow> json_object option issues" where
  "nested L obj field =
     (case get obj field of
        None \<Rightarrow> State_Monad.return None
      | Some JNull \<Rightarrow> State_Monad.return None
      | Some (JObject v) \<Rightarrow> State_Monad.return (Some v)
      | Some v \<Rightarrow>
          do { warn L ''FIELD_NOT_OBJECT'' field ''nested field must be an object'' (Some v);
               State_Monad.return None })"

text \<open>\<open>integer::<T>\<close> with \<open>T::from_str\<close> as the argument \<open>parse\<close>.\<close>

definition integer :: "'u libs \<Rightarrow> (string \<Rightarrow> int option) \<Rightarrow> json_object \<Rightarrow> string \<Rightarrow> int option issues" where
  "integer L parse obj field =
     do { v \<leftarrow> scalar L (get obj field) field;
          case v of
            None \<Rightarrow> State_Monad.return None
          | Some text \<Rightarrow>
              (case parse text of
                 Some n \<Rightarrow> State_Monad.return (Some n)
               | None \<Rightarrow>
                   do { warn L ''INVALID_INTEGER_FIELD'' field ''field is not an integer''
                          (get obj field);
                        State_Monad.return None }) }"

definition numeric :: "'u libs \<Rightarrow> json option \<Rightarrow> string \<Rightarrow> string option issues" where
  "numeric L v field =
     do { r \<leftarrow> scalar L v field;
          case r of
            None \<Rightarrow> State_Monad.return None
          | Some raw \<Rightarrow>
              (case parse_numeric raw of
                 Some n \<Rightarrow> State_Monad.return (Some n)
               | None \<Rightarrow>
                   do { warn L ''INVALID_NUMERIC_FIELD'' field
                          ''field has no valid numeric prefix'' v;
                        State_Monad.return None }) }"

definition numeric_integer ::
  "'u libs \<Rightarrow> (string \<Rightarrow> int option) \<Rightarrow> json option \<Rightarrow> string \<Rightarrow> int option issues" where
  "numeric_integer L parse v field =
     do { r \<leftarrow> numeric L v field;
          case r of
            None \<Rightarrow> State_Monad.return None
          | Some parsed \<Rightarrow>
              (case parse parsed of
                 Some n \<Rightarrow> State_Monad.return (Some n)
               | None \<Rightarrow>
                   do { warn L ''INVALID_INTEGER_FIELD'' field
                          ''numeric field is not an integer in the supported range'' v;
                        State_Monad.return None }) }"

definition boolean :: "'u libs \<Rightarrow> json_object \<Rightarrow> string \<Rightarrow> bool option issues" where
  "boolean L obj field =
     (case get obj field of
        None \<Rightarrow> State_Monad.return None
      | Some (JBool b) \<Rightarrow> State_Monad.return (Some b)
      | Some (JString s) \<Rightarrow>
          (let lower = to_ascii_lowercase (trim s) in
           if lower \<in> {''true'', ''yes'', ''1''} then State_Monad.return (Some True)
           else if lower \<in> {''false'', ''no'', ''0''} then State_Monad.return (Some False)
           else do { warn L ''INVALID_BOOLEAN_FIELD'' field ''field is not a boolean'' (get obj field);
                     State_Monad.return None })
      | Some v \<Rightarrow>
          do { warn L ''INVALID_BOOLEAN_FIELD'' field ''field is not a boolean'' (Some v);
               State_Monad.return None })"

definition normalized_url :: "'u libs \<Rightarrow> string \<Rightarrow> string \<Rightarrow> string option issues" where
  "normalized_url L raw field =
     (let parsed = (case url_parse L raw of
            Some u \<Rightarrow> Some u
          | None \<Rightarrow> Option.bind (url_parse L ''https://planephd.com/'') (\<lambda>base. url_join L base raw));
          invalid =
            do { warn L ''INVALID_URL'' field ''URL is invalid or uses an unsupported scheme''
                   (Some (JString raw));
                 State_Monad.return None }
      in case parsed of
           Some u \<Rightarrow> if url_scheme L u \<in> {''http'', ''https''}
                     then State_Monad.return (Some (url_text L u)) else invalid
         | None \<Rightarrow> invalid)"

definition production_range :: "'u libs \<Rightarrow> string \<Rightarrow> ProductionRange issues" where
  "production_range L aircraft =
     (case parsed_production_range aircraft of
        Inr r \<Rightarrow> State_Monad.return r
      | Inl what \<Rightarrow>
          do { warn L ''UNPARSEABLE_PRODUCTION_RANGE'' ''$.<aircraft>'' what None;
               State_Monad.return (None, None, None) })"

subsection \<open>Measurements\<close>

text \<open>The two demotions: a unit of the wrong dimension, and a negative number.\<close>

definition check_unit ::
  "'u libs \<Rightarrow> string \<Rightarrow> json \<Rightarrow> string option \<Rightarrow> string option \<Rightarrow> string option issues" where
  "check_unit L field_path v metric unit =
     (case (metric, unit) of
        (Some m, Some u) \<Rightarrow>
          if \<not> unit_fits_metric m u
          then do { warn L ''INCOMPATIBLE_MEASUREMENT_UNIT'' field_path
                      ''unit does not measure this metric and will not be canonicalized'' (Some v);
                    State_Monad.return None }
          else State_Monad.return unit
      | _ \<Rightarrow> State_Monad.return unit)"

definition check_sign :: "'u libs \<Rightarrow> string \<Rightarrow> json \<Rightarrow> string option \<Rightarrow> string option issues" where
  "check_sign L field_path v number =
     (case number of
        Some parsed \<Rightarrow>
          if starts_with ''-'' parsed
          then do { warn L ''NEGATIVE_MEASUREMENT'' field_path
                      ''measurement is negative and will not be canonicalized'' (Some v);
                    State_Monad.return None }
          else State_Monad.return number
      | None \<Rightarrow> State_Monad.return number)"

text \<open>The loop body of \<open>measurements\<close>, and the loop.\<close>

definition measurement_item ::
  "'u libs \<Rightarrow> string \<Rightarrow> (string \<Rightarrow> string option) \<Rightarrow> string \<times> json \<Rightarrow> MeasurementInput option issues"
where
  "measurement_item L path mapping entry =
     (case entry of (field, v) \<Rightarrow>
        if path = ''performance'' \<and> field \<in> {''horsepower'', ''thrust''}
        then State_Monad.return None
        else
          (let field_path = path @ ''.'' @ field in
           do { r \<leftarrow> scalar L (Some v) field_path;
                case r of
                  None \<Rightarrow> State_Monad.return None
                | Some raw \<Rightarrow>
                    (let number = parse_numeric raw;
                         raw_unit = parse_unit raw;
                         unit = Option.bind raw_unit unit_code;
                         metric = mapping field
                     in do {
                       push_when (metric = None) (mk_issue L ''UNMAPPED_MEASUREMENT_FIELD'' SevWarning
                         field_path ''measurement is preserved as a pending assertion'' (Some v));
                       push_when (number = None) (mk_issue L ''MEASUREMENT_PARSE_FAILURE'' SevWarning
                         field_path ''measurement has no parseable numeric prefix'' (Some v));
                       push_when (raw_unit \<noteq> None \<and> unit = None)
                         (mk_issue L ''UNKNOWN_MEASUREMENT_UNIT'' SevWarning
                           field_path ''unit is not mapped and will not be canonicalized'' (Some v));
                       push_when (metric \<noteq> None \<and> number \<noteq> None \<and> raw_unit = None)
                         (mk_issue L ''MISSING_MEASUREMENT_UNIT'' SevWarning
                           field_path ''measurement has no unit and will not be canonicalized'' (Some v));
                       unit' \<leftarrow> check_unit L field_path v metric unit;
                       number' \<leftarrow> check_sign L field_path v number;
                       State_Monad.return (Some
                         \<lparr> mi_source_field = field, mi_metric_code = metric, mi_raw_value = raw,
                           mi_numeric_value = number', mi_raw_unit = raw_unit,
                           mi_unit_code = unit' \<rparr>) }) }))"

definition measurements ::
  "'u libs \<Rightarrow> json_object option \<Rightarrow> string \<Rightarrow> (string \<Rightarrow> string option) \<Rightarrow> MeasurementInput list issues"
where
  "measurements L obj path mapping =
     (case obj of
        None \<Rightarrow> State_Monad.return []
      | Some members \<Rightarrow> traverse_filter (measurement_item L path mapping) members)"

subsection \<open>Operating costs and images\<close>

definition cost_item :: "'u libs \<Rightarrow> string \<times> json \<Rightarrow> CostItemInput option issues" where
  "cost_item L entry =
     (case entry of (key, v) \<Rightarrow>
        (let field_path = ''ownership_costs.'' @ key in
         do { r \<leftarrow> scalar L (Some v) field_path;
              case r of
                None \<Rightarrow> State_Monad.return None
              | Some raw \<Rightarrow>
                  (case cost_code key of (mapped, num_key, aggregate) \<Rightarrow>
                     (let amount = (if num_key then parse_numeric raw else None) in
                      do { (if mapped = None
                            then warn L ''UNMAPPED_COST_KEY'' field_path
                              ''no cost item type matches this key; the cost is preserved for curation and excluded from canonical totals''
                              (Some v)
                            else push_when (num_key \<and> amount = None)
                              (mk_issue L ''UNPARSEABLE_COST_VALUE'' SevWarning field_path
                                ''the key is mapped but its value is not a number; the cost is preserved for curation and excluded from canonical totals''
                                (Some v)));
                           State_Monad.return (Some
                             \<lparr> ci_source_key = key, ci_raw_value = raw, ci_mapped_code = mapped,
                               ci_numeric_value = amount, ci_is_aggregate = aggregate,
                               ci_is_numeric = num_key \<rparr>) })) }))"

definition cost_items :: "'u libs \<Rightarrow> json_object option \<Rightarrow> CostItemInput list issues" where
  "cost_items L obj =
     (case obj of
        None \<Rightarrow> State_Monad.return []
      | Some members \<Rightarrow> traverse_filter (cost_item L) members)"

definition image_item :: "'u libs \<Rightarrow> nat \<times> json \<Rightarrow> ImageMetadataInput option issues" where
  "image_item L entry =
     (case entry of (position, img) \<Rightarrow>
        (let field_path = ''images['' @ show_nat position @ '']'' in
         case img of
           JObject obj \<Rightarrow>
             (case Option.bind (get obj ''href'') value_text of
                None \<Rightarrow>
                  do { warn L ''IMAGE_HREF_MISSING'' (field_path @ ''.href'')
                         ''image metadata has no usable href'' (get obj ''href'');
                       State_Monad.return None }
              | Some href \<Rightarrow>
                  if int position > i16_max
                  then do { warn L ''IMAGE_POSITION_OUT_OF_RANGE'' field_path
                              ''image position exceeds the supported range'' None;
                            State_Monad.return None }
                  else
                    (let dims = Option.bind (get obj ''dimensions'') value_text;
                         parsed = Option.bind dims dimensions_px
                     in do {
                       push_when (dims \<noteq> None \<and> parsed = None)
                         (mk_issue L ''INVALID_IMAGE_DIMENSIONS'' SevWarning (field_path @ ''.dimensions'')
                           ''expected WxH dimensions'' (get obj ''dimensions''));
                       resolved \<leftarrow> normalized_url L href (field_path @ ''.href'');
                       State_Monad.return (Some
                         \<lparr> array_position = int position, href_raw = href,
                           href_resolved = resolved,
                           img_title = Option.bind (get obj ''title'') value_text,
                           img_holder = Option.bind (get obj ''holder'') value_text,
                           dimensions_raw = dims,
                           width_px = map_option fst parsed, height_px = map_option snd parsed,
                           is_primary = False \<rparr>) }))
         | _ \<Rightarrow>
             do { warn L ''IMAGE_NOT_OBJECT'' field_path ''image metadata must be an object'' (Some img);
                  State_Monad.return None }))"

definition mark_first_primary :: "ImageMetadataInput list \<Rightarrow> ImageMetadataInput list" where
  "mark_first_primary items =
     (case items of [] \<Rightarrow> [] | first # rest \<Rightarrow> first \<lparr> is_primary := True \<rparr> # rest)"

definition image_items :: "'u libs \<Rightarrow> json option \<Rightarrow> ImageMetadataInput list issues" where
  "image_items L v =
     (case v of
        None \<Rightarrow> State_Monad.return []
      | Some (JArray images) \<Rightarrow>
          do { items \<leftarrow> traverse_filter (image_item L) (List.enumerate 0 images);
               State_Monad.return (mark_first_primary items) }
      | Some other \<Rightarrow>
          do { warn L ''IMAGES_NOT_ARRAY'' ''images'' ''images metadata is not an array'' (Some other);
               State_Monad.return [] })"

subsection \<open>Records\<close>

definition KNOWN_FIELDS :: "string list" where
  "KNOWN_FIELDS =
     [''manufacturer_name'', ''aircraft_name'', ''source_link'', ''page_url'', ''title'',
      ''description'', ''papi_price_estimate'', ''for_sale_count'', ''start_year'', ''end_year'',
      ''in_production'', ''performance'', ''weights'', ''ownership_costs'', ''engine'', ''images'']"

fun report_unknown_fields :: "'u libs \<Rightarrow> json_object \<Rightarrow> unit issues" where
  "report_unknown_fields L [] = State_Monad.return ()"
| "report_unknown_fields L ((field, v) # rest) =
     do { push_when (field \<notin> set KNOWN_FIELDS)
            (mk_issue L ''UNSUPPORTED_RECORD_FIELD'' SevWarning field
              ''field is preserved in raw JSON but is not promoted'' (Some v));
          report_unknown_fields L rest }"

text \<open>The two name checks and the loop over the record's members.\<close>

definition record_checks :: "'u libs \<Rightarrow> string \<Rightarrow> string \<Rightarrow> json_object \<Rightarrow> unit issues" where
  "record_checks L manufacturer aircraft obj =
     do { push_when (trim manufacturer = [])
            (mk_issue L ''MANUFACTURER_NAME_EMPTY'' SevError ''$.<manufacturer>''
              ''manufacturer key must not be empty'' None);
          push_when (trim aircraft = [])
            (mk_issue L ''AIRCRAFT_NAME_EMPTY'' SevError ''$.<manufacturer>.<aircraft>''
              ''aircraft key must not be empty'' None);
          report_unknown_fields L obj }"

fun invariant_error_text :: "IngestionInvariantError \<Rightarrow> string" where
  "invariant_error_text InvalidConfidence = ''confidence must be finite and between zero and one''"
| "invariant_error_text (ProductionYearsReversed s e) =
     ''production end year '' @ show_int e @ '' is earlier than start year '' @ show_int s"
| "invariant_error_text (YearOutOfRange y) =
     ''year '' @ show_int y @ '' is outside the supported aircraft-data range''"

definition option_or :: "'a option \<Rightarrow> 'a option \<Rightarrow> 'a option" where
  "option_or a b = (case a of Some x \<Rightarrow> Some x | None \<Rightarrow> b)"

text \<open>\<open>if let Err(error) = ProductionYears::new(start, end)\<close>.\<close>

definition years_check :: "'u libs \<Rightarrow> int option \<Rightarrow> int option \<Rightarrow> unit issues" where
  "years_check L start fin =
     (case ProductionYears_new start fin of
        Inr _ \<Rightarrow> State_Monad.return ()
      | Inl err \<Rightarrow> push (mk_issue L ''INVALID_PRODUCTION_YEARS'' SevError ''production_years''
          (invariant_error_text err) None))"

text \<open>The production years: stated fields first, then the range spelled in the name; the checked
  result is \<open>(in_production, start, end)\<close>.\<close>

definition production_years ::
  "'u libs \<Rightarrow> string \<Rightarrow> json_object \<Rightarrow> (bool option \<times> int option \<times> int option) issues" where
  "production_years L aircraft obj =
     do { (named_start, named_end, named_in_production) \<leftarrow> production_range L aircraft;
          b \<leftarrow> boolean L obj ''in_production'';
          s \<leftarrow> integer L parse_i16 obj ''start_year'';
          e \<leftarrow> integer L parse_i16 obj ''end_year'';
          let start = option_or s named_start;
          let fin = option_or e named_end;
          years_check L start fin;
          State_Monad.return (option_or b named_in_production, start, fin) }"

definition opt_issue :: "('a \<Rightarrow> 'b option issues) \<Rightarrow> 'a option \<Rightarrow> 'b option issues" where
  "opt_issue f v = (case v of None \<Rightarrow> State_Monad.return None | Some x \<Rightarrow> f x)"

definition propulsion_input ::
  "'u libs \<Rightarrow> string option \<Rightarrow> string option \<Rightarrow> string option \<Rightarrow> int option \<Rightarrow>
     json_object option \<Rightarrow> PropulsionInput issues" where
  "propulsion_input L category horsepower thrust engine_count engine =
     do { maker \<leftarrow> opt_issue (\<lambda>o'. scalar L (get o' ''manufacturer'') ''engine.manufacturer'') engine;
          model \<leftarrow> opt_issue (\<lambda>o'. scalar L (get o' ''model'') ''engine.model'') engine;
          hours \<leftarrow> opt_issue (\<lambda>o'. numeric_integer L parse_i32 (get o' ''overhaul_ht'')
                    ''engine.overhaul_ht'') engine;
          years \<leftarrow> opt_issue (\<lambda>o'. numeric_integer L parse_i32 (get o' ''years_before_overhaul'')
                    ''engine.years_before_overhaul'') engine;
          State_Monad.return
            \<lparr> pr_category = category, pr_manufacturer = maker, pr_model = model,
              pr_horsepower = horsepower, pr_thrust_newtons = thrust,
              pr_engine_count = engine_count, pr_tbo_hours = hours, pr_tbo_years = years \<rparr> }"

definition engine_count_of :: "json_object option \<Rightarrow> int option" where
  "engine_count_of perf_object =
     Option.bind
       (Option.bind
         (Option.bind perf_object (\<lambda>o'. option_or (get o' ''horsepower'') (get o' ''thrust'')))
         value_text)
       parse_engine_count"

text \<open>Everything the record needs besides the description and the years; the issue list is filled in
  afterwards, as the source moves it into the record last.\<close>

definition normalize_rest ::
  "'u libs \<Rightarrow> string \<Rightarrow> string \<Rightarrow> json_object \<Rightarrow> string option \<Rightarrow>
     bool option \<times> int option \<times> int option \<Rightarrow> PreparedAircraftRecord issues" where
  "normalize_rest L manufacturer aircraft obj description years =
     (case years of (in_production, start, fin) \<Rightarrow>
      let prose = map_option to_ascii_lowercase description;
          category = Option.bind prose propulsion_category;
          landing_gear = Option.bind prose landing_gear_type
      in do {
          let (passengers, crew) =
            (case description of None \<Rightarrow> (None, None) | Some d \<Rightarrow> occupants d);
          perf_object \<leftarrow> nested L obj ''performance'';
          weight_object \<leftarrow> nested L obj ''weights'';
          engine \<leftarrow> nested L obj ''engine'';
          costs \<leftarrow> nested L obj ''ownership_costs'';
          performance \<leftarrow> measurements L perf_object ''performance'' perf_code;
          weights \<leftarrow> measurements L weight_object ''weights'' weight_code;
          source_link \<leftarrow> scalar L (get obj ''source_link'') ''source_link'';
          page_text \<leftarrow> scalar L (get obj ''page_url'') ''page_url'';
          page_url \<leftarrow> opt_issue (\<lambda>v. normalized_url L v ''page_url'') page_text;
          let source_key = record_key (sha256 L) manufacturer aircraft;
          horsepower \<leftarrow> opt_issue (\<lambda>o'. numeric L (get o' ''horsepower'') ''engine.horsepower'') engine;
          thrust \<leftarrow> opt_issue (\<lambda>o'. numeric L (get o' ''thrust'') ''engine.thrust'') engine;
          let engine_count = engine_count_of perf_object;
          title \<leftarrow> scalar L (get obj ''title'') ''title'';
          propulsion \<leftarrow> propulsion_input L category horsepower thrust engine_count engine;
          price \<leftarrow> numeric L (get obj ''papi_price_estimate'') ''papi_price_estimate'';
          sale_count \<leftarrow> numeric_integer L parse_i32 (get obj ''for_sale_count'') ''for_sale_count'';
          items \<leftarrow> cost_items L costs;
          images \<leftarrow> image_items L (get obj ''images'');
          State_Monad.return
            \<lparr> source_record_key = source_key,
              rec_identity =
                \<lparr> manufacturer_name = trim manufacturer, aircraft_name = trim aircraft,
                  id_source_link = source_link, id_page_url = page_url, id_title = title,
                  id_description = description \<rparr>,
              rec_lifecycle =
                \<lparr> variant_type_code = variant_type start, landing_gear_code = landing_gear,
                  service_status_code = service_status in_production,
                  production_start_year = start, production_end_year = fin,
                  is_in_production = in_production,
                  passenger_capacity = passengers, crew_count = crew \<rparr>,
              rec_performance = \<lparr> performance_measurements = performance \<rparr>,
              rec_weights = \<lparr> weight_measurements = weights \<rparr>,
              rec_propulsion = propulsion,
              rec_valuation = \<lparr> papi_price_estimate = price, for_sale_count = sale_count \<rparr>,
              rec_operating_costs = \<lparr> cost_line_items = items \<rparr>,
              rec_images = images,
              rec_provenance =
                \<lparr> source_system_key = source_key, source_url = page_url, source_path = source_link,
                  prov_confidence = confidence_get SCRAPED_SOURCE \<rparr>,
              rec_issues = [],
              raw_document = JObject obj \<rparr> })"

definition normalize_object ::
  "'u libs \<Rightarrow> string \<Rightarrow> string \<Rightarrow> json_object \<Rightarrow> PreparedAircraftRecord issues" where
  "normalize_object L manufacturer aircraft obj =
     do { record_checks L manufacturer aircraft obj;
          description \<leftarrow> scalar L (get obj ''description'') ''description'';
          years \<leftarrow> production_years L aircraft obj;
          normalize_rest L manufacturer aircraft obj description years }"

definition empty_record ::
  "'u libs \<Rightarrow> string \<Rightarrow> string \<Rightarrow> json \<Rightarrow> IngestIssue list \<Rightarrow> PreparedAircraftRecord" where
  "empty_record L manufacturer aircraft raw iss =
     (let key = record_key (sha256 L) manufacturer aircraft in
      \<lparr> source_record_key = key,
        rec_identity =
          \<lparr> manufacturer_name = trim manufacturer, aircraft_name = trim aircraft,
            id_source_link = None, id_page_url = None, id_title = None, id_description = None \<rparr>,
        rec_lifecycle = LifecycleInput_default,
        rec_performance = \<lparr> performance_measurements = [] \<rparr>,
        rec_weights = \<lparr> weight_measurements = [] \<rparr>,
        rec_propulsion = PropulsionInput_default,
        rec_valuation = ValuationInput_default,
        rec_operating_costs = \<lparr> cost_line_items = [] \<rparr>,
        rec_images = [],
        rec_provenance =
          \<lparr> source_system_key = key, source_url = None, source_path = None,
            prov_confidence = confidence_get SCRAPED_SOURCE \<rparr>,
        rec_issues = iss,
        raw_document = raw \<rparr>)"

definition normalize_record :: "'u libs \<Rightarrow> string \<Rightarrow> string \<Rightarrow> json \<Rightarrow> PreparedAircraftRecord" where
  "normalize_record L manufacturer aircraft raw =
     (case raw of
        JObject obj \<Rightarrow>
          (case run_state (normalize_object L manufacturer aircraft obj) [] of
             (r, iss) \<Rightarrow> r \<lparr> rec_issues := iss \<rparr>)
      | _ \<Rightarrow> empty_record L manufacturer aircraft raw
               [mk_issue L ''RECORD_NOT_OBJECT'' SevError ''$''
                  ''aircraft record must be a JSON object'' (Some raw)])"

end
