(* ===== verification/Normalization_Facts.thy ===== *)
theory Normalization_Facts
  imports Normalization
begin

text \<open>
  What \<open>normalize_record\<close> guarantees: which issues block a record, that no stated value is lost
  between the raw document and the prepared record, and that a value fit for promotion is
  well-formed.
\<close>

subsection \<open>Only the name and year checks emit errors\<close>

lemma emits_scalar [emits_intros]: "emits is_warning (scalar L v field)"
  unfolding scalar_def by (auto intro!: emits_intros split: option.splits json.splits)

lemma emits_nested [emits_intros]: "emits is_warning (nested L obj field)"
  unfolding nested_def by (auto intro!: emits_intros split: option.splits json.splits)

lemma emits_integer [emits_intros]: "emits is_warning (integer L parse obj field)"
  unfolding integer_def by (auto intro!: emits_intros)

lemma emits_numeric [emits_intros]: "emits is_warning (numeric L v field)"
  unfolding numeric_def by (auto intro!: emits_intros)

lemma emits_numeric_integer [emits_intros]: "emits is_warning (numeric_integer L parse v field)"
  unfolding numeric_integer_def by (auto intro!: emits_intros)

lemma emits_boolean [emits_intros]: "emits is_warning (boolean L obj field)"
  unfolding boolean_def Let_def
  by (auto intro!: emits_intros split: option.splits json.splits)

lemma emits_normalized_url [emits_intros]: "emits is_warning (normalized_url L raw field)"
  unfolding normalized_url_def Let_def
  by (auto intro!: emits_intros split: option.splits)

lemma emits_production_range [emits_intros]: "emits is_warning (production_range L aircraft)"
  unfolding production_range_def by (auto intro!: emits_intros split: sum.splits)

lemma emits_check_unit [emits_intros]: "emits is_warning (check_unit L p v metric unit)"
  unfolding check_unit_def by (auto intro!: emits_intros split: option.splits)

lemma emits_check_sign [emits_intros]: "emits is_warning (check_sign L p v number)"
  unfolding check_sign_def by (auto intro!: emits_intros)

lemma emits_measurement_item [emits_intros]:
  "emits is_warning (measurement_item L path mapping entry)"
  unfolding measurement_item_def Let_def by (auto intro!: emits_intros split: option.splits)

lemma emits_measurements [emits_intros]: "emits is_warning (measurements L obj path mapping)"
  unfolding measurements_def by (auto intro!: emits_intros)

lemma emits_cost_item [emits_intros]: "emits is_warning (cost_item L entry)"
  unfolding cost_item_def Let_def by (auto intro!: emits_intros)

lemma emits_cost_items [emits_intros]: "emits is_warning (cost_items L obj)"
  unfolding cost_items_def by (auto intro!: emits_intros)

lemma emits_image_item [emits_intros]: "emits is_warning (image_item L entry)"
  unfolding image_item_def Let_def by (auto intro!: emits_intros split: json.splits option.splits)

lemma emits_image_items [emits_intros]: "emits is_warning (image_items L v)"
  unfolding image_items_def by (auto intro!: emits_intros split: json.splits option.splits)

lemma emits_opt_issue [emits_intros]:
  "(\<And>x. emits P (f x)) \<Longrightarrow> emits P (opt_issue f v)"
  unfolding opt_issue_def by (auto intro!: emits_intros split: option.splits)

lemma emits_propulsion_input [emits_intros]:
  "emits is_warning (propulsion_input L category horsepower thrust engine_count engine)"
  unfolding propulsion_input_def by (auto intro!: emits_intros)

lemma emits_report_unknown_fields [emits_intros]: "emits is_warning (report_unknown_fields L obj)"
  by (induction L obj rule: report_unknown_fields.induct) (auto intro!: emits_intros)

abbreviation any_issue :: "IngestIssue \<Rightarrow> bool" where
  "any_issue \<equiv> \<lambda>_. True"

lemma emits_any: "emits is_warning m \<Longrightarrow> emits any_issue m"
  by (erule emits_mono) simp

lemma emits_record_checks: "emits any_issue (record_checks L manufacturer aircraft obj)"
  unfolding record_checks_def by (auto intro!: emits_intros emits_any [OF emits_report_unknown_fields])

lemma emits_years_check: "emits any_issue (years_check L start fin)"
  unfolding years_check_def by (auto intro!: emits_intros split: sum.splits)

lemma emits_production_years: "emits any_issue (production_years L aircraft obj)"
  unfolding production_years_def Let_def
  by (auto intro!: emits_intros emits_years_check
      emits_any [OF emits_production_range] emits_any [OF emits_boolean] emits_any [OF emits_integer])

definition errors_of :: "'a issues \<Rightarrow> IngestIssue list" where
  "errors_of m = filter is_error (emitted m)"

lemma errors_of_warnings: "emits is_warning m \<Longrightarrow> errors_of m = []"
  using emits_all [of is_warning m]
  by (auto simp: errors_of_def filter_empty_conv list_all_iff is_error_iff)

lemma errors_of_bind:
  assumes "emits any_issue m" and "\<And>x. emits any_issue (f x)"
  shows "errors_of (State_Monad.bind m f) = errors_of m @ errors_of (f (outcome m))"
  by (simp add: errors_of_def emitted_bind [OF assms])

lemma errors_of_bind_warnings:
  assumes "emits is_warning m" and "\<And>x. emits any_issue (f x)"
  shows "errors_of (State_Monad.bind m f) = errors_of (f (outcome m))"
  by (simp add: errors_of_bind [OF emits_any [OF assms(1)] assms(2)] errors_of_warnings [OF assms(1)])

lemma errors_of_record_checks:
  "errors_of (record_checks L manufacturer aircraft obj) = [] \<longleftrightarrow>
     trim manufacturer \<noteq> [] \<and> trim aircraft \<noteq> []"
proof -
  have "errors_of (record_checks L manufacturer aircraft obj) =
      errors_of (push_when (trim manufacturer = [])
        (mk_issue L ''MANUFACTURER_NAME_EMPTY'' SevError ''$.<manufacturer>''
          ''manufacturer key must not be empty'' None)) @
      errors_of (push_when (trim aircraft = [])
        (mk_issue L ''AIRCRAFT_NAME_EMPTY'' SevError ''$.<manufacturer>.<aircraft>''
          ''aircraft key must not be empty'' None)) @
      errors_of (report_unknown_fields L obj)"
    unfolding record_checks_def
    by (simp add: errors_of_bind emits_intros emits_any [OF emits_report_unknown_fields])
  also have "errors_of (report_unknown_fields L obj) = []"
    by (rule errors_of_warnings [OF emits_report_unknown_fields])
  finally show ?thesis by (simp add: errors_of_def is_error_iff)
qed

lemma errors_of_years_check:
  "errors_of (years_check L start fin) = [] \<longleftrightarrow> is_ok (ProductionYears_new start fin)"
  by (cases "ProductionYears_new start fin")
     (simp_all add: years_check_def errors_of_def is_error_iff)

text \<open>The years the record ends up with are the years that were checked.\<close>

lemma errors_of_production_years:
  "errors_of (production_years L aircraft obj) = [] \<longleftrightarrow>
     (case outcome (production_years L aircraft obj) of (_, start, fin) \<Rightarrow>
        is_ok (ProductionYears_new start fin))"
proof -
  obtain ns ne nb where named: "outcome (production_range L aircraft) = (ns, ne, nb)"
    by (cases "outcome (production_range L aircraft)") auto
  let ?start = "option_or (outcome (integer L parse_i16 obj ''start_year'')) ns"
  let ?fin = "option_or (outcome (integer L parse_i16 obj ''end_year'')) ne"
  let ?b = "outcome (boolean L obj ''in_production'')"
  have tail: "emits any_issue (do { years_check L s e; State_Monad.return (x s e) })"
    for x :: "int option \<Rightarrow> int option \<Rightarrow> bool option \<times> int option \<times> int option" and s e
    by (auto intro!: emits_intros emits_years_check)
  note rules = errors_of_bind_warnings emitted_bind(2) [of any_issue] emits_intros tail
    emits_years_check emits_any [OF emits_production_range] emits_any [OF emits_boolean]
    emits_any [OF emits_integer]
  have "errors_of (production_years L aircraft obj) = errors_of (years_check L ?start ?fin)"
    unfolding production_years_def Let_def
    by (simp add: rules named errors_of_bind errors_of_warnings)
  moreover have "outcome (production_years L aircraft obj) = (option_or ?b nb, ?start, ?fin)"
    unfolding production_years_def Let_def
    by (simp add: rules named)
  ultimately show ?thesis by (simp add: errors_of_years_check)
qed

subsection \<open>Which records are blocked\<close>

lemma emits_normalize_rest: "emits is_warning (normalize_rest L m a obj d y)"
  unfolding normalize_rest_def Let_def by (intro emits_intros)

text \<open>What follows each phase appends to the log and nothing else.\<close>

lemma emits_any_rest: "emits any_issue (normalize_rest L m a obj d y)"
  by (rule emits_any [OF emits_normalize_rest])

lemma emits_from_years:
  "emits any_issue (do { y \<leftarrow> production_years L a obj; normalize_rest L m a obj d y })"
  by (intro emits_bind emits_production_years emits_any_rest)

lemma emits_from_description:
  "emits any_issue (do { d \<leftarrow> scalar L (get obj ''description'') ''description'';
     y \<leftarrow> production_years L a obj; normalize_rest L m a obj d y })"
  by (intro emits_bind emits_any [OF emits_scalar] emits_from_years)

lemma errors_of_normalize_object:
  "errors_of (normalize_object L m a obj) =
     errors_of (record_checks L m a obj) @ errors_of (production_years L a obj)"
  unfolding normalize_object_def
  by (simp add: errors_of_bind [OF emits_record_checks emits_from_description]
      errors_of_bind_warnings [OF emits_scalar emits_from_years]
      errors_of_bind [OF emits_production_years emits_any_rest]
      errors_of_warnings [OF emits_normalize_rest])

lemma emits_normalize_object: "emits any_issue (normalize_object L m a obj)"
  unfolding normalize_object_def
  by (intro emits_bind emits_record_checks emits_from_description)

lemma normalize_record_object:
  "normalize_record L m a (JObject obj) =
     outcome (normalize_object L m a obj) \<lparr> rec_issues := emitted (normalize_object L m a obj) \<rparr>"
  by (simp add: normalize_record_def outcome_def emitted_def split: prod.splits)

lemma outcome_normalize_object:
  "\<exists>d. outcome (normalize_object L m a obj) =
     outcome (normalize_rest L m a obj d (outcome (production_years L a obj)))"
  unfolding normalize_object_def
  by (simp add: emitted_bind(2) [OF emits_record_checks emits_from_description]
      emitted_bind(2) [OF emits_any [OF emits_scalar] emits_from_years]
      emitted_bind(2) [OF emits_production_years emits_any_rest]) blast

text \<open>The fields of the record, each by the computation that produced it.\<close>

lemma yields_rest_fields:
  "yields (\<lambda>r.
     source_record_key r = record_key (sha256 L) m a \<and>
     source_system_key (rec_provenance r) = record_key (sha256 L) m a \<and>
     production_start_year (rec_lifecycle r) = fst (snd y) \<and>
     production_end_year (rec_lifecycle r) = snd (snd y) \<and>
     performance_measurements (rec_performance r) =
       outcome (measurements L (outcome (nested L obj ''performance'')) ''performance'' perf_code) \<and>
     weight_measurements (rec_weights r) =
       outcome (measurements L (outcome (nested L obj ''weights'')) ''weights'' weight_code) \<and>
     cost_line_items (rec_operating_costs r) =
       outcome (cost_items L (outcome (nested L obj ''ownership_costs''))) \<and>
     rec_images r = outcome (image_items L (get obj ''images'')) \<and>
     raw_document r = JObject obj)
   (normalize_rest L m a obj d y)"
  unfolding normalize_rest_def Let_def
  by (intro yields_case_prod; (rule yields_bind_outcome, (rule emits_intros)+)+;
      rule yields_return) simp

lemma normalized_fields:
  defines "r L m a obj \<equiv> outcome (normalize_object L m a obj)"
  shows "source_record_key (r L m a obj) = record_key (sha256 L) m a"
    and "source_system_key (rec_provenance (r L m a obj)) = record_key (sha256 L) m a"
    and "performance_measurements (rec_performance (r L m a obj)) =
       outcome (measurements L (outcome (nested L obj ''performance'')) ''performance'' perf_code)"
    and "weight_measurements (rec_weights (r L m a obj)) =
       outcome (measurements L (outcome (nested L obj ''weights'')) ''weights'' weight_code)"
    and "cost_line_items (rec_operating_costs (r L m a obj)) =
       outcome (cost_items L (outcome (nested L obj ''ownership_costs'')))"
    and "rec_images (r L m a obj) = outcome (image_items L (get obj ''images''))"
    and "raw_document (r L m a obj) = JObject obj"
  using outcome_normalize_object [of L m a obj] yields_outcome [OF yields_rest_fields]
  unfolding r_def by fastforce+

lemma normalized_years:
  "production_start_year (rec_lifecycle (outcome (normalize_object L m a obj))) =
     fst (snd (outcome (production_years L a obj)))"
  "production_end_year (rec_lifecycle (outcome (normalize_object L m a obj))) =
     snd (snd (outcome (production_years L a obj)))"
  using outcome_normalize_object [of L m a obj] yields_outcome [OF yields_rest_fields] by fastforce+

text \<open>A record the preflight refuses.\<close>

definition has_error :: "PreparedAircraftRecord \<Rightarrow> bool" where
  "has_error r \<longleftrightarrow> list_ex is_error (rec_issues r)"

lemma has_error_errors_of:
  "list_ex is_error (emitted m) \<longleftrightarrow> errors_of m \<noteq> []"
  by (auto simp: errors_of_def list_ex_iff filter_empty_conv)

text \<open>
  C21: a record is free of error-level issues, so not blocked, exactly when the source value is an object,
  both names have text after trimming, and the domain's \<open>ProductionYears::new\<close> takes the production
  years the record carries; every other irregularity is a warning.
\<close>

theorem normalize_record_blocked_iff:
  "\<not> has_error (normalize_record L m a raw) \<longleftrightarrow>
     (\<exists>obj. raw = JObject obj) \<and> trim m \<noteq> [] \<and> trim a \<noteq> [] \<and>
     is_ok (ProductionYears_new
         (production_start_year (rec_lifecycle (normalize_record L m a raw)))
         (production_end_year (rec_lifecycle (normalize_record L m a raw))))"
proof (cases "\<exists>obj. raw = JObject obj")
  case True
  then obtain obj where raw: "raw = JObject obj" by blast
  show ?thesis
    using errors_of_record_checks [of L m a obj] errors_of_production_years [of L a obj]
    by (cases "outcome (production_years L a obj)")
       (auto simp: raw normalize_record_object has_error_def has_error_errors_of
         errors_of_normalize_object normalized_years)
next
  case False
  then have "has_error (normalize_record L m a raw)"
    by (cases raw) (simp_all add: normalize_record_def empty_record_def Let_def has_error_def is_error_iff)
  with False show ?thesis by blast
qed

subsection \<open>No stated value is lost\<close>

definition object_member :: "json_object \<Rightarrow> string \<Rightarrow> json_object option" where
  "object_member obj field =
     (case get obj field of Some (JObject v) \<Rightarrow> Some v | _ \<Rightarrow> None)"

lemma outcome_nested [simp]: "outcome (nested L obj field) = object_member obj field"
proof -
  have "yields (\<lambda>r. r = object_member obj field) (nested L obj field)"
    unfolding nested_def object_member_def
    by (auto intro!: yields_intros yields_bind_any split: option.splits json.splits)
  then show ?thesis by (rule yields_outcome)
qed

lemma yields_scalar: "yields (\<lambda>r. r = Option.bind v value_text) (scalar L v field)"
  unfolding scalar_def
  by (auto intro!: yields_intros yields_bind_any split: option.splits json.splits)

text \<open>What the source states in a member list: each readable member with its text, in order.\<close>

definition stated :: "(string \<Rightarrow> bool) \<Rightarrow> json_object option \<Rightarrow> (string \<times> string) list" where
  "stated skip members =
     List.map_filter (\<lambda>(k, v). if skip k then None else map_option (Pair k) (value_text v))
       (case members of None \<Rightarrow> [] | Some ms \<Rightarrow> ms)"

lemma yields_measurement_item_stated:
  "yields (\<lambda>v. map_option (\<lambda>i. (mi_source_field i, mi_raw_value i)) v =
       (if path = ''performance'' \<and> fst entry \<in> {''horsepower'', ''thrust''} then None
        else map_option (Pair (fst entry)) (value_text (snd entry))))
     (measurement_item L path mapping entry)"
  unfolding measurement_item_def Let_def
  by (auto intro!: yields_intros yields_bind_any yields_bind [OF yields_scalar])

lemma outcome_measurements_stated:
  "map (\<lambda>i. (mi_source_field i, mi_raw_value i)) (outcome (measurements L obj path mapping)) =
     stated (\<lambda>k. path = ''performance'' \<and> k \<in> {''horsepower'', ''thrust''}) obj"
proof (cases obj)
  case (Some ms)
  show ?thesis unfolding Some measurements_def stated_def option.case
    by (rule yields_outcome, rule yields_traverse_map_filter,
        rule yields_mono [OF yields_measurement_item_stated]) (auto split: prod.splits)
qed (simp add: measurements_def stated_def map_filter_simps)

lemma yields_cost_item_stated:
  "yields (\<lambda>v. map_option (\<lambda>i. (ci_source_key i, ci_raw_value i)) v =
       map_option (Pair (fst entry)) (value_text (snd entry)))
     (cost_item L entry)"
  unfolding cost_item_def Let_def
  by (auto intro!: yields_intros yields_bind_any yields_bind [OF yields_scalar])

lemma outcome_cost_items_stated:
  "map (\<lambda>i. (ci_source_key i, ci_raw_value i)) (outcome (cost_items L obj)) = stated (\<lambda>_. False) obj"
proof (cases obj)
  case (Some ms)
  show ?thesis unfolding Some cost_items_def stated_def option.case
    by (rule yields_outcome, rule yields_traverse_map_filter,
        rule yields_mono [OF yields_cost_item_stated]) (auto split: prod.splits)
qed (simp add: cost_items_def stated_def map_filter_simps)


subsection \<open>Measurements fit for promotion\<close>

lemma unit_code_classified: "unit_code raw = Some u \<Longrightarrow> \<exists>d. unit_dimension u = Some d"
  by (auto simp: unit_code_def unit_dimension_def split: if_splits)

lemma perf_code_classified: "perf_code field = Some metric \<Longrightarrow> metric_dimensions metric \<noteq> []"
  by (auto simp: perf_code_def metric_dimensions_def split: if_splits)

lemma weight_code_classified: "weight_code field = Some metric \<Longrightarrow> metric_dimensions metric \<noteq> []"
  by (auto simp: weight_code_def metric_dimensions_def split: if_splits)

text \<open>A number that is kept is well-formed and not negative; a unit that is kept beside a metric
  measures a dimension the metric accepts.\<close>

definition promotable :: "MeasurementInput \<Rightarrow> bool" where
  "promotable i \<longleftrightarrow>
     (\<forall>n. mi_numeric_value i = Some n \<longrightarrow> numeric_shape n \<and> \<not> starts_with ''-'' n) \<and>
     (\<forall>u. mi_unit_code i = Some u \<longrightarrow> Option.bind (mi_raw_unit i) unit_code = Some u) \<and>
     (\<forall>metric u. mi_metric_code i = Some metric \<longrightarrow> mi_unit_code i = Some u \<longrightarrow>
        (\<exists>d. unit_dimension u = Some d \<and> d \<in> set (metric_dimensions metric)))"

lemma yields_unit_check:
  assumes classified: "\<And>field metric. mapping field = Some metric \<Longrightarrow> metric_dimensions metric \<noteq> []"
    and unit: "unit = Option.bind raw_unit unit_code"
  shows "yields (\<lambda>u'. \<forall>u. u' = Some u \<longrightarrow> unit = Some u \<and>
      (\<forall>metric. mapping field = Some metric \<longrightarrow>
         (\<exists>d. unit_dimension u = Some d \<and> d \<in> set (metric_dimensions metric))))
     (check_unit L p v (mapping field) unit)"
proof (cases "mapping field"; cases unit)
  fix metric u
  assume metric: "mapping field = Some metric" and u: "unit = Some u"
  then obtain d where d: "unit_dimension u = Some d"
    using unit unit_code_classified by (auto simp: bind_eq_Some_conv)
  with metric u classified [OF metric] show ?thesis
    by (auto intro!: yields_intros yields_bind_any simp: unit_fits_metric_def check_unit_def)
qed (auto intro!: yields_intros simp: check_unit_def)

lemma yields_sign_check:
  "yields (\<lambda>n'. \<forall>n. n' = Some n \<longrightarrow> number = Some n \<and> \<not> starts_with ''-'' n)
     (check_sign L p v number)"
  unfolding check_sign_def by (auto intro!: yields_intros yields_bind_any split: option.splits)

lemma yields_measurement_item_promotable:
  assumes classified: "\<And>field metric. mapping field = Some metric \<Longrightarrow> metric_dimensions metric \<noteq> []"
  shows "yields (\<lambda>v. \<forall>i. v = Some i \<longrightarrow> promotable i) (measurement_item L path mapping entry)"
  unfolding measurement_item_def Let_def
  by (intro yields_case_prod yields_if yields_case_option yields_return yields_bind_any
      yields_bind [OF yields_unit_check [OF classified refl]] yields_bind [OF yields_sign_check])
     (auto simp: promotable_def dest: parse_numeric_shape)

lemma outcome_measurements_promotable:
  assumes "\<And>field metric. mapping field = Some metric \<Longrightarrow> metric_dimensions metric \<noteq> []"
  shows "list_all promotable (outcome (measurements L obj path mapping))"
proof (cases obj)
  case (Some ms)
  show ?thesis unfolding Some measurements_def option.case
    by (rule yields_outcome, rule yields_traverse_filter,
        rule yields_measurement_item_promotable [OF assms])
qed (simp add: measurements_def)

lemma performance_promotable: "list_all promotable (outcome (measurements L obj path perf_code))"
  by (rule outcome_measurements_promotable) (rule perf_code_classified)

lemma weights_promotable: "list_all promotable (outcome (measurements L obj path weight_code))"
  by (rule outcome_measurements_promotable) (rule weight_code_classified)

lemma normalize_record_not_object:
  assumes "\<nexists>obj. raw = JObject obj"
  shows "normalize_record L m a raw =
     empty_record L m a raw [mk_issue L ''RECORD_NOT_OBJECT'' SevError ''$''
       ''aircraft record must be a JSON object'' (Some raw)]"
  using assms by (cases raw) (simp_all add: normalize_record_def)

text \<open>
  a measurement of a prepared record carries a numeric value only if it is a well-formed,
  non-negative decimal, and a unit beside a metric only if that unit measures a dimension the
  metric accepts.
\<close>

theorem normalize_record_measurements_promotable:
  "list_all promotable
     (performance_measurements (rec_performance (normalize_record L m a raw)) @
      weight_measurements (rec_weights (normalize_record L m a raw)))"
proof (cases "\<exists>obj. raw = JObject obj")
  case True
  then obtain obj where "raw = JObject obj" by blast
  then show ?thesis
    by (simp add: normalize_record_object normalized_fields performance_promotable weights_promotable)
next
  case False
  then show ?thesis by (simp add: normalize_record_not_object empty_record_def Let_def)
qed

subsection \<open>Images\<close>

definition image_href :: "json \<Rightarrow> string option" where
  "image_href img = (case img of JObject obj \<Rightarrow> Option.bind (get obj ''href'') value_text | _ \<Rightarrow> None)"

text \<open>The images that can be kept: a usable link at a position that fits the column.\<close>

definition usable_images :: "json list \<Rightarrow> (int \<times> string) list" where
  "usable_images images =
     List.map_filter (\<lambda>(p, img). if int p \<le> i16_max then map_option (Pair (int p)) (image_href img) else None)
       (List.enumerate 0 images)"

lemma yields_image_item:
  "yields (\<lambda>v. map_option (\<lambda>i. (array_position i, href_raw i)) v =
       (case entry of (p, img) \<Rightarrow>
          if int p \<le> i16_max then map_option (Pair (int p)) (image_href img) else None))
     (image_item L entry)"
  unfolding image_item_def Let_def image_href_def
  by (auto intro!: yields_intros yields_bind_any split: json.splits option.splits)

lemma yields_image_item_secondary:
  "yields (\<lambda>v. \<forall>i. v = Some i \<longrightarrow> \<not> is_primary i) (image_item L entry)"
  unfolding image_item_def Let_def
  by (auto intro!: yields_intros yields_bind_any split: json.splits option.splits)

lemma yields_both: "yields Q m \<Longrightarrow> yields R m \<Longrightarrow> yields (\<lambda>x. Q x \<and> R x) m"
  by (simp add: yields_def)

lemma map_mark_first_primary:
  "(\<And>i b. g (i \<lparr> is_primary := b \<rparr>) = g i) \<Longrightarrow> map g (mark_first_primary items) = map g items"
  by (cases items) (simp_all add: mark_first_primary_def)

lemma mark_first_primary_flags:
  "list_all (\<lambda>i. \<not> is_primary i) items \<Longrightarrow>
     map is_primary (mark_first_primary items) = map (\<lambda>n. n = 0) [0..<length items]"
proof (cases items)
  case (Cons i rest)
  assume "list_all (\<lambda>i. \<not> is_primary i) items"
  then have "map is_primary rest = replicate (length rest) False"
    using Cons by (auto simp: map_eq_conv list_all_iff simp flip: map_replicate_const)
  moreover have "map (\<lambda>n. n = 0) [0..<Suc k] = True # replicate k False" for k
    by (rule nth_equalityI) (auto simp: nth_Cons simp del: upt_Suc split: nat.splits)
  ultimately show ?thesis by (simp add: Cons mark_first_primary_def del: upt_Suc)
qed (simp add: mark_first_primary_def)

lemma length_mark_first_primary [simp]: "length (mark_first_primary items) = length items"
  by (cases items) (simp_all add: mark_first_primary_def)

definition images_ok :: "json option \<Rightarrow> ImageMetadataInput list \<Rightarrow> bool" where
  "images_ok v items \<longleftrightarrow>
     map (\<lambda>i. (array_position i, href_raw i)) items =
       (case v of Some (JArray images) \<Rightarrow> usable_images images | _ \<Rightarrow> []) \<and>
     map is_primary items = map (\<lambda>n. n = 0) [0..<length items]"

lemma yields_image_loop:
  "yields (\<lambda>xs. map (\<lambda>i. (array_position i, href_raw i)) xs = usable_images images \<and>
      list_all (\<lambda>i. \<not> is_primary i) xs) (traverse_filter (image_item L) (List.enumerate 0 images))"
  unfolding usable_images_def
  by (intro yields_both yields_traverse_map_filter yields_traverse_filter
      yields_image_item yields_image_item_secondary)

lemma yields_image_items: "yields (images_ok v) (image_items L v)"
proof (cases v)
  case None
  then show ?thesis by (simp add: image_items_def images_ok_def yields_return)
next
  case (Some j)
  show ?thesis
  proof (cases "\<exists>images. j = JArray images")
    case True
    then obtain images where "j = JArray images" by blast
    with Some show ?thesis unfolding image_items_def
      by (auto intro!: yields_bind [OF yields_image_loop] yields_return
          simp: images_ok_def map_mark_first_primary mark_first_primary_flags)
  next
    case False
    with Some show ?thesis unfolding image_items_def
      by (cases j) (auto intro!: yields_bind_any yields_return simp: images_ok_def)
  qed
qed

lemma usable_images_positions:
  "sorted_wrt (<) (map fst (usable_images images)) \<and>
   (\<forall>(p, _) \<in> set (usable_images images). 0 \<le> p \<and> p \<le> i16_max)"
proof -
  have "sorted_wrt (<) (map fst ps) \<and> (\<forall>(p, _) \<in> set ps. int k \<le> p \<and> p \<le> i16_max)"
    if "ps = List.map_filter (\<lambda>(p, img). if int p \<le> i16_max
          then map_option (Pair (int p)) (image_href img) else None) (List.enumerate k images)"
    for k ps
    using that
  proof (induction images arbitrary: k ps)
    case (Cons img images)
    from Cons.IH [OF refl, of "Suc k"] show ?case
      by (auto simp: Cons.prems map_filter_simps split: option.splits if_splits)
  qed (simp add: map_filter_simps)
  from this [OF refl, of 0] show ?thesis by (simp add: usable_images_def)
qed

text \<open>
  the images of a prepared record are the entries of the \<open>images\<close> array that have a usable
  link and a position that fits a 16-bit column, in source order, and the first of them, and no
  other, is primary.
\<close>

theorem normalize_record_images:
  "images_ok (get obj ''images'') (rec_images (normalize_record L m a (JObject obj)))"
  unfolding normalize_record_object
  by (simp add: normalized_fields yields_outcome [OF yields_image_items])

subsection \<open>What is not promoted is explained\<close>

definition warned :: "string set \<Rightarrow> string \<Rightarrow> IngestIssue set \<Rightarrow> bool" where
  "warned codes path iss \<longleftrightarrow>
     (\<exists>w \<in> iss. is_warning w \<and> issue_field_path w = path \<and> issue_code w \<in> codes)"

lemma warned_mono: "warned codes path A \<Longrightarrow> A \<subseteq> B \<Longrightarrow> warned codes path B"
  by (auto simp: warned_def)

text \<open>Every missing part of a measurement has a warning on the measurement's path.\<close>

definition explained :: "string \<Rightarrow> MeasurementInput \<Rightarrow> IngestIssue set \<Rightarrow> bool" where
  "explained path i iss \<longleftrightarrow>
     (let p = path @ ''.'' @ mi_source_field i in
      (mi_metric_code i = None \<longrightarrow> warned {''UNMAPPED_MEASUREMENT_FIELD''} p iss) \<and>
      (mi_numeric_value i = None \<longrightarrow>
         warned {''MEASUREMENT_PARSE_FAILURE'', ''NEGATIVE_MEASUREMENT''} p iss) \<and>
      (mi_unit_code i = None \<and> mi_metric_code i \<noteq> None \<and> mi_numeric_value i \<noteq> None \<longrightarrow>
         warned {''UNKNOWN_MEASUREMENT_UNIT'', ''MISSING_MEASUREMENT_UNIT'',
           ''INCOMPATIBLE_MEASUREMENT_UNIT''} p iss))"

lemma explained_mono: "explained path i A \<Longrightarrow> A \<subseteq> B \<Longrightarrow> explained path i B"
  unfolding explained_def Let_def using warned_mono by blast

lemma warned_insert [simp]:
  "warned codes path (insert w A) \<longleftrightarrow>
     is_warning w \<and> issue_field_path w = path \<and> issue_code w \<in> codes \<or> warned codes path A"
  by (auto simp: warned_def)

lemma warned_Un [simp]: "warned codes path (A \<union> B) \<longleftrightarrow> warned codes path A \<or> warned codes path B"
  by (auto simp: warned_def)

lemma warned_when [simp]:
  "warned codes path {x. x = w \<and> c} \<longleftrightarrow>
     c \<and> is_warning w \<and> issue_field_path w = path \<and> issue_code w \<in> codes"
  by (auto simp: warned_def)

lemma check_unit_warns:
  assumes "outcome (check_unit L p v (Some metric) (Some u)) = None"
    and "''INCOMPATIBLE_MEASUREMENT_UNIT'' \<in> codes"
  shows "warned codes p (set (emitted (check_unit L p v (Some metric) (Some u))))"
  using assms
  by (auto simp: check_unit_def warned_def emitted_bind [of is_warning] emits_intros split: if_splits)

lemma check_sign_warns:
  assumes "outcome (check_sign L p v (Some n)) = None" and "''NEGATIVE_MEASUREMENT'' \<in> codes"
  shows "warned codes p (set (emitted (check_sign L p v (Some n))))"
  using assms
  by (auto simp: check_sign_def warned_def emitted_bind [of is_warning] emits_intros split: if_splits)

lemma measurement_item_explained:
  assumes "outcome (measurement_item L path mapping entry) = Some i"
  shows "explained path i (set (emitted (measurement_item L path mapping entry)))"
proof -
  obtain field v where entry: "entry = (field, v)" by (cases entry)
  have keep: "(path = ''performance'' \<and> field \<in> {''horsepower'', ''thrust''}) = False"
    using assms by (auto simp: entry measurement_item_def)
  note run = emits_run [OF emits_scalar, of L "Some v" "path @ CHR ''.'' # field"]
  obtain raw where raw: "outcome (scalar L (Some v) (path @ CHR ''.'' # field)) = Some raw"
    using assms keep
    unfolding entry measurement_item_def prod.case keep if_False Let_def
    by (cases "outcome (scalar L (Some v) (path @ CHR ''.'' # field))")
       (auto simp: outcome_def [of "State_Monad.bind _ _"] run)
  let ?p = "path @ CHR ''.'' # field" and ?metric = "mapping field" and ?number = "parse_numeric raw"
  let ?unit = "Option.bind (parse_unit raw) unit_code"
  have i: "i = \<lparr> mi_source_field = field, mi_metric_code = ?metric, mi_raw_value = raw,
      mi_numeric_value = outcome (check_sign L ?p v ?number), mi_raw_unit = parse_unit raw,
      mi_unit_code = outcome (check_unit L ?p v ?metric ?unit) \<rparr>"
    using assms unfolding entry measurement_item_def prod.case keep if_False Let_def
    by (simp add: emitted_bind [of is_warning] emits_intros raw)
  have iss: "set (emitted (measurement_item L path mapping entry)) =
      set (emitted (scalar L (Some v) ?p)) \<union>
      ({x. x = mk_issue L ''UNMAPPED_MEASUREMENT_FIELD'' SevWarning ?p
             ''measurement is preserved as a pending assertion'' (Some v) \<and> ?metric = None} \<union>
       ({x. x = mk_issue L ''MEASUREMENT_PARSE_FAILURE'' SevWarning ?p
             ''measurement has no parseable numeric prefix'' (Some v) \<and> ?number = None} \<union>
        ({x. x = mk_issue L ''UNKNOWN_MEASUREMENT_UNIT'' SevWarning ?p
              ''unit is not mapped and will not be canonicalized'' (Some v) \<and>
              (\<exists>y. parse_unit raw = Some y) \<and> ?unit = None} \<union>
         ({x. x = mk_issue L ''MISSING_MEASUREMENT_UNIT'' SevWarning ?p
               ''measurement has no unit and will not be canonicalized'' (Some v) \<and>
               (\<exists>y. ?metric = Some y) \<and> (\<exists>y. ?number = Some y) \<and> parse_unit raw = None} \<union>
          (set (emitted (check_unit L ?p v ?metric ?unit)) \<union>
           set (emitted (check_sign L ?p v ?number)))))))"
    unfolding entry measurement_item_def prod.case keep if_False Let_def
    by (simp add: emitted_bind [of is_warning] emits_intros raw)
  have sign: "warned {''MEASUREMENT_PARSE_FAILURE'', ''NEGATIVE_MEASUREMENT''} ?p
      (set (emitted (check_sign L ?p v ?number)))"
    if "mi_numeric_value i = None" and "?number \<noteq> None"
    using that by (auto simp: i intro!: check_sign_warns)
  have unit: "warned {''UNKNOWN_MEASUREMENT_UNIT'', ''MISSING_MEASUREMENT_UNIT'',
        ''INCOMPATIBLE_MEASUREMENT_UNIT''} ?p (set (emitted (check_unit L ?p v ?metric ?unit)))"
    if "mi_unit_code i = None" and "?metric \<noteq> None" and "?unit \<noteq> None"
    using that by (auto simp: i intro!: check_unit_warns)
  have number: "?number \<noteq> None" if "mi_numeric_value i \<noteq> None"
    using that by (cases ?number) (simp_all add: i check_sign_def)
  show ?thesis unfolding iss explained_def Let_def
    using sign unit number by (cases "parse_unit raw"; cases ?unit; auto simp: i)
qed

lemma outcome_measurements_explained:
  "\<forall>i \<in> set (outcome (measurements L obj path mapping)).
     explained path i (set (emitted (measurements L obj path mapping)))"
proof (cases obj)
  case (Some ms)
  show ?thesis unfolding Some measurements_def option.case
    by (rule traverse_filter_accounts [where F = "explained path"])
       (auto intro: emits_measurement_item measurement_item_explained explained_mono)
qed (simp add: measurements_def)

lemmas into_rest = emitted_bind_right [where P = is_warning]

lemma rest_records_performance:
  "set (emitted (measurements L (object_member obj ''performance'') ''performance'' perf_code))
     \<subseteq> set (emitted (normalize_rest L m a obj d y))"
proof (cases y; cases "case d of None \<Rightarrow> (None, None) | Some x \<Rightarrow> occupants x")
  fix b s e p c
  assume y: "y = (b, s, e)" and "(case d of None \<Rightarrow> (None, None) | Some x \<Rightarrow> occupants x) = (p, c)"
  then show ?thesis
    unfolding normalize_rest_def Let_def
    by (simp only: prod.case, simp only: flip: outcome_nested [of L])
       (rule into_rest, (rule emits_intros)+, rule into_rest, (rule emits_intros)+,
        rule into_rest, (rule emits_intros)+, rule into_rest, (rule emits_intros)+,
        rule emitted_bind_left [where P = is_warning], (rule emits_intros)+)
qed

lemma rest_records_weights:
  "set (emitted (measurements L (object_member obj ''weights'') ''weights'' weight_code))
     \<subseteq> set (emitted (normalize_rest L m a obj d y))"
proof (cases y; cases "case d of None \<Rightarrow> (None, None) | Some x \<Rightarrow> occupants x")
  fix b s e p c
  assume y: "y = (b, s, e)" and "(case d of None \<Rightarrow> (None, None) | Some x \<Rightarrow> occupants x) = (p, c)"
  then show ?thesis
    unfolding normalize_rest_def Let_def
    by (simp only: prod.case, simp only: flip: outcome_nested [of L])
       (rule into_rest, (rule emits_intros)+, rule into_rest, (rule emits_intros)+,
        rule into_rest, (rule emits_intros)+, rule into_rest, (rule emits_intros)+,
        rule into_rest, (rule emits_intros)+,
        rule emitted_bind_left [where P = is_warning], (rule emits_intros)+)
qed

lemma rest_issues_kept:
  "set (emitted (normalize_rest L m a obj
       (outcome (scalar L (get obj ''description'') ''description''))
       (outcome (production_years L a obj)))) \<subseteq> set (emitted (normalize_object L m a obj))"
  unfolding normalize_object_def
  by (simp add: emitted_bind [OF emits_record_checks emits_from_description]
      emitted_bind [OF emits_any [OF emits_scalar] emits_from_years]
      emitted_bind [OF emits_production_years emits_any_rest]) blast

text \<open>
  a measurement that keeps no metric, no number or no unit is explained: the record's issues hold
  a warning on that measurement's path that names the reason.
\<close>

theorem normalize_record_explains_measurements:
  fixes L :: "'u libs"
  shows "let r = normalize_record L m a (JObject obj) in
     list_all (\<lambda>i. explained ''performance'' i (set (rec_issues r)))
       (performance_measurements (rec_performance r)) \<and>
     list_all (\<lambda>i. explained ''weights'' i (set (rec_issues r))) (weight_measurements (rec_weights r))"
  using outcome_measurements_explained [of L "object_member obj ''performance''" "''performance''" perf_code]
    outcome_measurements_explained [of L "object_member obj ''weights''" "''weights''" weight_code]
    subset_trans [OF rest_records_performance rest_issues_kept]
    subset_trans [OF rest_records_weights rest_issues_kept]
  by (simp add: Let_def normalize_record_object normalized_fields list_all_iff) (blast intro: explained_mono)

end
