(* ===== verification/Artifact.thy ===== *)
theory Artifact
  imports Source_Text
begin

text \<open>
  \<open>aircraft_ingest::artifact\<close>: the input is copied in chunks into a temporary file while it is
  hashed and measured; a read or write that fails, or an input over the limit, stops the copy.
  The reader is the list of what its successive \<open>read\<close> calls return, and \<open>write_fault\<close> says at
  which file length a write fails; both are the operating system's.
\<close>

definition DEFAULT_MAX_INPUT_BYTES :: nat where
  "DEFAULT_MAX_INPUT_BYTES = 512 * 1024 * 1024"

datatype ArtifactError =
    OpenFailed string string
  | ReadFailed string
  | TemporaryFile string
  | InputTooLarge nat

datatype read_result = Chunk string | ReadFault string

record capture_state =
  cap_hashed :: string
  cap_file :: string
  cap_length :: nat

record InputArtifact =
  art_descriptor :: ArtifactDescriptor
  art_file :: string

definition sanitize_locator :: "string \<Rightarrow> string" where
  "sanitize_locator locator = bounded_printable 255 locator"

text \<open>The loop of \<open>capture\<close>. An empty chunk, or no further read, is the end of the input.\<close>

fun capture_loop ::
  "(nat \<Rightarrow> string option) \<Rightarrow> nat \<Rightarrow> read_result list \<Rightarrow> capture_state \<Rightarrow> capture_state \<times> (ArtifactError + unit)"
where
  "capture_loop write_fault max_bytes [] st = (st, Inr ())"
| "capture_loop write_fault max_bytes (ReadFault e # _) st = (st, Inl (ReadFailed e))"
| "capture_loop write_fault max_bytes (Chunk bytes # rest) st =
     (if bytes = [] then (st, Inr ())
      else
        (let total = cap_length st + length bytes in
         if total > u64_max then (st, Inl (InputTooLarge max_bytes))
         else if total > max_bytes then (st \<lparr> cap_length := total \<rparr>, Inl (InputTooLarge max_bytes))
         else
           (let hashed = st \<lparr> cap_length := total, cap_hashed := cap_hashed st @ bytes \<rparr> in
            case write_fault (length (cap_file st)) of
              Some e \<Rightarrow> (hashed, Inl (TemporaryFile e))
            | None \<Rightarrow> capture_loop write_fault max_bytes rest
                        (hashed \<lparr> cap_file := cap_file st @ bytes \<rparr>))))"

text \<open>\<open>create_fault\<close> and \<open>flush_fault\<close> are the first and the last use of the file; \<open>now\<close> is the clock.\<close>

definition capture ::
  "(string \<Rightarrow> string) \<Rightarrow> string option \<Rightarrow> (nat \<Rightarrow> string option) \<Rightarrow> string option \<Rightarrow> int \<Rightarrow> read_result list \<Rightarrow> string \<Rightarrow> nat \<Rightarrow>
     ArtifactError + InputArtifact" where
  "capture sha create_fault write_fault flush_fault now input locator max_bytes =
     (case create_fault of Some e \<Rightarrow> Inl (TemporaryFile e) | None \<Rightarrow>
      (case capture_loop write_fault max_bytes input
         \<lparr> cap_hashed = [], cap_file = [], cap_length = 0 \<rparr> of
        (st, Inl e) \<Rightarrow> Inl e
      | (st, Inr _) \<Rightarrow>
          (case flush_fault of
             Some e \<Rightarrow> Inl (TemporaryFile e)
           | None \<Rightarrow> Inr
               \<lparr> art_descriptor =
                   \<lparr> content_sha256 = hex_digest (sha (cap_hashed st)), byte_length = cap_length st,
                     display_locator = sanitize_locator locator, captured_at = now \<rparr>,
                 art_file = cap_file st \<rparr>)))"

text \<open>\<open>capture_path\<close>: open, then capture under the file's own name.\<close>

definition capture_path ::
  "(string \<Rightarrow> string) \<Rightarrow> string option \<Rightarrow> (nat \<Rightarrow> string option) \<Rightarrow> string option \<Rightarrow> int \<Rightarrow> string option \<Rightarrow>
     string + read_result list \<Rightarrow> nat \<Rightarrow> ArtifactError + InputArtifact" where
  "capture_path sha create_fault write_fault flush_fault now file_name opened max_bytes =
     (let locator = (case file_name of None \<Rightarrow> ''<file>'' | Some n \<Rightarrow> sanitize_locator n) in
      case opened of
        Inl e \<Rightarrow> Inl (OpenFailed locator e)
      | Inr input \<Rightarrow> capture sha create_fault write_fault flush_fault now input locator max_bytes)"

definition capture_stdin ::
  "(string \<Rightarrow> string) \<Rightarrow> string option \<Rightarrow> (nat \<Rightarrow> string option) \<Rightarrow> string option \<Rightarrow> int \<Rightarrow> read_result list \<Rightarrow> nat \<Rightarrow>
     ArtifactError + InputArtifact" where
  "capture_stdin sha create_fault write_fault flush_fault now input max_bytes =
     capture sha create_fault write_fault flush_fault now input ''<stdin>'' max_bytes"

subsection \<open>What a capture holds\<close>

text \<open>The bytes the reader delivers before it ends.\<close>

fun delivered :: "read_result list \<Rightarrow> string" where
  "delivered [] = []"
| "delivered (ReadFault _ # _) = []"
| "delivered (Chunk bytes # rest) = (if bytes = [] then [] else bytes @ delivered rest)"

definition capture_inv :: "nat \<Rightarrow> capture_state \<Rightarrow> bool" where
  "capture_inv max_bytes st \<longleftrightarrow>
     cap_hashed st = cap_file st \<and> cap_length st = length (cap_file st) \<and> cap_length st \<le> max_bytes"

lemma capture_loop_ok:
  assumes "capture_inv max_bytes st"
    and "capture_loop write_fault max_bytes input st = (st', Inr u)"
  shows "capture_inv max_bytes st' \<and> cap_file st' = cap_file st @ delivered input"
  using assms
proof (induction write_fault max_bytes input st rule: capture_loop.induct)
  case (3 write_fault max_bytes bytes rest st)
  show ?case
  proof (cases "bytes = []")
    case False
    let ?st = "st \<lparr> cap_length := cap_length st + length bytes, cap_hashed := cap_hashed st @ bytes,
        cap_file := cap_file st @ bytes \<rparr>"
    have run: "capture_loop write_fault max_bytes rest ?st = (st', Inr u)"
      and small: "cap_length st + length bytes \<le> max_bytes" "cap_length st + length bytes \<le> u64_max"
      and ok: "write_fault (length (cap_file st)) = None"
      using "3.prems"(2) False by (auto simp: Let_def split: if_splits option.splits)
    have "capture_inv max_bytes ?st" using "3.prems"(1) small by (auto simp: capture_inv_def)
    then have "capture_inv max_bytes st' \<and> cap_file st' = cap_file ?st @ delivered rest"
      using "3.IH" [OF False refl _ _ refl ok] small run by simp
    with False show ?thesis by simp
  qed (use "3.prems" in auto)
qed auto

text \<open>
  a captured artifact is the input, whole: the file holds exactly the bytes the reader delivered,
  its recorded length and digest are those of the file, and it is within the limit; an input
  over the limit is never captured.
\<close>

theorem capture_faithful:
  assumes "capture sha create_fault write_fault flush_fault now input locator max_bytes = Inr art"
  shows "art_file art = delivered input \<and>
     byte_length (art_descriptor art) = length (delivered input) \<and>
     length (delivered input) \<le> max_bytes \<and>
     content_sha256 (art_descriptor art) = hex_digest (sha (delivered input))"
proof -
  let ?st0 = "\<lparr> cap_hashed = [], cap_file = [], cap_length = 0 \<rparr>"
  obtain st u where run: "capture_loop write_fault max_bytes input ?st0 = (st, Inr u)"
    using assms by (auto simp: capture_def split: option.splits prod.splits sum.splits)
  have "capture_inv max_bytes ?st0" by (simp add: capture_inv_def)
  from capture_loop_ok [OF this run] assms run show ?thesis
    by (auto simp: capture_def capture_inv_def split: option.splits)
qed

lemma capture_faithful_witness:
  "art_file \<lparr> art_descriptor =
      \<lparr> content_sha256 = hex_digest (rev ''{}''), byte_length = 2, display_locator = ''<stdin>'',
        captured_at = 7 \<rparr>, art_file = ''{}'' \<rparr> = delivered [Chunk ''{'', Chunk ''}'']"
  using capture_faithful [where sha = rev and create_fault = None and write_fault = "\<lambda>_. None" and flush_fault = None
      and now = "7" and input = "[Chunk ''{'', Chunk ''}'']" and locator = "''<stdin>''" and max_bytes = 10]
  by (simp add: capture_def u64_max_def sanitize_locator_def bounded_printable_def is_control_def)

end
