(* ===== verification/Planephd.thy ===== *)
theory Planephd
  imports Normalization_Facts Artifact
begin

text \<open>
  \<open>aircraft_ingest::planephd\<close>: the streaming adapter. The JSON reader hands the two nested objects
  of the document over member by member; the preflight and the record thread are two callbacks on
  the same stream of normalized records.
\<close>

subsection \<open>The document\<close>

text \<open>
  What \<open>serde_json\<close> delivers while it reads the document: the entries of the outer object, each with
  the entries of its inner object, and where reading stops with an error its text. An error may
  come after entries that were already handed over.
\<close>

record aircraft_map =
  am_entries :: "(string \<times> json) list"
  am_error :: "string option"

record planephd_document =
  doc_entries :: "(string \<times> aircraft_map) list"
  doc_error :: "string option"

datatype SourceError =
    Artifact ArtifactError
  | Json string
  | EmptyDocument
  | Validation "IngestIssue list"
  | ParserThread string
  | ConsumerClosed

fun source_error_code :: "SourceError \<Rightarrow> string" where
  "source_error_code (Artifact _) = ''INPUT_ARTIFACT_ERROR''"
| "source_error_code (Json _) = ''INVALID_JSON''"
| "source_error_code EmptyDocument = ''EMPTY_DOCUMENT''"
| "source_error_code (Validation _) = ''VALIDATION_FAILED''"
| "source_error_code (ParserThread _) = ''PARSER_THREAD_ERROR''"
| "source_error_code ConsumerClosed = ''RECORD_CONSUMER_CLOSED''"

type_synonym 's record_callback =
  "'s \<Rightarrow> PreparedAircraftRecord \<Rightarrow> 's \<times> (SourceError + unit)"

text \<open>\<open>AircraftMapVisitor::visit_map\<close>; \<open>custom\<close> is the text of \<open>serde::de::Error::custom\<close>.\<close>

fun visit_aircraft ::
  "'u libs \<Rightarrow> (SourceError \<Rightarrow> string) \<Rightarrow> 's record_callback \<Rightarrow> string \<Rightarrow> (string \<times> json) list \<Rightarrow>
     string option \<Rightarrow> 's \<Rightarrow> 's \<times> (string + unit)" where
  "visit_aircraft L custom callback manufacturer [] err s =
     (s, case err of Some e \<Rightarrow> Inl e | None \<Rightarrow> Inr ())"
| "visit_aircraft L custom callback manufacturer ((aircraft, raw) # rest) err s =
     (case callback s (normalize_record L manufacturer aircraft raw) of
        (s', Inl e) \<Rightarrow> (s', Inl (custom e))
      | (s', Inr _) \<Rightarrow> visit_aircraft L custom callback manufacturer rest err s')"

text \<open>\<open>PlanePhdVisitor::visit_map\<close>.\<close>

fun visit_document ::
  "'u libs \<Rightarrow> (SourceError \<Rightarrow> string) \<Rightarrow> 's record_callback \<Rightarrow> (string \<times> aircraft_map) list \<Rightarrow>
     string option \<Rightarrow> 's \<Rightarrow> 's \<times> (string + unit)" where
  "visit_document L custom callback [] err s =
     (s, case err of Some e \<Rightarrow> Inl e | None \<Rightarrow> Inr ())"
| "visit_document L custom callback ((manufacturer, m) # rest) err s =
     (case visit_aircraft L custom callback manufacturer (am_entries m) (am_error m) s of
        (s', Inl e) \<Rightarrow> (s', Inl e)
      | (s', Inr _) \<Rightarrow> visit_document L custom callback rest err s')"

text \<open>\<open>parse_records\<close>; what follows the document (\<open>deserializer.end\<close>) is part of \<open>doc_error\<close>.\<close>

definition parse_records ::
  "'u libs \<Rightarrow> (SourceError \<Rightarrow> string) \<Rightarrow> 's record_callback \<Rightarrow> planephd_document \<Rightarrow> 's \<Rightarrow>
     's \<times> (SourceError + unit)" where
  "parse_records L custom callback doc s =
     (case visit_document L custom callback (doc_entries doc) (doc_error doc) s of
        (s', r) \<Rightarrow> (s', map_err Json r))"

subsection \<open>The adapter\<close>

definition planephd_descriptor :: SourceDescriptor where
  "planephd_descriptor =
     \<lparr> src_slug = ''planephd'', src_name = ''PlanePHD'', src_base_url = Some ''https://planephd.com'',
       src_parser_name = ''planephd-json'', src_parser_version = ''1.8.0'' \<rparr>"

record preflight_state =
  pre_record_count :: nat
  pre_warning_count :: nat
  pre_errors :: "IngestIssue list"
  pre_source_keys :: "string set"
  pre_hashed :: string

definition duplicate_issue :: "string \<Rightarrow> IngestIssue" where
  "duplicate_issue key =
     \<lparr> issue_code = ''DUPLICATE_SOURCE_RECORD_KEY'', issue_severity = SevError, issue_field_path = ''$'',
       issue_message = ''duplicate source record key '' @ key, issue_raw_value = None \<rparr>"

definition preflight_record :: "preflight_state record_callback" where
  "preflight_record s r =
     (let key = source_record_key r;
          remaining = 100 - length (pre_errors s);
          errors = pre_errors s @ take remaining (filter is_error (rec_issues r));
          errors = (if key \<in> pre_source_keys s \<and> length errors < 100
                    then errors @ [duplicate_issue key] else errors)
      in (\<lparr> pre_record_count = pre_record_count s + 1,
            pre_warning_count = pre_warning_count s + length (filter is_warning (rec_issues r)),
            pre_errors = errors,
            pre_source_keys = insert key (pre_source_keys s),
            pre_hashed = pre_hashed s @ key @ [CHR 0x00] \<rparr>, Inr ()))"

definition preflight ::
  "'u libs \<Rightarrow> (SourceError \<Rightarrow> string) \<Rightarrow> ArtifactError + planephd_document \<Rightarrow>
     SourceError + PreflightSummary" where
  "preflight L custom reopened =
     (case reopened of
        Inl e \<Rightarrow> Inl (Artifact e)
      | Inr doc \<Rightarrow>
          (case parse_records L custom preflight_record doc
              \<lparr> pre_record_count = 0, pre_warning_count = 0, pre_errors = [],
                pre_source_keys = {}, pre_hashed = [] \<rparr> of
             (s, Inl e) \<Rightarrow> Inl e
           | (s, Inr _) \<Rightarrow>
               if pre_record_count s = 0 then Inl EmptyDocument
               else if pre_errors s \<noteq> [] then Inl (Validation (pre_errors s))
               else Inr \<lparr> pf_record_count = pre_record_count s,
                          pf_warning_count = pre_warning_count s,
                          pf_record_keys_sha256 = hex_digest (sha256 L (pre_hashed s)) \<rparr>))"

datatype PreparedInputError = Invalid (pie_code: string) (pie_message: string)

text \<open>
  The parser thread of \<open>open_records\<close>: what it sends on the channel. The consumer closes the channel
  after taking \<open>closes_after\<close> messages, or never; a send on a closed channel fails.
\<close>

type_synonym message = "PreparedInputError + PreparedAircraftRecord"

definition send_record :: "nat option \<Rightarrow> message list record_callback" where
  "send_record closes_after sent r =
     (if (case closes_after of None \<Rightarrow> False | Some n \<Rightarrow> n \<le> length sent)
      then (sent, Inl ConsumerClosed) else (sent @ [Inr r], Inr ()))"

definition open_records ::
  "'u libs \<Rightarrow> (SourceError \<Rightarrow> string) \<Rightarrow> (SourceError \<Rightarrow> string) \<Rightarrow> nat option \<Rightarrow>
     ArtifactError + planephd_document \<Rightarrow> string option \<Rightarrow> SourceError + message list" where
  "open_records L custom display closes_after reopened spawn_fault =
     (case reopened of
        Inl e \<Rightarrow> Inl (Artifact e)
      | Inr doc \<Rightarrow>
          (case spawn_fault of
             Some e \<Rightarrow> Inl (ParserThread e)
           | None \<Rightarrow>
               (case parse_records L custom (send_record closes_after) doc [] of
                  (sent, Inr _) \<Rightarrow> Inr sent
                | (sent, Inl e) \<Rightarrow>
                    Inr (if (case closes_after of None \<Rightarrow> False | Some n \<Rightarrow> n \<le> length sent)
                         then sent
                         else sent @ [Inl (Invalid (source_error_code e) (display e))]))))"

text \<open>\<open>next_record\<close>: receive and transpose; a closed, drained channel is the end of the records.\<close>

definition next_record ::
  "message list \<Rightarrow> message list \<times> (PreparedInputError + PreparedAircraftRecord option)" where
  "next_record pending =
     (case pending of
        [] \<Rightarrow> ([], Inr None)
      | Inl e # rest \<Rightarrow> (rest, Inl e)
      | Inr r # rest \<Rightarrow> (rest, Inr (Some r)))"

subsection \<open>The records of a document\<close>

definition document_error :: "planephd_document \<Rightarrow> string option" where
  "document_error doc =
     (case List.find (\<lambda>(_, m). am_error m \<noteq> None) (doc_entries doc) of
        Some (_, m) \<Rightarrow> am_error m | None \<Rightarrow> doc_error doc)"

definition document_records :: "'u libs \<Rightarrow> planephd_document \<Rightarrow> PreparedAircraftRecord list" where
  "document_records L doc =
     concat (map (\<lambda>(manufacturer, m). map (\<lambda>(aircraft, raw). normalize_record L manufacturer aircraft raw)
       (am_entries m)) (doc_entries doc))"

text \<open>A callback that never fails is a fold over the records.\<close>

lemma visit_aircraft_total:
  assumes "callback = (\<lambda>s r. (step s r, Inr ()))"
  shows "visit_aircraft L custom callback manufacturer entries err s =
     (fold (\<lambda>r s. step s r) (map (\<lambda>(a, raw). normalize_record L manufacturer a raw) entries) s,
      case err of Some e \<Rightarrow> Inl e | None \<Rightarrow> Inr ())"
  by (induction entries arbitrary: s) (auto simp: assms)

lemma visit_document_total:
  assumes "callback = (\<lambda>s r. (step s r, Inr ()))"
    and "\<forall>(_, m) \<in> set entries. am_error m = None"
  shows "visit_document L custom callback entries err s =
     (fold (\<lambda>r s. step s r) (document_records L \<lparr> doc_entries = entries, doc_error = err \<rparr>) s,
      case err of Some e \<Rightarrow> Inl e | None \<Rightarrow> Inr ())"
  using assms(2)
  by (induction entries arbitrary: s)
     (auto simp: visit_aircraft_total [OF assms(1)] document_records_def)

lemma visit_document_error:
  assumes "callback = (\<lambda>s r. (step s r, Inr ()))"
    and "\<exists>(_, m) \<in> set entries. am_error m \<noteq> None"
  shows "\<exists>s' e. visit_document L custom callback entries err s = (s', Inl e)"
  using assms(2)
proof (induction entries arbitrary: s)
  case (Cons entry entries)
  obtain manufacturer m where entry: "entry = (manufacturer, m)" by (cases entry)
  show ?case
  proof (cases "am_error m")
    case None
    with Cons.prems have "\<exists>(_, m) \<in> set entries. am_error m \<noteq> None" by (auto simp: entry)
    from Cons.IH [OF this] show ?thesis
      by (simp add: entry None visit_aircraft_total [OF assms(1)])
  qed (simp add: entry visit_aircraft_total [OF assms(1)])
qed simp

definition well_formed :: "planephd_document \<Rightarrow> bool" where
  "well_formed doc \<longleftrightarrow> doc_error doc = None \<and> (\<forall>(_, m) \<in> set (doc_entries doc). am_error m = None)"

lemma parse_records_total:
  assumes total: "callback = (\<lambda>s r. (step s r, Inr ()))"
  shows "well_formed doc \<Longrightarrow>
     parse_records L custom callback doc s = (fold (\<lambda>r s. step s r) (document_records L doc) s, Inr ())"
    and "\<not> well_formed doc \<Longrightarrow> \<exists>s' e. parse_records L custom callback doc s = (s', Inl (Json e))"
proof -
  show "parse_records L custom callback doc s = (fold (\<lambda>r s. step s r) (document_records L doc) s, Inr ())"
    if "well_formed doc"
  proof -
    have none: "doc_error doc = None" and all: "\<forall>(_, m) \<in> set (doc_entries doc). am_error m = None"
      using that by (simp_all add: well_formed_def)
    show ?thesis
      by (simp add: parse_records_def visit_document_total [OF total all] none document_records_def)
  qed
  show "\<exists>s' e. parse_records L custom callback doc s = (s', Inl (Json e))" if "\<not> well_formed doc"
  proof (cases "\<forall>(_, m) \<in> set (doc_entries doc). am_error m = None")
    case True
    with that obtain e where "doc_error doc = Some e" by (auto simp: well_formed_def)
    then show ?thesis by (simp add: parse_records_def visit_document_total [OF total True])
  next
    case False
    then have "\<exists>(_, m) \<in> set (doc_entries doc). am_error m \<noteq> None" by auto
    from visit_document_error [OF total this] obtain s' e
      where "visit_document L custom callback (doc_entries doc) (doc_error doc) s = (s', Inl e)" by blast
    then show ?thesis by (simp add: parse_records_def)
  qed
qed

subsection \<open>The preflight\<close>

definition preflight_step :: "preflight_state \<Rightarrow> PreparedAircraftRecord \<Rightarrow> preflight_state" where
  "preflight_step s r = fst (preflight_record s r)"

lemma preflight_record_total: "preflight_record = (\<lambda>s r. (preflight_step s r, Inr ()))"
  by (intro ext) (simp add: preflight_step_def preflight_record_def Let_def)

definition preflight_init :: preflight_state where
  "preflight_init = \<lparr> pre_record_count = 0, pre_warning_count = 0, pre_errors = [],
     pre_source_keys = {}, pre_hashed = [] \<rparr>"

text \<open>What the hash is fed: every key followed by a NUL byte.\<close>

definition keys_preimage :: "PreparedAircraftRecord list \<Rightarrow> string" where
  "keys_preimage rs = concat (map (\<lambda>r. source_record_key r @ [CHR 0x00]) rs)"

definition warnings_in :: "PreparedAircraftRecord list \<Rightarrow> nat" where
  "warnings_in rs = sum_list (map (\<lambda>r. length (filter is_warning (rec_issues r))) rs)"

definition clean :: "PreparedAircraftRecord list \<Rightarrow> bool" where
  "clean rs \<longleftrightarrow> (\<forall>r \<in> set rs. \<not> has_error r) \<and> distinct (map source_record_key rs)"

lemma has_error_filter: "has_error r \<longleftrightarrow> filter is_error (rec_issues r) \<noteq> []"
  by (auto simp: has_error_def list_ex_iff filter_empty_conv)

lemma clean_snoc:
  "clean (rs @ [r]) \<longleftrightarrow>
     clean rs \<and> \<not> has_error r \<and> source_record_key r \<notin> source_record_key ` set rs"
  by (auto simp: clean_def)

lemma preflight_fold:
  defines "final rs \<equiv> fold (\<lambda>r s. preflight_step s r) rs preflight_init"
  shows "pre_record_count (final rs) = length rs \<and>
     pre_warning_count (final rs) = warnings_in rs \<and>
     pre_source_keys (final rs) = source_record_key ` set rs \<and>
     pre_hashed (final rs) = keys_preimage rs \<and>
     length (pre_errors (final rs)) \<le> 100 \<and>
     (pre_errors (final rs) = [] \<longleftrightarrow> clean rs)"
proof (induction rs rule: rev_induct)
  case (snoc r rs)
  have step: "final (rs @ [r]) = preflight_step (final rs) r" by (simp add: final_def)
  from snoc.IH show ?case
    unfolding step
    by (auto simp: preflight_step_def preflight_record_def Let_def clean_snoc has_error_filter
        warnings_in_def keys_preimage_def)
qed (simp add: final_def preflight_init_def warnings_in_def keys_preimage_def clean_def)

lemma preflight_records:
  assumes "well_formed doc"
  shows "preflight L custom (Inr doc) =
     (let rs = document_records L doc; s = fold (\<lambda>r s. preflight_step s r) rs preflight_init in
      if rs = [] then Inl EmptyDocument
      else if \<not> clean rs then Inl (Validation (pre_errors s))
      else Inr \<lparr> pf_record_count = length rs, pf_warning_count = warnings_in rs,
                 pf_record_keys_sha256 = hex_digest (sha256 L (keys_preimage rs)) \<rparr>)"
  unfolding preflight_def preflight_init_def [symmetric]
  by (simp add: parse_records_total(1) [OF preflight_record_total assms] preflight_fold Let_def)

lemma preflight_unreadable:
  assumes "\<not> well_formed doc"
  shows "\<exists>e. preflight L custom (Inr doc) = Inl (Json e)"
proof -
  from parse_records_total(2) [OF preflight_record_total assms] obtain s e
    where "parse_records L custom preflight_record doc preflight_init = (s, Inl (Json e))" by blast
  then show ?thesis by (simp add: preflight_def preflight_init_def [symmetric])
qed

lemma preflight_accepted: "preflight L custom (Inr doc) = Inr summary \<Longrightarrow> well_formed doc"
  using preflight_unreadable [of doc L custom] by (cases "well_formed doc") auto

text \<open>
  C38: the preflight accepts a document exactly when it is readable to its end, holds at least one
  record, no record is blocked and no two records share a key; its summary then counts the
  records and warnings and digests the keys in order.
\<close>

theorem preflight_accepts_iff:
  "preflight L custom (Inr doc) = Inr summary \<longleftrightarrow>
     well_formed doc \<and> document_records L doc \<noteq> [] \<and>
     clean (document_records L doc) \<and>
     summary = \<lparr> pf_record_count = length (document_records L doc),
       pf_warning_count = warnings_in (document_records L doc),
       pf_record_keys_sha256 = hex_digest (sha256 L (keys_preimage (document_records L doc))) \<rparr>"
proof (cases "well_formed doc")
  case True
  show ?thesis unfolding preflight_records [OF True] Let_def
    by (cases "document_records L doc = []"; cases "clean (document_records L doc)")
       (auto simp: True)
next
  case False
  with preflight_accepted show ?thesis by blast
qed

lemma preflight_step_errors:
  "set (pre_errors (preflight_step s r)) \<subseteq>
     set (pre_errors s) \<union> Collect is_error"
proof -
  have "set (take n (filter is_error xs)) \<subseteq> Collect is_error" for n xs
    using set_take_subset [of n "filter is_error xs"] by auto
  moreover have "is_error (duplicate_issue key)" for key
    by (simp add: is_error_def duplicate_issue_def)
  ultimately show ?thesis
    unfolding preflight_step_def preflight_record_def Let_def fst_conv preflight_state.simps
    by (simp only: set_append list.set split: if_split) blast
qed

lemma preflight_errors_are_errors:
  "set (pre_errors (fold (\<lambda>r s. preflight_step s r) rs preflight_init)) \<subseteq> Collect is_error"
proof (induction rs rule: rev_induct)
  case (snoc r rs)
  then show ?case using preflight_step_errors by fastforce
qed (simp add: preflight_init_def)

text \<open>
  a refusal for invalid records reports at least one and at most one hundred issues, every one of
  them an error, and only when some record really is blocked or some key is repeated.
\<close>

theorem preflight_validation_bounded:
  assumes "preflight L custom (Inr doc) = Inl (Validation issues)"
  shows "issues \<noteq> [] \<and> length issues \<le> 100 \<and> list_all is_error issues \<and>
     \<not> clean (document_records L doc)"
proof (cases "well_formed doc")
  case True
  let ?rs = "document_records L doc"
  have "issues = pre_errors (fold (\<lambda>r s. preflight_step s r) ?rs preflight_init) \<and> \<not> clean ?rs"
    using assms by (simp add: preflight_records [OF True] Let_def split: if_splits)
  then show ?thesis using preflight_fold [of ?rs] preflight_errors_are_errors [of ?rs]
    by (auto simp: list_all_iff)
next
  case False
  with preflight_unreadable [of doc L custom] assms show ?thesis by auto
qed

definition sample_document :: planephd_document where
  "sample_document = \<lparr> doc_entries = [(''CESSNA'', \<lparr> am_entries = [(''120'', JNull)], am_error = None \<rparr>)],
     doc_error = None \<rparr>"

lemma sample_document_records:
  "document_records sample_libs sample_document = [normalize_record sample_libs ''CESSNA'' ''120'' JNull]"
  by (simp add: document_records_def sample_document_def)

lemma sample_preflight:
  "\<exists>issues. preflight sample_libs (\<lambda>_. []) (Inr sample_document) = Inl (Validation issues)"
proof -
  have "well_formed sample_document" by (simp add: well_formed_def sample_document_def)
  moreover have "has_error (normalize_record sample_libs ''CESSNA'' ''120'' JNull)"
    by (simp add: has_error_def normalize_record_def empty_record_def is_error_iff Let_def)
  ultimately show ?thesis
    by (simp add: preflight_records sample_document_records clean_def Let_def)
qed

lemma preflight_validation_bounded_witness:
  "\<exists>issues. issues \<noteq> [] \<and> length issues \<le> 100 \<and> list_all is_error issues \<and>
     \<not> clean (document_records sample_libs sample_document)"
  using sample_preflight preflight_validation_bounded [of sample_libs "\<lambda>_. []" sample_document] by blast

subsection \<open>The record stream\<close>

lemma send_record_open: "send_record None = (\<lambda>s r. (s @ [Inr r], Inr ()))"
  by (intro ext) (simp add: send_record_def)

lemma fold_append_Inr: "fold (\<lambda>r s. s @ [Inr r]) rs s = s @ map Inr rs"
  by (induction rs arbitrary: s) simp_all

text \<open>The record stream of an accepted document is the sequence of records that was checked.\<close>

lemma open_records_well_formed:
  assumes "well_formed doc"
  shows "open_records L custom display None (Inr doc) None = Inr (map Inr (document_records L doc))"
  by (simp add: open_records_def parse_records_total(1) [OF send_record_open assms] fold_append_Inr)

end
