(* ===== verification/Ingestion_Service.thy ===== *)
theory Ingestion_Service
  imports Planephd
begin

text \<open>
  \<open>aircraft_app::ingestion\<close>: the import service. It drives a store through the operations of two
  ports (\<open>IngestionStore\<close> and the \<open>IngestionUnitOfWork\<close> it opens), which are a record of functions
  here. What the service relies on is the locale \<open>ingestion_store\<close>; what it guarantees on top, that
  an import is all or nothing and that its report is true, is proved once inside the locale.
\<close>

subsection \<open>Errors\<close>

datatype PersistenceError = Database string string | Invariant string

fun persistence_code :: "PersistenceError \<Rightarrow> string" where
  "persistence_code (Database code _) = code"
| "persistence_code (Invariant _) = ''PERSISTENCE_INVARIANT''"

fun persistence_text :: "PersistenceError \<Rightarrow> string" where
  "persistence_text (Database code message) = code @ '': '' @ message"
| "persistence_text (Invariant what) = ''ingestion invariant failed: '' @ what"

datatype ImportError =
    AlreadyRunning
  | Input PreparedInputError
  | Persistence PersistenceError
  | ParserConsistency nat nat
  | WarningCountMismatch nat nat
  | ParserRecordKeysMismatch

fun import_error_code :: "ImportError \<Rightarrow> string" where
  "import_error_code AlreadyRunning = ''IMPORT_ALREADY_RUNNING''"
| "import_error_code (Input e) = pie_code e"
| "import_error_code (Persistence e) = persistence_code e"
| "import_error_code (ParserConsistency _ _) = ''PARSER_RECORD_COUNT_MISMATCH''"
| "import_error_code (WarningCountMismatch _ _) = ''PARSER_WARNING_COUNT_MISMATCH''"
| "import_error_code ParserRecordKeysMismatch = ''PARSER_RECORD_KEYS_MISMATCH''"

fun import_error_text :: "ImportError \<Rightarrow> string" where
  "import_error_text AlreadyRunning = ''an identical import is already running''"
| "import_error_text (Input e) = pie_code e @ '': '' @ pie_message e"
| "import_error_text (Persistence e) = persistence_text e"
| "import_error_text (ParserConsistency expected actual) =
     ''preflight contained '' @ show_nat expected @ '' records but import produced '' @ show_nat actual"
| "import_error_text (WarningCountMismatch expected actual) =
     ''preflight contained '' @ show_nat expected @ '' warnings but import produced '' @ show_nat actual"
| "import_error_text ParserRecordKeysMismatch =
     ''preflight and import produced different source-record keys''"

definition sanitize_failure :: "string \<Rightarrow> string" where
  "sanitize_failure message = bounded_printable 1000 message"

subsection \<open>The ports\<close>

datatype 'uow ImportStart =
    AlreadySucceeded ImportReport
  | Busy
  | Ready int int 'uow

record ('st, 'uow) store_ops =
  start_import_op :: "'st \<Rightarrow> ImportRequest \<Rightarrow> 'st \<times> (PersistenceError + 'uow ImportStart)"
  mark_failed_op :: "'st \<Rightarrow> int \<Rightarrow> int \<Rightarrow> string \<Rightarrow> string \<Rightarrow> 'st \<times> (PersistenceError + unit)"
  stage_op :: "'uow \<Rightarrow> PreparedAircraftRecord \<Rightarrow> 'uow \<times> (PersistenceError + RecordOutcome)"
  refresh_op :: "'uow \<Rightarrow> 'uow \<times> (PersistenceError + unit)"
  mark_succeeded_op :: "'uow \<Rightarrow> ImportReport \<Rightarrow> 'uow \<times> (PersistenceError + unit)"
  commit_op :: "'st \<Rightarrow> 'uow \<Rightarrow> 'st \<times> (PersistenceError + unit)"
  rollback_op :: "'st \<Rightarrow> 'uow \<Rightarrow> 'st \<times> (PersistenceError + unit)"

subsection \<open>Consuming the records\<close>

record consume_state =
  co_count :: nat
  co_hashed :: string
  co_report :: ImportReport

definition count_outcome :: "ImportReport \<Rightarrow> RecordOutcome \<Rightarrow> ImportReport" where
  "count_outcome report out =
     report
       \<lparr> rep_staged_records := rep_staged_records report + (if out_staged out then 1 else 0),
         rep_promoted_records := rep_promoted_records report + 1,
         rep_flagged_records := rep_flagged_records report +
           (case out_disposition out of Promoted \<Rightarrow> 0 | Flagged \<Rightarrow> 1),
         rep_warning_count := rep_warning_count report + out_warning_count out \<rparr>"

text \<open>The loop of \<open>consume_records\<close>, one \<open>next_record\<close> per step.\<close>

fun consume_loop ::
  "('st, 'uow) store_ops \<Rightarrow> message list \<Rightarrow> 'uow \<Rightarrow> consume_state \<Rightarrow> 'uow \<times> (ImportError + consume_state)"
where
  "consume_loop ops [] u co = (u, Inr co)"
| "consume_loop ops (Inl e # _) u co = (u, Inl (Input e))"
| "consume_loop ops (Inr r # pending) u co =
     (let hashed = co_hashed co @ source_record_key r @ [CHR 0x00] in
      case List.find is_error (rec_issues r) of
        Some i \<Rightarrow> (u, Inl (Input (Invalid (issue_code i) (issue_message i))))
      | None \<Rightarrow>
          (case stage_op ops u r of
             (u', Inl e) \<Rightarrow> (u', Inl (Persistence e))
           | (u', Inr out) \<Rightarrow>
               consume_loop ops pending u'
                 \<lparr> co_count = co_count co + 1, co_hashed = hashed,
                   co_report = count_outcome (co_report co) out \<rparr>))"

definition new_report :: "ImportRequest \<Rightarrow> int \<Rightarrow> int \<Rightarrow> ImportReport" where
  "new_report req run att =
     \<lparr> rep_schema_version = REPORT_SCHEMA_VERSION, rep_run_id = run, rep_attempt_id = att,
       rep_status = Succeeded, rep_content_sha256 = content_sha256 (req_artifact req),
       rep_staged_records = 0, rep_promoted_records = 0, rep_flagged_records = 0,
       rep_warning_count = 0, already_imported = False \<rparr>"

definition consume_records ::
  "(string \<Rightarrow> string) \<Rightarrow> ('st, 'uow) store_ops \<Rightarrow> ImportRequest \<Rightarrow> message list \<Rightarrow> 'uow \<Rightarrow> int \<Rightarrow> int \<Rightarrow>
     'uow \<times> (ImportError + ImportReport)" where
  "consume_records sha ops req records u run att =
     (case consume_loop ops records u
         \<lparr> co_count = 0, co_hashed = [], co_report = new_report req run att \<rparr> of
        (u', Inl e) \<Rightarrow> (u', Inl e)
      | (u', Inr co) \<Rightarrow>
          (let expected = req_preflight req in
           if co_count co \<noteq> pf_record_count expected
           then (u', Inl (ParserConsistency (pf_record_count expected) (co_count co)))
           else if hex_digest (sha (co_hashed co)) \<noteq> pf_record_keys_sha256 expected
           then (u', Inl ParserRecordKeysMismatch)
           else if rep_warning_count (co_report co) \<noteq> pf_warning_count expected
           then (u', Inl (WarningCountMismatch (pf_warning_count expected)
                   (rep_warning_count (co_report co))))
           else (case refresh_op ops u' of
                   (u'', Inl e) \<Rightarrow> (u'', Inl (Persistence e))
                 | (u'', Inr _) \<Rightarrow> (u'', Inr (co_report co)))))"

subsection \<open>The import\<close>

text \<open>Failures of the audit and of the rollback are only logged.\<close>

definition audit_failure ::
  "('st, 'uow) store_ops \<Rightarrow> 'st \<Rightarrow> int \<Rightarrow> int \<Rightarrow> ImportError \<Rightarrow> 'st" where
  "audit_failure ops st run att e =
     fst (mark_failed_op ops st run att (import_error_code e) (sanitize_failure (import_error_text e)))"

definition rollback_and_audit ::
  "('st, 'uow) store_ops \<Rightarrow> 'st \<Rightarrow> 'uow \<Rightarrow> int \<Rightarrow> int \<Rightarrow> ImportError \<Rightarrow> 'st" where
  "rollback_and_audit ops st u run att e = audit_failure ops (fst (rollback_op ops st u)) run att e"

definition import_records ::
  "(string \<Rightarrow> string) \<Rightarrow> ('st, 'uow) store_ops \<Rightarrow> 'st \<Rightarrow> ImportRequest \<Rightarrow> message list \<Rightarrow>
     'st \<times> (ImportError + ImportReport)" where
  "import_records sha ops st req records =
     (case start_import_op ops st req of
        (st1, Inl e) \<Rightarrow> (st1, Inl (Persistence e))
      | (st1, Inr (AlreadySucceeded report)) \<Rightarrow> (st1, Inr report)
      | (st1, Inr Busy) \<Rightarrow> (st1, Inl AlreadyRunning)
      | (st1, Inr (Ready run att u)) \<Rightarrow>
          (case consume_records sha ops req records u run att of
             (u1, Inr report) \<Rightarrow>
               (case mark_succeeded_op ops u1 report of
                  (u2, Inl e) \<Rightarrow>
                    (rollback_and_audit ops st1 u2 run att (Persistence e), Inl (Persistence e))
                | (u2, Inr _) \<Rightarrow>
                    (case commit_op ops st1 u2 of
                       (st2, Inr _) \<Rightarrow> (st2, Inr report)
                     | (st2, Inl e) \<Rightarrow>
                         (audit_failure ops st2 run att (Persistence e), Inl (Persistence e))))
           | (u1, Inl e) \<Rightarrow> (rollback_and_audit ops st1 u1 run att e, Inl e)))"

subsection \<open>What the service relies on\<close>

definition record_outcome :: "PreparedAircraftRecord \<Rightarrow> RecordOutcome" where
  "record_outcome r =
     (let warnings = length (filter is_warning (rec_issues r)) in
      \<lparr> out_staged = True, out_disposition = (if warnings > 0 then Flagged else Promoted),
        out_warning_count = warnings \<rparr>)"

text \<open>
  \<open>batches\<close> is the promoted data, one batch per committed import; \<open>staged\<close> is what a unit of work
  would add. A failing commit may still have been applied.
\<close>

locale ingestion_store =
  fixes ops :: "('st, 'uow) store_ops"
    and batches :: "'st \<Rightarrow> (int \<times> PreparedAircraftRecord list) list"
    and staged :: "'uow \<Rightarrow> PreparedAircraftRecord list"
    and run_of :: "'uow \<Rightarrow> int"
  assumes start_batches: "start_import_op ops st req = (st', res) \<Longrightarrow> batches st' = batches st"
    and start_ready: "start_import_op ops st req = (st', Inr (Ready run att u)) \<Longrightarrow>
      staged u = [] \<and> run_of u = run"
    and start_already: "start_import_op ops st req = (st', Inr (AlreadySucceeded rep)) \<Longrightarrow>
      already_imported rep"
    and stage_ok: "stage_op ops u r = (u', Inr out) \<Longrightarrow>
      staged u' = staged u @ [r] \<and> run_of u' = run_of u \<and> out = record_outcome r"
    and refresh_ok: "refresh_op ops u = (u', Inr x) \<Longrightarrow> staged u' = staged u \<and> run_of u' = run_of u"
    and success_ok: "mark_succeeded_op ops u rep = (u', Inr x) \<Longrightarrow>
      staged u' = staged u \<and> run_of u' = run_of u"
    and commit_ok: "commit_op ops st u = (st', Inr x) \<Longrightarrow>
      batches st' = batches st @ [(run_of u, staged u)]"
    and commit_failed: "commit_op ops st u = (st', Inl e) \<Longrightarrow>
      batches st' = batches st \<or> batches st' = batches st @ [(run_of u, staged u)]"
    and rollback_batches: "batches (fst (rollback_op ops st u)) = batches st"
    and mark_failed_batches: "batches (fst (mark_failed_op ops st run att code msg)) = batches st"

text \<open>What a report says of the records it is about.\<close>

definition report_for :: "ImportRequest \<Rightarrow> int \<Rightarrow> int \<Rightarrow> PreparedAircraftRecord list \<Rightarrow> ImportReport" where
  "report_for req run att rs =
     (new_report req run att)
       \<lparr> rep_staged_records := length rs, rep_promoted_records := length rs,
         rep_flagged_records := length (filter (\<lambda>r. list_ex is_warning (rec_issues r)) rs),
         rep_warning_count := warnings_in rs \<rparr>"

text \<open>The records agree with what the preflight saw.\<close>

definition matches_preflight ::
  "(string \<Rightarrow> string) \<Rightarrow> ImportRequest \<Rightarrow> PreparedAircraftRecord list \<Rightarrow> bool" where
  "matches_preflight sha req rs \<longleftrightarrow>
     (\<forall>r \<in> set rs. \<not> has_error r) \<and>
     pf_record_count (req_preflight req) = length rs \<and>
     pf_record_keys_sha256 (req_preflight req) = hex_digest (sha (keys_preimage rs)) \<and>
     pf_warning_count (req_preflight req) = warnings_in rs"

lemma find_error_None: "List.find is_error (rec_issues r) = None \<longleftrightarrow> \<not> has_error r"
  by (auto simp: find_None_iff has_error_def list_ex_iff)

lemma report_for_snoc:
  "count_outcome (report_for req run att rs) (record_outcome r) = report_for req run att (rs @ [r])"
  by (auto simp: count_outcome_def report_for_def record_outcome_def warnings_in_def Let_def
      list_ex_iff filter_empty_conv new_report_def)

lemma keys_preimage_snoc: "keys_preimage (rs @ [r]) = keys_preimage rs @ source_record_key r @ [CHR 0x00]"
  by (simp add: keys_preimage_def)

definition consumed :: "ImportRequest \<Rightarrow> int \<Rightarrow> int \<Rightarrow> PreparedAircraftRecord list \<Rightarrow> consume_state" where
  "consumed req run att rs =
     \<lparr> co_count = length rs, co_hashed = keys_preimage rs, co_report = report_for req run att rs \<rparr>"

lemma consumed_snoc:
  "\<lparr> co_count = co_count (consumed req run att rs) + 1,
     co_hashed = co_hashed (consumed req run att rs) @ source_record_key r @ [CHR 0x00],
     co_report = count_outcome (co_report (consumed req run att rs)) (record_outcome r) \<rparr> =
   consumed req run att (rs @ [r])"
  by (simp add: consumed_def report_for_snoc keys_preimage_snoc)

lemma consumed_Nil:
  "consumed req run att [] = \<lparr> co_count = 0, co_hashed = [], co_report = new_report req run att \<rparr>"
  by (simp add: consumed_def keys_preimage_def report_for_def warnings_in_def new_report_def)

subsection \<open>What the service guarantees\<close>

context ingestion_store
begin

lemma consume_loop_ok:
  assumes "consume_loop ops msgs u (consumed req run att (staged u)) = (u', Inr co)"
  shows "\<exists>rs. msgs = map Inr rs \<and> (\<forall>r \<in> set rs. \<not> has_error r) \<and>
     staged u' = staged u @ rs \<and> run_of u' = run_of u \<and> co = consumed req run att (staged u @ rs)"
  using assms
proof (induction msgs arbitrary: u)
  case (Cons m msgs)
  obtain r where m: "m = Inr r" using Cons.prems by (cases m) auto
  have clear: "List.find is_error (rec_issues r) = None"
    using Cons.prems by (cases "List.find is_error (rec_issues r)") (auto simp: m Let_def)
  obtain u1 out where stage: "stage_op ops u r = (u1, Inr out)"
    and rest: "consume_loop ops msgs u1
        \<lparr> co_count = co_count (consumed req run att (staged u)) + 1,
          co_hashed = co_hashed (consumed req run att (staged u)) @ source_record_key r @ [CHR 0x00],
          co_report = count_outcome (co_report (consumed req run att (staged u))) out \<rparr> = (u', Inr co)"
    using Cons.prems clear by (auto simp: m Let_def split: prod.splits sum.splits)
  note st = stage_ok [OF stage]
  have "consume_loop ops msgs u1 (consumed req run att (staged u1)) = (u', Inr co)"
    using rest st by (simp only: consumed_snoc)
  from Cons.IH [OF this] obtain rs where "msgs = map Inr rs" "\<forall>r \<in> set rs. \<not> has_error r"
    "staged u' = staged u1 @ rs" "run_of u' = run_of u1" "co = consumed req run att (staged u1 @ rs)"
    by blast
  with st m clear show ?case
    by (intro exI [of _ "r # rs"]) (simp add: find_error_None)
qed simp

lemma consume_records_ok:
  assumes "consume_records sha ops req msgs u run att = (u', Inr rep)" and "staged u = []"
  shows "\<exists>rs. msgs = map Inr rs \<and> matches_preflight sha req rs \<and>
     staged u' = rs \<and> run_of u' = run_of u \<and> rep = report_for req run att rs"
proof -
  obtain u1 co where loop: "consume_loop ops msgs u (consumed req run att (staged u)) = (u1, Inr co)"
    using assms by (auto simp: consume_records_def consumed_Nil split: prod.splits sum.splits)
  from consume_loop_ok [OF loop] assms(2) obtain rs where rs: "msgs = map Inr rs"
    "\<forall>r \<in> set rs. \<not> has_error r" "staged u1 = rs" "run_of u1 = run_of u" "co = consumed req run att rs"
    by auto
  have "rep_warning_count (report_for req run att rs) = warnings_in rs"
    by (simp add: report_for_def)
  with assms loop rs show ?thesis
    by (auto simp: consume_records_def consumed_Nil [symmetric] consumed_def matches_preflight_def Let_def
        split: if_splits prod.splits sum.splits dest!: refresh_ok)
qed

text \<open>Nothing but a promoted batch of verified records ever reaches the data.\<close>

definition batch_of :: "(string \<Rightarrow> string) \<Rightarrow> ImportRequest \<Rightarrow> message list \<Rightarrow> 'st \<Rightarrow> 'st \<Rightarrow> bool" where
  "batch_of sha req msgs st st' \<longleftrightarrow>
     (\<exists>run rs. msgs = map Inr rs \<and> matches_preflight sha req rs \<and>
        batches st' = batches st @ [(run, rs)])"

lemma rollback_and_audit_batches: "batches (rollback_and_audit ops st u run att e) = batches st"
  by (simp add: rollback_and_audit_def audit_failure_def mark_failed_batches rollback_batches)

lemma import_all_or_nothing:
  assumes "import_records sha ops st req msgs = (st', res)"
  shows "(case res of
       Inr rep \<Rightarrow>
         if already_imported rep then batches st' = batches st
         else \<exists>run att rs. msgs = map Inr rs \<and> matches_preflight sha req rs \<and>
                batches st' = batches st @ [(run, rs)] \<and> rep = report_for req run att rs
     | Inl e \<Rightarrow> batches st' = batches st \<or> (\<exists>p. e = Persistence p) \<and> batch_of sha req msgs st st')"
proof -
  obtain st1 r1 where start: "start_import_op ops st req = (st1, r1)" by fastforce
  note same = start_batches [OF start]
  show ?thesis
  proof (cases "\<exists>run att u. r1 = Inr (Ready run att u)")
    case False
    with assms start same show ?thesis
      by (auto simp: import_records_def dest: start_already split: sum.splits ImportStart.splits)
  next
    case True
    then obtain run att u where r1: "r1 = Inr (Ready run att u)" by blast
    note ready = start_ready [OF start [unfolded r1]]
    obtain u1 r2 where consume: "consume_records sha ops req msgs u run att = (u1, r2)" by fastforce
    show ?thesis
    proof (cases r2)
      case (Inl e)
      with assms start r1 consume same show ?thesis
        by (auto simp: import_records_def rollback_and_audit_batches)
    next
      case (Inr rep)
      from consume_records_ok [OF consume [unfolded Inr]] ready obtain rs where rs:
        "msgs = map Inr rs" "matches_preflight sha req rs" "staged u1 = rs" "run_of u1 = run"
        "rep = report_for req run att rs"
        by auto
      have fresh: "\<not> already_imported rep" by (simp add: rs report_for_def new_report_def)
      obtain u2 r3 where mark: "mark_succeeded_op ops u1 rep = (u2, r3)" by fastforce
      show ?thesis
      proof (cases r3)
        case (Inl e)
        with assms start r1 consume Inr mark same show ?thesis
          by (auto simp: import_records_def rollback_and_audit_batches)
      next
        case (Inr x)
        note u2 = success_ok [OF mark [unfolded Inr]]
        obtain st2 r4 where commit: "commit_op ops st1 u2 = (st2, r4)" by fastforce
        show ?thesis
        proof (cases r4)
          case (Inr y)
          with assms start r1 consume \<open>r2 = Inr rep\<close> mark \<open>r3 = Inr x\<close> commit
          have "st' = st2" and "res = Inr rep" by (auto simp: import_records_def)
          with commit_ok [OF commit [unfolded Inr]] u2 rs same fresh show ?thesis by auto
        next
          case (Inl e)
          with assms start r1 consume \<open>r2 = Inr rep\<close> mark \<open>r3 = Inr x\<close> commit
          have "st' = audit_failure ops st2 run att (Persistence e)" and "res = Inl (Persistence e)"
            by (auto simp: import_records_def)
          with commit_failed [OF commit [unfolded Inl]] u2 rs same show ?thesis
            by (auto simp: audit_failure_def mark_failed_batches batch_of_def)
        qed
      qed
    qed
  qed
qed

lemma consume_loop_clean:
  assumes "\<forall>r \<in> set rs. \<not> has_error r" and "consume_loop ops (map Inr rs) u co = (u', Inl e)"
  shows "\<exists>p. e = Persistence p"
  using assms
proof (induction rs arbitrary: u co)
  case (Cons r rs)
  then have "List.find is_error (rec_issues r) = None" by (simp add: find_error_None)
  with Cons show ?case by (auto simp: Let_def split: prod.splits sum.splits)
qed simp

text \<open>An accepted document is not refused afterwards: only the store can stop its import.\<close>

lemma import_of_accepted:
  assumes accepted: "preflight L custom (Inr doc) = Inr (req_preflight req)"
    and "open_records L custom display None (Inr doc) None = Inr msgs"
    and failed: "import_records (sha256 L) ops st req msgs = (st', Inl e)"
  shows "e = AlreadyRunning \<or> (\<exists>p. e = Persistence p)"
proof -
  let ?rs = "document_records L doc" and ?sha = "sha256 L"
  have wf: "well_formed doc"
    using accepted preflight_accepted by blast
  then have rs: "msgs = map Inr ?rs" and cl: "clean ?rs"
    and pf: "req_preflight req = \<lparr> pf_record_count = length ?rs, pf_warning_count = warnings_in ?rs,
      pf_record_keys_sha256 = hex_digest (?sha (keys_preimage ?rs)) \<rparr>"
    using assms(2) accepted by (auto simp: open_records_well_formed preflight_records Let_def split: if_splits)
  have "\<exists>p. e' = Persistence p"
    if consume: "consume_records ?sha ops req msgs u run att = (u', Inl e')" and new: "staged u = []"
    for u run att u' e'
  proof (cases "consume_loop ops msgs u (consumed req run att (staged u))")
    case (Pair u1 r)
    show ?thesis
    proof (cases r)
      case (Inl e'')
      with consume Pair new consume_loop_clean [of ?rs u _ u1 e''] cl show ?thesis
        by (auto simp: consume_records_def consumed_Nil rs clean_def)
    next
      case (Inr co)
      from consume_loop_ok [OF Pair [unfolded Inr]] new rs
      have co: "co = consumed req run att ?rs" by (auto dest: map_injective [of Inr] simp: inj_def)
      have "rep_warning_count (report_for req run att ?rs) = warnings_in ?rs"
        by (simp add: report_for_def)
      moreover have "consume_loop ops msgs u
          \<lparr> co_count = 0, co_hashed = [], co_report = new_report req run att \<rparr> =
          (u1, Inr (consumed req run att ?rs))"
        using Pair Inr co new by (simp only: consumed_Nil)
      ultimately show ?thesis using consume pf
        by (auto simp: consume_records_def consumed_def split: prod.splits sum.splits)
    qed
  qed
  with failed show ?thesis
    by (auto simp: import_records_def dest: start_ready
        split: prod.splits sum.splits ImportStart.splits)
qed

end

end
