(* ===== verification/Import_Store.thy ===== *)
theory Import_Store
  imports Ingestion_Service
begin

text \<open>
  \<open>aircraft_db::ingestion_repository\<close>: the store behind the import service, as the rows of
  \<open>ingest_runs\<close> and \<open>ingest_run_attempts\<close>, the advisory locks held by open transactions and the
  data that committed transactions have promoted. Statements inside a transaction take effect at
  its commit. Every statement may fail (\<open>fault\<close>); a commit that reports a failure may or may not
  have been applied (\<open>applied\<close>). Timestamps are left out, and so is the semaphore that admits imports:
  it only delays \<open>start_import\<close>. What staging writes for a record (the \<open>promote_*\<close> statements) is the
  record itself.
\<close>

subsection \<open>Rows\<close>

type_synonym import_key = "string \<times> string \<times> string \<times> string"

record run_row =
  run_id :: int
  run_key :: import_key
  run_label :: string
  run_byte_length :: int
  run_locator :: string
  run_status :: ImportStatus
  run_total :: "int option"
  run_staged :: "int option"
  run_promoted :: "int option"
  run_flagged :: "int option"
  run_warnings :: "int option"
  run_failure :: "(string \<times> string) option"

record attempt_row =
  attempt_id :: int
  attempt_run :: int
  attempt_number :: int
  attempt_status :: ImportStatus
  attempt_counts :: "(int \<times> int \<times> int \<times> int) option"
  attempt_failure :: "(string \<times> string) option"

record import_store =
  runs :: "run_row list"
  attempts :: "attempt_row list"
  next_run :: int
  next_attempt :: int
  locks :: "int set"
  promoted_batches :: "(int \<times> PreparedAircraftRecord list) list"

record unit_of_work =
  uow_run :: int
  uow_attempt :: int
  uow_lock :: int
  uow_label :: string
  uow_staged :: "PreparedAircraftRecord list"
  uow_success :: "ImportReport option"

datatype db_call =
    BeginImport | TryLock | RollbackImport | SelectReport
  | BeginAudit | UpsertRun | SupersedeAttempts | InsertAttempt | CommitAudit
  | BeginFailure | FailRun | FailAttempt | CommitFailure
  | BeginValidation | WaitLock | UpsertValidation | InsertValidation | CommitValidation
  | StageRecord nat | RefreshViews | SucceedRun | SucceedAttempt | CommitImport

record db_env =
  fault :: "db_call \<Rightarrow> PersistenceError option"
  applied :: "db_call \<Rightarrow> bool"
  lock_hash :: "string \<Rightarrow> int"

text \<open>A statement: its fault, or what follows.\<close>

definition guarded :: "db_env \<Rightarrow> db_call \<Rightarrow> 'st \<Rightarrow> 'st \<times> (PersistenceError + 'a) \<Rightarrow> 'st \<times> (PersistenceError + 'a)"
where
  "guarded E call st next = (case fault E call of Some e \<Rightarrow> (st, Inl e) | None \<Rightarrow> next)"

text \<open>A commit of \<open>new\<close> over \<open>old\<close>.\<close>

definition committed :: "db_env \<Rightarrow> db_call \<Rightarrow> 'st \<Rightarrow> 'st \<Rightarrow> 'a \<Rightarrow> 'st \<times> (PersistenceError + 'a)" where
  "committed E call old new v =
     (case fault E call of
        Some e \<Rightarrow> (if applied E call then new else old, Inl e)
      | None \<Rightarrow> (new, Inr v))"

subsection \<open>Starting an import\<close>

definition request_key :: "ImportRequest \<Rightarrow> import_key" where
  "request_key req =
     (src_slug (req_source req), content_sha256 (req_artifact req),
      src_parser_name (req_source req), src_parser_version (req_source req))"

fun lock_key :: "import_key \<Rightarrow> string" where
  "lock_key (slug, sha, name, version) = slug @ '':'' @ sha @ '':'' @ name @ '':'' @ version"

text \<open>\<open>str::get(..16)\<close>.\<close>

definition prefix16 :: "string \<Rightarrow> string option" where
  "prefix16 s =
     (if length s = 16 \<or> (16 < length s \<and> \<not> is_continuation (s ! 16)) then Some (take 16 s) else None)"

definition short_hash_error :: PersistenceError where
  "short_hash_error = Invariant ''content hash is shorter than 16 characters''"

definition dots_to_underscores :: "string \<Rightarrow> string" where
  "dots_to_underscores s = map (\<lambda>c. if c = CHR ''.'' then CHR ''_'' else c) s"

definition nonnegative :: "int option \<Rightarrow> nat" where
  "nonnegative v = (case v of None \<Rightarrow> 0 | Some i \<Rightarrow> if 0 \<le> i \<and> i \<le> i32_max then nat i else 0)"

definition to_i32 :: "string \<Rightarrow> nat \<Rightarrow> PersistenceError + int" where
  "to_i32 what n = (if int n \<le> i32_max then Inr (int n) else Inl (Invariant what))"

definition to_i64 :: "string \<Rightarrow> nat \<Rightarrow> PersistenceError + int" where
  "to_i64 what n = (if int n \<le> i64_max then Inr (int n) else Inl (Invariant what))"

definition last_by_id :: "attempt_row list \<Rightarrow> attempt_row option" where
  "last_by_id as =
     (if as = [] then None
      else List.find (\<lambda>a. \<forall>b \<in> set as. attempt_id b \<le> attempt_id a) as)"

definition successful_report ::
  "import_store \<Rightarrow> ImportRequest \<Rightarrow> PersistenceError + ImportReport option" where
  "successful_report st req =
     (case List.find (\<lambda>r. run_key r = request_key req \<and> run_status r = Succeeded) (runs st) of
        None \<Rightarrow> Inr None
      | Some r \<Rightarrow>
          (case last_by_id (filter (\<lambda>a. attempt_run a = run_id r \<and> attempt_status a = Succeeded)
              (attempts st)) of
             None \<Rightarrow> Inl (Invariant ''successful Rust ingestion run has no successful attempt'')
           | Some a \<Rightarrow> Inr (Some
               \<lparr> rep_schema_version = REPORT_SCHEMA_VERSION, rep_run_id = run_id r,
                 rep_attempt_id = attempt_id a, rep_status = Succeeded,
                 rep_content_sha256 = content_sha256 (req_artifact req),
                 rep_staged_records = nonnegative (run_staged r),
                 rep_promoted_records = nonnegative (run_promoted r),
                 rep_flagged_records = nonnegative (run_flagged r),
                 rep_warning_count = nonnegative (run_warnings r),
                 already_imported = True \<rparr>)))"

text \<open>\<open>INSERT \<dots> ON CONFLICT (slug, hash, parser, version) DO UPDATE \<dots> RETURNING id\<close>.\<close>

definition upsert_run :: "import_store \<Rightarrow> import_key \<Rightarrow> run_row \<Rightarrow> (run_row \<Rightarrow> run_row) \<Rightarrow> import_store \<times> int" where
  "upsert_run st key fresh update =
     (case List.find (\<lambda>r. run_key r = key) (runs st) of
        Some r \<Rightarrow> (st \<lparr> runs := map (\<lambda>q. if run_key q = key then update q else q) (runs st) \<rparr>, run_id r)
      | None \<Rightarrow> (st \<lparr> runs := runs st @ [fresh \<lparr> run_id := next_run st, run_key := key \<rparr>],
                     next_run := next_run st + 1 \<rparr>, next_run st))"

definition supersede_attempts :: "import_store \<Rightarrow> int \<Rightarrow> import_store" where
  "supersede_attempts st run =
     st \<lparr> attempts := map (\<lambda>a.
          if attempt_run a = run \<and> attempt_status a = Importing
          then a \<lparr> attempt_status := Failed, attempt_failure := Some (''PROCESS_TERMINATED'',
            ''superseded by a later attempt after the previous process ended without finalizing'') \<rparr>
          else a) (attempts st) \<rparr>"

definition insert_attempt ::
  "import_store \<Rightarrow> int \<Rightarrow> ImportStatus \<Rightarrow> (string \<times> string) option \<Rightarrow> import_store \<times> int" where
  "insert_attempt st run status failure =
     (let number = fold max (map attempt_number (filter (\<lambda>a. attempt_run a = run) (attempts st))) 0 + 1 in
      (st \<lparr> attempts := attempts st @
             [\<lparr> attempt_id = next_attempt st, attempt_run = run, attempt_number = number,
                attempt_status = status, attempt_counts = None, attempt_failure = failure \<rparr>],
            next_attempt := next_attempt st + 1 \<rparr>, next_attempt st))"

definition audit_start ::
  "import_store \<Rightarrow> ImportRequest \<Rightarrow> string \<Rightarrow> int \<Rightarrow> int \<Rightarrow> int \<Rightarrow> import_store \<times> int \<times> int" where
  "audit_start st req label bytes records warnings =
     (let locator = display_locator (req_artifact req);
          (st1, run) = upsert_run st (request_key req)
            \<lparr> run_id = 0, run_key = request_key req, run_label = label, run_byte_length = bytes,
              run_locator = locator, run_status = Importing, run_total = Some records,
              run_staged = None, run_promoted = None, run_flagged = None,
              run_warnings = Some warnings, run_failure = None \<rparr>
            (\<lambda>r. r \<lparr> run_byte_length := bytes, run_locator := locator, run_status := Importing,
                    run_failure := None \<rparr>);
          (st2, att) = insert_attempt (supersede_attempts st1 run) run Importing None
      in (st2, run, att))"

definition start_import ::
  "db_env \<Rightarrow> import_store \<Rightarrow> ImportRequest \<Rightarrow> import_store \<times> (PersistenceError + unit_of_work ImportStart)"
where
  "start_import E st req =
     (case prefix16 (content_sha256 (req_artifact req)) of
        None \<Rightarrow> (st, Inl short_hash_error)
      | Some hash_prefix \<Rightarrow>
          (let lock = lock_hash E (lock_key (request_key req)) in
           guarded E BeginImport st (guarded E TryLock st
             (if lock \<in> locks st then guarded E RollbackImport st (st, Inr Busy)
              else guarded E SelectReport st
                (case successful_report st req of
                   Inl e \<Rightarrow> (st, Inl e)
                 | Inr (Some report) \<Rightarrow> guarded E RollbackImport st (st, Inr (AlreadySucceeded report))
                 | Inr None \<Rightarrow>
                     guarded E BeginAudit st
                       (case and_then (to_i64 ''input byte length exceeds BIGINT''
                               (byte_length (req_artifact req))) (\<lambda>bytes.
                             and_then (to_i32 ''record count exceeds INT''
                               (pf_record_count (req_preflight req))) (\<lambda>records.
                             and_then (to_i32 ''warning count exceeds INT''
                               (pf_warning_count (req_preflight req))) (\<lambda>warnings.
                             Inr (bytes, records, warnings)))) of
                          Inl e \<Rightarrow> (st, Inl e)
                        | Inr (bytes, records, warnings) \<Rightarrow>
                            (let label = src_slug (req_source req) @ ''_'' @ hash_prefix @ ''_'' @
                                   dots_to_underscores (src_parser_version (req_source req));
                                 (audited, run, att) = audit_start st req label bytes records warnings
                             in guarded E UpsertRun st (guarded E SupersedeAttempts st
                                  (guarded E InsertAttempt st
                                    (case committed E CommitAudit st audited () of
                                       (st', Inl e) \<Rightarrow> (st', Inl e)
                                     | (st', Inr _) \<Rightarrow>
                                         (st' \<lparr> locks := insert lock (locks st') \<rparr>,
                                          Inr (Ready run att
                                            \<lparr> uow_run = run, uow_attempt = att, uow_lock = lock,
                                              uow_label = label, uow_staged = [],
                                              uow_success = None \<rparr>))))))))))))"

subsection \<open>Recording failures\<close>

definition fail_unless_succeeded ::
  "import_store \<Rightarrow> int \<Rightarrow> int \<Rightarrow> string \<Rightarrow> string \<Rightarrow> import_store" where
  "fail_unless_succeeded st run att code msg =
     st \<lparr> runs := map (\<lambda>r. if run_id r = run \<and> run_status r \<noteq> Succeeded
            then r \<lparr> run_status := Failed, run_failure := Some (code, msg) \<rparr> else r) (runs st),
          attempts := map (\<lambda>a. if attempt_id a = att \<and> attempt_status a \<noteq> Succeeded
            then a \<lparr> attempt_status := Failed, attempt_failure := Some (code, msg) \<rparr> else a)
            (attempts st) \<rparr>"

definition mark_failed ::
  "db_env \<Rightarrow> import_store \<Rightarrow> int \<Rightarrow> int \<Rightarrow> string \<Rightarrow> string \<Rightarrow> import_store \<times> (PersistenceError + unit)" where
  "mark_failed E st run att code msg =
     guarded E BeginFailure st (guarded E FailRun st (guarded E FailAttempt st
       (committed E CommitFailure st (fail_unless_succeeded st run att code msg) ())))"

text \<open>The blocking lock is waited for; while another transaction holds it this call does not get
  past it (\<open>WaitLock\<close> fails with the lock timeout).\<close>

definition record_validation_failure ::
  "db_env \<Rightarrow> import_store \<Rightarrow> SourceDescriptor \<Rightarrow> ArtifactDescriptor \<Rightarrow> string \<Rightarrow> string \<Rightarrow> PersistenceError \<Rightarrow>
     import_store \<times> (PersistenceError + unit)" where
  "record_validation_failure E st source artifact code msg lock_timeout =
     (case prefix16 (content_sha256 artifact) of
        None \<Rightarrow> (st, Inl short_hash_error)
      | Some hash_prefix \<Rightarrow>
          (let key = (src_slug source, content_sha256 artifact, src_parser_name source,
                      src_parser_version source);
               label = src_slug source @ ''_'' @ hash_prefix @ ''_'' @
                 dots_to_underscores (src_parser_version source) @ ''_validation''
           in guarded E BeginValidation st (guarded E WaitLock st
                (if lock_hash E (lock_key key) \<in> locks st then (st, Inl lock_timeout)
                 else (case to_i64 ''input byte length exceeds BIGINT'' (byte_length artifact) of
                     Inl e \<Rightarrow> (st, Inl e)
                   | Inr bytes \<Rightarrow>
                       (let (st1, run) = upsert_run st key
                              \<lparr> run_id = 0, run_key = key, run_label = label, run_byte_length = bytes,
                                run_locator = display_locator artifact, run_status = ValidationFailed,
                                run_total = None, run_staged = None, run_promoted = None,
                                run_flagged = None, run_warnings = None, run_failure = Some (code, msg) \<rparr>
                              (\<lambda>r. if run_status r = Succeeded then r
                                   else r \<lparr> run_status := ValidationFailed, run_failure := Some (code, msg) \<rparr>);
                            (st2, _) = insert_attempt st1 run ValidationFailed (Some (code, msg))
                        in guarded E UpsertValidation st (guarded E InsertValidation st
                             (committed E CommitValidation st st2 ()))))))))"

subsection \<open>The unit of work\<close>

definition stage_and_promote ::
  "db_env \<Rightarrow> unit_of_work \<Rightarrow> PreparedAircraftRecord \<Rightarrow> unit_of_work \<times> (PersistenceError + RecordOutcome)" where
  "stage_and_promote E u r =
     guarded E (StageRecord (length (uow_staged u))) u
       (u \<lparr> uow_staged := uow_staged u @ [r] \<rparr>, Inr (record_outcome r))"

definition refresh_read_models :: "db_env \<Rightarrow> unit_of_work \<Rightarrow> unit_of_work \<times> (PersistenceError + unit)" where
  "refresh_read_models E u = guarded E RefreshViews u (u, Inr ())"

definition report_counts :: "ImportReport \<Rightarrow> PersistenceError + (int \<times> int \<times> int \<times> int)" where
  "report_counts rep =
     (let conv = to_i32 ''report count exceeds INT'' in
      and_then (conv (rep_staged_records rep)) (\<lambda>s. and_then (conv (rep_promoted_records rep)) (\<lambda>p.
      and_then (conv (rep_flagged_records rep)) (\<lambda>f. and_then (conv (rep_warning_count rep)) (\<lambda>w.
      Inr (s, p, f, w))))))"

definition mark_succeeded ::
  "db_env \<Rightarrow> unit_of_work \<Rightarrow> ImportReport \<Rightarrow> unit_of_work \<times> (PersistenceError + unit)" where
  "mark_succeeded E u rep =
     (case report_counts rep of
        Inl e \<Rightarrow> (u, Inl e)
      | Inr _ \<Rightarrow> guarded E SucceedRun u (guarded E SucceedAttempt u
          (u \<lparr> uow_success := Some rep \<rparr>, Inr ())))"

text \<open>What the commit of a unit of work makes visible.\<close>

definition publish :: "import_store \<Rightarrow> unit_of_work \<Rightarrow> import_store" where
  "publish st u =
     (let done = st \<lparr> promoted_batches := promoted_batches st @ [(uow_run u, uow_staged u)] \<rparr> in
      case uow_success u of
        None \<Rightarrow> done
      | Some rep \<Rightarrow>
          done \<lparr> runs := map (\<lambda>r. if run_id r = uow_run u
                    then r \<lparr> run_status := Succeeded,
                             run_staged := Some (int (rep_staged_records rep)),
                             run_promoted := Some (int (rep_promoted_records rep)),
                             run_flagged := Some (int (rep_flagged_records rep)),
                             run_warnings := Some (int (rep_warning_count rep)) \<rparr> else r) (runs st),
                 attempts := map (\<lambda>a. if attempt_id a = uow_attempt u
                    then a \<lparr> attempt_status := Succeeded,
                             attempt_counts := Some (int (rep_staged_records rep),
                               int (rep_promoted_records rep), int (rep_flagged_records rep),
                               int (rep_warning_count rep)) \<rparr> else a) (attempts st) \<rparr>)"

definition release :: "unit_of_work \<Rightarrow> import_store \<Rightarrow> import_store" where
  "release u st = st \<lparr> locks := locks st - {uow_lock u} \<rparr>"

definition commit_import :: "db_env \<Rightarrow> import_store \<Rightarrow> unit_of_work \<Rightarrow> import_store \<times> (PersistenceError + unit)" where
  "commit_import E st u = committed E CommitImport (release u st) (release u (publish st u)) ()"

text \<open>A rollback that fails drops the connection, which aborts the transaction all the same.\<close>

definition rollback_import :: "db_env \<Rightarrow> import_store \<Rightarrow> unit_of_work \<Rightarrow> import_store \<times> (PersistenceError + unit)" where
  "rollback_import E st u = guarded E RollbackImport (release u st) (release u st, Inr ())"

definition sqlx_store :: "db_env \<Rightarrow> (import_store, unit_of_work) store_ops" where
  "sqlx_store E =
     \<lparr> start_import_op = start_import E, mark_failed_op = mark_failed E, stage_op = stage_and_promote E,
       refresh_op = refresh_read_models E, mark_succeeded_op = mark_succeeded E,
       commit_op = commit_import E, rollback_op = rollback_import E \<rparr>"

subsection \<open>The store is a provider of the port\<close>

lemma guarded_eq:
  "guarded E call st next = res \<longleftrightarrow>
     (\<exists>e. fault E call = Some e \<and> (st, Inl e) = res) \<or> (fault E call = None \<and> next = res)"
  by (auto simp: guarded_def split: option.splits)

lemma committed_eq:
  "committed E call old new v = res \<longleftrightarrow>
     (\<exists>e. fault E call = Some e \<and> (if applied E call then new else old, Inl e) = res) \<or>
     (fault E call = None \<and> (new, Inr v) = res)"
  by (auto simp: committed_def split: option.splits)

lemma upsert_run_frame [simp]:
  "promoted_batches (fst (upsert_run st key fresh update)) = promoted_batches st"
  "locks (fst (upsert_run st key fresh update)) = locks st"
  "attempts (fst (upsert_run st key fresh update)) = attempts st"
  "next_attempt (fst (upsert_run st key fresh update)) = next_attempt st"
  by (auto simp: upsert_run_def split: option.splits)

lemma insert_attempt_frame [simp]:
  "promoted_batches (fst (insert_attempt st run status failure)) = promoted_batches st"
  "locks (fst (insert_attempt st run status failure)) = locks st"
  "runs (fst (insert_attempt st run status failure)) = runs st"
  "next_run (fst (insert_attempt st run status failure)) = next_run st"
  by (simp_all add: insert_attempt_def Let_def)

lemma supersede_attempts_frame [simp]:
  "promoted_batches (supersede_attempts st run) = promoted_batches st"
  "locks (supersede_attempts st run) = locks st"
  "runs (supersede_attempts st run) = runs st"
  "next_run (supersede_attempts st run) = next_run st"
  "next_attempt (supersede_attempts st run) = next_attempt st"
  by (simp_all add: supersede_attempts_def)

lemma audit_start_frame:
  assumes "audit_start st req label bytes records warnings = (st', run, att)"
  shows "promoted_batches st' = promoted_batches st" and "locks st' = locks st"
  using assms
  by (auto simp: audit_start_def Let_def split_beta)

text \<open>How a call of \<open>start_import\<close> can end.\<close>

lemma start_import_cases:
  assumes "start_import E st req = (st', res)"
  obtains (failed) e where "res = Inl e" "st' = st"
  | (busy) "res = Inr Busy" "st' = st" "lock_hash E (lock_key (request_key req)) \<in> locks st"
  | (already) rep where "res = Inr (AlreadySucceeded rep)" "st' = st"
      "successful_report st req = Inr (Some rep)"
  | (lost_audit) e label bytes records warnings run att where "res = Inl e"
      "audit_start st req label bytes records warnings = (st', run, att)"
      "lock_hash E (lock_key (request_key req)) \<notin> locks st" "successful_report st req = Inr None"
  | (ready) label bytes records warnings run att audited where
      "audit_start st req label bytes records warnings = (audited, run, att)"
      "st' = audited \<lparr> locks := insert (lock_hash E (lock_key (request_key req))) (locks audited) \<rparr>"
      "res = Inr (Ready run att
         \<lparr> uow_run = run, uow_attempt = att, uow_lock = lock_hash E (lock_key (request_key req)),
           uow_label = label, uow_staged = [], uow_success = None \<rparr>)"
      "lock_hash E (lock_key (request_key req)) \<notin> locks st" "successful_report st req = Inr None"
  using assms unfolding start_import_def Let_def
  by (auto simp: guarded_eq committed_eq split: option.splits if_splits sum.splits prod.splits)

interpretation pg: ingestion_store "sqlx_store E" promoted_batches uow_staged uow_run for E
proof
  fix st req st' res
  assume "start_import_op (sqlx_store E) st req = (st', res)"
  then have "start_import E st req = (st', res)" by (simp add: sqlx_store_def)
  then show "promoted_batches st' = promoted_batches st"
    by (cases rule: start_import_cases) (auto dest: audit_start_frame)
next
  fix st req st' run att u
  assume "start_import_op (sqlx_store E) st req = (st', Inr (Ready run att u))"
  then have "start_import E st req = (st', Inr (Ready run att u))" by (simp add: sqlx_store_def)
  then show "uow_staged u = [] \<and> uow_run u = run"
    by (cases rule: start_import_cases) auto
next
  fix st req st' rep
  assume "start_import_op (sqlx_store E) st req = (st', Inr (AlreadySucceeded rep))"
  then have "start_import E st req = (st', Inr (AlreadySucceeded rep))" by (simp add: sqlx_store_def)
  then show "already_imported rep"
    by (cases rule: start_import_cases) (auto simp: successful_report_def split: option.splits)
qed (auto simp: sqlx_store_def stage_and_promote_def refresh_read_models_def mark_succeeded_def
      commit_import_def rollback_import_def mark_failed_def guarded_eq committed_eq
      guarded_def committed_def publish_def release_def fail_unless_succeeded_def Let_def
      split: option.splits sum.splits)

end
