(* ===== verification/Import_Protocol.thy ===== *)
theory Import_Protocol
  imports Import_Store
begin

text \<open>
  Several import processes share the store: each opens a unit of work, works in it, and commits,
  rolls back or dies, while failures are audited and validation failures recorded at any moment.
  The steps are the store's operations under any faults; the theorems hold in every reachable
  state.
\<close>

subsection \<open>Steps\<close>

record world =
  w_store :: import_store
  w_active :: "nat \<Rightarrow> unit_of_work option"

inductive import_step :: "(string \<Rightarrow> int) \<Rightarrow> world \<Rightarrow> world \<Rightarrow> bool" for h where
  Start: "w_active w p = None \<Longrightarrow> lock_hash E = h \<Longrightarrow>
     start_import E (w_store w) req = (st', Inr (Ready run att u)) \<Longrightarrow>
     import_step h w \<lparr> w_store = st', w_active = (w_active w)(p := Some u) \<rparr>"
| Refused: "lock_hash E = h \<Longrightarrow> start_import E (w_store w) req = (st', res) \<Longrightarrow>
     (\<nexists>run att u. res = Inr (Ready run att u)) \<Longrightarrow> import_step h w (w \<lparr> w_store := st' \<rparr>)"
| Stage: "w_active w p = Some u \<Longrightarrow> stage_and_promote E u r = (u', res) \<Longrightarrow>
     import_step h w (w \<lparr> w_active := (w_active w)(p := Some u') \<rparr>)"
| Refresh: "w_active w p = Some u \<Longrightarrow> refresh_read_models E u = (u', res) \<Longrightarrow>
     import_step h w (w \<lparr> w_active := (w_active w)(p := Some u') \<rparr>)"
| Succeed: "w_active w p = Some u \<Longrightarrow> mark_succeeded E u rep = (u', res) \<Longrightarrow>
     import_step h w (w \<lparr> w_active := (w_active w)(p := Some u') \<rparr>)"
| Commit: "w_active w p = Some u \<Longrightarrow> uow_success u \<noteq> None \<Longrightarrow>
     commit_import E (w_store w) u = (st', res) \<Longrightarrow>
     import_step h w \<lparr> w_store = st', w_active = (w_active w)(p := None) \<rparr>"
| Abandon: "w_active w p = Some u \<Longrightarrow> rollback_import E (w_store w) u = (st', res) \<Longrightarrow>
     import_step h w \<lparr> w_store = st', w_active = (w_active w)(p := None) \<rparr>"
| Audit: "mark_failed E (w_store w) run att code msg = (st', res) \<Longrightarrow>
     import_step h w (w \<lparr> w_store := st' \<rparr>)"
| Validation: "lock_hash E = h \<Longrightarrow>
     record_validation_failure E (w_store w) source artifact code msg timeout = (st', res) \<Longrightarrow>
     import_step h w (w \<lparr> w_store := st' \<rparr>)"

inductive_cases import_stepE: "import_step h w w'"

definition empty_store :: import_store where
  "empty_store = \<lparr> runs = [], attempts = [], next_run = 1, next_attempt = 1, locks = {},
     promoted_batches = [] \<rparr>"

inductive reachable :: "(string \<Rightarrow> int) \<Rightarrow> world \<Rightarrow> bool" for h where
  initial: "reachable h \<lparr> w_store = empty_store, w_active = (\<lambda>_. None) \<rparr>"
| step: "reachable h w \<Longrightarrow> import_step h w w' \<Longrightarrow> reachable h w'"

subsection \<open>The invariant\<close>

definition succeeded_runs :: "import_store \<Rightarrow> int set" where
  "succeeded_runs st = run_id ` {r \<in> set (runs st). run_status r = Succeeded}"

definition rows_ok :: "import_store \<Rightarrow> bool" where
  "rows_ok st \<longleftrightarrow>
     distinct (map run_id (runs st)) \<and> distinct (map run_key (runs st)) \<and>
     (\<forall>r \<in> set (runs st). run_id r < next_run st) \<and>
     distinct (map attempt_id (attempts st)) \<and>
     (\<forall>a \<in> set (attempts st). attempt_id a < next_attempt st)"

definition history_ok :: "import_store \<Rightarrow> bool" where
  "history_ok st \<longleftrightarrow>
     distinct (map fst (promoted_batches st)) \<and>
     fst ` set (promoted_batches st) = succeeded_runs st \<and>
     (\<forall>r \<in> set (runs st). run_status r = Succeeded \<longrightarrow>
        (\<exists>a \<in> set (attempts st). attempt_run a = run_id r \<and> attempt_status a = Succeeded))"

text \<open>A unit of work holds the lock of its run's key, and the run has not succeeded.\<close>

definition uow_ok :: "(string \<Rightarrow> int) \<Rightarrow> import_store \<Rightarrow> unit_of_work \<Rightarrow> bool" where
  "uow_ok h st u \<longleftrightarrow>
     uow_lock u \<in> locks st \<and>
     (\<exists>r \<in> set (runs st). run_id r = uow_run u \<and> h (lock_key (run_key r)) = uow_lock u \<and>
        run_status r \<noteq> Succeeded) \<and>
     (\<exists>a \<in> set (attempts st). attempt_id a = uow_attempt u \<and> attempt_run a = uow_run u)"

definition world_ok :: "(string \<Rightarrow> int) \<Rightarrow> world \<Rightarrow> bool" where
  "world_ok h w \<longleftrightarrow>
     rows_ok (w_store w) \<and> history_ok (w_store w) \<and>
     (\<forall>p u. w_active w p = Some u \<longrightarrow> uow_ok h (w_store w) u) \<and>
     (\<forall>p q u v. w_active w p = Some u \<longrightarrow> w_active w q = Some v \<longrightarrow> uow_lock u = uow_lock v \<longrightarrow> p = q)"

text \<open>
  A change of the audit rows that leaves every identity alone, never touches a row that has
  succeeded and never makes one succeed.
\<close>

definition same_run :: "run_row \<Rightarrow> run_row \<Rightarrow> bool" where
  "same_run r q \<longleftrightarrow> run_id q = run_id r \<and> run_key q = run_key r"

definition same_attempt :: "attempt_row \<Rightarrow> attempt_row \<Rightarrow> bool" where
  "same_attempt a b \<longleftrightarrow> attempt_id b = attempt_id a \<and> attempt_run b = attempt_run a \<and>
     (attempt_status a = Succeeded \<longrightarrow> attempt_status b = Succeeded)"

definition pending_runs :: "import_store \<Rightarrow> run_row set" where
  "pending_runs st = {r \<in> set (runs st). run_status r \<noteq> Succeeded}"

definition done_runs :: "import_store \<Rightarrow> run_row set" where
  "done_runs st = {r \<in> set (runs st). run_status r = Succeeded}"

definition quiet :: "import_store \<Rightarrow> import_store \<Rightarrow> bool" where
  "quiet st st' \<longleftrightarrow>
     promoted_batches st' = promoted_batches st \<and> locks st \<subseteq> locks st' \<and>
     done_runs st' = done_runs st \<and>
     (\<forall>r \<in> pending_runs st. \<exists>q \<in> pending_runs st'. same_run r q) \<and>
     (\<forall>a \<in> set (attempts st). \<exists>b \<in> set (attempts st'). same_attempt a b)"

lemma same_run_trans: "same_run r q \<Longrightarrow> same_run q s \<Longrightarrow> same_run r s"
  by (simp add: same_run_def)

lemma same_attempt_trans: "same_attempt a b \<Longrightarrow> same_attempt b c \<Longrightarrow> same_attempt a c"
  by (simp add: same_attempt_def)

lemma quietI:
  assumes "promoted_batches st' = promoted_batches st" and "locks st \<subseteq> locks st'"
    and "done_runs st' = done_runs st"
    and "\<And>r. r \<in> pending_runs st \<Longrightarrow> \<exists>q \<in> pending_runs st'. same_run r q"
    and "\<And>a. a \<in> set (attempts st) \<Longrightarrow> \<exists>b \<in> set (attempts st'). same_attempt a b"
  shows "quiet st st'"
  using assms by (auto simp: quiet_def)

lemma quiet_refl: "quiet st st"
  by (rule quietI) (auto simp: same_run_def same_attempt_def)

lemma quiet_trans:
  assumes "quiet a b" and "quiet b c"
  shows "quiet a c"
proof (rule quietI)
  show "promoted_batches c = promoted_batches a" "locks a \<subseteq> locks c" "done_runs c = done_runs a"
    using assms by (auto simp: quiet_def)
  show "\<exists>q \<in> pending_runs c. same_run r q" if "r \<in> pending_runs a" for r
    using assms that unfolding quiet_def by (meson same_run_trans)
  show "\<exists>y \<in> set (attempts c). same_attempt x y" if "x \<in> set (attempts a)" for x
    using assms that unfolding quiet_def by (meson same_attempt_trans)
qed

lemma succeeded_runs_done: "succeeded_runs st = run_id ` done_runs st"
  by (simp add: succeeded_runs_def done_runs_def)

lemma quiet_history_ok:
  assumes q: "quiet st st'" and h: "history_ok st"
  shows "history_ok st'"
proof -
  have "\<exists>b \<in> set (attempts st'). attempt_run b = run_id r \<and> attempt_status b = Succeeded"
    if r: "r \<in> done_runs st'" for r
  proof -
    from q r have "r \<in> done_runs st" by (simp add: quiet_def)
    then obtain a where a: "a \<in> set (attempts st)" "attempt_run a = run_id r" "attempt_status a = Succeeded"
      using h by (auto simp: history_ok_def done_runs_def)
    then obtain b where "b \<in> set (attempts st')" "same_attempt a b" using q by (auto simp: quiet_def)
    with a show ?thesis by (auto simp: same_attempt_def)
  qed
  then show ?thesis
    using q h by (auto simp: history_ok_def quiet_def succeeded_runs_done done_runs_def)
qed

lemma quiet_uow_ok:
  assumes q: "quiet st st'" and u: "uow_ok h st u"
  shows "uow_ok h st' u"
proof -
  from u obtain r a where r: "r \<in> pending_runs st" "run_id r = uow_run u"
      "h (lock_key (run_key r)) = uow_lock u"
    and a: "a \<in> set (attempts st)" "attempt_id a = uow_attempt u" "attempt_run a = uow_run u"
    by (auto simp: uow_ok_def pending_runs_def)
  obtain r' where "r' \<in> pending_runs st'" "same_run r r'" using q r(1) by (auto simp: quiet_def)
  moreover obtain a' where "a' \<in> set (attempts st')" "same_attempt a a'" using q a(1) by (auto simp: quiet_def)
  moreover have "uow_lock u \<in> locks st'" using q u by (auto simp: quiet_def uow_ok_def)
  ultimately show ?thesis
    using r a unfolding uow_ok_def pending_runs_def same_run_def same_attempt_def by fastforce
qed

subsection \<open>Audit operations are quiet\<close>

text \<open>An update of the rows of one key that keeps their identity.\<close>

definition keeps_row :: "(run_row \<Rightarrow> run_row) \<Rightarrow> bool" where
  "keeps_row g \<longleftrightarrow> (\<forall>r. run_id (g r) = run_id r \<and> run_key (g r) = run_key r)"

lemma rows_ok_map_runs:
  assumes "keeps_row g" and "rows_ok st"
  shows "rows_ok (st \<lparr> runs := map g (runs st) \<rparr>)"
proof -
  have "run_id \<circ> g = run_id" and "run_key \<circ> g = run_key"
    using assms(1) by (auto simp: keeps_row_def)
  with assms show ?thesis by (auto simp: rows_ok_def keeps_row_def)
qed

lemma quiet_map_runs:
  assumes "keeps_row g"
    and fixed: "\<And>r. r \<in> set (runs st) \<Longrightarrow> run_status r = Succeeded \<Longrightarrow> g r = r"
    and open_rows: "\<And>r. r \<in> set (runs st) \<Longrightarrow> run_status r \<noteq> Succeeded \<Longrightarrow> run_status (g r) \<noteq> Succeeded"
  shows "quiet st (st \<lparr> runs := map g (runs st) \<rparr>)" (is "quiet st ?st'")
proof (rule quietI)
  have "r \<in> done_runs ?st'" if "r \<in> done_runs st" for r
    using that fixed [of r] by (force simp: done_runs_def)
  moreover have "r \<in> done_runs st" if "r \<in> done_runs ?st'" for r
  proof -
    from that obtain q where q: "q \<in> set (runs st)" "r = g q" "run_status r = Succeeded"
      by (auto simp: done_runs_def)
    with open_rows fixed have "run_status q = Succeeded" "g q = q" by metis+
    with q show ?thesis by (simp add: done_runs_def)
  qed
  ultimately show "done_runs ?st' = done_runs st" by blast
  show "\<exists>q \<in> pending_runs ?st'. same_run r q" if "r \<in> pending_runs st" for r
    using that open_rows assms(1)
    by (intro bexI [of _ "g r"]) (auto simp: pending_runs_def same_run_def keeps_row_def)
  show "\<exists>b \<in> set (attempts ?st'). same_attempt a b" if "a \<in> set (attempts st)" for a
    using that by (intro bexI [of _ a]) (simp_all add: same_attempt_def)
qed simp_all

lemma rows_ok_map_attempts:
  assumes "\<And>a. attempt_id (g a) = attempt_id a" and "rows_ok st"
  shows "rows_ok (st \<lparr> attempts := map g (attempts st) \<rparr>)"
proof -
  have "attempt_id \<circ> g = attempt_id" using assms(1) by auto
  with assms show ?thesis by (auto simp: rows_ok_def)
qed

lemma quiet_map_attempts:
  assumes "\<And>a. attempt_id (g a) = attempt_id a \<and> attempt_run (g a) = attempt_run a \<and>
      (attempt_status a = Succeeded \<longrightarrow> attempt_status (g a) = Succeeded)"
  shows "quiet st (st \<lparr> attempts := map g (attempts st) \<rparr>)"
  using assms by (intro quietI) (auto simp: done_runs_def pending_runs_def same_run_def same_attempt_def)

lemma find_run_key:
  assumes "rows_ok st" and "r \<in> set (runs st)" and "run_key r = key"
  shows "List.find (\<lambda>q. run_key q = key) (runs st) = Some r"
  using find_distinct_key [of run_key "runs st" r] assms by (simp add: rows_ok_def)

lemma upsert_run_ok:
  assumes "rows_ok st" and "keeps_row update"
    and "\<And>r. r \<in> set (runs st) \<Longrightarrow> run_key r = key \<Longrightarrow> run_status r = Succeeded \<Longrightarrow> update r = r"
    and "\<And>r. r \<in> set (runs st) \<Longrightarrow> run_key r = key \<Longrightarrow> run_status r \<noteq> Succeeded \<Longrightarrow>
      run_status (update r) \<noteq> Succeeded"
    and "run_status fresh \<noteq> Succeeded"
    and "upsert_run st key fresh update = (st', run)"
  shows "quiet st st' \<and> rows_ok st' \<and> (\<exists>r \<in> set (runs st'). run_id r = run \<and> run_key r = key)"
proof (cases "List.find (\<lambda>r. run_key r = key) (runs st)")
  case None
  then have "\<forall>r \<in> set (runs st). run_key r \<noteq> key" by (auto simp: find_None_iff)
  moreover have "next_run st \<notin> run_id ` set (runs st)" and "\<forall>r \<in> set (runs st). run_id r < next_run st + 1"
    using assms(1) by (auto simp: rows_ok_def)
  moreover have st': "st' = st \<lparr> runs := runs st @ [fresh \<lparr> run_id := next_run st, run_key := key \<rparr>],
      next_run := next_run st + 1 \<rparr>" and run: "run = next_run st"
    using None assms(6) by (auto simp: upsert_run_def)
  moreover have "quiet st st'" unfolding st' using assms(5)
    by (intro quietI) (auto simp: done_runs_def pending_runs_def same_run_def same_attempt_def)
  ultimately show ?thesis using assms(1)
    by (auto simp: rows_ok_def)
next
  case (Some r)
  then have r: "r \<in> set (runs st)" "run_key r = key" by (auto simp: find_Some_iff)
  let ?g = "\<lambda>q. if run_key q = key then update q else q"
  have g: "keeps_row ?g" using assms(2) by (simp add: keeps_row_def)
  have st': "st' = st \<lparr> runs := map ?g (runs st) \<rparr>" and run: "run = run_id r"
    using Some assms(6) by (auto simp: upsert_run_def)
  have "quiet st st'" unfolding st'
    by (rule quiet_map_runs [OF g]) (use assms(3,4) in auto)
  moreover have "rows_ok st'" unfolding st' by (rule rows_ok_map_runs [OF g assms(1)])
  moreover have "update r \<in> set (runs st')" using r by (force simp: st')
  moreover have "run_id (update r) = run" and "run_key (update r) = key"
    using r run assms(2) by (auto simp: keeps_row_def)
  ultimately show ?thesis by blast
qed

lemma insert_attempt_ok:
  assumes "rows_ok st" and "insert_attempt st run status failure = (st', att)"
  shows "quiet st st' \<and> rows_ok st' \<and>
     (\<exists>a \<in> set (attempts st'). attempt_id a = att \<and> attempt_run a = run)"
proof -
  define a where "a = \<lparr> attempt_id = next_attempt st, attempt_run = run,
    attempt_number = fold max (map attempt_number (filter (\<lambda>a. attempt_run a = run) (attempts st))) 0 + 1,
    attempt_status = status, attempt_counts = None, attempt_failure = failure \<rparr>"
  have st': "st' = st \<lparr> attempts := attempts st @ [a], next_attempt := next_attempt st + 1 \<rparr>"
    and att: "att = next_attempt st"
    using assms(2) by (auto simp: insert_attempt_def a_def Let_def)
  have a: "attempt_id a = att" "attempt_run a = run" by (simp_all add: a_def att)
  have "quiet st st'"
    unfolding st' by (intro quietI) (auto simp: done_runs_def pending_runs_def same_run_def same_attempt_def)
  moreover have "attempt_id b < next_attempt st" if "b \<in> set (attempts st)" for b
    using assms(1) that by (simp add: rows_ok_def)
  then have "rows_ok st'" using assms(1) a att by (fastforce simp: rows_ok_def st')
  ultimately show ?thesis using a by (simp add: st')
qed

lemma supersede_ok:
  assumes "rows_ok st"
  shows "quiet st (supersede_attempts st run) \<and> rows_ok (supersede_attempts st run)"
  unfolding supersede_attempts_def
  using assms by (intro conjI quiet_map_attempts rows_ok_map_attempts) auto

lemma fail_unless_succeeded_ok:
  assumes "rows_ok st"
  shows "quiet st (fail_unless_succeeded st run att code msg) \<and>
     rows_ok (fail_unless_succeeded st run att code msg)"
proof -
  let ?g = "\<lambda>r. if run_id r = run \<and> run_status r \<noteq> Succeeded
      then r \<lparr> run_status := Failed, run_failure := Some (code, msg) \<rparr> else r"
  let ?st = "st \<lparr> runs := map ?g (runs st) \<rparr>"
  let ?h = "\<lambda>a. if attempt_id a = att \<and> attempt_status a \<noteq> Succeeded
      then a \<lparr> attempt_status := Failed, attempt_failure := Some (code, msg) \<rparr> else a"
  have eq: "fail_unless_succeeded st run att code msg = ?st \<lparr> attempts := map ?h (attempts ?st) \<rparr>"
    by (simp add: fail_unless_succeeded_def)
  have g: "keeps_row ?g" by (simp add: keeps_row_def)
  have "quiet st ?st" by (rule quiet_map_runs [OF g]) auto
  moreover have "quiet ?st (?st \<lparr> attempts := map ?h (attempts ?st) \<rparr>)"
    by (rule quiet_map_attempts) auto
  moreover have "rows_ok (?st \<lparr> attempts := map ?h (attempts ?st) \<rparr>)"
    by (rule rows_ok_map_attempts [OF _ rows_ok_map_runs [OF g assms]]) auto
  ultimately show ?thesis unfolding eq by (blast intro: quiet_trans)
qed

text \<open>A fresh import: no row of the key has succeeded, and the new attempt belongs to the key's run.\<close>

lemma audit_start_ok:
  assumes "rows_ok st" and "successful_report st req = Inr None"
    and "audit_start st req label bytes records warnings = (st', run, att)"
  shows "quiet st st' \<and> rows_ok st' \<and>
     (\<exists>r \<in> set (runs st'). run_id r = run \<and> run_key r = request_key req \<and> run_status r \<noteq> Succeeded) \<and>
     (\<exists>a \<in> set (attempts st'). attempt_id a = att \<and> attempt_run a = run)"
proof -
  define fresh where "fresh = \<lparr> run_id = 0, run_key = request_key req, run_label = label,
    run_byte_length = bytes, run_locator = display_locator (req_artifact req), run_status = Importing,
    run_total = Some records, run_staged = None, run_promoted = None, run_flagged = None,
    run_warnings = Some warnings, run_failure = None \<rparr>"
  define update where "update = (\<lambda>r::run_row. r \<lparr> run_byte_length := bytes,
    run_locator := display_locator (req_artifact req), run_status := Importing, run_failure := None \<rparr>)"
  obtain st1 where up: "upsert_run st (request_key req) fresh update = (st1, run)"
    and ins: "insert_attempt (supersede_attempts st1 run) run Importing None = (st', att)"
    using assms(3) by (auto simp: audit_start_def fresh_def update_def Let_def split: prod.splits)
  have none: "run_status r \<noteq> Succeeded" if "r \<in> set (runs st)" "run_key r = request_key req" for r
    using assms(2) that by (auto simp: successful_report_def find_None_iff split: option.splits)
  have keeps: "keeps_row update" by (simp add: keeps_row_def update_def)
  have u: "quiet st st1" "rows_ok st1" "\<exists>r \<in> set (runs st1). run_id r = run \<and> run_key r = request_key req"
    using upsert_run_ok [OF assms(1) keeps _ _ _ up] none by (auto simp: update_def fresh_def)
  moreover have s: "quiet st1 (supersede_attempts st1 run)" "rows_ok (supersede_attempts st1 run)"
    using supersede_ok [OF u(2)] by auto
  moreover note i = insert_attempt_ok [OF s(2) ins]
  ultimately have "quiet st st'" and "rows_ok st'" by (auto intro: quiet_trans)
  moreover have "runs st' = runs st1"
    using arg_cong [OF ins, of "\<lambda>x. runs (fst x)"] by simp
  moreover have "run_status r \<noteq> Succeeded" if "r \<in> set (runs st1)" "run_key r = request_key req" for r
    using that u(1) none by (auto simp: quiet_def done_runs_def)
  ultimately show ?thesis using u(3) i by auto
qed

subsection \<open>Every step keeps the invariant\<close>

lemma locks_frame [simp]:
  "rows_ok (st \<lparr> locks := x \<rparr>) = rows_ok st"
  "history_ok (st \<lparr> locks := x \<rparr>) = history_ok st"
  "succeeded_runs (st \<lparr> locks := x \<rparr>) = succeeded_runs st"
  "done_runs (st \<lparr> locks := x \<rparr>) = done_runs st"
  by (simp_all add: rows_ok_def history_ok_def succeeded_runs_def done_runs_def)

lemma uow_ok_release:
  assumes "uow_ok h st v" and "uow_lock v \<noteq> uow_lock u"
  shows "uow_ok h (release u st) v"
  using assms by (auto simp: uow_ok_def release_def)

lemma uow_ok_same_parts:
  assumes "uow_ok h st u" and "uow_run u' = uow_run u" "uow_attempt u' = uow_attempt u" "uow_lock u' = uow_lock u"
  shows "uow_ok h st u'"
  using assms by (simp add: uow_ok_def)

lemma distinct_row:
  "rows_ok st \<Longrightarrow> r \<in> set (runs st) \<Longrightarrow> q \<in> set (runs st) \<Longrightarrow> run_id r = run_id q \<Longrightarrow> r = q"
  by (auto simp: rows_ok_def distinct_map inj_on_def)

text \<open>The rows a successful commit rewrites.\<close>

definition succeed_row :: "unit_of_work \<Rightarrow> ImportReport \<Rightarrow> run_row \<Rightarrow> run_row" where
  "succeed_row u rep r =
     (if run_id r = uow_run u
      then r \<lparr> run_status := Succeeded, run_staged := Some (int (rep_staged_records rep)),
               run_promoted := Some (int (rep_promoted_records rep)),
               run_flagged := Some (int (rep_flagged_records rep)),
               run_warnings := Some (int (rep_warning_count rep)) \<rparr> else r)"

definition succeed_attempt :: "unit_of_work \<Rightarrow> ImportReport \<Rightarrow> attempt_row \<Rightarrow> attempt_row" where
  "succeed_attempt u rep a =
     (if attempt_id a = uow_attempt u
      then a \<lparr> attempt_status := Succeeded,
               attempt_counts := Some (int (rep_staged_records rep), int (rep_promoted_records rep),
                 int (rep_flagged_records rep), int (rep_warning_count rep)) \<rparr> else a)"

lemma publish_success:
  "uow_success u = Some rep \<Longrightarrow> publish st u =
     st \<lparr> promoted_batches := promoted_batches st @ [(uow_run u, uow_staged u)],
          runs := map (succeed_row u rep) (runs st),
          attempts := map (succeed_attempt u rep) (attempts st) \<rparr>"
  by (simp add: publish_def Let_def succeed_row_def succeed_attempt_def)

lemma keeps_succeed_row: "keeps_row (succeed_row u rep)"
  by (simp add: keeps_row_def succeed_row_def)

lemma succeed_attempt_parts:
  "attempt_id (succeed_attempt u rep a) = attempt_id a"
  "attempt_run (succeed_attempt u rep a) = attempt_run a"
  "attempt_status a = Succeeded \<Longrightarrow> attempt_status (succeed_attempt u rep a) = Succeeded"
  by (simp_all add: succeed_attempt_def)

definition publishes :: "(string \<Rightarrow> int) \<Rightarrow> import_store \<Rightarrow> unit_of_work \<Rightarrow> ImportReport \<Rightarrow> bool" where
  "publishes h st u rep \<longleftrightarrow> rows_ok st \<and> history_ok st \<and> uow_ok h st u \<and> uow_success u = Some rep"

lemma publishesD:
  assumes "publishes h st u rep"
  shows "rows_ok st" "history_ok st" "uow_ok h st u" "uow_success u = Some rep"
  using assms by (auto simp: publishes_def)

lemma publishes_row:
  assumes "publishes h st u rep"
  obtains r where "r \<in> set (runs st)" "run_id r = uow_run u" "h (lock_key (run_key r)) = uow_lock u"
    "run_status r \<noteq> Succeeded"
  using publishesD(3) [OF assms] by (auto simp: uow_ok_def)

lemma published_rows:
  assumes pub: "publishes h st u rep"
  shows "rows_ok (publish st u)"
proof -
  note success = publishesD(4) [OF pub]
  have "rows_ok (st \<lparr> attempts := map (succeed_attempt u rep) (attempts st) \<rparr>)"
    by (rule rows_ok_map_attempts [OF _ publishesD(1) [OF pub]]) (simp add: succeed_attempt_parts)
  from rows_ok_map_runs [OF keeps_succeed_row [of u rep] this]
  show ?thesis by (simp add: publish_success [OF success] rows_ok_def)
qed

lemma publish_not_done:
  assumes pub: "publishes h st u rep"
  shows "uow_run u \<notin> succeeded_runs st"
proof
  assume "uow_run u \<in> succeeded_runs st"
  then obtain q where "q \<in> set (runs st)" "run_id q = uow_run u" "run_status q = Succeeded"
    by (auto simp: succeeded_runs_def)
  moreover obtain r where "r \<in> set (runs st)" "run_id r = uow_run u" "run_status r \<noteq> Succeeded"
    using pub by (rule publishes_row)
  ultimately show False using distinct_row [OF publishesD(1) [OF pub]] by metis
qed

lemma published_done:
  assumes pub: "publishes h st u rep"
  shows "succeeded_runs (publish st u) = insert (uow_run u) (succeeded_runs st)"
proof -
  note success = publishesD(4) [OF pub]
  have "run_id (succeed_row u rep q) = run_id q" for q by (simp add: succeed_row_def)
  moreover have "run_status (succeed_row u rep q) = Succeeded \<longleftrightarrow>
      run_id q = uow_run u \<or> run_status q = Succeeded" for q by (simp add: succeed_row_def)
  ultimately have "succeeded_runs (publish st u) =
      run_id ` {q \<in> set (runs st). run_id q = uow_run u \<or> run_status q = Succeeded}"
    by (force simp: succeeded_runs_def publish_success [OF success] image_iff)
  also have "\<dots> = insert (uow_run u) (succeeded_runs st)"
    using pub by (rule publishes_row) (force simp: succeeded_runs_def)
  finally show ?thesis .
qed

lemma published_keeps_done:
  assumes pub: "publishes h st u rep"
  shows "done_runs st \<subseteq> done_runs (publish st u)"
proof
  fix r assume r: "r \<in> done_runs st"
  then have "run_id r \<in> succeeded_runs st" by (auto simp: succeeded_runs_done)
  with publish_not_done [OF pub] have "succeed_row u rep r = r" by (auto simp: succeed_row_def)
  with r show "r \<in> done_runs (publish st u)"
    by (force simp: done_runs_def publish_success [OF publishesD(4) [OF pub]])
qed

lemma published_history:
  assumes pub: "publishes h st u rep"
  shows "history_ok (publish st u)"
  unfolding history_ok_def
proof (intro conjI ballI impI)
  note success = publishesD(4) [OF pub] and hist = publishesD(2) [OF pub]
  have "fst ` set (promoted_batches st) = succeeded_runs st" using hist by (simp add: history_ok_def)
  with publish_not_done [OF pub] hist
  show "distinct (map fst (promoted_batches (publish st u)))"
    by (simp add: publish_success [OF success] history_ok_def)
  show "fst ` set (promoted_batches (publish st u)) = succeeded_runs (publish st u)"
    using hist by (simp add: published_done [OF pub]) (simp add: publish_success [OF success] history_ok_def)
next
  note success = publishesD(4) [OF pub] and hist = publishesD(2) [OF pub] and uow = publishesD(3) [OF pub]
  fix r assume "r \<in> set (runs (publish st u))" and ok: "run_status r = Succeeded"
  then obtain q where q: "q \<in> set (runs st)" "r = succeed_row u rep q"
    by (auto simp: publish_success [OF success])
  have "\<exists>b \<in> set (attempts st). attempt_run b = run_id r \<and>
      attempt_status (succeed_attempt u rep b) = Succeeded"
  proof (cases "run_id q = uow_run u")
    case True
    then show ?thesis using uow q by (auto simp: uow_ok_def succeed_row_def succeed_attempt_def)
  next
    case False
    with q ok have "run_status q = Succeeded" "run_id r = run_id q" by (simp_all add: succeed_row_def)
    with q hist show ?thesis unfolding history_ok_def by (metis succeed_attempt_parts(3))
  qed
  then show "\<exists>a \<in> set (attempts (publish st u)). attempt_run a = run_id r \<and> attempt_status a = Succeeded"
    by (auto simp: publish_success [OF success] succeed_attempt_parts)
qed

lemma published_other:
  assumes pub: "publishes h st u rep" and v: "uow_ok h st v" and other: "uow_lock v \<noteq> uow_lock u"
  shows "uow_ok h (publish st u) v"
proof -
  note success = publishesD(4) [OF pub]
  from v obtain r where r: "r \<in> set (runs st)" "run_id r = uow_run v"
      "h (lock_key (run_key r)) = uow_lock v" "run_status r \<noteq> Succeeded" by (auto simp: uow_ok_def)
  have "run_id r \<noteq> uow_run u"
  proof
    assume "run_id r = uow_run u"
    moreover obtain q where "q \<in> set (runs st)" "run_id q = uow_run u" "h (lock_key (run_key q)) = uow_lock u"
      using pub by (rule publishes_row)
    ultimately show False using distinct_row [OF publishesD(1) [OF pub] r(1)] r(3) other by auto
  qed
  then have "succeed_row u rep r = r" by (simp add: succeed_row_def)
  then have "r \<in> set (runs (publish st u))" using r(1) by (force simp: publish_success [OF success])
  moreover obtain a where "a \<in> set (attempts st)" "attempt_id a = uow_attempt v" "attempt_run a = uow_run v"
    using v by (auto simp: uow_ok_def)
  then have "\<exists>b \<in> set (attempts (publish st u)). attempt_id b = uow_attempt v \<and> attempt_run b = uow_run v"
    by (auto simp: publish_success [OF success] succeed_attempt_parts)
  ultimately show ?thesis
    using r v by (auto simp: uow_ok_def publish_success [OF success])
qed

text \<open>How each operation changes the audit rows.\<close>

lemma start_import_quiet:
  assumes "rows_ok st" and "start_import E st req = (st', res)"
  shows "quiet st st' \<and> rows_ok st'"
  using assms(2)
proof (cases rule: start_import_cases)
  case (lost_audit e label bytes records warnings run att)
  with audit_start_ok [OF assms(1)] show ?thesis by blast
next
  case (ready label bytes records warnings run att audited)
  with audit_start_ok [OF assms(1) ready(5) ready(1)] have "quiet st audited" "rows_ok audited" by blast+
  moreover have "quiet audited st'"
    unfolding ready(2) by (rule quietI) (auto simp: done_runs_def pending_runs_def same_run_def same_attempt_def)
  ultimately show ?thesis using ready(2) by (auto intro: quiet_trans)
qed (use assms(1) quiet_refl in auto)

lemma start_import_uow:
  assumes "rows_ok st" and "start_import E st req = (st', Inr (Ready run att u))"
  shows "uow_ok (lock_hash E) st' u \<and> uow_lock u \<notin> locks st"
  using assms(2)
proof (cases rule: start_import_cases)
  case (ready label bytes records warnings run' att' audited)
  with audit_start_ok [OF assms(1) ready(5) ready(1)] show ?thesis
    by (auto simp: uow_ok_def)
qed simp_all

lemma mark_failed_quiet:
  assumes "rows_ok st" and "mark_failed E st run att code msg = (st', res)"
  shows "quiet st st' \<and> rows_ok st'"
  using assms fail_unless_succeeded_ok [OF assms(1)] quiet_refl
  by (auto simp: mark_failed_def guarded_eq committed_eq split: if_splits)

lemma validation_quiet:
  assumes "rows_ok st" and "record_validation_failure E st source artifact code msg timeout = (st', res)"
  shows "quiet st st' \<and> rows_ok st'"
proof -
  define key where "key = (src_slug source, content_sha256 artifact, src_parser_name source,
    src_parser_version source)"
  define update where "update = (\<lambda>r::run_row. if run_status r = Succeeded then r
    else r \<lparr> run_status := ValidationFailed, run_failure := Some (code, msg) \<rparr>)"
  have keeps: "keeps_row update" by (simp add: keeps_row_def update_def)
  have "quiet st st2 \<and> rows_ok st2"
    if "upsert_run st key fresh update = (st1, run)" "run_status fresh = ValidationFailed"
      "insert_attempt st1 run ValidationFailed failure = (st2, att)" for fresh st1 run failure st2 att
  proof -
    have "quiet st st1 \<and> rows_ok st1"
      using upsert_run_ok [OF assms(1) keeps _ _ _ that(1)] that(2) by (auto simp: update_def)
    with insert_attempt_ok [OF _ that(3)] show ?thesis by (auto intro: quiet_trans)
  qed
  with assms quiet_refl show ?thesis
    unfolding record_validation_failure_def Let_def key_def [symmetric] update_def [symmetric]
    by (auto simp: guarded_eq committed_eq split: option.splits if_splits sum.splits prod.splits)
qed

lemma uow_parts:
  "stage_and_promote E u r = (u', res) \<Longrightarrow>
     uow_run u' = uow_run u \<and> uow_attempt u' = uow_attempt u \<and> uow_lock u' = uow_lock u"
  "refresh_read_models E u = (u', res') \<Longrightarrow>
     uow_run u' = uow_run u \<and> uow_attempt u' = uow_attempt u \<and> uow_lock u' = uow_lock u"
  "mark_succeeded E u rep = (u', res') \<Longrightarrow>
     uow_run u' = uow_run u \<and> uow_attempt u' = uow_attempt u \<and> uow_lock u' = uow_lock u"
  by (auto simp: stage_and_promote_def refresh_read_models_def mark_succeeded_def guarded_eq
      split: sum.splits)

lemma world_ok_quiet:
  assumes "world_ok h w" and "quiet (w_store w) st'" and "rows_ok st'"
  shows "world_ok h (w \<lparr> w_store := st' \<rparr>)"
  using assms by (auto simp: world_ok_def intro: quiet_history_ok quiet_uow_ok)

lemma world_ok_work:
  assumes ok: "world_ok h w" and "w_active w p = Some u"
    and "uow_run u' = uow_run u \<and> uow_attempt u' = uow_attempt u \<and> uow_lock u' = uow_lock u"
  shows "world_ok h (w \<lparr> w_active := (w_active w)(p := Some u') \<rparr>)"
  using assms unfolding world_ok_def
  by (auto intro: uow_ok_same_parts split: if_splits)

text \<open>Closing a unit of work: its store keeps the others' rows, and its lock is free again.\<close>

lemma world_ok_close:
  assumes ok: "world_ok h w" and u: "w_active w p = Some u"
    and "rows_ok st" and "history_ok st"
    and "\<And>v. uow_ok h (w_store w) v \<Longrightarrow> uow_lock v \<noteq> uow_lock u \<Longrightarrow> uow_ok h st v"
  shows "world_ok h \<lparr> w_store = release u st, w_active = (w_active w)(p := None) \<rparr>"
proof -
  have "uow_lock v \<noteq> uow_lock u" if "w_active w q = Some v" "q \<noteq> p" for q v
    using ok u that by (auto simp: world_ok_def)
  then have "uow_ok h (release u st) v" if "w_active w q = Some v" "q \<noteq> p" for q v
    using ok that assms(5) by (auto simp: world_ok_def intro!: uow_ok_release)
  with ok assms(3,4) show ?thesis
    by (auto simp: world_ok_def release_def split: if_splits)
qed

lemma world_okD: "world_ok h w \<Longrightarrow> rows_ok (w_store w)"
  by (simp add: world_ok_def)

lemma world_ok_step:
  assumes "import_step h w w'" and ok: "world_ok h w"
  shows "world_ok h w'"
  using assms(1)
proof cases
  case (Start p E req st' run att u)
  have rows: "rows_ok (w_store w)" using ok by (simp add: world_ok_def)
  note q = start_import_quiet [OF rows Start(4)] and new = start_import_uow [OF rows Start(4)]
  have "uow_lock v \<noteq> uow_lock u \<and> uow_lock u \<noteq> uow_lock v" if "w_active w r = Some v" for r v
  proof -
    have "uow_ok h (w_store w) v" using ok that by (simp add: world_ok_def)
    then show ?thesis using new by (auto simp: uow_ok_def)
  qed
  with q new ok Start(1,3) show ?thesis
    by (auto simp: world_ok_def intro: quiet_history_ok quiet_uow_ok split: if_splits)
next
  case (Refused E req st' res)
  then show ?thesis using world_ok_quiet [OF ok] start_import_quiet [OF world_okD [OF ok]] by simp
next
  case (Stage p u E r u' res)
  then show ?thesis using uow_parts(1) by (auto intro: world_ok_work [OF ok])
next
  case (Refresh p u E u' res)
  then show ?thesis using uow_parts(2) by (auto intro: world_ok_work [OF ok])
next
  case (Succeed p u E rep u' res)
  then show ?thesis using uow_parts(3) by (auto intro: world_ok_work [OF ok])
next
  case (Commit p u E st' res)
  then obtain rep where "uow_success u = Some rep" by auto
  with ok Commit have pub: "publishes h (w_store w) u rep" by (auto simp: publishes_def world_ok_def)
  have "st' = release u (w_store w) \<or> st' = release u (publish (w_store w) u)"
    using Commit(4) by (auto simp: commit_import_def committed_eq split: if_splits)
  moreover have "world_ok h \<lparr> w_store = release u (w_store w), w_active = (w_active w)(p := None) \<rparr>"
    by (rule world_ok_close [OF ok Commit(2)]) (use ok in \<open>simp_all add: world_ok_def\<close>)
  moreover have "world_ok h \<lparr> w_store = release u (publish (w_store w) u), w_active = (w_active w)(p := None) \<rparr>"
    by (rule world_ok_close [OF ok Commit(2) published_rows [OF pub] published_history [OF pub]
          published_other [OF pub]])
  ultimately show ?thesis unfolding Commit(1) by auto
next
  case (Abandon p u E st' res)
  then have "st' = release u (w_store w)" by (auto simp: rollback_import_def guarded_eq)
  with world_ok_close [OF ok Abandon(2)] ok show ?thesis
    unfolding Abandon(1) by (auto simp: world_ok_def)
next
  case (Audit E run att code msg st' res)
  then show ?thesis using world_ok_quiet [OF ok] mark_failed_quiet [OF world_okD [OF ok]] by simp
next
  case (Validation E source artifact code msg timeout st' res)
  then show ?thesis using world_ok_quiet [OF ok] validation_quiet [OF world_okD [OF ok]] by simp
qed

lemma reachable_world_ok: "reachable h w \<Longrightarrow> world_ok h w"
proof (induction rule: reachable.induct)
  case initial
  show ?case
    by (simp add: world_ok_def rows_ok_def history_ok_def empty_store_def succeeded_runs_def)
next
  case (step w w')
  then show ?case by (blast intro: world_ok_step)
qed

subsection \<open>Exactly once\<close>

text \<open>The committed batches of one import key.\<close>

definition batches_of :: "import_store \<Rightarrow> import_key \<Rightarrow> (int \<times> PreparedAircraftRecord list) list" where
  "batches_of st key =
     filter (\<lambda>(run, _). \<exists>r \<in> set (runs st). run_id r = run \<and> run_key r = key) (promoted_batches st)"

lemma distinct_fst_unique:
  "distinct (map fst xs) \<Longrightarrow> (\<And>x. x \<in> set xs \<Longrightarrow> P x \<Longrightarrow> fst x = k) \<Longrightarrow> length (filter P xs) \<le> 1"
proof (induction xs)
  case (Cons y ys)
  show ?case
  proof (cases "P y")
    case True
    then have "fst y = k" using Cons.prems(2) by simp
    then have "\<not> P x" if "x \<in> set ys" for x
      using Cons.prems that by (metis distinct.simps(2) image_eqI list.set_intros(2) list.simps(9) set_map)
    then have "filter P ys = []" by (simp add: filter_empty_conv)
    with True show ?thesis by simp
  next
    case False
    with Cons show ?thesis by simp
  qed
qed simp

lemma batches_of_le_1:
  assumes "world_ok h w"
  shows "length (batches_of (w_store w) key) \<le> 1"
proof -
  let ?st = "w_store w"
  have rows: "rows_ok ?st" and "distinct (map fst (promoted_batches ?st))"
    using assms by (auto simp: world_ok_def history_ok_def)
  moreover have "run_id r = run_id q"
    if "r \<in> set (runs ?st)" "q \<in> set (runs ?st)" "run_key r = key" "run_key q = key" for r q
    using rows that by (auto simp: rows_ok_def distinct_map inj_on_def)
  then obtain k where k: "run_id r = k" if "r \<in> set (runs ?st)" "run_key r = key" for r
    by metis
  have "fst x = k" if "case x of (run, _) \<Rightarrow> \<exists>r \<in> set (runs ?st). run_id r = run \<and> run_key r = key" for x
    using that k by (auto split: prod.splits)
  ultimately show ?thesis unfolding batches_of_def by (intro distinct_fst_unique [where k = k]) blast+
qed

lemma batches_of_succeeded:
  assumes "world_ok h w"
  shows "batches_of (w_store w) key \<noteq> [] \<longleftrightarrow>
     (\<exists>r \<in> set (runs (w_store w)). run_key r = key \<and> run_status r = Succeeded)"
proof -
  let ?st = "w_store w"
  have rows: "rows_ok ?st" and done_iff: "fst ` set (promoted_batches ?st) = succeeded_runs ?st"
    using assms by (auto simp: world_ok_def history_ok_def)
  have "batches_of ?st key \<noteq> [] \<longleftrightarrow>
      (\<exists>run \<in> succeeded_runs ?st. \<exists>r \<in> set (runs ?st). run_id r = run \<and> run_key r = key)"
    unfolding done_iff [symmetric] batches_of_def by (force simp: filter_empty_conv)
  also have "\<dots> \<longleftrightarrow> (\<exists>r \<in> set (runs ?st). run_key r = key \<and> run_status r = Succeeded)"
    using distinct_row [OF rows] by (auto simp: succeeded_runs_def)
  finally show ?thesis .
qed

text \<open>
  C1: however many import processes run, are interrupted, fail or race, an artifact is imported at most
  once: the committed data holds at most one batch for a source, content hash and parser version,
  and holds one exactly when the run of that key has succeeded.
\<close>

theorem import_exactly_once:
  assumes "reachable h w"
  shows "length (batches_of (w_store w) key) \<le> 1 \<and>
     (batches_of (w_store w) key \<noteq> [] \<longleftrightarrow>
        (\<exists>r \<in> set (runs (w_store w)). run_key r = key \<and> run_status r = Succeeded))"
  using batches_of_le_1 batches_of_succeeded reachable_world_ok [OF assms] by blast

text \<open>
  success is final: no step of any process changes a run row that has succeeded or removes a
  committed batch.
\<close>

theorem import_success_final:
  assumes "reachable h w" and "import_step h w w'"
  shows "done_runs (w_store w) \<subseteq> done_runs (w_store w') \<and>
     (\<exists>new. promoted_batches (w_store w') = promoted_batches (w_store w) @ new)"
proof -
  have ok: "world_ok h w" by (rule reachable_world_ok [OF assms(1)])
  then have rows: "rows_ok (w_store w)" by (simp add: world_ok_def)
  have still: ?thesis if "quiet (w_store w) (w_store w')"
    using that by (simp add: quiet_def)
  show ?thesis using assms(2)
  proof cases
    case (Start p E req st' run att u)
    then show ?thesis using still start_import_quiet [OF rows] by simp
  next
    case (Refused E req st' res)
    then show ?thesis using still start_import_quiet [OF rows] by simp
  next
    case (Commit p u E st' res)
    then obtain rep where rep: "uow_success u = Some rep" by auto
    with ok Commit have pub: "publishes h (w_store w) u rep" by (auto simp: publishes_def world_ok_def)
    have "st' = release u (w_store w) \<or> st' = release u (publish (w_store w) u)"
      using Commit(4) by (auto simp: commit_import_def committed_eq split: if_splits)
    then show ?thesis using published_keeps_done [OF pub]
      unfolding Commit(1) by (auto simp: release_def publish_success [OF rep])
  next
    case (Abandon p u E st' res)
    then show ?thesis by (auto simp: rollback_import_def guarded_eq release_def)
  next
    case (Audit E run att code msg st' res)
    then show ?thesis using still mark_failed_quiet [OF rows] by simp
  next
    case (Validation E source artifact code msg timeout st' res)
    then show ?thesis using still validation_quiet [OF rows] by simp
  qed auto
qed

lemma find_unique:
  "x \<in> set xs \<Longrightarrow> P x \<Longrightarrow> (\<And>y. y \<in> set xs \<Longrightarrow> P y \<Longrightarrow> y = x) \<Longrightarrow> List.find P xs = Some x"
proof (induction xs)
  case (Cons z zs)
  show ?case
  proof (cases "P z")
    case True
    then have "z = x" by (intro Cons.prems(3)) simp_all
    with True show ?thesis by simp
  next
    case False
    with Cons.prems(1,2) have "x \<in> set zs" by (metis set_ConsD)
    then have "List.find P zs = Some x" using Cons.IH Cons.prems(2,3) list.set_intros(2) by metis
    with False show ?thesis by simp
  qed
qed simp

lemma last_by_id_Some: "as \<noteq> [] \<Longrightarrow> \<exists>a. last_by_id as = Some a"
proof -
  assume "as \<noteq> []"
  then have "finite (attempt_id ` set as)" and ne: "attempt_id ` set as \<noteq> {}" by simp_all
  then have "Max (attempt_id ` set as) \<in> attempt_id ` set as" by (rule Max_in)
  then obtain a where a: "a \<in> set as" "attempt_id a = Max (attempt_id ` set as)" by auto
  then have "\<forall>b \<in> set as. attempt_id b \<le> attempt_id a" by simp
  with a(1) \<open>as \<noteq> []\<close> show ?thesis unfolding last_by_id_def
    by (cases "List.find (\<lambda>a. \<forall>b \<in> set as. attempt_id b \<le> attempt_id a) as")
       (auto simp: find_None_iff)
qed

lemma successful_report_Some:
  assumes "world_ok h w" and "r \<in> set (runs (w_store w))" and "run_key r = request_key req"
    and "run_status r = Succeeded"
  shows "\<exists>rep. successful_report (w_store w) req = Inr (Some rep) \<and> rep_run_id rep = run_id r"
proof -
  let ?st = "w_store w"
  have "distinct (map run_key (runs ?st))" using assms(1) by (simp add: world_ok_def rows_ok_def)
  then have key: "q = r" if "q \<in> set (runs ?st)" "run_key q = request_key req" for q
    using assms(2,3) that unfolding distinct_map inj_on_def by metis
  have "List.find (\<lambda>r. run_key r = request_key req \<and> run_status r = Succeeded) (runs ?st) = Some r"
    by (rule find_unique) (use assms(2-4) key in blast)+
  moreover have "filter (\<lambda>a. attempt_run a = run_id r \<and> attempt_status a = Succeeded) (attempts ?st) \<noteq> []"
    using assms by (auto simp: world_ok_def history_ok_def filter_empty_conv)
  from last_by_id_Some [OF this] obtain a where
    "last_by_id (filter (\<lambda>a. attempt_run a = run_id r \<and> attempt_status a = Succeeded) (attempts ?st)) = Some a" ..
  ultimately show ?thesis by (simp add: successful_report_def)
qed

lemma start_import_after_success:
  assumes "successful_report st req = Inr (Some rep)" and "start_import E st req = (st', Inr res)"
  shows "st' = st \<and> (res = Busy \<or> res = AlreadySucceeded rep)"
  using assms(2) by (cases rule: start_import_cases) (use assms(1) in auto)

text \<open>
  importing an artifact again is harmless: once the run of its key has succeeded, starting an
  import of it writes nothing and opens no unit of work; it is refused while the lock is held and
  reports the earlier success otherwise.
\<close>

theorem reimport_never_restarts:
  assumes "reachable h w" and "r \<in> set (runs (w_store w))" and "run_status r = Succeeded"
    and "run_key r = request_key req" and "start_import E (w_store w) req = (st', Inr res)"
  shows "st' = w_store w \<and>
     (res = Busy \<or> (\<exists>rep. res = AlreadySucceeded rep \<and> rep_run_id rep = run_id r \<and> already_imported rep))"
proof -
  obtain rep where rep: "successful_report (w_store w) req = Inr (Some rep)" "rep_run_id rep = run_id r"
    using successful_report_Some [OF reachable_world_ok [OF assms(1)]] assms by blast
  then have "already_imported rep" by (auto simp: successful_report_def split: option.splits)
  with start_import_after_success [OF rep(1) assms(5)] rep(2) show ?thesis by blast
qed

end
