(* ===== verification/Import_Guarantees.thy ===== *)
theory Import_Guarantees
  imports Import_Protocol
begin

text \<open>
  What the import service guarantees over the database store: the results of the port's locale at
  its interpretation, and one complete import followed from the empty store.
\<close>

subsection \<open>A concrete import\<close>

definition sample_accepted :: planephd_document where
  "sample_accepted = \<lparr> doc_entries = [(''CESSNA'', \<lparr> am_entries = [(''120'', JObject [])], am_error = None \<rparr>)],
     doc_error = None \<rparr>"

definition sample_records :: "PreparedAircraftRecord list" where
  "sample_records = [normalize_record sample_libs ''CESSNA'' ''120'' (JObject [])]"

definition sample_request :: ImportRequest where
  "sample_request =
     \<lparr> req_source = \<lparr> src_slug = ''planephd'', src_name = ''PlanePHD'', src_base_url = None,
         src_parser_name = ''rust'', src_parser_version = ''1.0'' \<rparr>,
       req_artifact = \<lparr> content_sha256 = ''0123456789abcdef'', byte_length = 2,
         display_locator = ''<stdin>'', captured_at = 0 \<rparr>,
       req_preflight = \<lparr> pf_record_count = 1, pf_warning_count = warnings_in sample_records,
         pf_record_keys_sha256 = hex_digest (keys_preimage sample_records) \<rparr> \<rparr>"

definition sample_env :: db_env where
  "sample_env = \<lparr> fault = (\<lambda>_. None), applied = (\<lambda>_. True), lock_hash = (\<lambda>_. 7) \<rparr>"

definition sample_uow :: unit_of_work where
  "sample_uow = \<lparr> uow_run = 1, uow_attempt = 1, uow_lock = 7, uow_label = ''planephd_0123456789abcdef_1_0'',
     uow_staged = [], uow_success = None \<rparr>"

definition sample_run :: run_row where
  "sample_run = \<lparr> run_id = 1, run_key = request_key sample_request,
     run_label = ''planephd_0123456789abcdef_1_0'', run_byte_length = 2, run_locator = ''<stdin>'',
     run_status = Importing, run_total = Some 1, run_staged = None, run_promoted = None,
     run_flagged = None, run_warnings = Some (int (warnings_in sample_records)), run_failure = None \<rparr>"

definition sample_attempt :: attempt_row where
  "sample_attempt = \<lparr> attempt_id = 1, attempt_run = 1, attempt_number = 1, attempt_status = Importing,
     attempt_counts = None, attempt_failure = None \<rparr>"

definition sample_started :: import_store where
  "sample_started = \<lparr> runs = [sample_run], attempts = [sample_attempt], next_run = 2, next_attempt = 2,
     locks = {7}, promoted_batches = [] \<rparr>"

lemma sample_records_clean: "clean sample_records"
proof -
  have "has_error (normalize_record sample_libs ''CESSNA'' ''120'' (JObject [])) = False"
    by code_simp
  then show ?thesis by (simp add: clean_def sample_records_def)
qed

lemma sample_accepted_records: "document_records sample_libs sample_accepted = sample_records"
  by (simp add: document_records_def sample_accepted_def sample_records_def)

lemma sample_accepted_preflight:
  "preflight sample_libs (\<lambda>_. []) (Inr sample_accepted) = Inr (req_preflight sample_request)"
proof -
  have "well_formed sample_accepted" by (simp add: well_formed_def sample_accepted_def)
  moreover have "length sample_records = 1" "sample_records \<noteq> []" by (simp_all add: sample_records_def)
  ultimately show ?thesis
    by (simp add: preflight_records sample_accepted_records sample_records_clean Let_def)
       (simp add: sample_request_def sample_libs_def)
qed

lemma sample_accepted_stream:
  "open_records sample_libs (\<lambda>_. []) display None (Inr sample_accepted) None = Inr (map Inr sample_records)"
proof -
  have "well_formed sample_accepted" by (simp add: well_formed_def sample_accepted_def)
  from open_records_well_formed [OF this, of sample_libs "\<lambda>_. []" display]
  show ?thesis by (simp only: sample_accepted_records)
qed

lemma sample_warnings: "warnings_in sample_records \<le> 100"
  by code_simp

lemma sample_start:
  "start_import sample_env empty_store sample_request = (sample_started, Inr (Ready 1 1 sample_uow))"
  using sample_warnings
  by (simp add: start_import_def sample_env_def sample_request_def prefix16_def guarded_def committed_def
      empty_store_def successful_report_def to_i64_def to_i32_def i64_max_def i32_max_def audit_start_def
      upsert_run_def insert_attempt_def supersede_attempts_def request_key_def dots_to_underscores_def
      sample_started_def sample_run_def sample_attempt_def sample_uow_def Let_def)

definition sample_report :: ImportReport where
  "sample_report = report_for sample_request 1 1 sample_records"

definition sample_worked :: unit_of_work where
  "sample_worked = sample_uow \<lparr> uow_staged := sample_records, uow_success := Some sample_report \<rparr>"

definition sample_imported :: import_store where
  "sample_imported = release sample_worked (publish sample_started sample_worked)"

lemma sample_counts: "\<exists>c. report_counts sample_report = Inr c"
proof -
  have "length (filter P sample_records) \<le> 1" for P by (simp add: sample_records_def)
  then have "length (filter P sample_records) \<le> 2147483647" for P by (meson le_trans one_le_numeral)
  then show ?thesis using sample_warnings
    by (simp add: sample_report_def report_counts_def report_for_def new_report_def to_i32_def i32_max_def
        Let_def sample_records_def)
qed

lemma sample_stage:
  "stage_and_promote sample_env sample_uow (normalize_record sample_libs ''CESSNA'' ''120'' (JObject [])) =
     (sample_uow \<lparr> uow_staged := sample_records \<rparr>,
      Inr (record_outcome (normalize_record sample_libs ''CESSNA'' ''120'' (JObject []))))"
  by (simp add: stage_and_promote_def guarded_def sample_env_def sample_records_def sample_uow_def)

lemma sample_success:
  "mark_succeeded sample_env (sample_uow \<lparr> uow_staged := sample_records \<rparr>) sample_report =
     (sample_worked, Inr ())"
  using sample_counts by (auto simp: mark_succeeded_def guarded_def sample_env_def sample_worked_def)

lemma sample_commit: "commit_import sample_env sample_started sample_worked = (sample_imported, Inr ())"
  by (simp add: commit_import_def committed_def sample_env_def sample_imported_def)

definition sample_world :: world where
  "sample_world = \<lparr> w_store = sample_imported, w_active = (\<lambda>_. None) \<rparr>"

lemma sample_reachable: "reachable (\<lambda>_. 7) sample_world"
proof -
  let ?h = "\<lambda>_::string. 7::int" and ?none = "\<lambda>_::nat. None :: unit_of_work option"
  have h: "lock_hash sample_env = ?h" by (simp add: sample_env_def)
  have "reachable ?h \<lparr> w_store = sample_started, w_active = ?none(0 := Some sample_uow) \<rparr>"
    using reachable.step [OF reachable.initial
        import_step.Start [of "\<lparr> w_store = empty_store, w_active = ?none \<rparr>" 0, OF _ h]]
      sample_start by simp
  from reachable.step [OF this import_step.Stage [of _ 0, OF _ sample_stage]]
  have "reachable ?h \<lparr> w_store = sample_started,
      w_active = ?none(0 := Some (sample_uow \<lparr> uow_staged := sample_records \<rparr>)) \<rparr>"
    by simp
  from reachable.step [OF this import_step.Succeed [of _ 0, OF _ sample_success]]
  have "reachable ?h \<lparr> w_store = sample_started, w_active = ?none(0 := Some sample_worked) \<rparr>"
    by simp
  from reachable.step [OF this import_step.Commit [of _ 0 sample_worked sample_env sample_imported]] sample_commit
  have "reachable ?h \<lparr> w_store = sample_imported, w_active = (?none(0 := Some sample_worked))(0 := None) \<rparr>"
    by (simp add: sample_worked_def)
  moreover have "(?none(0 := Some sample_worked))(0 := None) = ?none" by auto
  ultimately show ?thesis by (simp add: sample_world_def)
qed

lemma sample_import:
  "import_records (\<lambda>s. s) (sqlx_store sample_env) empty_store sample_request (map Inr sample_records) =
     (sample_imported, Inr sample_report)"
proof -
  let ?r = "normalize_record sample_libs ''CESSNA'' ''120'' (JObject [])"
  have e: "List.find is_error (rec_issues ?r) = None"
    using sample_records_clean by (simp add: find_error_None clean_def sample_records_def)
  have rs: "sample_records = [?r]" by (simp add: sample_records_def)
  let ?u = "sample_uow \<lparr> uow_staged := sample_records \<rparr>"
  have "consume_loop (sqlx_store sample_env) (map Inr sample_records) sample_uow
      \<lparr> co_count = 0, co_hashed = [], co_report = new_report sample_request 1 1 \<rparr> =
      (?u, Inr (consumed sample_request 1 1 sample_records))"
    using e sample_stage consumed_snoc [of sample_request 1 1 "[]" ?r]
    by (simp add: sqlx_store_def rs consumed_Nil Let_def)
  moreover have "refresh_read_models sample_env ?u = (?u, Inr ())"
    by (simp add: refresh_read_models_def guarded_def sample_env_def)
  moreover have "length sample_records = 1" by (simp add: rs)
  ultimately have "consume_records (\<lambda>s. s) (sqlx_store sample_env) sample_request
      (map Inr sample_records) sample_uow 1 1 = (?u, Inr sample_report)"
    by (simp add: consume_records_def consumed_def sample_report_def Let_def)
       (simp add: sample_request_def sqlx_store_def report_for_def)
  then show ?thesis
    by (simp add: import_records_def sqlx_store_def sample_start sample_success sample_commit)
qed

subsection \<open>Exactly once, at the concrete import\<close>

lemma import_exactly_once_witness:
  "length (batches_of sample_imported (request_key sample_request)) \<le> 1 \<and>
   (batches_of sample_imported (request_key sample_request) \<noteq> [] \<longleftrightarrow>
      (\<exists>r \<in> set (runs sample_imported). run_key r = request_key sample_request \<and> run_status r = Succeeded))"
  using import_exactly_once [OF sample_reachable, of "request_key sample_request"]
  by (simp add: sample_world_def)

lemma import_success_final_witness:
  "\<exists>st'. done_runs sample_imported \<subseteq> done_runs st' \<and>
     (\<exists>new. promoted_batches st' = promoted_batches sample_imported @ new)"
proof -
  obtain st' res where "mark_failed sample_env sample_imported 1 1 [] [] = (st', res)" by fastforce
  then have "import_step (\<lambda>_. 7) sample_world (sample_world \<lparr> w_store := st' \<rparr>)"
    by (intro import_step.Audit) (simp add: sample_world_def)
  from import_success_final [OF sample_reachable this] show ?thesis
    by (auto simp: sample_world_def)
qed

lemma sample_succeeded:
  "\<exists>r \<in> set (runs sample_imported). run_id r = 1 \<and> run_status r = Succeeded \<and> run_key r = request_key sample_request"
  by (simp add: sample_imported_def release_def publish_def sample_worked_def sample_started_def
      sample_uow_def sample_run_def)

lemma reimport_never_restarts_witness:
  "\<exists>st' res. start_import sample_env sample_imported sample_request = (st', Inr res) \<and> st' = sample_imported"
proof -
  obtain r where r: "r \<in> set (runs (w_store sample_world))" "run_status r = Succeeded"
    "run_key r = request_key sample_request"
    using sample_succeeded by (auto simp: sample_world_def)
  obtain rep where "successful_report sample_imported sample_request = Inr (Some rep)"
    using successful_report_Some [OF reachable_world_ok [OF sample_reachable] r(1,3,2)]
    by (auto simp: sample_world_def)
  moreover have "prefix16 (content_sha256 (req_artifact sample_request)) \<noteq> None"
    by (simp add: prefix16_def sample_request_def)
  moreover have "locks sample_imported = {}"
    by (simp add: sample_imported_def release_def publish_def sample_worked_def sample_started_def sample_uow_def)
  ultimately have "start_import sample_env (w_store sample_world) sample_request =
      (sample_imported, Inr (AlreadySucceeded rep))"
    by (auto simp: start_import_def guarded_def sample_env_def sample_world_def Let_def)
  with reimport_never_restarts [OF sample_reachable r(1,2,3) this] show ?thesis
    by (auto simp: sample_world_def)
qed

subsection \<open>All or nothing\<close>

text \<open>
  an import through the database store, whatever statements fail, either adds one whole batch
  (the records of the stream, all of them verified against the preflight and none blocked) or
  adds nothing. Success without a batch is only reported for an artifact already imported; a
  reported success carries the true counts; a failure leaves the data alone, except that a commit
  whose reply was lost may have been applied.
\<close>

theorem store_import_all_or_nothing:
  assumes "import_records sha (sqlx_store E) st req msgs = (st', res)"
  shows "(case res of
       Inr rep \<Rightarrow>
         if already_imported rep then promoted_batches st' = promoted_batches st
         else \<exists>run att rs. msgs = map Inr rs \<and> matches_preflight sha req rs \<and>
                promoted_batches st' = promoted_batches st @ [(run, rs)] \<and> rep = report_for req run att rs
     | Inl e \<Rightarrow> promoted_batches st' = promoted_batches st \<or>
         (\<exists>p. e = Persistence p) \<and> (\<exists>run rs. msgs = map Inr rs \<and> matches_preflight sha req rs \<and>
            promoted_batches st' = promoted_batches st @ [(run, rs)]))"
  using pg.import_all_or_nothing [OF assms] by (simp only: pg.batch_of_def)

lemma store_import_all_or_nothing_witness:
  "\<exists>run att rs. map Inr sample_records = map Inr rs \<and> matches_preflight (\<lambda>s. s) sample_request rs \<and>
     promoted_batches sample_imported = promoted_batches empty_store @ [(run, rs)] \<and>
     sample_report = report_for sample_request run att rs"
  using store_import_all_or_nothing [OF sample_import] by (simp add: sample_report_def report_for_def new_report_def)

subsection \<open>An accepted document is imported\<close>

definition no_faults :: "db_env \<Rightarrow> bool" where
  "no_faults E \<longleftrightarrow> (\<forall>call. fault E call = None)"

text \<open>The widths of the columns the counts are stored in.\<close>

definition request_fits :: "ImportRequest \<Rightarrow> bool" where
  "request_fits req \<longleftrightarrow>
     prefix16 (content_sha256 (req_artifact req)) \<noteq> None \<and>
     int (byte_length (req_artifact req)) \<le> i64_max \<and>
     int (pf_record_count (req_preflight req)) \<le> i32_max \<and>
     int (pf_warning_count (req_preflight req)) \<le> i32_max"

lemma no_faults_simps:
  assumes "no_faults E"
  shows "guarded E call st next = next" and "committed E call old new v = (new, Inr v)"
  using assms by (simp_all add: no_faults_def guarded_def committed_def)

lemma start_import_fresh:
  assumes "no_faults E" and "request_fits req"
    and "lock_hash E (lock_key (request_key req)) \<notin> locks st"
    and "\<forall>r \<in> set (runs st). run_key r = request_key req \<longrightarrow> run_status r \<noteq> Succeeded"
  shows "\<exists>st1 run att u. start_import E st req = (st1, Inr (Ready run att u))"
proof -
  have "List.find (\<lambda>r. run_key r = request_key req \<and> run_status r = Succeeded) (runs st) = None"
    using assms(4) by (simp add: find_None_iff)
  then have "successful_report st req = Inr None" by (simp add: successful_report_def)
  with assms(2,3) show ?thesis
    by (auto simp: start_import_def no_faults_simps [OF assms(1)] request_fits_def to_i64_def to_i32_def Let_def
        split: prod.splits)
qed

lemma consume_loop_no_fault:
  assumes "no_faults E" and "\<forall>r \<in> set rs. \<not> has_error r"
  shows "consume_loop (sqlx_store E) (map Inr rs) u (consumed req run att earlier) =
     (u \<lparr> uow_staged := uow_staged u @ rs \<rparr>, Inr (consumed req run att (earlier @ rs)))"
  using assms(2)
proof (induction rs arbitrary: u earlier)
  case (Cons r rs)
  have "List.find is_error (rec_issues r) = None" using Cons.prems by (simp add: find_error_None)
  moreover have "stage_op (sqlx_store E) u r = (u \<lparr> uow_staged := uow_staged u @ [r] \<rparr>, Inr (record_outcome r))"
    by (simp add: sqlx_store_def stage_and_promote_def no_faults_simps [OF assms(1)])
  ultimately show ?case
    using Cons.IH [of "u \<lparr> uow_staged := uow_staged u @ [r] \<rparr>" "earlier @ [r]"] Cons.prems
    using consumed_snoc [of req run att earlier r] by (simp add: Let_def)
qed simp

lemma consume_records_no_fault:
  assumes "no_faults E" and ok: "matches_preflight sha req rs"
  shows "consume_records sha (sqlx_store E) req (map Inr rs) u run att =
     (u \<lparr> uow_staged := uow_staged u @ rs \<rparr>, Inr (report_for req run att rs))"
proof -
  have "consume_loop (sqlx_store E) (map Inr rs) u
      \<lparr> co_count = 0, co_hashed = [], co_report = new_report req run att \<rparr> =
      (u \<lparr> uow_staged := uow_staged u @ rs \<rparr>, Inr (consumed req run att rs))"
    using consume_loop_no_fault [OF assms(1), of rs u req run att "[]"] ok
    by (simp add: matches_preflight_def consumed_Nil)
  moreover have "rep_warning_count (report_for req run att rs) = warnings_in rs" by (simp add: report_for_def)
  ultimately show ?thesis using ok
    by (simp add: consume_records_def consumed_def matches_preflight_def sqlx_store_def
        refresh_read_models_def no_faults_simps [OF assms(1)] Let_def)
qed

lemma accepted_matches:
  assumes "preflight L custom (Inr doc) = Inr (req_preflight req)"
  shows "matches_preflight (sha256 L) req (document_records L doc)"
proof -
  from assms preflight_accepted [OF assms] have "clean (document_records L doc)"
    and "req_preflight req = \<lparr> pf_record_count = length (document_records L doc),
      pf_warning_count = warnings_in (document_records L doc),
      pf_record_keys_sha256 = hex_digest (sha256 L (keys_preimage (document_records L doc))) \<rparr>"
    by (simp_all add: preflight_records Let_def split: if_splits)
  then show ?thesis by (simp add: matches_preflight_def clean_def)
qed

lemma report_counts_fit:
  assumes "request_fits req" and "matches_preflight sha req rs"
  shows "\<exists>c. report_counts (report_for req run att rs) = Inr c"
proof -
  have "int (length rs) \<le> i32_max" and "int (warnings_in rs) \<le> i32_max"
    using assms by (auto simp: request_fits_def matches_preflight_def)
  moreover have "int (length (filter P rs)) \<le> int (length rs)" for P by simp
  then have "int (length (filter P rs)) \<le> i32_max" for P using calculation(1) by (meson order_trans)
  ultimately show ?thesis
    by (simp add: report_counts_def report_for_def to_i32_def Let_def)
qed

lemma accepted_import:
  assumes "preflight L custom (Inr doc) = Inr (req_preflight req)"
    and "open_records L custom display None (Inr doc) None = Inr msgs"
    and "no_faults E" and "request_fits req"
    and "lock_hash E (lock_key (request_key req)) \<notin> locks st"
    and "\<forall>r \<in> set (runs st). run_key r = request_key req \<longrightarrow> run_status r \<noteq> Succeeded"
  shows "\<exists>st' run att. import_records (sha256 L) (sqlx_store E) st req msgs =
       (st', Inr (report_for req run att (document_records L doc))) \<and>
     promoted_batches st' = promoted_batches st @ [(run, document_records L doc)]"
proof -
  let ?rs = "document_records L doc"
  obtain st1 run att u where start: "start_import E st req = (st1, Inr (Ready run att u))"
    using start_import_fresh [OF assms(3-6)] by blast
  have fresh: "uow_staged u = [] \<and> uow_run u = run \<and> promoted_batches st1 = promoted_batches st"
    using start by (cases rule: start_import_cases) (auto dest: audit_start_frame)
  note ok = accepted_matches [OF assms(1)]
  note rs = open_records_well_formed [OF preflight_accepted [OF assms(1)], of L custom display]
  let ?rep = "report_for req run att ?rs"
  let ?u = "u \<lparr> uow_staged := ?rs, uow_success := Some ?rep \<rparr>"
  have "mark_succeeded E (u \<lparr> uow_staged := ?rs \<rparr>) ?rep = (?u, Inr ())"
    using report_counts_fit [OF assms(4) ok, of run att]
    by (auto simp: mark_succeeded_def no_faults_simps [OF assms(3)])
  moreover have "consume_records (sha256 L) (sqlx_store E) req msgs u run att =
      (u \<lparr> uow_staged := ?rs \<rparr>, Inr ?rep)"
    using consume_records_no_fault [OF assms(3) ok, of u run att] fresh assms(2) rs by simp
  moreover have "commit_import E st1 ?u = (release ?u (publish st1 ?u), Inr ())"
    by (simp add: commit_import_def no_faults_simps [OF assms(3)])
  ultimately have "import_records (sha256 L) (sqlx_store E) st req msgs =
      (release ?u (publish st1 ?u), Inr ?rep)"
    using start by (simp add: import_records_def sqlx_store_def)
  moreover have "promoted_batches (release ?u (publish st1 ?u)) = promoted_batches st @ [(run, ?rs)]"
    using fresh by (simp add: release_def publish_def)
  ultimately show ?thesis by blast
qed

text \<open>
  a document the preflight accepts is imported: if no statement fails, nobody holds the lock of
  its key, the key has not succeeded before and the counts fit their columns, the import returns a
  report and the data gains the document's records as one batch.
\<close>

theorem accepted_document_imported:
  assumes "preflight L custom (Inr doc) = Inr (req_preflight req)"
    and "open_records L custom display None (Inr doc) None = Inr msgs"
    and "no_faults E" and "request_fits req"
    and "lock_hash E (lock_key (request_key req)) \<notin> locks st"
    and "\<forall>r \<in> set (runs st). run_key r = request_key req \<longrightarrow> run_status r \<noteq> Succeeded"
  shows "\<exists>st' run att. import_records (sha256 L) (sqlx_store E) st req msgs =
       (st', Inr (report_for req run att (document_records L doc))) \<and>
     promoted_batches st' = promoted_batches st @ [(run, document_records L doc)]"
  using accepted_import [OF assms] .

lemma accepted_document_imported_witness:
  "\<exists>st' run att. import_records (\<lambda>s. s) (sqlx_store sample_env) empty_store sample_request
       (map Inr sample_records) = (st', Inr (report_for sample_request run att sample_records)) \<and>
     promoted_batches st' = [(run, sample_records)]"
proof -
  have fits: "request_fits sample_request"
    using sample_warnings
    by (simp add: request_fits_def prefix16_def sample_request_def i64_max_def i32_max_def)
  have "no_faults sample_env" and free: "lock_hash sample_env k \<notin> locks empty_store"
    and "\<forall>r \<in> set (runs empty_store). run_key r = request_key sample_request \<longrightarrow> run_status r \<noteq> Succeeded"
    for k by (simp_all add: no_faults_def sample_env_def empty_store_def)
  note imported = accepted_document_imported [OF sample_accepted_preflight sample_accepted_stream
      this(1) fits free this(3)]
  have "sha256 sample_libs = (\<lambda>s. s)" and "promoted_batches empty_store = []"
    by (simp_all add: sample_libs_def empty_store_def)
  with imported show ?thesis by (simp add: sample_accepted_records)
qed

end
