(* ===== verification/Measurement.thy ===== *)
theory Measurement
  imports Vocabulary
begin

text \<open>
  \<open>aircraft_domain::measurement\<close>: exact decimals, unit codes, measured values, the conditions
  of a measurement and the checked constructor that combines them; then the published shape
  \<open>aircraft_api::measurement\<close> gives the same facts.
\<close>

subsection \<open>Exact decimals\<close>

definition MAX_INTEGER_DIGITS :: nat where "MAX_INTEGER_DIGITS = 131072"

definition MAX_FRACTIONAL_DIGITS :: nat where "MAX_FRACTIONAL_DIGITS = 16383"

datatype DecimalString = DecimalString (decimal_text: string)

datatype DecimalSyntaxError = NotPlainDecimal | TooManyDigits

definition digits_within :: "string \<Rightarrow> nat \<Rightarrow> DecimalSyntaxError + unit" where
  "digits_within part most =
     (if part = [] \<or> \<not> list_all is_ascii_digit part then Inl NotPlainDecimal
      else if length part > most then Inl TooManyDigits
      else Inr ())"

definition DecimalString_parse :: "string \<Rightarrow> DecimalSyntaxError + DecimalString" where
  "DecimalString_parse text =
     (let unsigned = (case strip_prefix ''-'' text of None \<Rightarrow> text | Some u \<Rightarrow> u);
          (integer, fraction) = (case split_once (CHR ''.'') unsigned of
             Some (i, f) \<Rightarrow> (i, Some f) | None \<Rightarrow> (unsigned, None))
      in and_then (digits_within integer MAX_INTEGER_DIGITS) (\<lambda>_.
         and_then (case fraction of Some f \<Rightarrow> digits_within f MAX_FRACTIONAL_DIGITS
                                  | None \<Rightarrow> Inr ()) (\<lambda>_.
         Inr (DecimalString text))))"

text \<open>The documented grammar, \<open>-?[0-9]+(\.[0-9]+)?\<close>, with the two capacities.\<close>

definition digit_run :: "nat \<Rightarrow> string \<Rightarrow> bool" where
  "digit_run most s \<longleftrightarrow> s \<noteq> [] \<and> list_all is_ascii_digit s \<and> length s \<le> most"

definition unsigned_decimal :: "nat \<Rightarrow> nat \<Rightarrow> string \<Rightarrow> bool" where
  "unsigned_decimal hi hf s \<longleftrightarrow>
     digit_run hi s \<or> (\<exists>i f. digit_run hi i \<and> digit_run hf f \<and> s = i @ ''.'' @ f)"

definition plain_decimal :: "nat \<Rightarrow> nat \<Rightarrow> string \<Rightarrow> bool" where
  "plain_decimal hi hf s \<longleftrightarrow>
     unsigned_decimal hi hf s \<or> (\<exists>u. s = ''-'' @ u \<and> unsigned_decimal hi hf u)"

lemma digits_within_ok: "digits_within s n = Inr u \<longleftrightarrow> digit_run n s"
  by (auto simp: digits_within_def digit_run_def)

lemma not_digit_punctuation [simp]:
  "\<not> is_ascii_digit (CHR ''.'')" "\<not> is_ascii_digit (CHR ''-'')"
  by (simp_all add: is_ascii_digit_def)

lemma digit_run_no_point: "digit_run n s \<Longrightarrow> CHR ''.'' \<notin> set s"
  by (auto simp: digit_run_def list_all_iff)

lemma unsigned_decimal_no_sign: "\<not> unsigned_decimal hi hf (CHR ''-'' # u)"
  by (auto simp: unsigned_decimal_def digit_run_def Cons_eq_append_conv)

lemma plain_decimal_unsigned:
  "plain_decimal hi hf s \<longleftrightarrow>
     (case strip_prefix ''-'' s of None \<Rightarrow> unsigned_decimal hi hf s
        | Some u \<Rightarrow> unsigned_decimal hi hf u)"
  by (auto simp: plain_decimal_def strip_prefix_Some_iff strip_prefix_None_iff starts_with_iff
      unsigned_decimal_no_sign split: option.splits)

lemma unsigned_decimal_split:
  "unsigned_decimal hi hf s \<longleftrightarrow>
     (case split_once (CHR ''.'') s of None \<Rightarrow> digit_run hi s
        | Some (i, f) \<Rightarrow> digit_run hi i \<and> digit_run hf f)"
proof (cases "split_once (CHR ''.'') s")
  case None
  then have "CHR ''.'' \<notin> set s" by (simp add: split_once_None_iff)
  with None show ?thesis by (auto simp: unsigned_decimal_def)
next
  case (Some p)
  obtain i f where p: "p = (i, f)" by (cases p)
  with Some have s: "s = i @ CHR ''.'' # f" "CHR ''.'' \<notin> set i"
    by (simp_all add: split_once_Some_iff)
  have uniq: "a = i \<and> b = f" if "digit_run hi a" "s = a @ ''.'' @ b" for a b
    using Some p that split_once_Some_iff [of "CHR ''.''" s a b] digit_run_no_point by auto
  have "\<not> digit_run hi s" using s(1) digit_run_no_point by fastforce
  with Some p s uniq show ?thesis by (auto simp: unsigned_decimal_def)
qed

lemma DecimalString_parse_Inr_iff:
  "DecimalString_parse s = Inr d \<longleftrightarrow>
     d = DecimalString s \<and> plain_decimal MAX_INTEGER_DIGITS MAX_FRACTIONAL_DIGITS s"
  unfolding plain_decimal_unsigned DecimalString_parse_def
  by (auto simp: unsigned_decimal_split and_then_Inr_iff digits_within_ok
      split: option.splits)

interpretation decimal: validated_text DecimalString_parse decimal_text
  "plain_decimal MAX_INTEGER_DIGITS MAX_FRACTIONAL_DIGITS"
  by unfold_locales (simp_all add: DecimalString_parse_Inr_iff)

subsection \<open>Unit codes\<close>

datatype UnitCode = UnitCode (unit_text: string)

datatype UnitCodeSyntaxError = UnitCodeSyntaxError

definition UnitCode_parse :: "string \<Rightarrow> UnitCodeSyntaxError + UnitCode" where
  "UnitCode_parse code =
     (let starts_upper = (case code of [] \<Rightarrow> False | first # _ \<Rightarrow> is_ascii_uppercase first)
      in if starts_upper \<and>
            list_all (\<lambda>rest. is_ascii_uppercase rest \<or> is_ascii_digit rest \<or> rest = CHR ''_'') (tl code)
         then Inr (UnitCode code)
         else Inl UnitCodeSyntaxError)"

text \<open>The pattern of the SQL domain \<open>aircraft_ref.lookup_code\<close>: \<open>^[A-Z][A-Z0-9_]*$\<close>.\<close>

fun lookup_code_shape :: "string \<Rightarrow> bool" where
  "lookup_code_shape [] = False"
| "lookup_code_shape (c # cs) \<longleftrightarrow>
     is_ascii_uppercase c \<and>
     (\<forall>d \<in> set cs. is_ascii_uppercase d \<or> is_ascii_digit d \<or> d = CHR ''_'')"

lemma UnitCode_parse_iff:
  "UnitCode_parse s = Inr u \<longleftrightarrow> u = UnitCode s \<and> lookup_code_shape s"
  by (cases s) (auto simp: UnitCode_parse_def list_all_iff)

interpretation unit_code: validated_text UnitCode_parse unit_text lookup_code_shape
  by unfold_locales (simp_all add: UnitCode_parse_iff)

subsection \<open>Measured values and conditions\<close>

datatype MeasuredValue =
    Dimensionless DecimalString
  | InUnit (in_unit_value: DecimalString) (in_unit_unit: UnitCode)

fun measured_value :: "MeasuredValue \<Rightarrow> DecimalString" where
  "measured_value (Dimensionless v) = v"
| "measured_value (InUnit v _) = v"

fun measured_unit :: "MeasuredValue \<Rightarrow> UnitCode option" where
  "measured_unit (Dimensionless _) = None"
| "measured_unit (InUnit _ u) = Some u"

fun is_dimensionless :: "MeasuredValue \<Rightarrow> bool" where
  "is_dimensionless (Dimensionless _) = True"
| "is_dimensionless (InUnit _ _) = False"

lemma measured_unit_None [simp]: "measured_unit v = None \<longleftrightarrow> is_dimensionless v"
  by (cases v) simp_all

lemma measured_parts_inj:
  "measured_value v = measured_value w \<Longrightarrow> measured_unit v = measured_unit w \<Longrightarrow> v = w"
  by (cases v; cases w) simp_all

datatype PublicationStatus = Published | NotPublished

definition from_is_canonical :: "bool \<Rightarrow> PublicationStatus" where
  "from_is_canonical c = (if c then Published else NotPublished)"

definition publication_is_canonical :: "PublicationStatus \<Rightarrow> bool" where
  "publication_is_canonical p \<longleftrightarrow> p = Published"

datatype PowerSetting =
    MaxTakeoff | MaxContinuous | MaxClimb | Percent75 | Percent65 | Percent55
  | BestPower | BestEconomy | LongRangeCruise | Idle

definition PowerSetting_ALL :: "PowerSetting list" where
  "PowerSetting_ALL =
     [MaxTakeoff, MaxContinuous, MaxClimb, Percent75, Percent65, Percent55,
      BestPower, BestEconomy, LongRangeCruise, Idle]"

fun PowerSetting_code :: "PowerSetting \<Rightarrow> string" where
  "PowerSetting_code MaxTakeoff = ''MAX_TAKEOFF''"
| "PowerSetting_code MaxContinuous = ''MAX_CONTINUOUS''"
| "PowerSetting_code MaxClimb = ''MAX_CLIMB''"
| "PowerSetting_code Percent75 = ''75_PCT''"
| "PowerSetting_code Percent65 = ''65_PCT''"
| "PowerSetting_code Percent55 = ''55_PCT''"
| "PowerSetting_code BestPower = ''BEST_POWER''"
| "PowerSetting_code BestEconomy = ''BEST_ECONOMY''"
| "PowerSetting_code LongRangeCruise = ''LONG_RANGE_CRUISE''"
| "PowerSetting_code Idle = ''IDLE''"

datatype SurfaceType = Paved | Grass | Gravel | Soft | Water | CarrierDeck

definition SurfaceType_ALL :: "SurfaceType list" where
  "SurfaceType_ALL = [Paved, Grass, Gravel, Soft, Water, CarrierDeck]"

fun SurfaceType_code :: "SurfaceType \<Rightarrow> string" where
  "SurfaceType_code Paved = ''PAVED''"
| "SurfaceType_code Grass = ''GRASS''"
| "SurfaceType_code Gravel = ''GRAVEL''"
| "SurfaceType_code Soft = ''SOFT''"
| "SurfaceType_code Water = ''WATER''"
| "SurfaceType_code CarrierDeck = ''CARRIER_DECK''"

datatype UnknownConditionCode = UnknownConditionCode

definition PowerSetting_try_from :: "string \<Rightarrow> UnknownConditionCode + PowerSetting" where
  "PowerSetting_try_from = lookup_code PowerSetting_ALL PowerSetting_code UnknownConditionCode"

definition SurfaceType_try_from :: "string \<Rightarrow> UnknownConditionCode + SurfaceType" where
  "SurfaceType_try_from = lookup_code SurfaceType_ALL SurfaceType_code UnknownConditionCode"

interpretation power: closed_vocabulary PowerSetting_ALL PowerSetting_code
proof
  show "v \<in> set PowerSetting_ALL" for v by (cases v) (simp_all add: PowerSetting_ALL_def)
qed (simp add: PowerSetting_ALL_def)

interpretation surface: closed_vocabulary SurfaceType_ALL SurfaceType_code
proof
  show "v \<in> set SurfaceType_ALL" for v by (cases v) (simp_all add: SurfaceType_ALL_def)
qed (simp add: SurfaceType_ALL_def)

record MeasurementConditions =
  altitude_ft :: "DecimalString option"
  weight_lbs :: "DecimalString option"
  weight_label :: "string option"
  isa_deviation_c :: "DecimalString option"
  power_setting :: "PowerSetting option"
  surface_type :: "SurfaceType option"
  cond_notes :: "string option"

definition no_conditions :: MeasurementConditions where
  "no_conditions = \<lparr> altitude_ft = None, weight_lbs = None, weight_label = None,
     isa_deviation_c = None, power_setting = None, surface_type = None, cond_notes = None \<rparr>"

definition conditions_is_empty :: "MeasurementConditions \<Rightarrow> bool" where
  "conditions_is_empty c \<longleftrightarrow>
     altitude_ft c = None \<and> weight_lbs c = None \<and> weight_label c = None \<and>
     isa_deviation_c c = None \<and> power_setting c = None \<and> surface_type c = None \<and>
     cond_notes c = None"

subsection \<open>Measurements\<close>

record Measurement =
  m_raw :: "MeasuredValue option"
  m_canonical :: "MeasuredValue option"
  m_publication :: "PublicationStatus option"
  m_conditions :: "MeasurementConditions option"

datatype MeasurementError = NoValue | MixedDimensionality

definition Measurement_new ::
  "MeasuredValue option \<Rightarrow> MeasuredValue option \<Rightarrow> PublicationStatus option \<Rightarrow>
     MeasurementConditions option \<Rightarrow> MeasurementError + Measurement" where
  "Measurement_new raw canonical publication conditions =
     (if raw = None \<and> canonical = None then Inl NoValue
      else if (case (raw, canonical) of
                 (Some r, Some c) \<Rightarrow> is_dimensionless r \<noteq> is_dimensionless c | _ \<Rightarrow> False)
      then Inl MixedDimensionality
      else Inr \<lparr> m_raw = raw, m_canonical = canonical, m_publication = publication,
                 m_conditions = (case conditions of
                    Some c \<Rightarrow> if conditions_is_empty c then None else Some c
                  | None \<Rightarrow> None) \<rparr>)"

text \<open>What the private fields of a constructed measurement satisfy.\<close>

definition Measurement_ok :: "Measurement \<Rightarrow> bool" where
  "Measurement_ok m \<longleftrightarrow>
     (m_raw m \<noteq> None \<or> m_canonical m \<noteq> None) \<and>
     (\<forall>r c. m_raw m = Some r \<longrightarrow> m_canonical m = Some c \<longrightarrow>
        is_dimensionless r = is_dimensionless c) \<and>
     (\<forall>c. m_conditions m = Some c \<longrightarrow> \<not> conditions_is_empty c)"

lemma Measurement_new_ok: "Measurement_new r c p k = Inr m \<Longrightarrow> Measurement_ok m"
  by (auto simp: Measurement_new_def Measurement_ok_def split: if_splits option.splits)

lemma Measurement_ok_new:
  "Measurement_ok m \<Longrightarrow>
     Measurement_new (m_raw m) (m_canonical m) (m_publication m) (m_conditions m) = Inr m"
  by (cases m) (auto simp: Measurement_new_def Measurement_ok_def split: option.splits)

subsection \<open>The published shape\<close>

text \<open>
  \<open>aircraft_api::measurement\<close>. A member that is \<open>None\<close> is not serialised
  (\<open>skip_serializing_if\<close>). The two condition enums of the DTO repeat the domain's variants;
  their spelling is the \<open>serde(rename)\<close> of each variant.
\<close>

datatype DecimalStringResponse = DecimalStringResponse string

datatype UnitCodeResponse = UnitCodeResponse string

definition DecimalStringResponse_from :: "DecimalString \<Rightarrow> DecimalStringResponse" where
  "DecimalStringResponse_from v = DecimalStringResponse (decimal_text v)"

definition UnitCodeResponse_from :: "UnitCode \<Rightarrow> UnitCodeResponse" where
  "UnitCodeResponse_from u = UnitCodeResponse (unit_text u)"

datatype PowerSettingResponse =
    WireMaxTakeoff | WireMaxContinuous | WireMaxClimb | WirePercent75 | WirePercent65
  | WirePercent55 | WireBestPower | WireBestEconomy | WireLongRangeCruise | WireIdle

fun PowerSettingResponse_rename :: "PowerSettingResponse \<Rightarrow> string" where
  "PowerSettingResponse_rename WireMaxTakeoff = ''MAX_TAKEOFF''"
| "PowerSettingResponse_rename WireMaxContinuous = ''MAX_CONTINUOUS''"
| "PowerSettingResponse_rename WireMaxClimb = ''MAX_CLIMB''"
| "PowerSettingResponse_rename WirePercent75 = ''75_PCT''"
| "PowerSettingResponse_rename WirePercent65 = ''65_PCT''"
| "PowerSettingResponse_rename WirePercent55 = ''55_PCT''"
| "PowerSettingResponse_rename WireBestPower = ''BEST_POWER''"
| "PowerSettingResponse_rename WireBestEconomy = ''BEST_ECONOMY''"
| "PowerSettingResponse_rename WireLongRangeCruise = ''LONG_RANGE_CRUISE''"
| "PowerSettingResponse_rename WireIdle = ''IDLE''"

fun PowerSettingResponse_from :: "PowerSetting \<Rightarrow> PowerSettingResponse" where
  "PowerSettingResponse_from MaxTakeoff = WireMaxTakeoff"
| "PowerSettingResponse_from MaxContinuous = WireMaxContinuous"
| "PowerSettingResponse_from MaxClimb = WireMaxClimb"
| "PowerSettingResponse_from Percent75 = WirePercent75"
| "PowerSettingResponse_from Percent65 = WirePercent65"
| "PowerSettingResponse_from Percent55 = WirePercent55"
| "PowerSettingResponse_from BestPower = WireBestPower"
| "PowerSettingResponse_from BestEconomy = WireBestEconomy"
| "PowerSettingResponse_from LongRangeCruise = WireLongRangeCruise"
| "PowerSettingResponse_from Idle = WireIdle"

datatype SurfaceTypeResponse =
  WirePaved | WireGrass | WireGravel | WireSoft | WireWater | WireCarrierDeck

fun SurfaceTypeResponse_rename :: "SurfaceTypeResponse \<Rightarrow> string" where
  "SurfaceTypeResponse_rename WirePaved = ''PAVED''"
| "SurfaceTypeResponse_rename WireGrass = ''GRASS''"
| "SurfaceTypeResponse_rename WireGravel = ''GRAVEL''"
| "SurfaceTypeResponse_rename WireSoft = ''SOFT''"
| "SurfaceTypeResponse_rename WireWater = ''WATER''"
| "SurfaceTypeResponse_rename WireCarrierDeck = ''CARRIER_DECK''"

fun SurfaceTypeResponse_from :: "SurfaceType \<Rightarrow> SurfaceTypeResponse" where
  "SurfaceTypeResponse_from Paved = WirePaved"
| "SurfaceTypeResponse_from Grass = WireGrass"
| "SurfaceTypeResponse_from Gravel = WireGravel"
| "SurfaceTypeResponse_from Soft = WireSoft"
| "SurfaceTypeResponse_from Water = WireWater"
| "SurfaceTypeResponse_from CarrierDeck = WireCarrierDeck"

record MeasurementConditionsResponse =
  r_altitude_ft :: "DecimalStringResponse option"
  r_weight_lbs :: "DecimalStringResponse option"
  r_weight_label :: "string option"
  r_isa_deviation_c :: "DecimalStringResponse option"
  r_power_setting :: "PowerSettingResponse option"
  r_surface_type :: "SurfaceTypeResponse option"
  r_notes :: "string option"

definition MeasurementConditionsResponse_from ::
  "MeasurementConditions \<Rightarrow> MeasurementConditionsResponse" where
  "MeasurementConditionsResponse_from c =
     \<lparr> r_altitude_ft = map_option DecimalStringResponse_from (altitude_ft c),
       r_weight_lbs = map_option DecimalStringResponse_from (weight_lbs c),
       r_weight_label = weight_label c,
       r_isa_deviation_c = map_option DecimalStringResponse_from (isa_deviation_c c),
       r_power_setting = map_option PowerSettingResponse_from (power_setting c),
       r_surface_type = map_option SurfaceTypeResponse_from (surface_type c),
       r_notes = cond_notes c \<rparr>"

record MeasurementResponse =
  raw_value :: "DecimalStringResponse option"
  raw_unit_code :: "UnitCodeResponse option"
  canonical_value :: "DecimalStringResponse option"
  canonical_unit_code :: "UnitCodeResponse option"
  r_conditions :: "MeasurementConditionsResponse option"
  r_is_canonical :: "bool option"

definition split_measured ::
  "MeasuredValue option \<Rightarrow> DecimalStringResponse option \<times> UnitCodeResponse option" where
  "split_measured v = (case v of
       None \<Rightarrow> (None, None)
     | Some v \<Rightarrow> (Some (DecimalStringResponse_from (measured_value v)),
                 map_option UnitCodeResponse_from (measured_unit v)))"

definition MeasurementResponse_from :: "Measurement \<Rightarrow> MeasurementResponse" where
  "MeasurementResponse_from m =
     (let (rv, ru) = split_measured (m_raw m);
          (cv, cu) = split_measured (m_canonical m)
      in \<lparr> raw_value = rv, raw_unit_code = ru, canonical_value = cv, canonical_unit_code = cu,
           r_conditions = map_option MeasurementConditionsResponse_from (m_conditions m),
           r_is_canonical = map_option publication_is_canonical (m_publication m) \<rparr>)"

lemma inj_DecimalStringResponse_from [simp]: "inj DecimalStringResponse_from"
  by (auto intro!: injI simp: DecimalStringResponse_from_def intro: DecimalString.expand)

lemma inj_UnitCodeResponse_from [simp]: "inj UnitCodeResponse_from"
  by (auto intro!: injI simp: UnitCodeResponse_from_def intro: UnitCode.expand)

lemma PowerSetting_wire_spelling:
  "PowerSettingResponse_rename (PowerSettingResponse_from p) = PowerSetting_code p"
  by (cases p) simp_all

lemma SurfaceType_wire_spelling:
  "SurfaceTypeResponse_rename (SurfaceTypeResponse_from p) = SurfaceType_code p"
  by (cases p) simp_all

lemma inj_PowerSettingResponse_from [simp]: "inj PowerSettingResponse_from"
  by (rule injI) (metis PowerSetting_wire_spelling power.spell_inj)

lemma inj_SurfaceTypeResponse_from [simp]: "inj SurfaceTypeResponse_from"
  by (rule injI) (metis SurfaceType_wire_spelling surface.spell_inj)

lemma inj_publication_is_canonical [simp]: "inj publication_is_canonical"
proof (rule injI)
  show "p = q" if "publication_is_canonical p = publication_is_canonical q" for p q
    using that by (cases p; cases q) (simp_all add: publication_is_canonical_def)
qed

lemma map_option_inj_iff: "inj f \<Longrightarrow> map_option f x = map_option f y \<longleftrightarrow> x = y"
  by (cases x; cases y) (auto dest: injD)

lemma inj_MeasurementConditionsResponse_from [simp]: "inj MeasurementConditionsResponse_from"
  by (rule injI, rule MeasurementConditions.equality)
     (simp_all add: MeasurementConditionsResponse_from_def map_option_inj_iff)

lemma split_measured_inj: "split_measured v = split_measured w \<longleftrightarrow> v = w"
proof
  show "split_measured v = split_measured w \<Longrightarrow> v = w"
    by (cases v; cases w)
       (auto simp: split_measured_def map_option_inj_iff dest: injD [OF inj_DecimalStringResponse_from]
         intro: measured_parts_inj)
qed simp

lemma MeasurementResponse_from_fields [simp]:
  "raw_value (MeasurementResponse_from m) =
     map_option (\<lambda>v. DecimalStringResponse_from (measured_value v)) (m_raw m)"
  "raw_unit_code (MeasurementResponse_from m) =
     Option.bind (m_raw m) (\<lambda>v. map_option UnitCodeResponse_from (measured_unit v))"
  "canonical_value (MeasurementResponse_from m) =
     map_option (\<lambda>v. DecimalStringResponse_from (measured_value v)) (m_canonical m)"
  "canonical_unit_code (MeasurementResponse_from m) =
     Option.bind (m_canonical m) (\<lambda>v. map_option UnitCodeResponse_from (measured_unit v))"
  "r_conditions (MeasurementResponse_from m) =
     map_option MeasurementConditionsResponse_from (m_conditions m)"
  "r_is_canonical (MeasurementResponse_from m) = map_option publication_is_canonical (m_publication m)"
  by (cases "m_raw m"; cases "m_canonical m"; simp add: MeasurementResponse_from_def split_measured_def)+

lemma MeasurementResponse_from_split:
  "split_measured (m_raw m) = (raw_value (MeasurementResponse_from m),
     raw_unit_code (MeasurementResponse_from m))"
  "split_measured (m_canonical m) = (canonical_value (MeasurementResponse_from m),
     canonical_unit_code (MeasurementResponse_from m))"
  by (cases "m_raw m"; cases "m_canonical m"; simp add: split_measured_def)+

text \<open>What a reader of the response relies on.\<close>

definition MeasurementResponse_ok :: "MeasurementResponse \<Rightarrow> bool" where
  "MeasurementResponse_ok w \<longleftrightarrow>
     (raw_value w \<noteq> None \<or> canonical_value w \<noteq> None) \<and>
     (raw_unit_code w \<noteq> None \<longrightarrow> raw_value w \<noteq> None) \<and>
     (canonical_unit_code w \<noteq> None \<longrightarrow> canonical_value w \<noteq> None) \<and>
     (raw_value w \<noteq> None \<and> canonical_value w \<noteq> None \<longrightarrow>
        (raw_unit_code w = None) = (canonical_unit_code w = None)) \<and>
     r_conditions w \<noteq> Some (MeasurementConditionsResponse_from no_conditions)"

lemma MeasurementResponse_from_ok:
  assumes ok: "Measurement_ok m"
  shows "MeasurementResponse_ok (MeasurementResponse_from m)"
  unfolding MeasurementResponse_ok_def
proof (intro conjI)
  let ?w = "MeasurementResponse_from m"
  show "raw_value ?w \<noteq> None \<or> canonical_value ?w \<noteq> None"
    using ok by (simp add: Measurement_ok_def)
  show "raw_unit_code ?w \<noteq> None \<longrightarrow> raw_value ?w \<noteq> None"
    and "canonical_unit_code ?w \<noteq> None \<longrightarrow> canonical_value ?w \<noteq> None"
    by (auto simp: bind_eq_Some_conv)
  show "raw_value ?w \<noteq> None \<and> canonical_value ?w \<noteq> None \<longrightarrow>
          (raw_unit_code ?w = None) = (canonical_unit_code ?w = None)"
    using ok by (auto simp: Measurement_ok_def)
  show "r_conditions ?w \<noteq> Some (MeasurementConditionsResponse_from no_conditions)"
    using ok by (auto simp: Measurement_ok_def conditions_is_empty_def no_conditions_def
        dest!: injD [OF inj_MeasurementConditionsResponse_from])
qed

subsection \<open>Properties\<close>

text \<open>
  a decimal is accepted exactly when it is an optional minus sign, a run of ASCII digits and
  at most one point followed by a run of ASCII digits, both runs within what the database
  stores; an accepted decimal is kept byte for byte.
\<close>

theorem decimal_parse_grammar:
  "DecimalString_parse s = Inr d \<longleftrightarrow>
     decimal_text d = s \<and> plain_decimal MAX_INTEGER_DIGITS MAX_FRACTIONAL_DIGITS s"
  by (cases d) (auto simp: DecimalString_parse_Inr_iff)

text \<open>
  C40: every measurement the domain constructor accepts is published with at least one value, with a
  unit member only beside its value, with units on both values or on neither when both are
  present, and never with an empty condition set.
\<close>

theorem measurement_response_complete:
  assumes "Measurement_new raw canonical publication conditions = Inr m"
  shows "MeasurementResponse_ok (MeasurementResponse_from m)"
  using Measurement_new_ok [OF assms] by (rule MeasurementResponse_from_ok)

lemma measurement_response_complete_witness:
  "MeasurementResponse_ok (MeasurementResponse_from
      \<lparr> m_raw = Some (InUnit (DecimalString ''122'') (UnitCode ''KTAS'')), m_canonical = None,
        m_publication = Some NotPublished, m_conditions = None \<rparr>)"
  by (rule measurement_response_complete [where conditions = "Some no_conditions" and canonical = None
        and raw = "Some (InUnit (DecimalString ''122'') (UnitCode ''KTAS''))"
        and publication = "Some NotPublished"])
     (simp add: Measurement_new_def conditions_is_empty_def no_conditions_def)

text \<open>
  the published form of a measurement loses nothing: two measurements with the same response are
  the same measurement.
\<close>

theorem measurement_response_injective: "inj MeasurementResponse_from"
proof (rule injI)
  fix m n :: Measurement
  assume eq: "MeasurementResponse_from m = MeasurementResponse_from n"
  then have "split_measured (m_raw m) = split_measured (m_raw n)"
    and "split_measured (m_canonical m) = split_measured (m_canonical n)"
    by (simp_all only: MeasurementResponse_from_split)
  moreover have "m_publication m = m_publication n" and "m_conditions m = m_conditions n"
    using arg_cong [OF eq, of r_is_canonical] arg_cong [OF eq, of r_conditions]
    by (simp_all add: map_option_inj_iff)
  ultimately show "m = n"
    by (auto simp: split_measured_inj intro: Measurement.equality)
qed

end
