(* ===== verification/Source_Text_Facts.thy ===== *)
theory Source_Text_Facts
  imports Source_Text
begin

text \<open>
  Two round trips of the source reader: the production years spelled in an aircraft name, and the
  record key as a function of the two names.
\<close>

subsection \<open>ASCII text\<close>

definition is_ascii :: "char \<Rightarrow> bool" where
  "is_ascii c \<longleftrightarrow> byte c < 128"

lemma utf8_chars_ascii: "list_all is_ascii s \<Longrightarrow> utf8_chars s = map (\<lambda>c. [c]) s"
proof (induction s)
  case (Cons c s)
  have "takeWhile is_continuation s = [] \<and> dropWhile is_continuation s = s"
    using Cons.prems by (cases s) (auto simp: is_ascii_def is_continuation_def)
  with Cons show ?case by simp
qed simp

lemma graphic_not_whitespace: "is_ascii_graphic c \<Longrightarrow> \<not> is_whitespace [c]"
  by (auto simp: is_ascii_graphic_def is_whitespace_def)

lemma trim_end_last:
  assumes "is_ascii_graphic c"
  shows "trim_end (s @ [c]) = s @ [c]"
proof -
  have "utf8_chars (concat (utf8_chars s @ [[c]])) = utf8_chars s @ [[c]]"
  proof (rule utf8_chars_concat)
    have "scalar_ok [c]" using assms by (simp add: is_ascii_graphic_def is_continuation_def)
    then show "chunked (utf8_chars s @ [[c]])"
      using chunked_utf8_chars [of s] by (cases "utf8_chars s") auto
  qed
  then show ?thesis by (simp add: trim_end_def graphic_not_whitespace [OF assms])
qed

lemma trim_start_first:
  assumes "is_ascii_graphic c"
  shows "trim_start (c # s) = c # s"
proof -
  have "\<exists>rest. utf8_chars (c # s) = (c # takeWhile is_continuation s) # rest" by simp
  moreover have "\<not> is_whitespace (c # t)" if "list_all is_continuation t" for t
    using assms that
    by (auto simp: is_ascii_graphic_def is_whitespace_def is_continuation_def split: list.splits)
  moreover have "list_all is_continuation (takeWhile is_continuation s)"
    by (auto simp: list_all_iff dest: set_takeWhileD)
  ultimately show ?thesis unfolding trim_start_def
    by (metis concat_utf8_chars dropWhile.simps(2))
qed

lemma trim_start_space: "trim_start (CHR '' '' # s) = trim_start s"
  if "s \<noteq> []" "\<not> is_continuation (hd s)"
proof -
  from that obtain c t where s: "s = c # t" "\<not> is_continuation c" by (cases s) auto
  then have "utf8_chars (CHR '' '' # s) = [CHR '' ''] # utf8_chars s" by simp
  then show ?thesis by (simp add: trim_start_def is_whitespace_def)
qed

lemma trim_end_space:
  "trim_end (s @ '' '') = trim_end s"
proof -
  have "utf8_chars (concat (utf8_chars s @ ['' ''])) = utf8_chars s @ ['' '']"
  proof (rule utf8_chars_concat)
    have "scalar_ok '' ''" by (simp add: is_continuation_def)
    then show "chunked (utf8_chars s @ ['' ''])"
      using chunked_utf8_chars [of s] by (cases "utf8_chars s") auto
  qed
  then show ?thesis by (simp add: trim_end_def is_whitespace_def)
qed

lemma graphic_not_continuation: "is_ascii_graphic c \<Longrightarrow> \<not> is_continuation c"
  by (simp add: is_ascii_graphic_def is_continuation_def)

text \<open>A word: it starts and ends with a visible ASCII character.\<close>

definition trimmed_word :: "string \<Rightarrow> bool" where
  "trimmed_word w \<longleftrightarrow> w \<noteq> [] \<and> is_ascii_graphic (hd w) \<and> is_ascii_graphic (last w)"

lemma trimmed_wordE:
  assumes "trimmed_word w"
  obtains c t s d where "w = c # t" "is_ascii_graphic c" "w = s @ [d]" "is_ascii_graphic d"
  using assms unfolding trimmed_word_def
  by (metis append_butlast_last_id list.exhaust_sel)

lemma trim_trimmed_word [simp]:
  assumes "trimmed_word w"
  shows "trim w = w" "trim (w @ '' '') = w" "trim (CHR '' '' # w) = w"
proof -
  from assms obtain c t s d where w: "w = c # t" "is_ascii_graphic c" "w = s @ [d]" "is_ascii_graphic d"
    by (rule trimmed_wordE)
  have start: "trim_start (w @ x) = w @ x" for x using w(1,2) by (simp add: trim_start_first)
  have fin: "trim_end w = w" using w(3,4) by (simp add: trim_end_last)
  show "trim w = w" using start [of "[]"] fin by (simp add: trim_def)
  show "trim (w @ '' '') = w" using fin by (simp add: trim_def start trim_end_space)
  have "trim_start (CHR '' '' # w) = w"
    using w(1,2) start [of "[]"] by (simp add: trim_start_space graphic_not_continuation)
  then show "trim (CHR '' '' # w) = w" using fin by (simp add: trim_def)
qed

subsection \<open>Decimal numerals\<close>

lemma digit_char [simp]: "k < 10 \<Longrightarrow> byte (char_of (48 + k)) = 48 + k"
  by simp

lemma show_nat_digits: "list_all is_ascii_digit (show_nat n) \<and> show_nat n \<noteq> []"
proof (induction n rule: show_nat.induct)
  case (1 n)
  have "is_ascii_digit (char_of (48 + k))" if "k < 10" for k :: nat
    using that by (simp add: is_ascii_digit_def)
  with 1 show ?case by (subst (1 2) show_nat.simps) simp
qed

lemma digits_value_snoc: "digits_value (s @ [c]) = 10 * digits_value s + digit_value c"
  by (simp add: digits_value_def)

lemma digits_value_show_nat: "digits_value (show_nat n) = int n"
proof (induction n rule: show_nat.induct)
  case (1 n)
  have d: "digit_value (char_of (48 + k)) = int k" if "k < 10" for k :: nat
    using that by (simp add: digit_value_def)
  show ?case
  proof (cases "n < 10")
    case True
    then have "show_nat n = [char_of (48 + n)]" by (simp add: show_nat.simps)
    with True show ?thesis using digits_value_snoc [of "[]"] d [of n]
      by (simp add: digits_value_def)
  next
    case False
    then have "show_nat n = show_nat (n div 10) @ [char_of (48 + n mod 10)]"
      by (subst show_nat.simps) simp
    with False 1 show ?thesis using d [of "n mod 10"]
      by (simp add: digits_value_snoc zdiv_int zmod_int)
  qed
qed

lemma parse_digits_show_nat [simp]: "parse_digits (show_nat n) = Some (int n)"
  using show_nat_digits [of n] by (simp add: parse_digits_def digits_value_show_nat)

lemma digit_graphic: "is_ascii_digit c \<Longrightarrow> is_ascii_graphic c"
  by (simp add: byte_class_defs)

lemma show_nat_word: "trimmed_word (show_nat n)"
  using show_nat_digits [of n] by (auto simp: trimmed_word_def list_all_iff digit_graphic)

lemma show_nat_no_sign: "CHR ''-'' \<notin> set (show_nat n) \<and> CHR ''('' \<notin> set (show_nat n)"
  using show_nat_digits [of n] by (auto simp: list_all_iff is_ascii_digit_def)

lemma parse_i16_show_nat:
  assumes "int n \<le> i16_max"
  shows "parse_i16 (show_nat n) = Some (int n)"
proof -
  obtain c t where "show_nat n = c # t" "is_ascii_digit c"
    using show_nat_digits [of n] by (cases "show_nat n") auto
  then have "parse_i16 (show_nat n) = Option.bind (parse_digits (show_nat n)) (in_range i16_min i16_max)"
    by (auto simp: parse_signed_def is_ascii_digit_def split: char.splits bool.splits)
  with assms show ?thesis by (simp add: in_range_def i16_min_def)
qed

subsection \<open>Years in a name\<close>

lemma trailing_parenthetical_word:
  assumes "trimmed_word w" and "CHR ''('' \<notin> set w"
  shows "trailing_parenthetical (name @ ''('' @ w @ '')'') = Some w"
proof -
  have "trim_end (name @ ''('' @ w @ '')'') = (name @ ''('' @ w) @ '')''"
    using trim_end_last [of "CHR '')''" "name @ ''('' @ w"] by (simp add: is_ascii_graphic_def)
  then have "strip_suffix '')'' (trim_end (name @ ''('' @ w @ '')'')) = Some (name @ ''('' @ w)"
    by (simp only: strip_suffix_Some_iff)
  moreover have "rfind_char (CHR ''('') (name @ ''('' @ w) = Some (length name)"
    using rfind_char_last [OF assms(2), of name] by simp
  ultimately show ?thesis using assms(1) by (simp add: trailing_parenthetical_def)
qed

lemma range_word:
  assumes "trimmed_word u"
  shows "trimmed_word (show_nat n @ '' - '' @ u)"
  using assms show_nat_word [of n] show_nat_digits [of n] by (simp add: trimmed_word_def)

lemma parsed_production_range_text:
  assumes u: "trimmed_word u" "CHR ''('' \<notin> set u" and n: "int n \<le> i16_max"
  shows "parsed_production_range (name @ ''('' @ (show_nat n @ '' - '' @ u) @ '')'') =
     (if eq_ignore_ascii_case u ''present'' then Inr (Some (int n), None, Some True)
      else (case parse_i16 u of
          None \<Rightarrow> Inl ''aircraft name closes a production range that is not a year''
        | Some e \<Rightarrow> Inr (Some (int n), Some e, Some False)))"
proof -
  have "trailing_parenthetical (name @ ''('' @ (show_nat n @ '' - '' @ u) @ '')'') =
      Some (show_nat n @ '' - '' @ u)"
    by (rule trailing_parenthetical_word [OF range_word])
       (use u show_nat_no_sign [of n] in auto)
  moreover have "split_once (CHR ''-'') (show_nat n @ '' - '' @ u) = Some (show_nat n @ '' '', CHR '' '' # u)"
    using show_nat_no_sign [of n] by (simp add: split_once_Some_iff)
  moreover have "(case show_nat n of [] \<Rightarrow> False | c # _ \<Rightarrow> is_ascii_digit c)"
    using show_nat_digits [of n] by (cases "show_nat n") auto
  moreover have "trim (show_nat n @ '' '') = show_nat n" and "trim (CHR '' '' # u) = u"
    using u(1) show_nat_word [of n] by simp_all
  ultimately show ?thesis
    unfolding parsed_production_range_def by (simp add: parse_i16_show_nat [OF n])
qed

text \<open>
  a production range spelled at the end of an aircraft name, \<open>name (1946 - 1950)\<close> or
  \<open>name (1997 - present)\<close>, is read back as exactly those years, whatever the name before it.
\<close>

theorem production_range_roundtrip:
  assumes "int s \<le> i16_max" and "int e \<le> i16_max"
  shows "parsed_production_range (name @ ''('' @ show_nat s @ '' - '' @ show_nat e @ '')'') =
           Inr (Some (int s), Some (int e), Some False) \<and>
         parsed_production_range (name @ ''('' @ show_nat s @ '' - present)'') =
           Inr (Some (int s), None, Some True)"
proof
  have "\<not> eq_ignore_ascii_case (show_nat e) ''present''"
  proof -
    obtain c t where "show_nat e = c # t" "is_ascii_digit c"
      using show_nat_digits [of e] by (cases "show_nat e") auto
    then show ?thesis
      by (auto simp: eq_ignore_ascii_case_def to_ascii_lowercase_def ascii_lower_def byte_class_defs)
  qed
  then show "parsed_production_range (name @ ''('' @ show_nat s @ '' - '' @ show_nat e @ '')'') =
      Inr (Some (int s), Some (int e), Some False)"
    using parsed_production_range_text [OF show_nat_word [of e] _ assms(1), of name]
      show_nat_no_sign [of e] parse_i16_show_nat [OF assms(2)] by simp
  show "parsed_production_range (name @ ''('' @ show_nat s @ '' - present)'') =
      Inr (Some (int s), None, Some True)"
    using parsed_production_range_text [of "''present''" s name] assms(1)
    by (simp add: trimmed_word_def is_ascii_graphic_def eq_ignore_ascii_case_def)
qed

lemma production_range_roundtrip_witness:
  "parsed_production_range (''777-200ER '' @ ''('' @ show_nat 1997 @ '' - '' @ show_nat 2004 @ '')'') =
     Inr (Some 1997, Some 2004, Some False)"
  using production_range_roundtrip [of 1997 2004 "''777-200ER ''"] by (simp add: i16_max_def)

subsection \<open>Record keys\<close>

text \<open>
  two aircraft whose manufacturer names hold no NUL byte get the same record key only if they are
  the same aircraft, unless two different inputs of the hash collide.
\<close>

theorem record_key_separates:
  assumes "CHR 0x00 \<notin> set m" and "CHR 0x00 \<notin> set m'"
    and "record_key sha m a = record_key sha m' a'"
  shows "(m = m' \<and> a = a') \<or> (\<exists>x y. x \<noteq> y \<and> sha x = sha y)"
proof -
  have "sha (record_key_preimage m a) = sha (record_key_preimage m' a')"
    using assms(3) by (simp add: record_key_def hex_digest_inj)
  then show ?thesis
    using record_key_preimage_inj [OF assms(1,2), of a a'] by blast
qed

lemma record_key_separates_witness:
  "(''CESSNA'' = ''CESSNA'' \<and> ''120'' = ''120'') \<or>
     (\<exists>x y. x \<noteq> y \<and> (\<lambda>s::string. s) x = (\<lambda>s. s) y)"
  by (rule record_key_separates [where sha = "\<lambda>s. s"]) simp_all

text \<open>
  the key does not separate names that hold a NUL byte: moving the separator between the two names
  leaves the key unchanged, for every hash function.
\<close>

theorem record_key_nul_ambiguous:
  "record_key sha (m @ [CHR 0x00] @ x) a = record_key sha m (x @ [CHR 0x00] @ a)"
  by (simp add: record_key_def record_key_preimage_def)

end
