(* ===== verification/Credentials.thy ===== *)
theory Credentials
  imports Ingestion_Service
begin

text \<open>
  \<open>aircraft_app::credential_issuance\<close> and \<open>aircraft_app::authentication\<close>: minting an API credential,
  parsing and checking a presented one, and scrubbing digests from error messages. A credential is
  the text \<open>ak1_<uuid>_<64 hex>\<close>; only the SHA-256 of that text is stored. The two ports are locales:
  \<open>credential_store\<close> for issuance and its extension \<open>credential_directory\<close> for verification.
\<close>

subsection \<open>Libraries\<close>

text \<open>UUIDs, SHA-256, constant-time comparison and the text of a header value.\<close>

record 'k cred_libs =
  uuid_from_bytes :: "string \<Rightarrow> 'k"
  uuid_text :: "'k \<Rightarrow> string"
  uuid_parse :: "string \<Rightarrow> 'k option"
  cl_sha256 :: "string \<Rightarrow> string"
  ct_eq :: "string \<Rightarrow> string \<Rightarrow> bool"

text \<open>What their documentation says: a hyphenated UUID has 36 characters, none of them an underscore,
  and is read back; a digest has 32 bytes; the comparison decides equality.\<close>

definition cred_libs_ok :: "'k cred_libs \<Rightarrow> bool" where
  "cred_libs_ok L \<longleftrightarrow>
     (\<forall>k. length (uuid_text L k) = 36 \<and> CHR ''_'' \<notin> set (uuid_text L k) \<and>
        uuid_parse L (uuid_text L k) = Some k) \<and>
     (\<forall>s. length (cl_sha256 L s) = 32) \<and> (\<forall>a b. ct_eq L a b \<longleftrightarrow> a = b)"

definition sample_cred_libs :: "bool cred_libs" where
  "sample_cred_libs =
     \<lparr> uuid_from_bytes = (\<lambda>bytes. bytes = []),
       uuid_text = (\<lambda>k. replicate 36 (if k then CHR ''a'' else CHR ''b'')),
       uuid_parse = (\<lambda>s. if s = replicate 36 (CHR ''a'') then Some True
                         else if s = replicate 36 (CHR ''b'') then Some False else None),
       cl_sha256 = (\<lambda>s. take 32 (s @ replicate 32 (CHR 0x00))),
       ct_eq = (\<lambda>a b. a = b) \<rparr>"

lemma sample_cred_libs_ok: "cred_libs_ok sample_cred_libs"
proof -
  have ab: "replicate 36 (CHR ''b'') \<noteq> replicate 36 (CHR ''a'')" by (simp add: numeral_eq_Suc)
  then show ?thesis by (auto simp: cred_libs_ok_def sample_cred_libs_def)
qed

subsection \<open>Scrubbing\<close>

definition REDACTED_HEX_RUN :: nat where "REDACTED_HEX_RUN = 32"
definition REDACTED :: string where "REDACTED = ''[REDACTED]''"

definition flush_run :: "string \<Rightarrow> string \<Rightarrow> string" where
  "flush_run run out = out @ (if length run \<ge> REDACTED_HEX_RUN then REDACTED else run)"

fun redact_loop :: "string \<Rightarrow> string \<Rightarrow> string \<Rightarrow> string" where
  "redact_loop run out [] = flush_run run out"
| "redact_loop run out (c # s) =
     (if is_ascii_hexdigit c then redact_loop (run @ [c]) out s
      else redact_loop [] (flush_run run out @ [c]) s)"

definition redact_digest_runs :: "string \<Rightarrow> string" where
  "redact_digest_runs message = redact_loop [] [] message"

fun redact_persistence_error :: "PersistenceError \<Rightarrow> PersistenceError" where
  "redact_persistence_error (Database code message) = Database code (redact_digest_runs message)"
| "redact_persistence_error (Invariant message) = Invariant (redact_digest_runs message)"

text \<open>No run of hexadecimal digits as long as half a digest.\<close>

definition no_digest_run :: "string \<Rightarrow> bool" where
  "no_digest_run s \<longleftrightarrow>
     (\<nexists>a h b. s = a @ h @ b \<and> length h = REDACTED_HEX_RUN \<and> list_all is_ascii_hexdigit h)"

text \<open>Reading a text while counting the current run; \<open>None\<close> once a run is too long.\<close>

fun scan :: "nat \<Rightarrow> string \<Rightarrow> nat option" where
  "scan n [] = (if n < REDACTED_HEX_RUN then Some n else None)"
| "scan n (c # s) =
     (if n < REDACTED_HEX_RUN then scan (if is_ascii_hexdigit c then n + 1 else 0) s else None)"

lemma scan_append: "scan n (a @ b) = Option.bind (scan n a) (\<lambda>m. scan m b)"
proof (induction a arbitrary: n)
  case Nil
  show ?case by (cases b) simp_all
qed simp

lemma scan_hex:
  "list_all is_ascii_hexdigit h \<Longrightarrow>
     scan n h = (if n + length h < REDACTED_HEX_RUN then Some (n + length h) else None)"
  by (induction h arbitrary: n) auto

lemma scan_no_digest_run: "scan 0 s = Some n \<Longrightarrow> no_digest_run s"
  by (auto simp: no_digest_run_def scan_append scan_hex bind_eq_Some_conv)

lemma scan_redacted: "scan 0 REDACTED = Some 0"
  by (simp add: REDACTED_def REDACTED_HEX_RUN_def is_ascii_hexdigit_def is_ascii_digit_def)

lemma scan_redact_loop:
  "scan 0 out = Some 0 \<Longrightarrow> list_all is_ascii_hexdigit run \<Longrightarrow>
     \<exists>n. scan 0 (redact_loop run out s) = Some n"
proof (induction run out s rule: redact_loop.induct)
  case (1 run out)
  then show ?case by (simp add: flush_run_def scan_append scan_hex scan_redacted)
next
  case (2 run out c s)
  then show ?case
    by (auto simp: flush_run_def scan_append scan_hex scan_redacted REDACTED_HEX_RUN_def)
qed

lemma redact_no_digest_run: "no_digest_run (redact_digest_runs s)"
  using scan_redact_loop [of "[]" "[]" s]
  by (auto simp: redact_digest_runs_def REDACTED_HEX_RUN_def intro: scan_no_digest_run)

text \<open>A text without such a run is left as it is, so scrubbing twice is scrubbing once.\<close>

lemma scan_redact_loop_id:
  "scan (length run) s = Some n \<Longrightarrow> redact_loop run out s = out @ run @ s"
proof (induction run out s rule: redact_loop.induct)
  case (2 run out c s)
  then show ?case by (auto simp: flush_run_def split: if_splits)
qed (auto simp: flush_run_def split: if_splits)

lemma redact_idem: "redact_digest_runs (redact_digest_runs s) = redact_digest_runs s"
proof -
  obtain n where "scan 0 (redact_digest_runs s) = Some n"
    using scan_redact_loop [of "[]" "[]" s] by (auto simp: redact_digest_runs_def REDACTED_HEX_RUN_def)
  with scan_redact_loop_id [of "[]" "redact_digest_runs s" n "[]"] show ?thesis
    by (simp add: redact_digest_runs_def)
qed

subsection \<open>Requests and tokens\<close>

definition MAX_LABEL_CHARS :: nat where "MAX_LABEL_CHARS = 200"
definition TOKEN_PREFIX :: string where "TOKEN_PREFIX = ''ak1''"
definition SECRET_BYTES :: nat where "SECRET_BYTES = 32"
definition KEY_ID_BYTES :: nat where "KEY_ID_BYTES = 16"
definition TOKEN_CHARS :: nat where "TOKEN_CHARS = length TOKEN_PREFIX + 1 + 36 + 1 + SECRET_BYTES * 2"

datatype CredentialInputError = NonPositivePrincipalId | BlankLabel | LabelTooLong

record IssueCredential =
  ic_principal_id :: int
  ic_label :: string

definition IssueCredential_new :: "int \<Rightarrow> string \<Rightarrow> CredentialInputError + IssueCredential" where
  "IssueCredential_new principal_id label =
     (if principal_id \<le> 0 then Inl NonPositivePrincipalId
      else if \<not> list_ex (\<lambda>ch. \<not> is_whitespace ch) (utf8_chars label) then Inl BlankLabel
      else if length (utf8_chars label) > MAX_LABEL_CHARS then Inl LabelTooLong
      else Inr \<lparr> ic_principal_id = principal_id, ic_label = label \<rparr>)"

fun credential_input_code :: "CredentialInputError \<Rightarrow> string" where
  "credential_input_code NonPositivePrincipalId = ''NON_POSITIVE_PRINCIPAL_ID''"
| "credential_input_code BlankLabel = ''BLANK_LABEL''"
| "credential_input_code LabelTooLong = ''LABEL_TOO_LONG''"

text \<open>The verifier is the digest's bytes.\<close>

type_synonym CredentialVerifier = string

definition of_token :: "'k cred_libs \<Rightarrow> string \<Rightarrow> CredentialVerifier" where
  "of_token L token = cl_sha256 L token"

record 'k CredentialMaterial =
  cm_key_id :: 'k
  cm_clear :: string
  cm_verifier :: CredentialVerifier

definition build :: "'k cred_libs \<Rightarrow> string \<Rightarrow> string \<Rightarrow> 'k CredentialMaterial" where
  "build L key secret =
     (let key_id = uuid_from_bytes L key;
          token = TOKEN_PREFIX @ ''_'' @ uuid_text L key_id @ ''_'' @ hex_digest secret
      in \<lparr> cm_key_id = key_id, cm_clear = token, cm_verifier = of_token L token \<rparr>)"

datatype CredentialSyntaxError = UnexpectedLength | UnexpectedShape | MalformedKeyId

record 'k CredentialCandidate =
  cc_key_id :: 'k
  cc_verifier :: CredentialVerifier

definition CredentialCandidate_parse ::
  "'k cred_libs \<Rightarrow> string \<Rightarrow> CredentialSyntaxError + 'k CredentialCandidate" where
  "CredentialCandidate_parse L token =
     (if length token \<noteq> TOKEN_CHARS then Inl UnexpectedLength
      else (case splitn 4 (CHR ''_'') token of
        [pre, key, secret] \<Rightarrow>
          if pre \<noteq> TOKEN_PREFIX \<or> length secret \<noteq> SECRET_BYTES * 2 then Inl UnexpectedShape
          else (case uuid_parse L key of
                  None \<Rightarrow> Inl MalformedKeyId
                | Some key_id \<Rightarrow> Inr \<lparr> cc_key_id = key_id, cc_verifier = of_token L token \<rparr>)
      | _ \<Rightarrow> Inl UnexpectedShape))"

lemma hex_digest_no_underscore: "CHR ''_'' \<notin> set (hex_digest s)"
proof
  assume "CHR ''_'' \<in> set (hex_digest s)"
  with hex_digest_lower [of s] have "is_lower_hex (CHR ''_'')" by (simp add: list_all_iff)
  then show False by (simp add: is_lower_hex_def is_ascii_digit_def)
qed

lemma built_token_parsed:
  assumes "cred_libs_ok L" and "length secret = SECRET_BYTES"
  shows "CredentialCandidate_parse L (cm_clear (build L key secret)) =
     Inr \<lparr> cc_key_id = cm_key_id (build L key secret), cc_verifier = cm_verifier (build L key secret) \<rparr>"
proof -
  let ?k = "uuid_text L (uuid_from_bytes L key)" and ?h = "hex_digest secret"
  have k: "length ?k = 36" "CHR ''_'' \<notin> set ?k" "uuid_parse L ?k = Some (uuid_from_bytes L key)"
    using assms(1) by (auto simp: cred_libs_ok_def)
  have h: "length ?h = 64" "split_once (CHR ''_'') ?h = None"
    using assms(2) by (simp_all add: length_hex_digest SECRET_BYTES_def split_once_None_iff hex_digest_no_underscore)
  have sp: "split_once d (a @ d # b) = Some (a, b)" if "d \<notin> set a" for d a and b :: string
    using that by (induction a) auto
  have "splitn 4 (CHR ''_'') (TOKEN_PREFIX @ CHR ''_'' # ?k @ CHR ''_'' # ?h) = [TOKEN_PREFIX, ?k, ?h]"
    using k(2) h(2) by (simp add: numeral_eq_Suc sp TOKEN_PREFIX_def)
  moreover have "length (TOKEN_PREFIX @ CHR ''_'' # ?k @ CHR ''_'' # ?h) = TOKEN_CHARS"
    using k(1) h(1) by (simp add: TOKEN_CHARS_def SECRET_BYTES_def)
  ultimately show ?thesis using k(3) h(1)
    by (simp add: CredentialCandidate_parse_def build_def Let_def SECRET_BYTES_def)
qed

subsection \<open>Scopes\<close>

datatype Scope = CatalogRead | MilitaryRead | CurationRead | CurationWrite | Admin

definition Scope_ALL :: "Scope list" where
  "Scope_ALL = [CatalogRead, MilitaryRead, CurationRead, CurationWrite, Admin]"

fun Scope_code :: "Scope \<Rightarrow> string" where
  "Scope_code CatalogRead = ''CATALOG_READ''"
| "Scope_code MilitaryRead = ''MILITARY_READ''"
| "Scope_code CurationRead = ''CURATION_READ''"
| "Scope_code CurationWrite = ''CURATION_WRITE''"
| "Scope_code Admin = ''ADMIN''"

datatype UnknownScope = UnknownScope

definition Scope_try_from :: "string \<Rightarrow> UnknownScope + Scope" where
  "Scope_try_from = lookup_code Scope_ALL Scope_code UnknownScope"

interpretation scope: closed_vocabulary Scope_ALL Scope_code
proof
  show "v \<in> set Scope_ALL" for v by (cases v) (simp_all add: Scope_ALL_def)
qed (simp add: Scope_ALL_def)

subsection \<open>Issuance\<close>

record 'k NewCredential =
  nc_key_id :: 'k
  nc_principal_id :: int
  nc_verifier :: CredentialVerifier
  nc_label :: string

record 'k CredentialRecord =
  cr_key_id :: 'k
  cr_principal_id :: int
  cr_label :: string
  cr_created_at :: int
  cr_updated_at :: int

record 'k IssuedCredential =
  is_record :: "'k CredentialRecord"
  is_clear :: string

datatype CredentialIssuanceError =
    EntropyUnavailable string
  | UnknownPrincipal int
  | DuplicateCredential
  | IssuePersistence PersistenceError

fun issuance_code :: "CredentialIssuanceError \<Rightarrow> string" where
  "issuance_code (EntropyUnavailable _) = ''ENTROPY_UNAVAILABLE''"
| "issuance_code (UnknownPrincipal _) = ''UNKNOWN_PRINCIPAL''"
| "issuance_code DuplicateCredential = ''DUPLICATE_CREDENTIAL''"
| "issuance_code (IssuePersistence e) = persistence_code e"

definition FOREIGN_KEY_VIOLATION :: string where "FOREIGN_KEY_VIOLATION = ''DATABASE_23503''"
definition UNIQUE_VIOLATION :: string where "UNIQUE_VIOLATION = ''DATABASE_23505''"

definition classify :: "PersistenceError \<Rightarrow> int \<Rightarrow> CredentialIssuanceError" where
  "classify e principal_id =
     (case e of
        Database code _ \<Rightarrow>
          if code = FOREIGN_KEY_VIOLATION then UnknownPrincipal principal_id
          else if code = UNIQUE_VIOLATION then DuplicateCredential
          else IssuePersistence (redact_persistence_error e)
      | Invariant _ \<Rightarrow> IssuePersistence (redact_persistence_error e))"

text \<open>\<open>entropy i n\<close> is the \<open>i\<close>-th fill of a buffer of \<open>n\<close> bytes; logging is left out.\<close>

definition issue ::
  "'k cred_libs \<Rightarrow> (nat \<Rightarrow> nat \<Rightarrow> string + string) \<Rightarrow>
     ('st \<Rightarrow> 'k NewCredential \<Rightarrow> 'st \<times> (PersistenceError + 'k CredentialRecord)) \<Rightarrow> 'st \<Rightarrow> IssueCredential \<Rightarrow>
     'st \<times> (CredentialIssuanceError + 'k IssuedCredential)" where
  "issue L entropy persist st req =
     (case entropy 0 KEY_ID_BYTES of
        Inl e \<Rightarrow> (st, Inl (EntropyUnavailable e))
      | Inr key \<Rightarrow>
     (case entropy 1 SECRET_BYTES of
        Inl e \<Rightarrow> (st, Inl (EntropyUnavailable e))
      | Inr secret \<Rightarrow>
          (let material = build L key secret in
           case persist st \<lparr> nc_key_id = cm_key_id material, nc_principal_id = ic_principal_id req,
               nc_verifier = cm_verifier material, nc_label = ic_label req \<rparr> of
             (st', Inl e) \<Rightarrow> (st', Inl (classify e (ic_principal_id req)))
           | (st', Inr record) \<Rightarrow>
               (st', Inr \<lparr> is_record = record, is_clear = cm_clear material \<rparr>))))"

subsection \<open>Authentication\<close>

record CredentialLookupRecord =
  lr_verifier :: CredentialVerifier
  lr_revoked :: bool
  lr_disabled :: bool
  lr_principal_id :: int
  lr_scopes :: "Scope list"
  lr_tier :: string

record AuthenticatedPrincipal =
  ap_principal_id :: int
  ap_scopes :: "Scope list"
  ap_tier :: string

datatype AuthenticationError = Rejected | Unavailable PersistenceError

fun authentication_code :: "AuthenticationError \<Rightarrow> string" where
  "authentication_code Rejected = ''CREDENTIAL_REJECTED''"
| "authentication_code (Unavailable e) = persistence_code e"

definition ABSENT_VERIFIER :: CredentialVerifier where
  "ABSENT_VERIFIER = replicate 32 (CHR 0x00)"

definition authenticate_candidate ::
  "'k cred_libs \<Rightarrow> ('k \<Rightarrow> PersistenceError + CredentialLookupRecord option) \<Rightarrow> 'k CredentialCandidate \<Rightarrow>
     AuthenticationError + AuthenticatedPrincipal" where
  "authenticate_candidate L resolve candidate =
     (case resolve (cc_key_id candidate) of
        Inl e \<Rightarrow> Inl (Unavailable (redact_persistence_error e))
      | Inr found \<Rightarrow>
          (let stored = (case found of None \<Rightarrow> ABSENT_VERIFIER | Some r \<Rightarrow> lr_verifier r);
               digest_matches = ct_eq L (cc_verifier candidate) stored
           in case found of
                Some r \<Rightarrow>
                  if digest_matches \<and> \<not> lr_revoked r \<and> \<not> lr_disabled r
                  then Inr \<lparr> ap_principal_id = lr_principal_id r, ap_scopes = lr_scopes r, ap_tier = lr_tier r \<rparr>
                  else Inl Rejected
              | None \<Rightarrow> Inl Rejected))"

fun persistence_message :: "PersistenceError \<Rightarrow> string" where
  "persistence_message (Database _ message) = message"
| "persistence_message (Invariant message) = message"



text \<open>The token an issuance builds, once it has drawn its randomness, with the principal it is for.\<close>

definition drawn_tokens ::
  "'k cred_libs \<Rightarrow> (nat \<Rightarrow> nat \<Rightarrow> string + string) \<Rightarrow> IssueCredential \<Rightarrow> (string \<times> int) list" where
  "drawn_tokens L entropy req =
     (case (entropy 0 KEY_ID_BYTES, entropy 1 SECRET_BYTES) of
        (Inr key, Inr secret) \<Rightarrow> [(cm_clear (build L key secret), ic_principal_id req)]
      | _ \<Rightarrow> [])"

subsection \<open>What the services rely on\<close>

locale credential_store =
  fixes persist :: "'st \<Rightarrow> 'k NewCredential \<Rightarrow> 'st \<times> (PersistenceError + 'k CredentialRecord)"
    and credentials :: "'st \<Rightarrow> 'k NewCredential list"
  assumes persist_ok: "persist st c = (st', Inr r) \<Longrightarrow> credentials st' = credentials st @ [c] \<and>
      cr_key_id r = nc_key_id c \<and> cr_principal_id r = nc_principal_id c \<and> cr_label r = nc_label c"
    and persist_failed: "persist st c = (st', Inl e) \<Longrightarrow>
      credentials st' = credentials st \<or> credentials st' = credentials st @ [c]"
begin

lemma issue_ok:
  assumes "issue L entropy persist st req = (st', Inr issued)"
  shows "\<exists>key secret. entropy 0 KEY_ID_BYTES = Inr key \<and> entropy 1 SECRET_BYTES = Inr secret \<and>
     is_clear issued = cm_clear (build L key secret) \<and>
     cr_key_id (is_record issued) = cm_key_id (build L key secret) \<and>
     credentials st' = credentials st @
       [\<lparr> nc_key_id = cm_key_id (build L key secret), nc_principal_id = ic_principal_id req,
          nc_verifier = of_token L (is_clear issued), nc_label = ic_label req \<rparr>]"
  using assms
  by (auto simp: issue_def Let_def build_def split: sum.splits prod.splits dest!: persist_ok)

lemma issue_failed:
  assumes "issue L entropy persist st req = (st', Inl e)"
  shows "credentials st' = credentials st \<or>
     (\<exists>key secret c. nc_verifier c = of_token L (cm_clear (build L key secret)) \<and>
        credentials st' = credentials st @ [c])"
proof (cases "\<exists>key secret e'. persist st \<lparr> nc_key_id = cm_key_id (build L key secret),
      nc_principal_id = ic_principal_id req, nc_verifier = cm_verifier (build L key secret),
      nc_label = ic_label req \<rparr> = (st', Inl e')")
  case True
  then obtain key secret e' where "persist st \<lparr> nc_key_id = cm_key_id (build L key secret),
      nc_principal_id = ic_principal_id req, nc_verifier = cm_verifier (build L key secret),
      nc_label = ic_label req \<rparr> = (st', Inl e')" by blast
  moreover have "cm_verifier (build L key secret) = of_token L (cm_clear (build L key secret))"
    by (simp add: build_def Let_def)
  ultimately show ?thesis
    by (metis NewCredential.select_convs(3) persist_failed)
next
  case False
  with assms have "st' = st" by (auto simp: issue_def Let_def split: sum.splits prod.splits)
  then show ?thesis by simp
qed

lemma issue_adds_drawn:
  assumes "issue L entropy persist st req = (st', res)"
  shows "\<exists>cs. credentials st' = credentials st @ cs \<and>
     (\<forall>c \<in> set cs. \<exists>t. (t, nc_principal_id c) \<in> set (drawn_tokens L entropy req) \<and> nc_verifier c = of_token L t)"
proof (cases "\<exists>key secret. entropy 0 KEY_ID_BYTES = Inr key \<and> entropy 1 SECRET_BYTES = Inr secret")
  case True
  then obtain key secret where drawn: "entropy 0 KEY_ID_BYTES = Inr key" "entropy 1 SECRET_BYTES = Inr secret"
    by blast
  define c where "c = \<lparr> nc_key_id = cm_key_id (build L key secret), nc_principal_id = ic_principal_id req,
    nc_verifier = cm_verifier (build L key secret), nc_label = ic_label req \<rparr>"
  obtain st2 r where p: "persist st c = (st2, r)" by fastforce
  with assms drawn have "st' = st2"
    by (auto simp: issue_def Let_def c_def split: sum.splits)
  with p have "credentials st' = credentials st \<or> credentials st' = credentials st @ [c]"
    using persist_ok [of st c st2] persist_failed [of st c st2] by (cases r) blast+
  moreover have "nc_verifier c = of_token L (cm_clear (build L key secret))"
    by (simp add: c_def build_def Let_def)
  moreover have "nc_principal_id c = ic_principal_id req" by (simp add: c_def)
  ultimately show ?thesis using drawn by (fastforce simp: drawn_tokens_def)
next
  case False
  with assms have "st' = st" by (auto simp: issue_def split: sum.splits)
  then show ?thesis by simp
qed

end

locale credential_directory = credential_store persist credentials
  for persist :: "'st \<Rightarrow> 'k NewCredential \<Rightarrow> 'st \<times> (PersistenceError + 'k CredentialRecord)"
    and credentials :: "'st \<Rightarrow> 'k NewCredential list" +
  fixes resolve :: "'st \<Rightarrow> 'k \<Rightarrow> PersistenceError + CredentialLookupRecord option"
  assumes resolve_stored: "resolve st k = Inr (Some r) \<Longrightarrow>
      \<exists>c \<in> set (credentials st). nc_key_id c = k \<and> nc_verifier c = lr_verifier r \<and>
        nc_principal_id c = lr_principal_id r"
begin

lemma authenticated_was_stored:
  assumes "\<forall>a b. ct_eq L a b \<longleftrightarrow> a = b"
    and "authenticate_candidate L (resolve st) candidate = Inr p"
  shows "\<exists>c \<in> set (credentials st). nc_key_id c = cc_key_id candidate \<and>
     nc_verifier c = cc_verifier candidate \<and> nc_principal_id c = ap_principal_id p"
  using assms resolve_stored [of st "cc_key_id candidate"]
  by (fastforce simp: authenticate_candidate_def Let_def split: sum.splits option.splits if_splits)

end

end
