(* ===== verification/Problem.thy ===== *)
theory Problem
  imports Ingest_Types Credentials
begin

text \<open>
  \<open>aircraft_api::problem\<close>: the closed set of failures the API answers with, as RFC 9457 documents.
  Nothing in a document comes from an error value but the bounded request path. URI parsing is
  axum's, a parameter.
\<close>

subsection \<open>The request path in a document\<close>

record uri =
  uri_has_scheme :: bool
  uri_has_authority :: bool
  uri_has_query :: bool
  uri_path :: string

type_synonym uri_parser = "string \<Rightarrow> uri option"

definition MAX_INSTANCE_CHARS :: nat where "MAX_INSTANCE_CHARS = 255"
definition INVALID_INSTANCE :: string where "INVALID_INSTANCE = ''/invalid-request-path''"
definition OVERSIZED_INSTANCE :: string where "OVERSIZED_INSTANCE = ''/request-path-too-long''"

text \<open>The loop over \<open>bytes\<close>: a percent sign takes the next two bytes.\<close>

fun has_valid_percent_encoding :: "string \<Rightarrow> bool" where
  "has_valid_percent_encoding [] = True"
| "has_valid_percent_encoding (c # s) =
     (if c = CHR ''%'' then
        (case s of
           high # low # rest \<Rightarrow>
             is_ascii_hexdigit high \<and> is_ascii_hexdigit low \<and> has_valid_percent_encoding rest
         | _ \<Rightarrow> False)
      else has_valid_percent_encoding s)"

definition bounded_instance :: "uri_parser \<Rightarrow> string \<Rightarrow> string" where
  "bounded_instance parse path =
     (let sanitized = concat (take (MAX_INSTANCE_CHARS + 1) (utf8_chars path)) in
      if length (utf8_chars sanitized) > MAX_INSTANCE_CHARS then OVERSIZED_INSTANCE
      else (case parse sanitized of
              None \<Rightarrow> INVALID_INSTANCE
            | Some u \<Rightarrow>
                if list_ex is_control (utf8_chars sanitized) \<or> \<not> starts_with ''/'' sanitized \<or>
                   starts_with ''//'' sanitized \<or> uri_has_scheme u \<or> uri_has_authority u \<or>
                   uri_has_query u \<or> uri_path u \<noteq> sanitized \<or> \<not> has_valid_percent_encoding sanitized
                then INVALID_INSTANCE
                else sanitized))"

subsection \<open>Kinds and contracts\<close>

datatype RequiredScope = RsCatalogRead | RsMilitaryRead | RsCurationRead | RsCurationWrite | RsAdmin

fun RequiredScope_from :: "Scope \<Rightarrow> RequiredScope" where
  "RequiredScope_from CatalogRead = RsCatalogRead"
| "RequiredScope_from MilitaryRead = RsMilitaryRead"
| "RequiredScope_from CurationRead = RsCurationRead"
| "RequiredScope_from CurationWrite = RsCurationWrite"
| "RequiredScope_from Admin = RsAdmin"

text \<open>The \<open>SCREAMING_SNAKE_CASE\<close> spelling serde publishes.\<close>

fun required_scope_text :: "RequiredScope \<Rightarrow> string" where
  "required_scope_text RsCatalogRead = ''CATALOG_READ''"
| "required_scope_text RsMilitaryRead = ''MILITARY_READ''"
| "required_scope_text RsCurationRead = ''CURATION_READ''"
| "required_scope_text RsCurationWrite = ''CURATION_WRITE''"
| "required_scope_text RsAdmin = ''ADMIN''"

datatype ProblemKind =
    MalformedInput
  | ValidationFailedProblem
  | AuthenticationRequired
  | InsufficientScope RequiredScope
  | NotFound
  | MethodNotAllowed
  | Conflict
  | PayloadTooLarge
  | RateLimited nat
  | DatabaseUnavailable
  | ShuttingDown
  | ShutdownCancelled
  | Overloaded
  | Internal
  | DeadlineExceeded

record ProblemContract =
  pc_kind :: string
  pc_title :: string
  pc_status :: nat
  pc_detail :: string

definition contract_of :: "string \<Rightarrow> string \<Rightarrow> nat \<Rightarrow> string \<Rightarrow> ProblemContract" where
  "contract_of kind title status detail =
     \<lparr> pc_kind = kind, pc_title = title, pc_status = status, pc_detail = detail \<rparr>"

primrec contract :: "ProblemKind \<Rightarrow> ProblemContract" where
  "contract MalformedInput = contract_of ''/problems/malformed-input'' ''Bad Request'' 400
     ''The request body could not be read.''"
| "contract ValidationFailedProblem = contract_of ''/problems/validation-failed'' ''Validation Failed'' 400
     ''The request violates the API contract.''"
| "contract AuthenticationRequired = contract_of ''/problems/authentication-required'' ''Unauthorized'' 401
     ''Authentication is required to access this resource.''"
| "contract (InsufficientScope _) = contract_of ''/problems/insufficient-scope'' ''Forbidden'' 403
     ''The authenticated principal lacks the required scope.''"
| "contract NotFound = contract_of ''/problems/not-found'' ''Not Found'' 404
     ''The requested resource was not found.''"
| "contract MethodNotAllowed = contract_of ''/problems/method-not-allowed'' ''Method Not Allowed'' 405
     ''The request method is not allowed for this resource.''"
| "contract Conflict = contract_of ''/problems/conflict'' ''Conflict'' 409
     ''The request conflicts with the current resource state.''"
| "contract PayloadTooLarge = contract_of ''/problems/payload-too-large'' ''Payload Too Large'' 413
     ''The request body is larger than this service accepts.''"
| "contract (RateLimited _) = contract_of ''/problems/rate-limit-exceeded'' ''Too Many Requests'' 429
     ''The request rate limit has been exceeded.''"
| "contract DatabaseUnavailable = contract_of ''/problems/database-unavailable'' ''Service Unavailable'' 503
     ''The service cannot reach its database.''"
| "contract ShuttingDown = contract_of ''/problems/shutting-down'' ''Service Unavailable'' 503
     ''The service is shutting down and is not accepting new work.''"
| "contract ShutdownCancelled = contract_of ''/problems/shutting-down'' ''Service Unavailable'' 503
     ''The service stopped waiting for this request so it could shut down.''"
| "contract Overloaded = contract_of ''/problems/overloaded'' ''Service Unavailable'' 503
     ''The service is at capacity and refused this request rather than queueing it.''"
| "contract Internal = contract_of ''/problems/internal-error'' ''Internal Server Error'' 500
     ''The service encountered an unexpected error.''"
| "contract DeadlineExceeded = contract_of ''/problems/deadline-exceeded'' ''Gateway Timeout'' 504
     ''The service did not produce a response within its deadline.''"

record ApiProblem =
  ap_kind :: ProblemKind
  ap_instance :: string

definition ApiProblem_new :: "uri_parser \<Rightarrow> ProblemKind \<Rightarrow> string \<Rightarrow> ApiProblem" where
  "ApiProblem_new parse kind path = \<lparr> ap_kind = kind, ap_instance = bounded_instance parse path \<rparr>"

subsection \<open>Documents and responses\<close>

record ProblemDetails =
  pd_type :: string
  pd_title :: string
  pd_status :: nat
  pd_detail :: string
  pd_instance :: string
  pd_required_scope :: "RequiredScope option"

definition details :: "ApiProblem \<Rightarrow> ProblemDetails" where
  "details p =
     (let c = contract (ap_kind p);
          scope = (case ap_kind p of InsufficientScope s \<Rightarrow> Some s | _ \<Rightarrow> None)
      in \<lparr> pd_type = pc_kind c, pd_title = pc_title c, pd_status = pc_status c, pd_detail = pc_detail c,
           pd_instance = ap_instance p, pd_required_scope = scope \<rparr>)"

text \<open>The serialized members; an absent scope is left out.\<close>

definition problem_json :: "ProblemDetails \<Rightarrow> (string \<times> json) list" where
  "problem_json d =
     [(''type'', JString (pd_type d)), (''title'', JString (pd_title d)),
      (''status'', JNumber (show_nat (pd_status d))), (''detail'', JString (pd_detail d)),
      (''instance'', JString (pd_instance d))] @
     (case pd_required_scope d of None \<Rightarrow> []
      | Some s \<Rightarrow> [(''required_scope'', JString (required_scope_text s))])"

record response =
  resp_status :: nat
  resp_headers :: "(string \<times> string) list"
  resp_body :: "json option"

definition PROBLEM_MEDIA_TYPE :: string where
  "PROBLEM_MEDIA_TYPE = ''application/problem+json''"

definition details_response :: "ProblemDetails \<Rightarrow> response" where
  "details_response d =
     \<lparr> resp_status = (if 100 \<le> pd_status d \<and> pd_status d < 1000 then pd_status d else 500),
       resp_headers = [(''content-type'', PROBLEM_MEDIA_TYPE)], resp_body = Some (JObject (problem_json d)) \<rparr>"

definition problem_response :: "ApiProblem \<Rightarrow> response" where
  "problem_response p =
     (let r = details_response (details p) in
      case ap_kind p of
        AuthenticationRequired \<Rightarrow>
          r \<lparr> resp_headers := resp_headers r @ [(''www-authenticate'', ''Bearer'')] \<rparr>
      | RateLimited seconds \<Rightarrow>
          r \<lparr> resp_headers := resp_headers r @ [(''retry-after'', show_nat seconds)] \<rparr>
      | _ \<Rightarrow> r)"

subsection \<open>Extraction failures\<close>

datatype JsonRejection =
    JsonDataError | JsonSyntaxError | MissingJsonContentType | BytesRejection nat | OtherJsonRejection

definition json_rejection :: "uri_parser \<Rightarrow> string \<Rightarrow> JsonRejection \<Rightarrow> ApiProblem" where
  "json_rejection parse path rejection =
     (case rejection of
        JsonDataError \<Rightarrow> ApiProblem_new parse ValidationFailedProblem path
      | BytesRejection status \<Rightarrow>
          if status = 413 then ApiProblem_new parse PayloadTooLarge path
          else ApiProblem_new parse MalformedInput path
      | JsonSyntaxError \<Rightarrow> ApiProblem_new parse MalformedInput path
      | MissingJsonContentType \<Rightarrow> ApiProblem_new parse MalformedInput path
      | OtherJsonRejection \<Rightarrow> ApiProblem_new parse MalformedInput path)"

definition ApiJson_from_request :: "uri_parser \<Rightarrow> string \<Rightarrow> JsonRejection + 'a \<Rightarrow> ApiProblem + 'a" where
  "ApiJson_from_request parse path body = map_err (json_rejection parse path) body"

definition ApiQuery_from_request :: "uri_parser \<Rightarrow> string \<Rightarrow> 'r + 'a \<Rightarrow> ApiProblem + 'a" where
  "ApiQuery_from_request parse path query =
     map_err (\<lambda>_. ApiProblem_new parse ValidationFailedProblem path) query"

subsection \<open>Percent encoding\<close>

text \<open>What RFC 3986 asks: every percent sign is followed by two hexadecimal digits.\<close>

definition percent_signs_escape :: "string \<Rightarrow> bool" where
  "percent_signs_escape s \<longleftrightarrow>
     (\<forall>a b. s = a @ CHR ''%'' # b \<longrightarrow>
        (\<exists>h l rest. b = h # l # rest \<and> is_ascii_hexdigit h \<and> is_ascii_hexdigit l))"

lemma percent_signs_escape_Cons:
  "percent_signs_escape (c # s) \<longleftrightarrow>
     (c = CHR ''%'' \<longrightarrow> (\<exists>h l rest. s = h # l # rest \<and> is_ascii_hexdigit h \<and> is_ascii_hexdigit l)) \<and>
     percent_signs_escape s"
  unfolding percent_signs_escape_def by (auto simp: Cons_eq_append_conv)

text \<open>
  the byte loop that checks percent escapes, which skips the two bytes after a percent sign,
  accepts exactly the texts in which every percent sign starts an escape.
\<close>

theorem percent_encoding_equiv: "has_valid_percent_encoding s \<longleftrightarrow> percent_signs_escape s"
proof (induction s rule: has_valid_percent_encoding.induct)
  case 1
  show ?case by (simp add: percent_signs_escape_def)
next
  case (2 c s)
  have "\<not> is_ascii_hexdigit (CHR ''%'')"
    by (simp add: is_ascii_hexdigit_def is_ascii_digit_def)
  with 2 show ?case
    by (auto simp: percent_signs_escape_Cons split: list.splits)
qed

text \<open>
  the path a problem document reflects is always a bounded local path: at most 255 characters,
  starting with one slash and not two, free of control characters and with sound escapes, whatever
  the request and whatever the URI parser accepts.
\<close>

theorem instance_bounded:
  "let i = bounded_instance parse path in
     length (utf8_chars i) \<le> MAX_INSTANCE_CHARS \<and> starts_with ''/'' i \<and> \<not> starts_with ''//'' i \<and>
     \<not> list_ex is_control (utf8_chars i) \<and> has_valid_percent_encoding i"
proof -
  have fixed: "length (utf8_chars i) \<le> MAX_INSTANCE_CHARS \<and> starts_with ''/'' i \<and> \<not> starts_with ''//'' i \<and>
     \<not> list_ex is_control (utf8_chars i) \<and> has_valid_percent_encoding i"
    if "i = INVALID_INSTANCE \<or> i = OVERSIZED_INSTANCE" for i
    using that
    by (auto simp: INVALID_INSTANCE_def OVERSIZED_INSTANCE_def MAX_INSTANCE_CHARS_def starts_with_def
        is_control_def is_continuation_def)
  show ?thesis
    using fixed by (auto simp: bounded_instance_def Let_def split: option.splits)
qed

text \<open>
  the response to a problem repeats the document's status, carries a bearer challenge exactly for
  the 401, a \<open>Retry-After\<close> exactly for the 429 and a missing scope exactly for the 403, and its
  status, title and detail do not depend on the request.
\<close>

theorem problem_response_shape:
  "let p = ApiProblem_new parse kind path; r = problem_response p; d = details p in
     resp_status r = pd_status d \<and> 400 \<le> resp_status r \<and> resp_status r < 600 \<and>
     (''www-authenticate'' \<in> fst ` set (resp_headers r) \<longleftrightarrow> resp_status r = 401) \<and>
     (''retry-after'' \<in> fst ` set (resp_headers r) \<longleftrightarrow> resp_status r = 429) \<and>
     (pd_required_scope d = None \<longleftrightarrow> resp_status r \<noteq> 403) \<and>
     (pd_type d, pd_title d, pd_status d, pd_detail d) =
       (pc_kind (contract kind), pc_title (contract kind), pc_status (contract kind), pc_detail (contract kind))"
  by (cases kind)
     (simp_all add: Let_def problem_response_def details_response_def details_def ApiProblem_new_def contract_of_def)

end
