(* ===== verification/Pagination.thy ===== *)
theory Pagination
  imports Problem
begin

text \<open>
  \<open>aircraft_app::pagination\<close> and \<open>aircraft_api::pagination\<close>: page bounds, pages cut from an over-fetched
  result, and the opaque cursor. Base64, JSON text and SHA-256 are library code.
\<close>

subsection \<open>Pages\<close>

datatype PageLimit = PageLimit (limit_get: nat)

definition DEFAULT_LIMIT :: nat where "DEFAULT_LIMIT = 50"
definition MAX_LIMIT :: nat where "MAX_LIMIT = 200"

definition from_requested :: "nat option \<Rightarrow> PageLimit" where
  "from_requested requested =
     PageLimit (case requested of None \<Rightarrow> DEFAULT_LIMIT | Some limit \<Rightarrow> min limit MAX_LIMIT)"

definition query_size :: "PageLimit \<Rightarrow> nat" where
  "query_size limit = min (limit_get limit + 1) (nat u16_max)"

record ('r, 'k) Page =
  page_items :: "'r list"
  page_next :: "'k option"

definition from_overfetched :: "'r list \<Rightarrow> PageLimit \<Rightarrow> ('r \<Rightarrow> 'k) \<Rightarrow> ('r, 'k) Page" where
  "from_overfetched rows limit key_of =
     (let n = limit_get limit in
      if length rows > n
      then (let kept = take n rows in
            \<lparr> page_items = kept, page_next = (if kept = [] then None else Some (key_of (last kept))) \<rparr>)
      else \<lparr> page_items = rows, page_next = None \<rparr>)"

subsection \<open>Cursors\<close>

definition MAX_CURSOR_BYTES :: nat where "MAX_CURSOR_BYTES = 1024"
definition CURSOR_VERSION :: int where "CURSOR_VERSION = 1"

text \<open>
  \<open>URL_SAFE_NO_PAD\<close>, \<open>serde_json::to_vec\<close>, the JSON document of a byte string with its members in
  document order, and SHA-256.
\<close>

record cursor_libs =
  b64_encode :: "string \<Rightarrow> string"
  b64_decode :: "string \<Rightarrow> string option"
  to_vec :: "json \<Rightarrow> string"
  from_slice :: "string \<Rightarrow> json option"
  cu_sha256 :: "string \<Rightarrow> string"

record CursorTokenV1 =
  ct_version :: int
  ct_sort :: string
  ct_last_value :: string
  ct_tiebreaker :: string
  ct_filter :: string

record CursorPosition =
  cp_sort :: string
  cp_last_value :: string
  cp_tiebreaker :: string

datatype FilterFingerprint = FilterFingerprint string

definition fingerprint_of :: "cursor_libs \<Rightarrow> string \<Rightarrow> FilterFingerprint" where
  "fingerprint_of L normalized = FilterFingerprint (cu_sha256 L normalized)"

fun to_hex :: "FilterFingerprint \<Rightarrow> string" where
  "to_hex (FilterFingerprint bytes) = hex_digest bytes"

datatype CursorDecodeError = MalformedCursor | UnsupportedVersion | FilterMismatch

text \<open>What serde derives: members in declaration order; each expected exactly once, no others.\<close>

definition token_json :: "CursorTokenV1 \<Rightarrow> json" where
  "token_json t =
     JObject [(''version'', JNumber (show_int (ct_version t))), (''sort'', JString (ct_sort t)),
       (''last_value'', JString (ct_last_value t)), (''tiebreaker'', JString (ct_tiebreaker t)),
       (''filter'', JString (ct_filter t))]"

definition members :: "string \<Rightarrow> json_object \<Rightarrow> json list" where
  "members name obj = map snd (filter (\<lambda>(n, _). n = name) obj)"

fun json_u8 :: "json \<Rightarrow> int option" where
  "json_u8 (JNumber text) = parse_unsigned 255 text"
| "json_u8 _ = None"

fun json_str :: "json \<Rightarrow> string option" where
  "json_str (JString s) = Some s"
| "json_str _ = None"

definition one :: "(json \<Rightarrow> 'a option) \<Rightarrow> string \<Rightarrow> json_object \<Rightarrow> 'a option" where
  "one read name obj = (case members name obj of [v] \<Rightarrow> read v | _ \<Rightarrow> None)"

fun version_probe :: "json \<Rightarrow> int option" where
  "version_probe (JObject obj) = one json_u8 ''version'' obj"
| "version_probe (JArray [v]) = json_u8 v"
| "version_probe _ = None"

definition CURSOR_FIELDS :: "string list" where
  "CURSOR_FIELDS = [''version'', ''sort'', ''last_value'', ''tiebreaker'', ''filter'']"

definition make_token ::
  "int option \<Rightarrow> string option \<Rightarrow> string option \<Rightarrow> string option \<Rightarrow> string option \<Rightarrow> CursorTokenV1 option" where
  "make_token v s l t f =
     Option.bind v (\<lambda>v. Option.bind s (\<lambda>s. Option.bind l (\<lambda>l. Option.bind t (\<lambda>t. Option.bind f (\<lambda>f.
       Some \<lparr> ct_version = v, ct_sort = s, ct_last_value = l, ct_tiebreaker = t, ct_filter = f \<rparr>)))))"

fun token_of_json :: "json \<Rightarrow> CursorTokenV1 option" where
  "token_of_json (JObject obj) =
     (if list_all (\<lambda>(n, _). n \<in> set CURSOR_FIELDS) obj
      then make_token (one json_u8 ''version'' obj) (one json_str ''sort'' obj)
             (one json_str ''last_value'' obj) (one json_str ''tiebreaker'' obj) (one json_str ''filter'' obj)
      else None)"
| "token_of_json (JArray [v, s, l, t, f]) =
     make_token (json_u8 v) (json_str s) (json_str l) (json_str t) (json_str f)"
| "token_of_json _ = None"

definition cursor_encode :: "cursor_libs \<Rightarrow> CursorPosition \<Rightarrow> FilterFingerprint \<Rightarrow> string" where
  "cursor_encode L pos filters =
     b64_encode L (to_vec L (token_json
       \<lparr> ct_version = CURSOR_VERSION, ct_sort = cp_sort pos, ct_last_value = cp_last_value pos,
         ct_tiebreaker = cp_tiebreaker pos, ct_filter = to_hex filters \<rparr>))"

definition cursor_decode ::
  "cursor_libs \<Rightarrow> string \<Rightarrow> FilterFingerprint \<Rightarrow> CursorDecodeError + CursorPosition" where
  "cursor_decode L token filters =
     (if length token > MAX_CURSOR_BYTES then Inl MalformedCursor
      else (case b64_decode L token of
        None \<Rightarrow> Inl MalformedCursor
      | Some bytes \<Rightarrow>
      (case Option.bind (from_slice L bytes) version_probe of
        None \<Rightarrow> Inl MalformedCursor
      | Some version \<Rightarrow>
          if version \<noteq> CURSOR_VERSION then Inl UnsupportedVersion
          else (case Option.bind (from_slice L bytes) token_of_json of
            None \<Rightarrow> Inl MalformedCursor
          | Some t \<Rightarrow>
              if ct_filter t \<noteq> to_hex filters then Inl FilterMismatch
              else Inr \<lparr> cp_sort = ct_sort t, cp_last_value = ct_last_value t,
                         cp_tiebreaker = ct_tiebreaker t \<rparr>))))"

subsection \<open>The query of a collection\<close>

record ListQuery =
  lq_limit :: "nat option"
  lq_cursor :: "string option"

definition into_page_request ::
  "cursor_libs \<Rightarrow> uri_parser \<Rightarrow> ListQuery \<Rightarrow> FilterFingerprint \<Rightarrow> string \<Rightarrow>
     ApiProblem + (PageLimit \<times> CursorPosition option)" where
  "into_page_request L parse q filters inst =
     (case (case lq_cursor q of None \<Rightarrow> Inr None
            | Some token \<Rightarrow> map_sum id Some (cursor_decode L token filters)) of
        Inl _ \<Rightarrow> Inl (ApiProblem_new parse ValidationFailedProblem inst)
      | Inr cursor \<Rightarrow> Inr (from_requested (lq_limit q), cursor))"

record 'r PageResponse =
  pr_items :: "'r list"
  pr_next_cursor :: "string option"

subsection \<open>Cursors round trip\<close>

text \<open>Text JSON prints as it is.\<close>

definition plain_text :: "string \<Rightarrow> bool" where
  "plain_text s \<longleftrightarrow> list_all (\<lambda>c. is_ascii_graphic c \<and> c \<noteq> CHR 0x22 \<and> c \<noteq> CHR 0x5C) s"

definition plain_token :: "CursorTokenV1 \<Rightarrow> bool" where
  "plain_token t \<longleftrightarrow> ct_version t = CURSOR_VERSION \<and> plain_text (ct_sort t) \<and> plain_text (ct_last_value t) \<and>
     plain_text (ct_tiebreaker t) \<and> plain_text (ct_filter t)"

text \<open>
  What the code relies on: base64 and JSON round trip, JSON of plain text adds 67 bytes of names and
  punctuation, and base64 spends four bytes on three.
\<close>

definition cursor_libs_ok :: "cursor_libs \<Rightarrow> bool" where
  "cursor_libs_ok L \<longleftrightarrow>
     (\<forall>bytes. b64_decode L (b64_encode L bytes) = Some bytes \<and>
        length (b64_encode L bytes) = (4 * length bytes + 2) div 3) \<and>
     (\<forall>t. plain_token t \<longrightarrow> from_slice L (to_vec L (token_json t)) = Some (token_json t) \<and>
        length (to_vec L (token_json t)) = 67 + length (ct_sort t) + length (ct_last_value t) +
          length (ct_tiebreaker t) + length (ct_filter t)) \<and>
     (\<forall>s. length (cu_sha256 L s) = 32)"

lemma show_version: "show_int CURSOR_VERSION = ''1''"
  by (simp add: show_int_def CURSOR_VERSION_def show_nat.simps char_of_def bit_simps)

lemma token_of_token_json:
  "ct_version t = CURSOR_VERSION \<Longrightarrow> token_of_json (token_json t) = Some t"
  "ct_version t = CURSOR_VERSION \<Longrightarrow> version_probe (token_json t) = Some CURSOR_VERSION"
  by (simp_all add: token_json_def CURSOR_FIELDS_def one_def members_def make_token_def show_version)
    (simp_all add: CURSOR_VERSION_def parse_unsigned_def parse_digits_def digits_value_def digit_value_def
      in_range_def is_ascii_digit_def)

lemma plain_hex: "plain_text (hex_digest bytes)"
  using hex_digest_lower [of bytes]
  by (auto simp: plain_text_def list_all_iff is_lower_hex_def is_ascii_graphic_def is_ascii_digit_def)

definition plain_position :: "CursorPosition \<Rightarrow> bool" where
  "plain_position pos \<longleftrightarrow>
     plain_text (cp_sort pos) \<and> plain_text (cp_last_value pos) \<and> plain_text (cp_tiebreaker pos)"

lemma to_hex_inj: "to_hex a = to_hex b \<longleftrightarrow> a = b"
  by (cases a; cases b) (simp add: hex_digest_inj)

lemma cursor_decode_encode:
  assumes "cursor_libs_ok L" and "plain_position pos"
  shows "cursor_decode L (cursor_encode L pos filters) filters' =
     (if length (cursor_encode L pos filters) > MAX_CURSOR_BYTES then Inl MalformedCursor
      else if filters = filters' then Inr pos else Inl FilterMismatch)"
proof -
  let ?t = "\<lparr> ct_version = CURSOR_VERSION, ct_sort = cp_sort pos, ct_last_value = cp_last_value pos,
         ct_tiebreaker = cp_tiebreaker pos, ct_filter = to_hex filters \<rparr>"
  have "plain_token ?t"
    using assms(2) by (cases filters) (simp add: plain_token_def plain_position_def plain_hex)
  with assms(1) have "b64_decode L (cursor_encode L pos filters) = Some (to_vec L (token_json ?t))"
    "from_slice L (to_vec L (token_json ?t)) = Some (token_json ?t)"
    by (auto simp: cursor_libs_ok_def cursor_encode_def)
  then show ?thesis
    by (simp add: cursor_decode_def token_of_token_json to_hex_inj)
qed

lemma length_cursor_encode:
  assumes "cursor_libs_ok L" and "plain_position pos"
  shows "length (cursor_encode L pos (fingerprint_of L f)) =
     (4 * (131 + length (cp_sort pos) + length (cp_last_value pos) + length (cp_tiebreaker pos)) + 2) div 3"
proof -
  let ?t = "\<lparr> ct_version = CURSOR_VERSION, ct_sort = cp_sort pos, ct_last_value = cp_last_value pos,
         ct_tiebreaker = cp_tiebreaker pos, ct_filter = to_hex (fingerprint_of L f) \<rparr>"
  have hex: "length (to_hex (fingerprint_of L f)) = 64"
    using assms(1) by (simp add: fingerprint_of_def cursor_libs_ok_def)
  have "plain_token ?t"
    using assms(2) by (simp add: plain_token_def plain_position_def plain_hex fingerprint_of_def)
  with assms(1) have "length (to_vec L (token_json ?t)) = 67 + length (cp_sort pos) + length (cp_last_value pos) +
      length (cp_tiebreaker pos) + 64"
    using hex by (fastforce simp: cursor_libs_ok_def)
  then have "length (to_vec L (token_json ?t)) =
      131 + length (cp_sort pos) + length (cp_last_value pos) + length (cp_tiebreaker pos)" by simp
  with assms(1) show ?thesis by (simp add: cursor_libs_ok_def cursor_encode_def)
qed

text \<open>The libraries by the simplest functions with these properties, for concrete examples.\<close>

definition sample_cursor_libs :: cursor_libs where
  "sample_cursor_libs =
     \<lparr> b64_encode = (\<lambda>s. s @ replicate ((4 * length s + 2) div 3 - length s) (CHR ''A'')),
       b64_decode = (\<lambda>s. Some (take (3 * length s div 4) s)),
       to_vec = (\<lambda>j. case token_of_json j of None \<Rightarrow> []
          | Some t \<Rightarrow> join_with [CHR 0x22] [ct_sort t, ct_last_value t, ct_tiebreaker t, ct_filter t] @
              replicate 64 (CHR 0x22)),
       from_slice = (\<lambda>s. case split_char (CHR 0x22) s of
            a # b # c # d # _ \<Rightarrow> Some (token_json \<lparr> ct_version = CURSOR_VERSION, ct_sort = a, ct_last_value = b,
              ct_tiebreaker = c, ct_filter = d \<rparr>)
          | _ \<Rightarrow> None),
       cu_sha256 = (\<lambda>s. take 32 (s @ replicate 32 (CHR 0x00))) \<rparr>"

lemma plain_no_quote: "plain_text s \<Longrightarrow> CHR 0x22 \<notin> set s"
  by (auto simp: plain_text_def list_all_iff)

lemma sample_cursor_libs_ok: "cursor_libs_ok sample_cursor_libs"
proof -
  have "(3 * ((4 * n + 2) div 3)) div 4 = n" for n :: nat by presburger
  moreover have "n + ((4 * n + 2) div 3 - n) = (4 * n + 2) div 3" for n :: nat by presburger
  moreover have "split_char (CHR 0x22) (join_with [CHR 0x22] [a, b, c, d] @ CHR 0x22 # rest) =
      a # b # c # d # split_char (CHR 0x22) rest"
    if "plain_text a" "plain_text b" "plain_text c" "plain_text d" for a b c d rest
    using that by (simp add: split_char_append plain_no_quote)
  moreover have "token_json \<lparr> ct_version = CURSOR_VERSION, ct_sort = ct_sort t, ct_last_value = ct_last_value t,
      ct_tiebreaker = ct_tiebreaker t, ct_filter = ct_filter t \<rparr> = token_json t" if "ct_version t = CURSOR_VERSION" for t
    using that by (simp add: token_json_def)
  moreover have "replicate 64 (CHR 0x22) = CHR 0x22 # replicate 63 (CHR 0x22)" by (simp add: numeral_eq_Suc)
  ultimately show ?thesis
    by (auto simp: cursor_libs_ok_def sample_cursor_libs_def plain_token_def token_of_token_json)
qed

end
