(* ===== verification/Keyset.thy ===== *)
theory Keyset
  imports Pagination
begin

text \<open>
  The contract of a keyset-paged reader, and a client that follows continuations. The client's lemmas
  are proved once here; the model and family readers discharge the laws.
\<close>

definition beyond :: "('k \<Rightarrow> 'k \<Rightarrow> bool) \<Rightarrow> ('r \<Rightarrow> 'k) \<Rightarrow> 'k option \<Rightarrow> 'r \<Rightarrow> bool" where
  "beyond below key after r = (case after of None \<Rightarrow> True | Some k \<Rightarrow> below k (key r))"

lemma beyond_simps [simp]:
  "beyond below key None r"
  "beyond below key (Some k) r = below k (key r)"
  by (simp_all add: beyond_def)

text \<open>
  A client that asks for page after page, the \<open>i\<close>-th answered by \<open>ask i\<close>, until a page carries no
  continuation. \<open>None\<close> is a refusal, or pages without end.
\<close>

partial_function (option) follow ::
  "(nat \<Rightarrow> 'c option \<Rightarrow> ('r list \<times> 'c option) option) \<Rightarrow> nat \<Rightarrow> 'c option \<Rightarrow> 'r list option" where
  "follow ask i cursor =
     Option.bind (ask i cursor) (\<lambda>(items, next).
       case next of
         None \<Rightarrow> Some items
       | Some c \<Rightarrow> Option.bind (follow ask (Suc i) (Some c)) (\<lambda>rest. Some (items @ rest)))"

lemma follow_last: "ask i cursor = Some (items, None) \<Longrightarrow> follow ask i cursor = Some items"
  by (subst follow.simps) simp

lemma follow_more:
  "ask i cursor = Some (items, Some c) \<Longrightarrow>
     follow ask i cursor = map_option ((@) items) (follow ask (Suc i) (Some c))"
  by (subst follow.simps) (auto simp: map_option_case split: option.split)

definition ask_page :: "'e + ('r, 'k) Page \<Rightarrow> ('r list \<times> 'k option) option" where
  "ask_page res = (case res of Inl _ \<Rightarrow> None | Inr p \<Rightarrow> Some (page_items p, page_next p))"

lemma ask_page_Inr [simp]: "ask_page (Inr p) = Some (page_items p, page_next p)"
  by (simp add: ask_page_def)

lemma length_from_overfetched: "length (page_items (from_overfetched rows limit key_of)) \<le> limit_get limit"
  by (simp add: from_overfetched_def Let_def)

text \<open>A page cut from the rows after a key, with one row of lookahead.\<close>

lemma page_of_rest:
  fixes limit :: PageLimit and rest :: "'r list" and key :: "'r \<Rightarrow> 'k"
  defines "n \<equiv> limit_get limit"
  assumes "0 < n" and "n < nat u16_max"
  defines "p \<equiv> from_overfetched (take (query_size limit) rest) limit key"
  shows "page_items p = take n rest"
    and "page_next p = (if length rest \<le> n then None else Some (key (rest ! (n - 1))))"
proof -
  have q: "query_size limit = n + 1" using assms(2,3) by (simp add: query_size_def n_def)
  have "last (take n rest) = rest ! (n - 1)" if "n < length rest"
    by (subst last_conv_nth) (use that assms(2) in auto)
  with q assms(2) show "page_items p = take n rest"
    and "page_next p = (if length rest \<le> n then None else Some (key (rest ! (n - 1))))"
    by (auto simp: p_def from_overfetched_def Let_def n_def [symmetric] min_def)
qed

locale keyset_listing =
  fixes listing :: "'t \<Rightarrow> PageLimit \<Rightarrow> 'k option \<Rightarrow> 'e + ('r, 'k) Page"
    and rows :: "'t \<Rightarrow> 'r list"
    and key :: "'r \<Rightarrow> 'k"
    and below :: "'k \<Rightarrow> 'k \<Rightarrow> bool"
    and wf :: "'t \<Rightarrow> bool"
  assumes below_trans: "below a b \<Longrightarrow> below b c \<Longrightarrow> below a c"
    and below_irrefl: "\<not> below a a"
    and ordered: "wf t \<Longrightarrow> sorted_wrt (\<lambda>a b. below (key a) (key b)) (rows t)"
    and listed: "wf t \<Longrightarrow> listing t limit after =
      Inr (from_overfetched (take (query_size limit) (filter (beyond below key after) (rows t))) limit key)"
begin

lemma beyond_trans: "below (key r) (key x) \<Longrightarrow> beyond below key after r \<Longrightarrow> beyond below key after x"
  by (cases after) (simp_all add: below_trans [of _ "key r" "key x"])

text \<open>What is beyond the last row kept is exactly what was not kept.\<close>

lemma resume_exact:
  assumes "sorted_wrt (\<lambda>a b. below (key a) (key b)) rs" and "n < length rs" and "0 < n"
  shows "filter (beyond below key (Some (key (rs ! (n - 1))))) rs = drop n rs"
proof -
  have split: "rs = take n rs @ drop n rs" by simp
  have "filter (beyond below key (Some (key (rs ! (n - 1))))) (take n rs) = []"
  proof (clarsimp simp: filter_empty_conv in_set_conv_nth)
    fix i assume i: "below (key (rs ! (n - Suc 0))) (key (rs ! i))" "i < length rs" "i < n"
    have "i = n - Suc 0 \<or> below (key (rs ! i)) (key (rs ! (n - Suc 0)))"
      using i(3) assms by (cases "i = n - Suc 0") (auto simp: sorted_wrt_iff_nth_less)
    with i(1) below_irrefl [of "key (rs ! i)"] below_trans [of "key (rs ! i)" "key (rs ! (n - Suc 0))" "key (rs ! i)"]
    show False by blast
  qed
  moreover have "filter (beyond below key (Some (key (rs ! (n - 1))))) (drop n rs) = drop n rs"
    using assms by (auto simp: filter_id_conv in_set_conv_nth sorted_wrt_iff_nth_less)
  ultimately show ?thesis by (metis append_Nil filter_append split)
qed

lemma filter_resume:
  assumes "r \<in> set (filter (beyond below key after) rs)"
  shows "filter (beyond below key (Some (key r))) (filter (beyond below key after) rs) =
     filter (beyond below key (Some (key r))) rs"
proof -
  have "beyond below key after x" if "below (key r) (key x)" for x
    using that assms beyond_trans [of r x after] by auto
  then show ?thesis unfolding filter_filter by (intro filter_cong) auto
qed

lemma page_facts:
  fixes after :: "'k option"
  assumes "wf t" and "0 < limit_get limit" and "limit_get limit < nat u16_max"
  defines "rest \<equiv> filter (beyond below key after) (rows t)" and "n \<equiv> limit_get limit"
  shows "ask_page (listing t limit after) =
       Some (take n rest, if length rest \<le> n then None else Some (key (rest ! (n - 1))))"
    and "n < length rest \<Longrightarrow> filter (beyond below key (Some (key (rest ! (n - 1))))) (rows t) = drop n rest"
proof -
  show "ask_page (listing t limit after) =
       Some (take n rest, if length rest \<le> n then None else Some (key (rest ! (n - 1))))"
    using page_of_rest [OF assms(2,3), of rest key] by (simp add: listed [OF assms(1)] rest_def n_def)
  assume n: "n < length rest"
  have sorted: "sorted_wrt (\<lambda>a b. below (key a) (key b)) rest"
    using ordered [OF assms(1)] by (simp add: rest_def sorted_wrt_filter)
  from n have "rest ! (n - 1) \<in> set rest" by simp
  then have "filter (beyond below key (Some (key (rest ! (n - 1))))) rest =
      filter (beyond below key (Some (key (rest ! (n - 1))))) (rows t)"
    unfolding rest_def by (rule filter_resume)
  with resume_exact [OF sorted n] assms(2)
  show "filter (beyond below key (Some (key (rest ! (n - 1))))) (rows t) = drop n rest"
    by (simp add: n_def)
qed

text \<open>Over rows that do not change, following the pages ends and gives every row beyond the start.\<close>

lemma follow_complete:
  assumes "wf t" and "0 < limit_get limit" and "limit_get limit < nat u16_max"
  shows "follow (\<lambda>_ after. ask_page (listing t limit after)) i after = Some (filter (beyond below key after) (rows t))"
proof (induction "length (filter (beyond below key after) (rows t))" arbitrary: i after rule: less_induct)
  case less
  let ?n = "limit_get limit" and ?rest = "filter (beyond below key after) (rows t)"
  note facts = page_facts [where after = after, OF assms]
  show ?case
  proof (cases "length ?rest \<le> ?n")
    case True
    with facts(1) show ?thesis by (intro follow_last [THEN trans]) auto
  next
    case False
    then have n: "?n < length ?rest" by simp
    let ?k = "key (?rest ! (?n - 1))"
    have "filter (beyond below key (Some ?k)) (rows t) = drop ?n ?rest" using facts(2) n by blast
    moreover have "length (drop ?n ?rest) < length ?rest" using n assms(2) by simp
    ultimately have "follow (\<lambda>_ after. ask_page (listing t limit after)) (Suc i) (Some ?k) = Some (drop ?n ?rest)"
      using less [of "Some ?k" "Suc i"] by simp
    moreover have "ask_page (listing t limit after) = Some (take ?n ?rest, Some ?k)"
      using facts(1) False by simp
    ultimately show ?thesis by (subst follow_more) auto
  qed
qed

text \<open>
  Over rows that change between pages, whatever a finished walk returns is in order and without
  repetition, and holds every row that was there all along.
\<close>

lemma follow_changing:
  assumes "\<And>j. wf (t j)" and "0 < limit_get limit" and "limit_get limit < nat u16_max"
    and "follow ask i after = Some out" and "ask = (\<lambda>j after. ask_page (listing (t j) limit after))"
  shows "sorted_wrt (\<lambda>a b. below (key a) (key b)) out \<and> (\<forall>r \<in> set out. beyond below key after r) \<and>
     {r. (\<forall>j. r \<in> set (rows (t j))) \<and> beyond below key after r} \<subseteq> set out"
  using assms(4,5)
proof (induction ask i after out rule: follow.raw_induct [rotated, consumes 1, case_names ask])
  case (ask walk ask i after out)
  let ?n = "limit_get limit" and ?rest = "filter (beyond below key after) (rows (t i))"
  note facts = page_facts [where t = "t i" and after = after, OF assms(1,2,3)]
  have sorted: "sorted_wrt (\<lambda>a b. below (key a) (key b)) ?rest"
    using ordered [OF assms(1)] by (simp add: sorted_wrt_filter)
  show ?case
  proof (cases "length ?rest \<le> ?n")
    case True
    with ask(2,3) facts(1) have "out = ?rest" by simp
    with sorted show ?thesis by auto
  next
    case False
    then have n: "?n < length ?rest" by simp
    let ?k = "key (?rest ! (?n - 1))"
    from False ask(2,3) facts(1) obtain more where more:
      "walk ask (Suc i) (Some ?k) = Some more" "out = take ?n ?rest @ more"
      by (auto simp: bind_eq_Some_conv)
    from ask(1) [OF more(1) ask(3)] have IH: "sorted_wrt (\<lambda>a b. below (key a) (key b)) more"
      "\<forall>r \<in> set more. below ?k (key r)"
      "{r. (\<forall>j. r \<in> set (rows (t j))) \<and> below ?k (key r)} \<subseteq> set more"
      by auto
    have "below (key a) (key b)" if "a \<in> set (take ?n ?rest)" "b \<in> set more" for a b
    proof -
      from that(1) obtain m where m: "a = ?rest ! m" "m < ?n" by (auto simp: in_set_conv_nth)
      have "m = ?n - 1 \<or> below (key a) ?k"
        using m n sorted by (cases "m = ?n - 1") (auto simp: sorted_wrt_iff_nth_less)
      moreover have "below ?k (key b)" using IH(2) that(2) by blast
      ultimately show ?thesis using m(1) below_trans by blast
    qed
    then have "sorted_wrt (\<lambda>a b. below (key a) (key b)) out"
      using IH(1) sorted more(2) by (simp add: sorted_wrt_append sorted_wrt_take)
    moreover have "beyond below key after r" if "r \<in> set out" for r
    proof (cases "r \<in> set (take ?n ?rest)")
      case True
      then show ?thesis by (auto dest: in_set_takeD)
    next
      case False
      with that more(2) IH(2) have "below ?k (key r)" by auto
      moreover have "?rest ! (?n - 1) \<in> set ?rest" using n by (intro nth_mem) linarith
      then have "beyond below key after (?rest ! (?n - 1))" by simp
      ultimately show ?thesis by (rule beyond_trans)
    qed
    moreover have "r \<in> set out" if "\<forall>j. r \<in> set (rows (t j))" "beyond below key after r" for r
    proof -
      from that have "r \<in> set ?rest" by auto
      then have "r \<in> set (take ?n ?rest) \<or> r \<in> set (drop ?n ?rest)"
        by (metis Un_iff append_take_drop_id set_append)
      moreover have "below ?k (key r)" if "r \<in> set (drop ?n ?rest)"
      proof -
        have "r \<in> set (filter (beyond below key (Some ?k)) (rows (t i)))" using facts(2) n that by simp
        then show ?thesis by simp
      qed
      ultimately show ?thesis using IH(3) that(1) more(2) by auto
    qed
    ultimately show ?thesis by auto
  qed
qed

end

end
