(* ===== verification/Credential_Store.thy ===== *)
theory Credential_Store
  imports Credentials
begin

text \<open>
  \<open>aircraft_db\<close>'s credential and authentication adapters: the rows of \<open>aircraft_auth\<close> behind the two
  ports, with the constraints the schema enforces and a possible fault at every statement. The
  schema's columns hold the digest as text; the lookup hands it over as bytes.
\<close>

subsection \<open>Driver errors\<close>

text \<open>A driver error is its SQLSTATE, if the database reported one, and its text.\<close>

type_synonym driver_error = "string option \<times> string"

definition database_code :: "driver_error \<Rightarrow> string" where
  "database_code e = (case fst e of None \<Rightarrow> ''DATABASE_ERROR'' | Some c \<Rightarrow> ''DATABASE_'' @ c)"

definition sanitize_database_message :: "string \<Rightarrow> string" where
  "sanitize_database_message message = bounded_printable 1000 message"

definition database_error :: "driver_error \<Rightarrow> PersistenceError" where
  "database_error e = Database (database_code e) (sanitize_database_message (snd e))"

definition redacted_database_error :: "string \<Rightarrow> driver_error \<Rightarrow> PersistenceError" where
  "redacted_database_error operation e =
     Database (database_code e)
       (operation @ '': '' @ sanitize_database_message (redact_digest_runs (snd e)))"

definition credential_database_error :: "driver_error \<Rightarrow> PersistenceError" where
  "credential_database_error = redacted_database_error ''credential insert''"

definition lookup_database_error :: "driver_error \<Rightarrow> PersistenceError" where
  "lookup_database_error = redacted_database_error ''credential lookup''"

subsection \<open>Rows\<close>

record 'k credential_row =
  row_key_id :: 'k
  row_principal_id :: int
  row_secret_digest :: string
  row_label :: string
  row_created_at :: int
  row_revoked :: bool

record principal_row =
  prin_id :: int
  prin_disabled :: bool
  prin_tier :: string
  prin_scope_codes :: "string list"

record 'k auth_store =
  credential_rows :: "'k credential_row list"
  principal_rows :: "principal_row list"

datatype auth_call = BeginInsert | InsertCredential | DecodeInserted | CommitInsert | SelectCredential | DecodeSelected

record auth_env =
  auth_fault :: "auth_call \<Rightarrow> driver_error option"
  auth_applied :: bool
  constraint_text :: string
  auth_now :: int

text \<open>PostgreSQL's \<open>decode(_, 'hex')\<close> on the digits the column admits.\<close>

definition hex_value :: "char \<Rightarrow> nat" where
  "hex_value c = (if is_ascii_digit c then byte c - 48 else byte c - 87)"

fun decode_hex :: "string \<Rightarrow> string" where
  "decode_hex (a # b # s) = char_of (hex_value a * 16 + hex_value b) # decode_hex s"
| "decode_hex _ = []"

subsection \<open>Issuing\<close>

definition insert_row :: "auth_env \<Rightarrow> 'k NewCredential \<Rightarrow> 'k credential_row" where
  "insert_row E c =
     \<lparr> row_key_id = nc_key_id c, row_principal_id = nc_principal_id c,
       row_secret_digest = hex_digest (nc_verifier c), row_label = nc_label c,
       row_created_at = auth_now E, row_revoked = False \<rparr>"

text \<open>The \<open>INSERT\<close> against the primary key, the unique digest and the foreign key.\<close>

definition insert_credential ::
  "auth_env \<Rightarrow> 'k auth_store \<Rightarrow> 'k NewCredential \<Rightarrow> driver_error + 'k auth_store" where
  "insert_credential E st c =
     (case auth_fault E InsertCredential of
        Some e \<Rightarrow> Inl e
      | None \<Rightarrow>
          if list_ex (\<lambda>r. row_key_id r = nc_key_id c \<or> row_secret_digest r = hex_digest (nc_verifier c))
               (credential_rows st)
          then Inl (Some ''23505'', constraint_text E)
          else if \<not> list_ex (\<lambda>p. prin_id p = nc_principal_id c) (principal_rows st)
          then Inl (Some ''23503'', constraint_text E)
          else Inr (st \<lparr> credential_rows := credential_rows st @ [insert_row E c] \<rparr>))"

definition persist_credential ::
  "auth_env \<Rightarrow> 'k auth_store \<Rightarrow> 'k NewCredential \<Rightarrow>
     'k auth_store \<times> (PersistenceError + 'k CredentialRecord)" where
  "persist_credential E st c =
     (case auth_fault E BeginInsert of Some e \<Rightarrow> (st, Inl (credential_database_error e)) | None \<Rightarrow>
     (case insert_credential E st c of Inl e \<Rightarrow> (st, Inl (credential_database_error e)) | Inr st' \<Rightarrow>
     (case auth_fault E DecodeInserted of Some e \<Rightarrow> (st, Inl (credential_database_error e)) | None \<Rightarrow>
     (case auth_fault E CommitInsert of
        Some e \<Rightarrow> (if auth_applied E then st' else st, Inl (credential_database_error e))
      | None \<Rightarrow> (st', Inr
          \<lparr> cr_key_id = nc_key_id c, cr_principal_id = nc_principal_id c, cr_label = nc_label c,
            cr_created_at = auth_now E, cr_updated_at = auth_now E \<rparr>)))))"

subsection \<open>Looking up\<close>

definition DIGEST_NOT_32_BYTES :: string where
  "DIGEST_NOT_32_BYTES = ''stored credential digest is not 32 bytes''"

definition SCOPE_OUTSIDE_VOCABULARY :: string where
  "SCOPE_OUTSIDE_VOCABULARY = ''granted scope is outside the closed vocabulary''"

definition lookup_record_from_row ::
  "auth_env \<Rightarrow> 'k credential_row \<times> principal_row \<Rightarrow> PersistenceError + CredentialLookupRecord" where
  "lookup_record_from_row E = (\<lambda>(c, p).
     case auth_fault E DecodeSelected of Some e \<Rightarrow> Inl (lookup_database_error e) | None \<Rightarrow>
     (let digest = decode_hex (row_secret_digest c) in
      if length digest \<noteq> 32 then Inl (Invariant DIGEST_NOT_32_BYTES)
      else (case collect_results (map Scope_try_from (prin_scope_codes p)) of
              Inl _ \<Rightarrow> Inl (Invariant SCOPE_OUTSIDE_VOCABULARY)
            | Inr scopes \<Rightarrow> Inr
                \<lparr> lr_verifier = digest, lr_revoked = row_revoked c, lr_disabled = prin_disabled p,
                  lr_principal_id = prin_id p, lr_scopes = scopes, lr_tier = prin_tier p \<rparr>)))"

definition select_credential :: "'k auth_store \<Rightarrow> 'k \<Rightarrow> ('k credential_row \<times> principal_row) option" where
  "select_credential st k =
     (case List.find (\<lambda>c. row_key_id c = k) (credential_rows st) of
        None \<Rightarrow> None
      | Some c \<Rightarrow> map_option (Pair c) (List.find (\<lambda>p. prin_id p = row_principal_id c) (principal_rows st)))"

definition resolve_credential ::
  "auth_env \<Rightarrow> 'k auth_store \<Rightarrow> 'k \<Rightarrow> PersistenceError + CredentialLookupRecord option" where
  "resolve_credential E st k =
     (case auth_fault E SelectCredential of
        Some e \<Rightarrow> Inl (lookup_database_error e)
      | None \<Rightarrow>
          (case select_credential st k of
             None \<Rightarrow> Inr None
           | Some row \<Rightarrow> map_sum id Some (lookup_record_from_row E row)))"

subsection \<open>The rows as credentials\<close>

definition stored_credential :: "'k credential_row \<Rightarrow> 'k NewCredential" where
  "stored_credential r =
     \<lparr> nc_key_id = row_key_id r, nc_principal_id = row_principal_id r,
       nc_verifier = decode_hex (row_secret_digest r), nc_label = row_label r \<rparr>"

definition stored_credentials :: "'k auth_store \<Rightarrow> 'k NewCredential list" where
  "stored_credentials st = map stored_credential (credential_rows st)"

lemma hex_value_table: "n < 16 \<Longrightarrow> hex_value (hex_table ! n) = n"
proof -
  have "list_all (\<lambda>n. hex_value (hex_table ! n) = n) [0..<16]" by code_simp
  then show "n < 16 \<Longrightarrow> hex_value (hex_table ! n) = n" by (auto simp: list_all_iff)
qed

lemma decode_hex_digest [simp]: "decode_hex (hex_digest bytes) = bytes"
proof (induction bytes)
  case (Cons c bytes)
  have "byte c div 16 < 16" using byte_less_256 [of c] by linarith
  then have "char_of (hex_value (hex_table ! (byte c div 16)) * 16 + hex_value (hex_table ! (byte c mod 16))) = c"
    by (simp add: hex_value_table)
  with Cons show ?case by (simp add: hex_digest_def hex_byte_def)
qed (simp add: hex_digest_def)

lemma stored_insert_row [simp]: "stored_credential (insert_row E c) = c"
  by (simp add: stored_credential_def insert_row_def)

lemma insert_credential_Inr:
  "insert_credential E st c = Inr st' \<Longrightarrow>
     st' = st \<lparr> credential_rows := credential_rows st @ [insert_row E c] \<rparr> \<and>
     (\<forall>r \<in> set (credential_rows st). row_key_id r \<noteq> nc_key_id c) \<and>
     (\<exists>p \<in> set (principal_rows st). prin_id p = nc_principal_id c)"
  by (auto simp: insert_credential_def list_ex_iff split: option.splits if_splits)

lemma stored_after_insert:
  "insert_credential E st c = Inr st' \<Longrightarrow> stored_credentials st' = stored_credentials st @ [c]"
  by (auto simp: stored_credentials_def dest: insert_credential_Inr)

interpretation sql: credential_directory "persist_credential E" stored_credentials "resolve_credential E'" for E E'
proof
  fix st c st' r
  assume "persist_credential E st c = (st', Inr r)"
  then show "stored_credentials st' = stored_credentials st @ [c] \<and>
      cr_key_id r = nc_key_id c \<and> cr_principal_id r = nc_principal_id c \<and> cr_label r = nc_label c"
    by (auto simp: persist_credential_def stored_after_insert split: option.splits sum.splits)
next
  fix st c st' e
  assume "persist_credential E st c = (st', Inl e)"
  then show "stored_credentials st' = stored_credentials st \<or> stored_credentials st' = stored_credentials st @ [c]"
    by (auto simp: persist_credential_def stored_after_insert split: option.splits sum.splits if_splits)
next
  fix st k r
  assume "resolve_credential E' st k = Inr (Some r)"
  then obtain c p where find: "List.find (\<lambda>c. row_key_id c = k) (credential_rows st) = Some c"
    "List.find (\<lambda>p. prin_id p = row_principal_id c) (principal_rows st) = Some p"
    and r: "lookup_record_from_row E' (c, p) = Inr r"
    by (auto simp: resolve_credential_def select_credential_def map_sum_def split: option.splits sum.splits)
  then have "c \<in> set (credential_rows st)" "row_key_id c = k" "prin_id p = row_principal_id c"
    by (auto dest: find_Some_key)
  moreover have "lr_verifier r = decode_hex (row_secret_digest c)" "lr_principal_id r = prin_id p"
    using r by (auto simp: lookup_record_from_row_def Let_def split: option.splits if_splits sum.splits)
  ultimately show "\<exists>c \<in> set (stored_credentials st). nc_key_id c = k \<and> nc_verifier c = lr_verifier r \<and>
      nc_principal_id c = lr_principal_id r"
    by (auto simp: stored_credentials_def stored_credential_def)
qed

subsection \<open>Issuing is all or nothing\<close>

text \<open>
  an issuance, whatever statement fails, either stores exactly one credential, whose digest is that
  of the clear token it returns, or refuses; a refusal leaves the rows alone, except that a
  commit whose reply was lost may have stored the row. Principals are never changed.
\<close>

theorem issue_all_or_nothing:
  assumes "issue L entropy (persist_credential E) st req = (st', res)"
  shows "principal_rows st' = principal_rows st \<and>
     (case res of
        Inr issued \<Rightarrow> stored_credentials st' = stored_credentials st @
          [\<lparr> nc_key_id = cr_key_id (is_record issued), nc_principal_id = ic_principal_id req,
             nc_verifier = cl_sha256 L (is_clear issued), nc_label = ic_label req \<rparr>]
      | Inl e \<Rightarrow> stored_credentials st' = stored_credentials st \<or>
          auth_fault E CommitInsert \<noteq> None \<and> auth_applied E \<and>
          (\<exists>c. stored_credentials st' = stored_credentials st @ [c]))"
proof -
  have "principal_rows (fst (persist_credential E st c)) = principal_rows st" for c
    by (auto simp: persist_credential_def split: option.splits sum.splits dest!: insert_credential_Inr)
  with assms have same: "principal_rows st' = principal_rows st"
    by (auto simp: issue_def Let_def split: sum.splits prod.splits) (metis fst_conv)+
  show ?thesis
  proof (cases res)
    case (Inr issued)
    with sql.issue_ok [of L entropy E st req st' issued] assms same show ?thesis
      by (auto simp: of_token_def)
  next
    case (Inl e)
    have "credential_rows (fst (persist_credential E st c)) = credential_rows st"
      if "auth_fault E CommitInsert = None \<or> \<not> auth_applied E" "\<exists>e. snd (persist_credential E st c) = Inl e" for c
      using that by (auto simp: persist_credential_def split: option.splits sum.splits if_splits)
    with assms Inl have unchanged: "stored_credentials st' = stored_credentials st"
      if "auth_fault E CommitInsert = None \<or> \<not> auth_applied E"
      using that by (auto simp: issue_def Let_def stored_credentials_def split: sum.splits prod.splits) (metis fst_conv snd_conv)+
    have "stored_credentials st' = stored_credentials st \<or> (\<exists>c. stored_credentials st' = stored_credentials st @ [c])"
      using sql.issue_failed [of L entropy E st req st' e] assms Inl by blast
    then show ?thesis using Inl same unchanged
      by (cases "auth_fault E CommitInsert = None \<or> \<not> auth_applied E") (auto simp del: not_None_eq)
  qed
qed

definition sample_auth_env :: auth_env where
  "sample_auth_env = \<lparr> auth_fault = (\<lambda>_. None), auth_applied = True, constraint_text = [], auth_now = 0 \<rparr>"

definition sample_auth_store :: "bool auth_store" where
  "sample_auth_store = \<lparr> credential_rows = [],
     principal_rows = [\<lparr> prin_id = 7, prin_disabled = False, prin_tier = ''DEFAULT'',
       prin_scope_codes = [''CATALOG_READ'', ''CURATION_READ''] \<rparr>] \<rparr>"

definition sample_entropy :: "nat \<Rightarrow> nat \<Rightarrow> string + string" where
  "sample_entropy i n = Inr (replicate n (CHR ''x''))"

definition sample_issue_request :: IssueCredential where
  "sample_issue_request = \<lparr> ic_principal_id = 7, ic_label = ''ci'' \<rparr>"

lemma sample_issue:
  "\<exists>st' issued. issue sample_cred_libs sample_entropy (persist_credential sample_auth_env) sample_auth_store
     sample_issue_request = (st', Inr issued)"
  by (simp add: issue_def sample_entropy_def persist_credential_def insert_credential_def sample_auth_env_def
      sample_auth_store_def sample_issue_request_def Let_def)

lemma issue_all_or_nothing_witness:
  "\<exists>(st' :: bool auth_store) (issued :: bool IssuedCredential). stored_credentials st' =
     [\<lparr> nc_key_id = cr_key_id (is_record issued), nc_principal_id = 7,
        nc_verifier = cl_sha256 sample_cred_libs (is_clear issued), nc_label = ''ci'' \<rparr>]"
proof -
  obtain st' issued where "issue sample_cred_libs sample_entropy (persist_credential sample_auth_env)
      sample_auth_store sample_issue_request = (st', Inr issued)"
    using sample_issue by blast
  moreover have "stored_credentials sample_auth_store = []"
    by (simp add: sample_auth_store_def stored_credentials_def)
  ultimately have "stored_credentials st' = [\<lparr> nc_key_id = cr_key_id (is_record issued), nc_principal_id = 7,
      nc_verifier = cl_sha256 sample_cred_libs (is_clear issued), nc_label = ''ci'' \<rparr>]"
    using issue_all_or_nothing [of sample_cred_libs sample_entropy sample_auth_env sample_auth_store
        sample_issue_request st' "Inr issued"]
    by (simp add: sample_issue_request_def)
  then show ?thesis by blast
qed

subsection \<open>A credential that was issued authenticates\<close>

definition lookup_works :: "auth_env \<Rightarrow> bool" where
  "lookup_works E \<longleftrightarrow> auth_fault E SelectCredential = None \<and> auth_fault E DecodeSelected = None"

lemma find_append_Some:
  "(\<forall>x \<in> set xs. \<not> P x) \<Longrightarrow> P y \<Longrightarrow> List.find P (xs @ [y]) = Some y"
  by (induction xs) auto

lemma resolve_selected:
  assumes "lookup_works E" and "select_credential st k = Some (c, p)"
    and "length (decode_hex (row_secret_digest c)) = 32"
    and "collect_results (map Scope_try_from (prin_scope_codes p)) = Inr scopes"
  shows "resolve_credential E st k = Inr (Some \<lparr> lr_verifier = decode_hex (row_secret_digest c),
     lr_revoked = row_revoked c, lr_disabled = prin_disabled p, lr_principal_id = prin_id p,
     lr_scopes = scopes, lr_tier = prin_tier p \<rparr>)"
  using assms by (simp add: resolve_credential_def lookup_works_def lookup_record_from_row_def Let_def)

lemma accepted_after_issue:
  assumes "cred_libs_ok L" and "issue L entropy (persist_credential E) st req = (st', Inr issued)"
    and "\<forall>i n bytes. entropy i n = Inr bytes \<longrightarrow> length bytes = n"
    and "lookup_works E'"
    and "List.find (\<lambda>p. prin_id p = ic_principal_id req) (principal_rows st) = Some p"
    and "\<not> prin_disabled p" and "collect_results (map Scope_try_from (prin_scope_codes p)) = Inr scopes"
  shows "\<exists>candidate. CredentialCandidate_parse L (is_clear issued) = Inr candidate \<and>
     authenticate_candidate L (resolve_credential E' st') candidate =
       Inr \<lparr> ap_principal_id = ic_principal_id req, ap_scopes = scopes, ap_tier = prin_tier p \<rparr>"
proof -
  obtain key secret r where key: "entropy 0 KEY_ID_BYTES = Inr key" "entropy 1 SECRET_BYTES = Inr secret"
    and persist: "persist_credential E st \<lparr> nc_key_id = cm_key_id (build L key secret),
        nc_principal_id = ic_principal_id req, nc_verifier = cm_verifier (build L key secret),
        nc_label = ic_label req \<rparr> = (st', Inr r)"
    and clear: "is_clear issued = cm_clear (build L key secret)"
    using assms(2) by (auto simp: issue_def Let_def split: sum.splits prod.splits)
  let ?m = "build L key secret"
  let ?c = "\<lparr> nc_key_id = cm_key_id ?m, nc_principal_id = ic_principal_id req,
      nc_verifier = cm_verifier ?m, nc_label = ic_label req \<rparr>"
  have ins: "insert_credential E st ?c = Inr st'"
    using persist by (auto simp: persist_credential_def split: option.splits sum.splits)
  note inserted = insert_credential_Inr [OF ins]
  have parse: "CredentialCandidate_parse L (is_clear issued) =
      Inr \<lparr> cc_key_id = cm_key_id ?m, cc_verifier = cm_verifier ?m \<rparr>"
    unfolding clear by (rule built_token_parsed [OF assms(1)]) (use key assms(3) in blast)
  have "List.find (\<lambda>c. row_key_id c = cm_key_id ?m) (credential_rows st') = Some (insert_row E ?c)"
    using inserted by (auto intro!: find_append_Some simp: insert_row_def)
  then have sel: "select_credential st' (cm_key_id ?m) = Some (insert_row E ?c, p)"
    using inserted assms(5) by (simp add: select_credential_def insert_row_def)
  have len: "length (cm_verifier ?m) = 32"
    using assms(1) by (simp add: build_def of_token_def cred_libs_ok_def Let_def)
  have row: "decode_hex (row_secret_digest (insert_row E ?c)) = cm_verifier ?m" "\<not> row_revoked (insert_row E ?c)"
    by (simp_all add: insert_row_def)
  have "resolve_credential E' st' (cm_key_id ?m) = Inr (Some \<lparr> lr_verifier = cm_verifier ?m,
      lr_revoked = False, lr_disabled = False, lr_principal_id = prin_id p, lr_scopes = scopes,
      lr_tier = prin_tier p \<rparr>)"
    using resolve_selected [OF assms(4) sel _ assms(7)] len row assms(6) by simp
  moreover have "ct_eq L x x" for x using assms(1) by (simp add: cred_libs_ok_def)
  moreover have "prin_id p = ic_principal_id req" using assms(5) find_Some_key by fastforce
  ultimately show ?thesis using parse by (simp add: authenticate_candidate_def)
qed

text \<open>
  C23: a credential that was issued is accepted: the clear token returned by an issuance parses, and
  while its principal is enabled and its grants are known scopes, verifying it against the store
  returns that principal with its scopes and tier.
\<close>

theorem issue_then_authenticate:
  assumes "cred_libs_ok L" and "issue L entropy (persist_credential E) st req = (st', Inr issued)"
    and "\<forall>i n bytes. entropy i n = Inr bytes \<longrightarrow> length bytes = n"
    and "lookup_works E'"
    and "List.find (\<lambda>p. prin_id p = ic_principal_id req) (principal_rows st) = Some p"
    and "\<not> prin_disabled p" and "collect_results (map Scope_try_from (prin_scope_codes p)) = Inr scopes"
  shows "\<exists>candidate. CredentialCandidate_parse L (is_clear issued) = Inr candidate \<and>
     authenticate_candidate L (resolve_credential E' st') candidate =
       Inr \<lparr> ap_principal_id = ic_principal_id req, ap_scopes = scopes, ap_tier = prin_tier p \<rparr>"
  using accepted_after_issue [OF assms] .

lemma issue_then_authenticate_witness:
  "\<exists>st' token candidate. CredentialCandidate_parse sample_cred_libs token = Inr candidate \<and>
     authenticate_candidate sample_cred_libs (resolve_credential sample_auth_env st') candidate =
       Inr \<lparr> ap_principal_id = 7, ap_scopes = [CatalogRead, CurationRead], ap_tier = ''DEFAULT'' \<rparr>"
proof -
  obtain st' issued where "issue sample_cred_libs sample_entropy (persist_credential sample_auth_env)
      sample_auth_store sample_issue_request = (st', Inr issued)"
    using sample_issue by blast
  from issue_then_authenticate [OF sample_cred_libs_ok this, of sample_auth_env _ "[CatalogRead, CurationRead]"]
  show ?thesis
    by (fastforce simp: sample_entropy_def lookup_works_def sample_auth_env_def sample_auth_store_def
        sample_issue_request_def Scope_try_from_def lookup_code_def Scope_ALL_def)
qed

subsection \<open>Only what was issued authenticates\<close>

text \<open>
  Stores whose credentials all come from issuances, under any faults and entropy, with the tokens
  those issuances built.
\<close>

inductive issued_store :: "'k cred_libs \<Rightarrow> (string \<times> int) list \<Rightarrow> 'k auth_store \<Rightarrow> bool" for L where
  no_credentials: "credential_rows st = [] \<Longrightarrow> issued_store L [] st"
| after_issue: "issued_store L ts st \<Longrightarrow>
    issue L entropy (persist_credential E) st req = (st', res) \<Longrightarrow>
    issued_store L (drawn_tokens L entropy req @ ts) st'"

lemma issued_store_verifiers:
  "issued_store L ts st \<Longrightarrow> c \<in> set (stored_credentials st) \<Longrightarrow>
     \<exists>t. (t, nc_principal_id c) \<in> set ts \<and> nc_verifier c = cl_sha256 L t"
proof (induction arbitrary: c rule: issued_store.induct)
  case (after_issue ts st entropy E req st' res)
  from sql.issue_adds_drawn [OF after_issue(2)] obtain cs where
    cs: "stored_credentials st' = stored_credentials st @ cs"
      "\<forall>c \<in> set cs. \<exists>t. (t, nc_principal_id c) \<in> set (drawn_tokens L entropy req) \<and> nc_verifier c = of_token L t"
    by blast
  show ?case
  proof (cases "c \<in> set cs")
    case True
    with cs(2) show ?thesis unfolding of_token_def by auto
  next
    case False
    with cs(1) after_issue(4) have "c \<in> set (stored_credentials st)" by auto
    from after_issue(3) [OF this] show ?thesis by auto
  qed
qed (simp add: stored_credentials_def)

text \<open>The stored credential behind an accepted token.\<close>

lemma accepted_token_was_drawn:
  assumes "cred_libs_ok L" and "issued_store L ts st"
    and "CredentialCandidate_parse L token = Inr candidate"
    and "authenticate_candidate L (resolve_credential E st) candidate = Inr who"
  shows "\<exists>t. (t, ap_principal_id who) \<in> set ts \<and> cl_sha256 L token = cl_sha256 L t"
proof -
  have eq: "\<forall>a b. ct_eq L a b \<longleftrightarrow> a = b" using assms(1) by (simp add: cred_libs_ok_def)
  have verifier: "cc_verifier candidate = cl_sha256 L token"
    using assms(3) by (auto simp: CredentialCandidate_parse_def of_token_def split: if_splits list.splits option.splits)
  from sql.authenticated_was_stored [OF eq assms(4)] obtain c where c: "c \<in> set (stored_credentials st)"
    "nc_verifier c = cc_verifier candidate" "nc_principal_id c = ap_principal_id who" by blast
  from issued_store_verifiers [OF assms(2) c(1)] c verifier show ?thesis by auto
qed

text \<open>
  C5: a presented token is only accepted, as some principal, if its SHA-256 is that of a token one of the
  store's own issuances built for that principal: forging one means finding a collision.
\<close>

theorem only_issued_tokens_authenticate:
  assumes "cred_libs_ok L" and "issued_store L ts st"
    and "CredentialCandidate_parse L token = Inr candidate"
    and "authenticate_candidate L (resolve_credential E st) candidate = Inr who"
  shows "\<exists>t. (t, ap_principal_id who) \<in> set ts \<and> cl_sha256 L token = cl_sha256 L t"
  using assms by (rule accepted_token_was_drawn)

lemma only_issued_tokens_authenticate_witness:
  "\<exists>token t who. (t, ap_principal_id (who :: AuthenticatedPrincipal)) \<in>
       set (drawn_tokens sample_cred_libs sample_entropy sample_issue_request) \<and>
     cl_sha256 sample_cred_libs token = cl_sha256 sample_cred_libs t"
proof -
  obtain st' issued where issued: "issue sample_cred_libs sample_entropy (persist_credential sample_auth_env)
      sample_auth_store sample_issue_request = (st', Inr issued)"
    using sample_issue by blast
  have "issued_store sample_cred_libs [] sample_auth_store"
    by (rule issued_store.no_credentials) (simp add: sample_auth_store_def)
  then have store: "issued_store sample_cred_libs (drawn_tokens sample_cred_libs sample_entropy sample_issue_request) st'"
    using issued_store.after_issue [OF _ issued] by fastforce
  have known: "collect_results (map Scope_try_from [''CATALOG_READ'', ''CURATION_READ'']) =
      Inr [CatalogRead, CurationRead]"
    by (simp add: Scope_try_from_def lookup_code_def Scope_ALL_def)
  obtain candidate p where "CredentialCandidate_parse sample_cred_libs (is_clear issued) = Inr candidate"
    "authenticate_candidate sample_cred_libs (resolve_credential sample_auth_env st') candidate = Inr p"
    using accepted_after_issue [OF sample_cred_libs_ok issued, of sample_auth_env _ "[CatalogRead, CurationRead]"] known
    by (fastforce simp: sample_entropy_def lookup_works_def sample_auth_env_def sample_auth_store_def
        sample_issue_request_def)
  from only_issued_tokens_authenticate [OF sample_cred_libs_ok store this] show ?thesis by blast
qed

subsection \<open>Exactly what authenticates\<close>

text \<open>
  verification accepts a candidate exactly when its key has a row whose digest equals the
  candidate's, not revoked, of a principal that is not disabled and holds only known scopes; it
  then returns that principal. Every other state is the same rejection or a reported defect.
\<close>

theorem authenticate_accepts_iff:
  assumes "cred_libs_ok L" and "lookup_works E"
  shows "authenticate_candidate L (resolve_credential E st) candidate = Inr who \<longleftrightarrow>
     (\<exists>c p scopes. select_credential st (cc_key_id candidate) = Some (c, p) \<and>
        decode_hex (row_secret_digest c) = cc_verifier candidate \<and> length (cc_verifier candidate) = 32 \<and>
        \<not> row_revoked c \<and> \<not> prin_disabled p \<and>
        collect_results (map Scope_try_from (prin_scope_codes p)) = Inr scopes \<and>
        who = \<lparr> ap_principal_id = prin_id p, ap_scopes = scopes, ap_tier = prin_tier p \<rparr>)"
proof (cases "select_credential st (cc_key_id candidate)")
  case None
  with assms(2) show ?thesis
    by (simp add: authenticate_candidate_def resolve_credential_def lookup_works_def)
next
  case (Some row)
  obtain c p where row: "row = (c, p)" by fastforce
  have eq: "ct_eq L a b \<longleftrightarrow> a = b" for a b using assms(1) by (simp add: cred_libs_ok_def)
  show ?thesis
  proof (cases "\<exists>scopes. collect_results (map Scope_try_from (prin_scope_codes p)) = Inr scopes")
    case True
    then obtain scopes where "collect_results (map Scope_try_from (prin_scope_codes p)) = Inr scopes" ..
    with assms(2) Some row show ?thesis
      by (auto simp: authenticate_candidate_def resolve_credential_def lookup_works_def
          lookup_record_from_row_def Let_def eq)
  next
    case False
    then obtain e where "collect_results (map Scope_try_from (prin_scope_codes p)) = Inl e"
      by (cases "collect_results (map Scope_try_from (prin_scope_codes p))") auto
    with assms(2) Some row show ?thesis
      by (auto simp: authenticate_candidate_def resolve_credential_def lookup_works_def
          lookup_record_from_row_def Let_def)
  qed
qed

lemma authenticate_accepts_iff_witness:
  "authenticate_candidate sample_cred_libs
     (resolve_credential sample_auth_env (sample_auth_store
        \<lparr> credential_rows := [\<lparr> row_key_id = True, row_principal_id = 7,
            row_secret_digest = hex_digest (replicate 32 (CHR ''d'')), row_label = ''ci'',
            row_created_at = 0, row_revoked = False \<rparr>] \<rparr>))
     \<lparr> cc_key_id = True, cc_verifier = replicate 32 (CHR ''d'') \<rparr> =
   Inr \<lparr> ap_principal_id = 7, ap_scopes = [CatalogRead, CurationRead], ap_tier = ''DEFAULT'' \<rparr>"
proof -
  have "lookup_works sample_auth_env" by (simp add: lookup_works_def sample_auth_env_def)
  from authenticate_accepts_iff [OF sample_cred_libs_ok this] show ?thesis
    by (simp add: select_credential_def sample_auth_store_def Scope_try_from_def lookup_code_def Scope_ALL_def)
qed

end
