(* ===== verification/Catalog_Readers.thy ===== *)
theory Catalog_Readers
  imports Keyset Credential_Store
begin

text \<open>
  \<open>aircraft_db\<close>'s \<open>model_repository\<close>, \<open>family_repository\<close> and \<open>reference_repository\<close> over tables held as
  lists of rows. \<open>rank\<close> is the database's collation as a sort key; a fault is what a driver call
  reports instead of its result.
\<close>

subsection \<open>Tables\<close>

record model_row =
  mr_slug :: string
  mr_name :: string
  mr_display_name :: "string option"
  mr_family_id :: int
  mr_series :: "string option"
  mr_generation :: "int option"
  mr_first_flight_year :: "int option"
  mr_certification_year :: "int option"
  mr_name_aliases :: "string list option"
  mr_description :: "string option"

record family_row =
  fr_id :: int
  fr_slug :: string
  fr_name :: string
  fr_common_name :: "string option"
  fr_manufacturer_org_id :: "int option"
  fr_country :: "string option"
  fr_first_flight_year :: "int option"
  fr_name_aliases :: "string list option"
  fr_description :: "string option"

record organization_row =
  or_id :: int
  or_slug :: string

record lookup_row =
  lk_code :: string
  lk_label :: string
  lk_description :: "string option"
  lk_sort_order :: int
  lk_is_active :: bool

record catalog_tables =
  models :: "model_row list"
  families :: "family_row list"
  organizations :: "organization_row list"
  lookups :: "Catalog \<Rightarrow> lookup_row list"

datatype read_call = Fetch | Column string

type_synonym read_faults = "read_call \<Rightarrow> driver_error option"

definition no_read_faults :: read_faults where "no_read_faults = (\<lambda>_. None)"

definition guarded_read :: "read_faults \<Rightarrow> read_call \<Rightarrow> 'a \<Rightarrow> PersistenceError + 'a" where
  "guarded_read F c v = (case F c of Some e \<Rightarrow> Inl (database_error e) | None \<Rightarrow> Inr v)"

lemma guarded_read_no_faults [simp]: "guarded_read no_read_faults c v = Inr v"
  by (simp add: guarded_read_def no_read_faults_def)

text \<open>\<open>try_get\<close> on a column.\<close>

abbreviation column :: "read_faults \<Rightarrow> string \<Rightarrow> 'a \<Rightarrow> PersistenceError + 'a" where
  "column F name v \<equiv> guarded_read F (Column name) v"

definition unrepresentable :: "string \<Rightarrow> PersistenceError" where
  "unrepresentable name = Invariant (name @ '' holds a value the catalog contract cannot represent'')"

text \<open>\<open>Option::map(..).transpose()\<close>.\<close>

definition traverse_option :: "('a \<Rightarrow> 'e + 'b) \<Rightarrow> 'a option \<Rightarrow> 'e + 'b option" where
  "traverse_option f v = (case v of None \<Rightarrow> Inr None | Some a \<Rightarrow> map_sum id Some (f a))"

definition slug_of_column :: "string \<Rightarrow> string \<Rightarrow> PersistenceError + Slug" where
  "slug_of_column name value = map_err (\<lambda>_. unrepresentable name) (Slug_try_from value)"

text \<open>\<open>ORDER BY slug LIMIT n\<close> and the resume predicate \<open>slug > after\<close>.\<close>

definition ordered_page :: "(string \<Rightarrow> 'o::linorder) \<Rightarrow> ('r \<Rightarrow> string) \<Rightarrow> Slug option \<Rightarrow> nat \<Rightarrow> 'r list \<Rightarrow> 'r list" where
  "ordered_page rank slug after n rs =
     take n (sort_key (\<lambda>r. rank (slug r))
       (filter (\<lambda>r. case after of None \<Rightarrow> True | Some s \<Rightarrow> rank (slug_text s) < rank (slug r)) rs))"

subsection \<open>Models\<close>

record ModelSummary =
  ms_slug :: Slug
  ms_name :: string
  ms_display_name :: "string option"
  ms_family :: Slug
  ms_series :: "string option"
  ms_generation :: "int option"
  ms_first_flight_year :: "int option"
  ms_certification_year :: "int option"

record ModelDetail =
  md_summary :: ModelSummary
  md_name_aliases :: "string list"
  md_description :: "string option"

record ModelFilter =
  mf_family :: "FamilyId option"

text \<open>The \<open>LEFT JOIN\<close> on the parent family.\<close>

definition family_slug :: "catalog_tables \<Rightarrow> model_row \<Rightarrow> string option" where
  "family_slug T m = map_option fr_slug (List.find (\<lambda>f. fr_id f = mr_family_id m) (families T))"

definition model_summary :: "read_faults \<Rightarrow> catalog_tables \<Rightarrow> model_row \<Rightarrow> PersistenceError + ModelSummary" where
  "model_summary F T m =
     and_then (column F ''slug'' (mr_slug m)) (\<lambda>slug.
     and_then (column F ''family'' (family_slug T m)) (\<lambda>family.
     and_then (slug_of_column ''aircraft_core.models.slug'' slug) (\<lambda>slug.
     and_then (column F ''name'' (mr_name m)) (\<lambda>name.
     and_then (column F ''display_name'' (mr_display_name m)) (\<lambda>display_name.
     and_then (ok_or (unrepresentable ''aircraft_core.models.family_id'') family) (\<lambda>family.
     and_then (slug_of_column ''aircraft_core.families.slug'' family) (\<lambda>family.
     and_then (column F ''series'' (mr_series m)) (\<lambda>series.
     and_then (column F ''generation'' (mr_generation m)) (\<lambda>generation.
     and_then (column F ''first_flight_year'' (mr_first_flight_year m)) (\<lambda>first_flight_year.
     and_then (column F ''certification_year'' (mr_certification_year m)) (\<lambda>certification_year.
       Inr \<lparr> ms_slug = slug, ms_name = name, ms_display_name = display_name, ms_family = family,
             ms_series = series, ms_generation = generation, ms_first_flight_year = first_flight_year,
             ms_certification_year = certification_year \<rparr>)))))))))))"

definition select_models ::
  "(string \<Rightarrow> 'o::linorder) \<Rightarrow> catalog_tables \<Rightarrow> int option \<Rightarrow> Slug option \<Rightarrow> nat \<Rightarrow> model_row list" where
  "select_models rank T family after n =
     ordered_page rank mr_slug after n
       (filter (\<lambda>m. case family of None \<Rightarrow> True | Some f \<Rightarrow> mr_family_id m = f) (models T))"

definition list_models ::
  "(string \<Rightarrow> 'o::linorder) \<Rightarrow> read_faults \<Rightarrow> ModelFilter \<Rightarrow> catalog_tables \<Rightarrow> PageLimit \<Rightarrow> Slug option \<Rightarrow>
     PersistenceError + (ModelSummary, Slug) Page" where
  "list_models rank F flt T limit after =
     and_then (guarded_read F Fetch
         (select_models rank T (map_option family_key (mf_family flt)) after (query_size limit))) (\<lambda>rows.
     and_then (collect_results (map (model_summary F T) rows)) (\<lambda>summaries.
       Inr (from_overfetched summaries limit ms_slug)))"

definition find_model :: "read_faults \<Rightarrow> catalog_tables \<Rightarrow> Slug \<Rightarrow> PersistenceError + ModelDetail option" where
  "find_model F T slug =
     and_then (guarded_read F Fetch (List.find (\<lambda>m. mr_slug m = slug_text slug) (models T))) (\<lambda>row.
       case row of
         None \<Rightarrow> Inr None
       | Some m \<Rightarrow>
           and_then (column F ''name_aliases'' (mr_name_aliases m)) (\<lambda>aliases.
           and_then (model_summary F T m) (\<lambda>summary.
           and_then (column F ''description'' (mr_description m)) (\<lambda>description.
             Inr (Some \<lparr> md_summary = summary,
                        md_name_aliases = (case aliases of None \<Rightarrow> [] | Some l \<Rightarrow> l),
                        md_description = description \<rparr>)))))"

subsection \<open>Families\<close>

record FamilySummary =
  fs_slug :: Slug
  fs_name :: string
  fs_common_name :: "string option"
  fs_manufacturer :: "Slug option"
  fs_country_of_origin :: "CountryCode option"
  fs_first_flight_year :: "int option"

record FamilyDetail =
  fd_summary :: FamilySummary
  fd_name_aliases :: "string list"
  fd_description :: "string option"

record FamilyFilter =
  ff_manufacturer :: "Slug option"
  ff_country_of_origin :: "CountryCode option"

definition manufacturer_slug :: "catalog_tables \<Rightarrow> family_row \<Rightarrow> string option" where
  "manufacturer_slug T f =
     Option.bind (fr_manufacturer_org_id f) (\<lambda>org.
       map_option or_slug (List.find (\<lambda>o'. or_id o' = org) (organizations T)))"

definition family_summary :: "read_faults \<Rightarrow> catalog_tables \<Rightarrow> family_row \<Rightarrow> PersistenceError + FamilySummary" where
  "family_summary F T f =
     and_then (column F ''slug'' (fr_slug f)) (\<lambda>slug.
     and_then (column F ''manufacturer'' (manufacturer_slug T f)) (\<lambda>manufacturer.
     and_then (column F ''country_of_origin_code'' (fr_country f)) (\<lambda>country.
     and_then (slug_of_column ''aircraft_core.families.slug'' slug) (\<lambda>slug.
     and_then (column F ''name'' (fr_name f)) (\<lambda>name.
     and_then (column F ''common_name'' (fr_common_name f)) (\<lambda>common_name.
     and_then (traverse_option (slug_of_column ''aircraft_org.organizations.slug'') manufacturer) (\<lambda>manufacturer.
     and_then (traverse_option (\<lambda>value. map_err (\<lambda>_. unrepresentable ''aircraft_core.families.country_of_origin_code'')
                 (CountryCode_try_from value)) country) (\<lambda>country.
     and_then (column F ''first_flight_year'' (fr_first_flight_year f)) (\<lambda>first_flight_year.
       Inr \<lparr> fs_slug = slug, fs_name = name, fs_common_name = common_name, fs_manufacturer = manufacturer,
             fs_country_of_origin = country, fs_first_flight_year = first_flight_year \<rparr>)))))))))"

definition select_families ::
  "(string \<Rightarrow> 'o::linorder) \<Rightarrow> catalog_tables \<Rightarrow> string option \<Rightarrow> string option \<Rightarrow> Slug option \<Rightarrow> nat \<Rightarrow>
     family_row list" where
  "select_families rank T manufacturer country after n =
     ordered_page rank fr_slug after n
       (filter (\<lambda>f. (case manufacturer of None \<Rightarrow> True | Some s \<Rightarrow> manufacturer_slug T f = Some s) \<and>
                    (case country of None \<Rightarrow> True | Some c \<Rightarrow> fr_country f = Some c)) (families T))"

definition list_families ::
  "(string \<Rightarrow> 'o::linorder) \<Rightarrow> read_faults \<Rightarrow> FamilyFilter \<Rightarrow> catalog_tables \<Rightarrow> PageLimit \<Rightarrow> Slug option \<Rightarrow>
     PersistenceError + (FamilySummary, Slug) Page" where
  "list_families rank F flt T limit after =
     and_then (guarded_read F Fetch
         (select_families rank T (map_option slug_text (ff_manufacturer flt))
            (map_option country_text (ff_country_of_origin flt)) after (query_size limit))) (\<lambda>rows.
     and_then (collect_results (map (family_summary F T) rows)) (\<lambda>summaries.
       Inr (from_overfetched summaries limit fs_slug)))"

definition find_family :: "read_faults \<Rightarrow> catalog_tables \<Rightarrow> Slug \<Rightarrow> PersistenceError + FamilyDetail option" where
  "find_family F T slug =
     and_then (guarded_read F Fetch (List.find (\<lambda>f. fr_slug f = slug_text slug) (families T))) (\<lambda>row.
       case row of
         None \<Rightarrow> Inr None
       | Some f \<Rightarrow>
           and_then (column F ''name_aliases'' (fr_name_aliases f)) (\<lambda>aliases.
           and_then (family_summary F T f) (\<lambda>summary.
           and_then (column F ''description'' (fr_description f)) (\<lambda>description.
             Inr (Some \<lparr> fd_summary = summary,
                        fd_name_aliases = (case aliases of None \<Rightarrow> [] | Some l \<Rightarrow> l),
                        fd_description = description \<rparr>)))))"

definition family_id :: "read_faults \<Rightarrow> catalog_tables \<Rightarrow> Slug \<Rightarrow> PersistenceError + FamilyId option" where
  "family_id F T slug =
     and_then (guarded_read F Fetch
         (map_option fr_id (List.find (\<lambda>f. fr_slug f = slug_text slug) (families T)))) (\<lambda>found.
       Inr (map_option FamilyId found))"

subsection \<open>Reference catalogs\<close>

definition MAX_CATALOG_ROWS :: nat where "MAX_CATALOG_ROWS = 1000"

record CatalogEntry =
  ce_code :: string
  ce_label :: string
  ce_description :: "string option"

text \<open>
  The statement of a catalog: the table of that name, whether it has a description column, whether it
  filters on \<open>is_active\<close>, and whether it orders by \<open>sort_order\<close> before \<open>code\<close>.
\<close>

record catalog_statement =
  st_describes :: bool
  st_active_only :: bool
  st_sorted :: bool

definition statement :: "Catalog \<Rightarrow> catalog_statement" where
  "statement c =
     (case c of
        UnitCategories \<Rightarrow> \<lparr> st_describes = True, st_active_only = False, st_sorted = True \<rparr>
      | MeasurementUnits \<Rightarrow> \<lparr> st_describes = False, st_active_only = True, st_sorted = True \<rparr>
      | CertificationAuthorities \<Rightarrow> \<lparr> st_describes = False, st_active_only = True, st_sorted = True \<rparr>
      | Currencies \<Rightarrow> \<lparr> st_describes = False, st_active_only = True, st_sorted = False \<rparr>
      | _ \<Rightarrow> \<lparr> st_describes = True, st_active_only = True, st_sorted = True \<rparr>)"

text \<open>Sorting is stable, so ordering by the last criterion first orders lexicographically.\<close>

definition select_entries :: "(string \<Rightarrow> 'o::linorder) \<Rightarrow> catalog_statement \<Rightarrow> lookup_row list \<Rightarrow> nat \<Rightarrow> lookup_row list" where
  "select_entries rank st rs n =
     (let chosen = (if st_active_only st then filter lk_is_active rs else rs);
          by_code = sort_key (\<lambda>r. rank (lk_code r)) chosen
      in take n (if st_sorted st then sort_key lk_sort_order by_code else by_code))"

definition catalog_entry :: "read_faults \<Rightarrow> catalog_statement \<Rightarrow> lookup_row \<Rightarrow> PersistenceError + CatalogEntry" where
  "catalog_entry F st r =
     and_then (column F ''code'' (lk_code r)) (\<lambda>code.
     and_then (column F ''label'' (lk_label r)) (\<lambda>label.
     and_then (column F ''description'' (if st_describes st then lk_description r else None)) (\<lambda>description.
       Inr \<lparr> ce_code = code, ce_label = label, ce_description = description \<rparr>)))"

definition OVERSIZED_CATALOG :: "Catalog \<Rightarrow> string" where
  "OVERSIZED_CATALOG c =
     ''reference catalog '' @ Catalog_slug c @ '' holds more than '' @ show_nat MAX_CATALOG_ROWS @ '' rows''"

definition entries ::
  "(string \<Rightarrow> 'o::linorder) \<Rightarrow> read_faults \<Rightarrow> catalog_tables \<Rightarrow> Catalog \<Rightarrow> PersistenceError + CatalogEntry list" where
  "entries rank F T c =
     and_then (guarded_read F Fetch (select_entries rank (statement c) (lookups T c) (MAX_CATALOG_ROWS + 1))) (\<lambda>rows.
       if length rows > MAX_CATALOG_ROWS then Inl (Invariant (OVERSIZED_CATALOG c))
       else collect_results (map (catalog_entry F (statement c)) rows))"

subsection \<open>The readers page by key\<close>

text \<open>Tables the schema's constraints admit, read through a collation that separates the slugs.\<close>

definition valid_slug :: "string \<Rightarrow> bool" where
  "valid_slug s \<longleftrightarrow> is_ok (Slug_try_from s)"

definition models_ok :: "(string \<Rightarrow> 'o::linorder) \<Rightarrow> catalog_tables \<Rightarrow> bool" where
  "models_ok rank T \<longleftrightarrow>
     distinct (map (\<lambda>m. rank (mr_slug m)) (models T)) \<and> list_all (\<lambda>m. valid_slug (mr_slug m)) (models T) \<and>
     list_all (\<lambda>m. case family_slug T m of None \<Rightarrow> False | Some s \<Rightarrow> valid_slug s) (models T)"

definition families_ok :: "(string \<Rightarrow> 'o::linorder) \<Rightarrow> catalog_tables \<Rightarrow> bool" where
  "families_ok rank T \<longleftrightarrow>
     distinct (map (\<lambda>f. rank (fr_slug f)) (families T)) \<and> list_all (\<lambda>f. valid_slug (fr_slug f)) (families T) \<and>
     list_all (\<lambda>f. case manufacturer_slug T f of None \<Rightarrow> True | Some s \<Rightarrow> valid_slug s) (families T) \<and>
     list_all (\<lambda>f. case fr_country f of None \<Rightarrow> True | Some c \<Rightarrow> country_check c) (families T)"

lemma valid_slug_iff: "valid_slug s \<longleftrightarrow> slug_check s"
  by (simp add: valid_slug_def slug.is_ok_iff)

lemma Slug_try_from_valid: "valid_slug s \<Longrightarrow> Slug_try_from s = Inr (Slug s)"
  by (simp add: valid_slug_iff Slug_try_from_def validated_def)

definition summary_of_model :: "catalog_tables \<Rightarrow> model_row \<Rightarrow> ModelSummary" where
  "summary_of_model T m =
     \<lparr> ms_slug = Slug (mr_slug m), ms_name = mr_name m, ms_display_name = mr_display_name m,
       ms_family = Slug (the (family_slug T m)), ms_series = mr_series m, ms_generation = mr_generation m,
       ms_first_flight_year = mr_first_flight_year m, ms_certification_year = mr_certification_year m \<rparr>"

definition summary_of_family :: "catalog_tables \<Rightarrow> family_row \<Rightarrow> FamilySummary" where
  "summary_of_family T f =
     \<lparr> fs_slug = Slug (fr_slug f), fs_name = fr_name f, fs_common_name = fr_common_name f,
       fs_manufacturer = map_option Slug (manufacturer_slug T f),
       fs_country_of_origin = map_option CountryCode (fr_country f),
       fs_first_flight_year = fr_first_flight_year f \<rparr>"

lemma model_summary_ok:
  "models_ok rank T \<Longrightarrow> m \<in> set (models T) \<Longrightarrow> model_summary no_read_faults T m = Inr (summary_of_model T m)"
  by (auto simp: models_ok_def list_all_iff model_summary_def slug_of_column_def Slug_try_from_valid
      summary_of_model_def split: option.splits dest!: bspec)

lemma family_summary_ok:
  "families_ok rank T \<Longrightarrow> f \<in> set (families T) \<Longrightarrow> family_summary no_read_faults T f = Inr (summary_of_family T f)"
  by (auto simp: families_ok_def list_all_iff family_summary_def slug_of_column_def Slug_try_from_valid
      summary_of_family_def traverse_option_def CountryCode_try_from_def validated_def
      split: option.splits dest!: bspec)

text \<open>Sorting the rows after a key is taking the sorted rows after the key.\<close>

lemma ordered_page_eq:
  "ordered_page rank slug after n rs =
     take n (filter (\<lambda>r. case after of None \<Rightarrow> True | Some s \<Rightarrow> rank (slug_text s) < rank (slug r))
       (sort_key (\<lambda>r. rank (slug r)) rs))"
  by (simp add: ordered_page_def filter_sort)

lemma set_ordered_page: "set (ordered_page rank slug after n rs) \<subseteq> set rs"
  by (auto simp: ordered_page_def dest: in_set_takeD)

lemma sorted_wrt_sort_key:
  assumes "distinct (map f rs)"
  shows "sorted_wrt (\<lambda>a b. f a < f b) (sort_key f rs)"
proof -
  have "sorted (map f (sort_key f rs))" by simp
  moreover have "distinct (map f (sort_key f rs))"
    using assms by (simp add: distinct_map)
  ultimately have "sorted_wrt (<) (map f (sort_key f rs))" by (simp add: strict_sorted_iff)
  then show ?thesis by (simp add: sorted_wrt_map)
qed

lemma collect_results_map_Inr: "(\<And>x. x \<in> set xs \<Longrightarrow> f x = Inr (g x)) \<Longrightarrow> collect_results (map f xs) = Inr (map g xs)"
  by (induction xs) auto

definition slug_below :: "(string \<Rightarrow> 'o::linorder) \<Rightarrow> Slug \<Rightarrow> Slug \<Rightarrow> bool" where
  "slug_below rank a b \<longleftrightarrow> rank (slug_text a) < rank (slug_text b)"

definition models_in_order :: "(string \<Rightarrow> 'o::linorder) \<Rightarrow> ModelFilter \<Rightarrow> catalog_tables \<Rightarrow> ModelSummary list" where
  "models_in_order rank flt T =
     map (summary_of_model T) (sort_key (\<lambda>m. rank (mr_slug m))
       (filter (\<lambda>m. case map_option family_key (mf_family flt) of None \<Rightarrow> True | Some f \<Rightarrow> mr_family_id m = f) (models T)))"

definition families_in_order :: "(string \<Rightarrow> 'o::linorder) \<Rightarrow> FamilyFilter \<Rightarrow> catalog_tables \<Rightarrow> FamilySummary list" where
  "families_in_order rank flt T =
     map (summary_of_family T) (sort_key (\<lambda>f. rank (fr_slug f))
       (filter (\<lambda>f. (case map_option slug_text (ff_manufacturer flt) of None \<Rightarrow> True | Some s \<Rightarrow> manufacturer_slug T f = Some s) \<and>
                    (case map_option country_text (ff_country_of_origin flt) of None \<Rightarrow> True | Some c \<Rightarrow> fr_country f = Some c))
         (families T)))"

text \<open>What both readers do with the rows of their statement.\<close>

lemma paged_rows:
  assumes "\<And>r. r \<in> set rs \<Longrightarrow> decode r = Inr (conv r)" and "\<And>r. key (conv r) = Slug (slug r)"
  shows "and_then (collect_results (map decode (ordered_page rank slug after n rs)))
       (\<lambda>summaries. Inr (from_overfetched summaries limit key)) =
     Inr (from_overfetched (take n (filter (beyond (slug_below rank) key after)
       (map conv (sort_key (\<lambda>r. rank (slug r)) rs)))) limit key)"
proof -
  have "collect_results (map decode (ordered_page rank slug after n rs)) = Inr (map conv (ordered_page rank slug after n rs))"
    using assms(1) set_ordered_page [of rank slug after n rs] by (intro collect_results_map_Inr) blast
  moreover have "(\<lambda>r. case after of None \<Rightarrow> True | Some s \<Rightarrow> rank (slug_text s) < rank (slug r)) =
      beyond (slug_below rank) key after \<circ> conv"
    by (auto simp: fun_eq_iff beyond_def slug_below_def assms(2) split: option.splits)
  then have "map conv (ordered_page rank slug after n rs) =
      take n (filter (beyond (slug_below rank) key after) (map conv (sort_key (\<lambda>r. rank (slug r)) rs)))"
    by (simp add: ordered_page_eq filter_map take_map)
  ultimately show ?thesis by simp
qed

interpretation model_pages: keyset_listing "list_models rank no_read_faults flt" "models_in_order rank flt"
  ms_slug "slug_below rank" "models_ok rank" for rank :: "string \<Rightarrow> 'o::linorder" and flt
proof
  show "sorted_wrt (\<lambda>a b. slug_below rank (ms_slug a) (ms_slug b)) (models_in_order rank flt T)" if "models_ok rank T" for T
  proof -
    have "sorted_wrt (\<lambda>a b. rank (mr_slug a) < rank (mr_slug b)) (sort_key (\<lambda>m. rank (mr_slug m)) (filter P (models T)))" for P
      using that by (intro sorted_wrt_sort_key) (simp add: models_ok_def distinct_map_filter)
    then show ?thesis
      by (simp add: models_in_order_def sorted_wrt_map slug_below_def summary_of_model_def)
  qed
  show "list_models rank no_read_faults flt T limit after =
      Inr (from_overfetched (take (query_size limit) (filter (beyond (slug_below rank) ms_slug after)
        (models_in_order rank flt T))) limit ms_slug)" if "models_ok rank T" for T limit after
    unfolding list_models_def select_models_def models_in_order_def guarded_read_no_faults and_then_simps
    by (rule paged_rows) (use that in \<open>auto simp: model_summary_ok summary_of_model_def\<close>)
qed (auto simp: slug_below_def)

interpretation family_pages: keyset_listing "list_families rank no_read_faults flt" "families_in_order rank flt"
  fs_slug "slug_below rank" "families_ok rank" for rank :: "string \<Rightarrow> 'o::linorder" and flt
proof
  show "sorted_wrt (\<lambda>a b. slug_below rank (fs_slug a) (fs_slug b)) (families_in_order rank flt T)" if "families_ok rank T" for T
  proof -
    have "sorted_wrt (\<lambda>a b. rank (fr_slug a) < rank (fr_slug b)) (sort_key (\<lambda>f. rank (fr_slug f)) (filter P (families T)))" for P
      using that by (intro sorted_wrt_sort_key) (simp add: families_ok_def distinct_map_filter)
    then show ?thesis
      by (simp add: families_in_order_def sorted_wrt_map slug_below_def summary_of_family_def)
  qed
  show "list_families rank no_read_faults flt T limit after =
      Inr (from_overfetched (take (query_size limit) (filter (beyond (slug_below rank) fs_slug after)
        (families_in_order rank flt T))) limit fs_slug)" if "families_ok rank T" for T limit after
    unfolding list_families_def select_families_def families_in_order_def guarded_read_no_faults and_then_simps
    by (rule paged_rows) (use that in \<open>auto simp: family_summary_ok summary_of_family_def\<close>)
qed (auto simp: slug_below_def)

end
