(* ===== verification/Perimeter.thy ===== *)
theory Perimeter
  imports Problem
begin

text \<open>
  \<open>aircraft_api\<close>'s perimeter (\<open>correlation\<close>, \<open>limits\<close>, \<open>shutdown\<close>): layers around the routes, each a
  function on services. A service takes a request and the state behind it. What the semaphore, the
  clock and the shutdown signal say for a request is its \<open>fate\<close>; how permits and the in-flight count
  move when requests interleave is a step relation.
\<close>

subsection \<open>Requests and services\<close>

datatype http_method = GET | HEAD | POST | PUT | PATCH | DELETE | OPTIONS | TRACE | CONNECT

record http_request =
  rq_method :: http_method
  rq_path :: string
  rq_original :: "string option"
  rq_headers :: "(string \<times> string) list"
  rq_body :: "(string + string) list"
  rq_principal :: "AuthenticatedPrincipal option"

text \<open>A body is the chunks its stream delivers; \<open>Inl\<close> is a transport failure.\<close>

type_synonym 's service = "http_request \<Rightarrow> 's \<Rightarrow> 's \<times> response"

definition header_values :: "string \<Rightarrow> http_request \<Rightarrow> string list" where
  "header_values name rq = map snd (filter (\<lambda>(n, _). n = name) (rq_headers rq))"

definition refuse :: "uri_parser \<Rightarrow> ProblemKind \<Rightarrow> http_request \<Rightarrow> response" where
  "refuse parse kind rq = problem_response (ApiProblem_new parse kind (rq_path rq))"

subsection \<open>Correlation\<close>

definition REQUEST_ID :: string where "REQUEST_ID = ''x-request-id''"
definition MAX_REQUEST_ID_LENGTH :: nat where "MAX_REQUEST_ID_LENGTH = 128"

definition request_id_accepted :: "string \<Rightarrow> bool" where
  "request_id_accepted value \<longleftrightarrow>
     1 \<le> length value \<and> length value \<le> MAX_REQUEST_ID_LENGTH \<and> list_all is_ascii_graphic value"

text \<open>The identifier of a request; \<open>fresh\<close> is a newly rendered UUID.\<close>

definition request_id :: "string \<Rightarrow> http_request \<Rightarrow> string" where
  "request_id fresh rq =
     (case header_values REQUEST_ID rq of
        [value] \<Rightarrow> if request_id_accepted value then value else fresh
      | _ \<Rightarrow> fresh)"

definition set_header :: "string \<Rightarrow> string \<Rightarrow> response \<Rightarrow> response" where
  "set_header name value r =
     r \<lparr> resp_headers := filter (\<lambda>(n, _). n \<noteq> name) (resp_headers r) @ [(name, value)] \<rparr>"

definition correlate :: "string \<Rightarrow> 's service \<Rightarrow> 's service" where
  "correlate fresh next rq s =
     (case next rq s of (s', r) \<Rightarrow> (s', set_header REQUEST_ID (request_id fresh rq) r))"

subsection \<open>Limits\<close>

record 'h PerimeterLimits =
  body_bytes :: nat
  deadline_ms :: nat
  max_concurrent :: nat
  allowed_origins :: "'h list"

datatype InvalidOrigin = InvalidOrigin string

text \<open>\<open>header_value\<close> is \<open>HeaderValue::from_str\<close>.\<close>

definition origin_check :: "(string \<Rightarrow> 'h option) \<Rightarrow> string \<Rightarrow> InvalidOrigin + 'h" where
  "origin_check header_value origin =
     (if origin = ''*'' then Inl (InvalidOrigin origin)
      else ok_or (InvalidOrigin origin) (header_value origin))"

definition PerimeterLimits_new ::
  "(string \<Rightarrow> 'h option) \<Rightarrow> nat \<Rightarrow> nat \<Rightarrow> nat \<Rightarrow> string list \<Rightarrow> InvalidOrigin + 'h PerimeterLimits" where
  "PerimeterLimits_new header_value bytes timeout concurrent origins =
     and_then (collect_results (map (origin_check header_value) origins)) (\<lambda>allowed.
       Inr \<lparr> body_bytes = bytes, deadline_ms = timeout, max_concurrent = concurrent,
             allowed_origins = allowed \<rparr>)"

definition usize_max :: int where "usize_max = 18446744073709551615"

text \<open>\<open>header_text\<close> is \<open>HeaderValue::to_str\<close>.\<close>

definition declares_more_than :: "(string \<Rightarrow> string option) \<Rightarrow> http_request \<Rightarrow> nat \<Rightarrow> bool" where
  "declares_more_than header_text rq max_bytes =
     (case header_values ''content-length'' rq of
        [] \<Rightarrow> False
      | value # _ \<Rightarrow>
          (case Option.bind (header_text value) (parse_unsigned usize_max) of
             None \<Rightarrow> False
           | Some n \<Rightarrow> n > int max_bytes))"

definition refuse_oversized_preflight ::
  "uri_parser \<Rightarrow> (string \<Rightarrow> string option) \<Rightarrow> nat \<Rightarrow> 's service \<Rightarrow> 's service" where
  "refuse_oversized_preflight parse header_text max_bytes next rq s =
     (if rq_method rq = OPTIONS \<and> declares_more_than header_text rq max_bytes
      then (s, refuse parse PayloadTooLarge rq)
      else next rq s)"

text \<open>The loop over the body's chunks.\<close>

fun buffer_body :: "nat \<Rightarrow> string \<Rightarrow> (string + string) list \<Rightarrow> ProblemKind + string" where
  "buffer_body max_bytes buffered [] = Inr buffered"
| "buffer_body max_bytes buffered (Inl _ # _) = Inl MalformedInput"
| "buffer_body max_bytes buffered (Inr chunk # rest) =
     (if int (length buffered + length chunk) > usize_max \<or> length buffered + length chunk > max_bytes
      then Inl PayloadTooLarge
      else buffer_body max_bytes (buffered @ chunk) rest)"

definition refuse_oversized_body ::
  "uri_parser \<Rightarrow> (string \<Rightarrow> string option) \<Rightarrow> nat \<Rightarrow> 's service \<Rightarrow> 's service" where
  "refuse_oversized_body parse header_text max_bytes next rq s =
     (if declares_more_than header_text rq max_bytes then (s, refuse parse PayloadTooLarge rq)
      else (case buffer_body max_bytes [] (rq_body rq) of
              Inl kind \<Rightarrow> (s, refuse parse kind rq)
            | Inr body \<Rightarrow> next (rq \<lparr> rq_body := [Inr body] \<rparr>) s))"

subsection \<open>What happens around a request\<close>

text \<open>
  Whether a permit was free, whether shutdown cancelled the request or the deadline passed before an
  answer, and what the abandoned work had done to the state by then.
\<close>

record 's fate =
  permit_free :: bool
  was_cancelled :: bool
  was_late :: bool
  abandoned :: "http_request \<Rightarrow> 's \<Rightarrow> 's"

definition shed_when_saturated :: "uri_parser \<Rightarrow> 's fate \<Rightarrow> 's service \<Rightarrow> 's service" where
  "shed_when_saturated parse f next rq s =
     (if permit_free f then next rq s else (s, refuse parse Overloaded rq))"

definition track_in_flight :: "uri_parser \<Rightarrow> 's fate \<Rightarrow> 's service \<Rightarrow> 's service" where
  "track_in_flight parse f next rq s =
     (if was_cancelled f then (abandoned f rq s, refuse parse ShutdownCancelled rq) else next rq s)"

definition enforce_deadline :: "uri_parser \<Rightarrow> 's fate \<Rightarrow> 's service \<Rightarrow> 's service" where
  "enforce_deadline parse f next rq s =
     (if was_late f then (abandoned f rq s, refuse parse DeadlineExceeded rq) else next rq s)"

text \<open>The stack of \<open>router_with_routes\<close>, innermost last; \<open>cors\<close> is tower-http's layer.\<close>

definition perimeter ::
  "uri_parser \<Rightarrow> (string \<Rightarrow> string option) \<Rightarrow> string \<Rightarrow> ('s service \<Rightarrow> 's service) \<Rightarrow> nat \<Rightarrow> 's fate \<Rightarrow>
     's service \<Rightarrow> 's service" where
  "perimeter parse header_text fresh cors max_bytes f routes =
     correlate fresh
       (refuse_oversized_preflight parse header_text max_bytes
         (cors
           (shed_when_saturated parse f
             (track_in_flight parse f
               (enforce_deadline parse f
                 (refuse_oversized_body parse header_text max_bytes routes))))))"

subsection \<open>Every response is correlated\<close>

lemma set_header_once:
  "map snd (filter (\<lambda>(n, _). n = name) (resp_headers (set_header name value r))) = [value]"
  by (auto simp: set_header_def filter_empty_conv)

lemma snd_correlate: "snd (correlate fresh next rq s) = set_header REQUEST_ID (request_id fresh rq) (snd (next rq s))"
  by (simp add: correlate_def split: prod.splits)

text \<open>
  every response that leaves, refusals included, carries exactly one request identifier; it is the
  caller's if the caller sent exactly one usable identifier and the fresh one otherwise, and it is
  always one this service would itself adopt.
\<close>

theorem responses_correlated:
  assumes "request_id_accepted fresh"
  shows "let r = snd (perimeter parse header_text fresh cors max_bytes f routes rq s) in
     map snd (filter (\<lambda>(n, _). n = REQUEST_ID) (resp_headers r)) = [request_id fresh rq] \<and>
     request_id_accepted (request_id fresh rq)"
proof -
  have "request_id_accepted (request_id fresh rq)"
    using assms by (auto simp: request_id_def split: list.splits)
  then show ?thesis by (simp add: perimeter_def snd_correlate set_header_once Let_def)
qed

lemma responses_correlated_witness:
  "map snd (filter (\<lambda>(n, _). n = REQUEST_ID) (resp_headers (snd (perimeter (\<lambda>_. None) Some ''abc'' id 5
      \<lparr> permit_free = False, was_cancelled = False, was_late = False, abandoned = (\<lambda>_ s. s) \<rparr>
      (\<lambda>rq s. (s, undefined))
      \<lparr> rq_method = GET, rq_path = ''/x'', rq_original = None, rq_headers = [(''x-request-id'', ''id-1'')],
        rq_body = [], rq_principal = None \<rparr> (0::nat))))) = [''id-1'']"
proof -
  have "request_id_accepted ''abc''"
    by (simp add: request_id_accepted_def MAX_REQUEST_ID_LENGTH_def is_ascii_graphic_def)
  from responses_correlated [OF this, of "\<lambda>_. None" Some id 5
      "\<lparr> permit_free = False, was_cancelled = False, was_late = False, abandoned = (\<lambda>_ s. s) \<rparr>"
      "\<lambda>rq s. (s, undefined)"
      "\<lparr> rq_method = GET, rq_path = ''/x'', rq_original = None, rq_headers = [(''x-request-id'', ''id-1'')],
        rq_body = [], rq_principal = None \<rparr>" "0::nat"]
  show ?thesis
    by (simp add: Let_def request_id_def header_values_def REQUEST_ID_def request_id_accepted_def
        MAX_REQUEST_ID_LENGTH_def is_ascii_graphic_def)
qed

subsection \<open>The body a handler sees\<close>

text \<open>The bytes a body's stream delivers before it ends or fails.\<close>

definition delivered :: "(string + string) list \<Rightarrow> string" where
  "delivered chunks = concat (map projr (takeWhile is_ok chunks))"

lemma buffer_body_delivered:
  assumes "length buffered \<le> max_bytes" and "int max_bytes \<le> usize_max"
  shows "buffer_body max_bytes buffered chunks =
     (if length (buffered @ delivered chunks) > max_bytes then Inl PayloadTooLarge
      else if list_all is_ok chunks then Inr (buffered @ delivered chunks) else Inl MalformedInput)"
  using assms
proof (induction max_bytes buffered chunks rule: buffer_body.induct)
  case (3 max_bytes buffered chunk rest)
  show ?case
  proof (cases "length buffered + length chunk > max_bytes")
    case True
    then show ?thesis by (simp add: delivered_def)
  next
    case False
    then have "\<not> int (length buffered + length chunk) > usize_max" using "3.prems" by linarith
    with False "3.IH" "3.prems" show ?thesis by (simp add: delivered_def)
  qed
qed (simp_all add: delivered_def)

text \<open>
  C39: the handler behind the body limit is called exactly when the declared and the delivered length fit
  the limit and the body arrived whole, and then sees it as one piece, byte for byte; every other
  request is refused as too large or as unreadable, without calling it.
\<close>

theorem handler_body_bounded:
  assumes "int max_bytes \<le> usize_max"
  shows "refuse_oversized_body parse header_text max_bytes next rq s =
     (if declares_more_than header_text rq max_bytes \<or> length (delivered (rq_body rq)) > max_bytes
      then (s, refuse parse PayloadTooLarge rq)
      else if list_all is_ok (rq_body rq) then next (rq \<lparr> rq_body := [Inr (delivered (rq_body rq))] \<rparr>) s
      else (s, refuse parse MalformedInput rq))"
  using buffer_body_delivered [OF _ assms, of "[]" "rq_body rq"]
  by (simp add: refuse_oversized_body_def)

lemma handler_body_bounded_witness:
  "fst (refuse_oversized_body (\<lambda>_. None) Some 4 (\<lambda>rq s. (rq_body rq, undefined))
      \<lparr> rq_method = POST, rq_path = ''/x'', rq_original = None, rq_headers = [],
        rq_body = [Inr ''{'', Inr ''}''], rq_principal = None \<rparr> []) = [Inr ''{}'']"
proof -
  have "int 4 \<le> usize_max" by (simp add: usize_max_def)
  from handler_body_bounded [OF this, of "\<lambda>_. None" Some "\<lambda>rq s. (rq_body rq, undefined)"
      "\<lparr> rq_method = POST, rq_path = ''/x'', rq_original = None, rq_headers = [],
        rq_body = [Inr ''{'', Inr ''}''], rq_principal = None \<rparr>" "[]"]
  show ?thesis by (simp add: delivered_def declares_more_than_def header_values_def)
qed

end
