(* ===== verification/Catalog_Routes.thy ===== *)
theory Catalog_Routes
  imports Catalog_Readers Perimeter
begin

text \<open>
  The handlers of \<open>aircraft_api::routes::models\<close> and \<open>aircraft_api::routes::reference\<close>. A handler takes
  the readers it was given and returns a response; what the query extractor yields is an argument.
\<close>

subsection \<open>Responses\<close>

definition json_response :: "json \<Rightarrow> response" where
  "json_response body =
     \<lparr> resp_status = 200, resp_headers = [(''content-type'', ''application/json'')], resp_body = Some body \<rparr>"

definition refused :: "uri_parser \<Rightarrow> ProblemKind \<Rightarrow> string \<Rightarrow> response" where
  "refused parse kind inst = problem_response (ApiProblem_new parse kind inst)"

text \<open>A member that is left out when it is absent.\<close>

definition optional :: "string \<Rightarrow> ('a \<Rightarrow> json) \<Rightarrow> 'a option \<Rightarrow> json_object" where
  "optional name f v = (case v of None \<Rightarrow> [] | Some x \<Rightarrow> [(name, f x)])"

abbreviation json_int :: "int \<Rightarrow> json" where
  "json_int i \<equiv> JNumber (show_int i)"

record ModelSummaryResponse =
  sr_slug :: string
  sr_name :: string
  sr_display_name :: "string option"
  sr_family :: string
  sr_series :: "string option"
  sr_generation :: "int option"
  sr_first_flight_year :: "int option"
  sr_certification_year :: "int option"

definition ModelSummaryResponse_from :: "ModelSummary \<Rightarrow> ModelSummaryResponse" where
  "ModelSummaryResponse_from m =
     \<lparr> sr_slug = slug_text (ms_slug m), sr_name = ms_name m, sr_display_name = ms_display_name m,
       sr_family = slug_text (ms_family m), sr_series = ms_series m, sr_generation = ms_generation m,
       sr_first_flight_year = ms_first_flight_year m, sr_certification_year = ms_certification_year m \<rparr>"

definition summary_members :: "ModelSummaryResponse \<Rightarrow> json_object" where
  "summary_members r =
     [(''slug'', JString (sr_slug r)), (''name'', JString (sr_name r))] @
     optional ''display_name'' JString (sr_display_name r) @
     [(''family'', JString (sr_family r))] @
     optional ''series'' JString (sr_series r) @
     optional ''generation'' json_int (sr_generation r) @
     optional ''first_flight_year'' json_int (sr_first_flight_year r) @
     optional ''certification_year'' json_int (sr_certification_year r)"

record ModelDetailResponse = ModelSummaryResponse +
  dr_name_aliases :: "string list"
  dr_description :: "string option"

definition ModelDetailResponse_from :: "ModelDetail \<Rightarrow> ModelDetailResponse" where
  "ModelDetailResponse_from d =
     (let m = md_summary d in
      \<lparr> sr_slug = slug_text (ms_slug m), sr_name = ms_name m, sr_display_name = ms_display_name m,
        sr_family = slug_text (ms_family m), sr_series = ms_series m, sr_generation = ms_generation m,
        sr_first_flight_year = ms_first_flight_year m, sr_certification_year = ms_certification_year m,
        dr_name_aliases = md_name_aliases d, dr_description = md_description d \<rparr>)"

definition detail_members :: "ModelDetailResponse \<Rightarrow> json_object" where
  "detail_members r =
     summary_members (ModelSummaryResponse.truncate r) @
     [(''name_aliases'', JArray (map JString (dr_name_aliases r)))] @
     optional ''description'' JString (dr_description r)"

definition page_json :: "json PageResponse \<Rightarrow> json" where
  "page_json p =
     JObject [(''items'', JArray (pr_items p)),
              (''next_cursor'', case pr_next_cursor p of None \<Rightarrow> JNull | Some c \<Rightarrow> JString c)]"

subsection \<open>Models\<close>

datatype ModelSort = SlugAsc

definition SLUG_ASCENDING :: string where "SLUG_ASCENDING = ''slug_asc''"

fun sort_code :: "ModelSort \<Rightarrow> string" where
  "sort_code SlugAsc = SLUG_ASCENDING"

record ModelListQuery =
  ml_sort :: "ModelSort option"
  ml_family :: "string option"
  ml_limit :: "nat option"
  ml_cursor :: "string option"

definition read_failure :: "uri_parser \<Rightarrow> PersistenceError \<Rightarrow> string \<Rightarrow> response" where
  "read_failure parse e inst =
     (case e of
        Database _ _ \<Rightarrow> refused parse DatabaseUnavailable inst
      | Invariant _ \<Rightarrow> refused parse Internal inst)"

definition model_fingerprint :: "cursor_libs \<Rightarrow> string option \<Rightarrow> FilterFingerprint" where
  "model_fingerprint L family = fingerprint_of L (''family='' @ (case family of None \<Rightarrow> [] | Some f \<Rightarrow> f))"

definition page_response ::
  "cursor_libs \<Rightarrow> (ModelSummary, Slug) Page \<Rightarrow> ModelSort \<Rightarrow> FilterFingerprint \<Rightarrow> json PageResponse" where
  "page_response L page order filters =
     \<lparr> pr_items = map (JObject \<circ> summary_members \<circ> ModelSummaryResponse_from) (page_items page),
       pr_next_cursor = map_option (\<lambda>last. cursor_encode L
          \<lparr> cp_sort = sort_code order, cp_last_value = slug_text last, cp_tiebreaker = slug_text last \<rparr> filters)
          (page_next page) \<rparr>"

text \<open>The filter, resolved: \<open>Inl\<close> is the refusal the handler returns at once.\<close>

definition resolve_family ::
  "uri_parser \<Rightarrow> (Slug \<Rightarrow> PersistenceError + FamilyId option) \<Rightarrow> string option \<Rightarrow> string \<Rightarrow> response + FamilyId option" where
  "resolve_family parse fid family inst =
     (case family of
        None \<Rightarrow> Inr None
      | Some requested \<Rightarrow>
          (case Slug_try_from requested of
             Inl _ \<Rightarrow> Inl (refused parse ValidationFailedProblem inst)
           | Inr slug \<Rightarrow>
               (case fid slug of
                  Inr (Some i) \<Rightarrow> Inr (Some i)
                | Inr None \<Rightarrow> Inl (refused parse NotFound inst)
                | Inl e \<Rightarrow> Inl (read_failure parse e inst))))"

definition resume_slug :: "uri_parser \<Rightarrow> ModelSort \<Rightarrow> CursorPosition option \<Rightarrow> string \<Rightarrow> response + Slug option" where
  "resume_slug parse order resume inst =
     (case resume of
        None \<Rightarrow> Inr None
      | Some position \<Rightarrow>
          if cp_sort position \<noteq> sort_code order then Inl (refused parse ValidationFailedProblem inst)
          else (case Slug_try_from (cp_last_value position) of
                  Inr slug \<Rightarrow> Inr (Some slug)
                | Inl _ \<Rightarrow> Inl (refused parse ValidationFailedProblem inst)))"

definition list_models_route ::
  "cursor_libs \<Rightarrow> uri_parser \<Rightarrow> (Slug \<Rightarrow> PersistenceError + FamilyId option) \<Rightarrow>
     (ModelFilter \<Rightarrow> PageLimit \<Rightarrow> Slug option \<Rightarrow> PersistenceError + (ModelSummary, Slug) Page) \<Rightarrow>
     string \<Rightarrow> 'x + ModelListQuery \<Rightarrow> response" where
  "list_models_route L parse fid reader inst extracted =
     (case ApiQuery_from_request parse inst extracted of
        Inl problem \<Rightarrow> problem_response problem
      | Inr query \<Rightarrow>
     (let order = (case ml_sort query of None \<Rightarrow> SlugAsc | Some s \<Rightarrow> s) in
      case resolve_family parse fid (ml_family query) inst of
        Inl r \<Rightarrow> r
      | Inr family \<Rightarrow>
     (let filters = model_fingerprint L (ml_family query) in
      case into_page_request L parse \<lparr> lq_limit = ml_limit query, lq_cursor = ml_cursor query \<rparr> filters inst of
        Inl problem \<Rightarrow> problem_response problem
      | Inr (limit, resume) \<Rightarrow>
     (case resume_slug parse order resume inst of
        Inl r \<Rightarrow> r
      | Inr after \<Rightarrow>
     (case reader \<lparr> mf_family = family \<rparr> limit after of
        Inl e \<Rightarrow> read_failure parse e inst
      | Inr page \<Rightarrow> json_response (page_json (page_response L page order filters)))))))"

definition model_route ::
  "uri_parser \<Rightarrow> (Slug \<Rightarrow> PersistenceError + ModelDetail option) \<Rightarrow> string \<Rightarrow> string \<Rightarrow> response" where
  "model_route parse reader inst requested =
     (case Slug_try_from requested of
        Inl _ \<Rightarrow> refused parse NotFound inst
      | Inr slug \<Rightarrow>
          (case reader slug of
             Inr (Some detail) \<Rightarrow> json_response (JObject (detail_members (ModelDetailResponse_from detail)))
           | Inr None \<Rightarrow> refused parse NotFound inst
           | Inl e \<Rightarrow> read_failure parse e inst))"

subsection \<open>Reference catalogs\<close>

definition MAX_VALIDATORS :: nat where "MAX_VALIDATORS = 64"
definition CATALOG_CACHE_CONTROL :: string where "CATALOG_CACHE_CONTROL = ''private, no-cache''"

record CatalogEntryResponse =
  er_code :: string
  er_label :: string
  er_description :: "string option"

definition CatalogEntryResponse_from :: "CatalogEntry \<Rightarrow> CatalogEntryResponse" where
  "CatalogEntryResponse_from e =
     \<lparr> er_code = ce_code e, er_label = ce_label e, er_description = ce_description e \<rparr>"

definition entry_json :: "CatalogEntryResponse \<Rightarrow> json" where
  "entry_json r =
     JObject ([(''code'', JString (er_code r)), (''label'', JString (er_label r))] @
       optional ''description'' JString (er_description r))"

definition entity_tag :: "cursor_libs \<Rightarrow> string \<Rightarrow> string" where
  "entity_tag L body = [CHR 0x22] @ hex_digest (cu_sha256 L body) @ [CHR 0x22]"

text \<open>\<open>header_text\<close> is \<open>HeaderValue::to_str\<close>.\<close>

definition if_none_match_matches :: "(string \<Rightarrow> string option) \<Rightarrow> http_request \<Rightarrow> string \<Rightarrow> bool" where
  "if_none_match_matches header_text rq etag =
     list_ex (\<lambda>candidate. candidate = ''*'' \<or>
         (case strip_prefix ''W/'' candidate of None \<Rightarrow> candidate | Some rest \<Rightarrow> rest) = etag)
       (map trim (take MAX_VALIDATORS
         (concat (map (split_char (CHR '','')) (List.map_filter header_text (header_values ''if-none-match'' rq))))))"

definition catalog_route ::
  "cursor_libs \<Rightarrow> (string \<Rightarrow> string option) \<Rightarrow> uri_parser \<Rightarrow> (Catalog \<Rightarrow> PersistenceError + CatalogEntry list) \<Rightarrow>
     string \<Rightarrow> string \<Rightarrow> http_request \<Rightarrow> response" where
  "catalog_route L header_text parse read inst requested rq =
     (case Catalog_try_from requested of
        Inl _ \<Rightarrow> refused parse NotFound inst
      | Inr c \<Rightarrow>
     (case read c of
        Inl (Database _ _) \<Rightarrow> refused parse DatabaseUnavailable inst
      | Inl (Invariant _) \<Rightarrow> refused parse Internal inst
      | Inr es \<Rightarrow>
          (let body = JArray (map (entry_json \<circ> CatalogEntryResponse_from) es);
               etag = entity_tag L (to_vec L body);
               headers = [(''etag'', etag), (''cache-control'', CATALOG_CACHE_CONTROL)]
           in if if_none_match_matches header_text rq etag
              then \<lparr> resp_status = 304, resp_headers = headers, resp_body = None \<rparr>
              else \<lparr> resp_status = 200, resp_headers = headers @ [(''content-type'', ''application/json'')],
                     resp_body = Some body \<rparr>)))"

end
