(* ===== verification/Catalog_Guarantees.thy ===== *)
theory Catalog_Guarantees
  imports Catalog_Routes
begin

text \<open>
  What a client of \<open>/v1/models\<close> and \<open>/v1/reference/{catalog}\<close> gets: the pages it follows refine the
  reader's rows, through JSON and opaque cursors.
\<close>

subsection \<open>A client of the collection\<close>

text \<open>What a client reads from a page: its items and the cursor to send next.\<close>

definition read_page :: "response \<Rightarrow> (json list \<times> string option) option" where
  "read_page r =
     (if resp_status r \<noteq> 200 then None
      else (case resp_body r of
        Some (JObject obj) \<Rightarrow>
          (case (get obj ''items'', get obj ''next_cursor'') of
             (Some (JArray items), Some JNull) \<Rightarrow> Some (items, None)
           | (Some (JArray items), Some (JString c)) \<Rightarrow> Some (items, Some c)
           | _ \<Rightarrow> None)
      | _ \<Rightarrow> None))"

text \<open>One request for models: the query with the cursor of the page before.\<close>

definition ask_models ::
  "cursor_libs \<Rightarrow> uri_parser \<Rightarrow> (string \<Rightarrow> 'o::linorder) \<Rightarrow> string \<Rightarrow> ModelListQuery \<Rightarrow> catalog_tables \<Rightarrow>
     string option \<Rightarrow> (json list \<times> string option) option" where
  "ask_models L parse rank inst q T cursor =
     read_page (list_models_route L parse (family_id no_read_faults T)
       (\<lambda>flt limit after. list_models rank no_read_faults flt T limit after) inst
       (Inr (q \<lparr> ml_cursor := cursor \<rparr>) :: unit + ModelListQuery))"

definition model_json :: "ModelSummary \<Rightarrow> json" where
  "model_json m = JObject (summary_members (ModelSummaryResponse_from m))"

text \<open>The cursor the endpoint issues for a slug.\<close>

definition slug_cursor :: "cursor_libs \<Rightarrow> ModelListQuery \<Rightarrow> Slug \<Rightarrow> string" where
  "slug_cursor L q s =
     cursor_encode L \<lparr> cp_sort = SLUG_ASCENDING, cp_last_value = slug_text s, cp_tiebreaker = slug_text s \<rparr>
       (model_fingerprint L (ml_family q))"

definition slug_position :: "Slug \<Rightarrow> CursorPosition" where
  "slug_position s = \<lparr> cp_sort = SLUG_ASCENDING, cp_last_value = slug_text s, cp_tiebreaker = slug_text s \<rparr>"

lemma set_join_with: "set (join_with d ws) \<subseteq> set d \<union> \<Union> (set ` set ws)"
  by (induction d ws rule: join_with.induct) auto

lemma slug_char_plain:
  "is_ascii_lowercase b \<or> is_ascii_digit b \<Longrightarrow> is_ascii_graphic b \<and> b \<noteq> CHR 0x22 \<and> b \<noteq> CHR 0x5C"
  by (auto simp: byte_class_defs is_ascii_graphic_def)

lemma slug_plain: "slug_check s \<Longrightarrow> plain_text s"
proof -
  assume "slug_check s"
  then obtain ws where ws: "list_all slug_word ws" "s = join_with ''-'' ws" by (auto simp: slug_check_iff)
  have "b = CHR ''-'' \<or> is_ascii_lowercase b \<or> is_ascii_digit b" if "b \<in> set s" for b
    using that ws set_join_with [of "''-''" ws] by (auto simp: list_all_iff slug_word_def)
  moreover have "is_ascii_graphic (CHR ''-'')" by (simp add: is_ascii_graphic_def)
  ultimately show ?thesis unfolding plain_text_def list_all_iff using slug_char_plain by fastforce
qed

lemma slug_position_plain: "valid_slug (slug_text s) \<Longrightarrow> plain_position (slug_position s)"
  by (simp add: plain_position_def slug_position_def slug_plain valid_slug_iff)
    (simp add: plain_text_def SLUG_ASCENDING_def is_ascii_graphic_def)

text \<open>The longest slug whose cursor fits.\<close>

definition MAX_CURSOR_SLUG :: nat where "MAX_CURSOR_SLUG = 314"

lemma slug_cursor_length:
  assumes "cursor_libs_ok L" and "valid_slug (slug_text s)"
  shows "length (slug_cursor L q s) \<le> MAX_CURSOR_BYTES \<longleftrightarrow> length (slug_text s) \<le> MAX_CURSOR_SLUG"
proof -
  have "length SLUG_ASCENDING = 8" by (simp add: SLUG_ASCENDING_def)
  then have "length (slug_cursor L q s) = (4 * (131 + 8 + length (slug_text s) + length (slug_text s)) + 2) div 3"
    using length_cursor_encode [OF assms(1) slug_position_plain [OF assms(2)],
        of "''family='' @ (case ml_family q of None \<Rightarrow> [] | Some f \<Rightarrow> f)"]
    unfolding slug_cursor_def slug_position_def model_fingerprint_def by (simp only: CursorPosition.select_convs)
  moreover have "(4 * (131 + 8 + n + n) + 2) div 3 \<le> 1024 \<longleftrightarrow> n \<le> 314" for n :: nat by presburger
  ultimately show ?thesis unfolding MAX_CURSOR_BYTES_def MAX_CURSOR_SLUG_def by simp
qed

lemma decode_slug_cursor:
  assumes "cursor_libs_ok L" and "valid_slug (slug_text s)"
  shows "cursor_decode L (slug_cursor L q s) (model_fingerprint L (ml_family q)) =
     (if length (slug_text s) \<le> MAX_CURSOR_SLUG then Inr (slug_position s) else Inl MalformedCursor)"
  using cursor_decode_encode [OF assms(1) slug_position_plain [OF assms(2)], of "model_fingerprint L (ml_family q)"
      "model_fingerprint L (ml_family q)"] slug_cursor_length [OF assms, of q]
  by (auto simp: slug_cursor_def slug_position_def)

subsection \<open>One page over HTTP\<close>

lemma read_page_json:
  "read_page (json_response (page_json p)) = Some (pr_items p, pr_next_cursor p)"
  by (cases "pr_next_cursor p") (simp_all add: read_page_def json_response_def page_json_def)

lemma read_page_refused [simp]: "read_page (refused parse kind inst) = None"
  by (cases kind)
    (simp_all add: read_page_def refused_def problem_response_def details_response_def details_def Let_def
      ApiProblem_new_def contract_of_def)

lemma refused_fold: "problem_response (ApiProblem_new parse kind inst) = refused parse kind inst"
  by (simp add: refused_def)

lemma read_page_failure [simp]: "read_page (read_failure parse e inst) = None"
  by (cases e) (simp_all add: read_failure_def)

definition cursor_ok :: "Slug option \<Rightarrow> bool" where
  "cursor_ok after \<longleftrightarrow>
     (case after of None \<Rightarrow> True | Some s \<Rightarrow> valid_slug (slug_text s) \<and> length (slug_text s) \<le> MAX_CURSOR_SLUG)"

lemma ask_models_refines:
  assumes "cursor_libs_ok L" and "cursor_ok after"
    and "resolve_family parse (family_id no_read_faults T) (ml_family q) inst = Inr fam"
  shows "ask_models L parse rank inst q T (map_option (slug_cursor L q) after) =
     map_option (\<lambda>(items, next). (map model_json items, map_option (slug_cursor L q) next))
       (ask_page (list_models rank no_read_faults \<lparr> mf_family = fam \<rparr> T (from_requested (ml_limit q)) after))"
proof -
  have order: "(case ml_sort q of None \<Rightarrow> SlugAsc | Some s \<Rightarrow> s) = SlugAsc"
    by (metis ModelSort.exhaust option.case_eq_if)
  have page: "pr_next_cursor (page_response L p SlugAsc (model_fingerprint L (ml_family q))) =
      map_option (slug_cursor L q) (page_next p)"
    "pr_items (page_response L p SlugAsc (model_fingerprint L (ml_family q))) = map model_json (page_items p)" for p
    by (simp_all add: page_response_def slug_cursor_def [abs_def] model_json_def comp_def)
  have resume: "into_page_request L parse \<lparr> lq_limit = ml_limit q, lq_cursor = map_option (slug_cursor L q) after \<rparr>
      (model_fingerprint L (ml_family q)) inst = Inr (from_requested (ml_limit q), map_option slug_position after)"
    using assms(1,2) by (cases after) (simp_all add: into_page_request_def cursor_ok_def decode_slug_cursor)
  have slug: "resume_slug parse SlugAsc (map_option slug_position after) inst = Inr after"
    using assms(2)
    by (cases after) (simp_all add: resume_slug_def cursor_ok_def slug_position_def Slug_try_from_valid)
  show ?thesis
    by (cases "list_models rank no_read_faults \<lparr> mf_family = fam \<rparr> T (from_requested (ml_limit q)) after")
      (simp_all add: ask_models_def list_models_route_def ApiQuery_from_request_def order assms(3) resume slug
        read_page_json page Let_def ask_page_def)
qed

subsection \<open>Following the pages\<close>

lemma follow_simulated:
  assumes "follow ask i after = Some out" and "P after"
    and "\<And>j c. P c \<Longrightarrow> ask' j (map_option enc c) =
      map_option (\<lambda>(items, next). (map f items, map_option enc next)) (ask j c)"
    and "\<And>j c items k. P c \<Longrightarrow> ask j c = Some (items, Some k) \<Longrightarrow> P (Some k)"
  shows "follow ask' i (map_option enc after) = Some (map f out)"
  using assms
proof (induction ask i after out rule: follow.raw_induct [rotated, consumes 1, case_names ask])
  case (ask walk ask i after out)
  from ask(2) obtain items nxt where page: "ask i after = Some (items, nxt)"
    and cont: "(case nxt of None \<Rightarrow> Some items | Some c \<Rightarrow> Option.bind (walk ask (Suc i) (Some c)) (\<lambda>rest. Some (items @ rest))) = Some out"
    by (auto simp: bind_eq_Some_conv)
  have page': "ask' i (map_option enc after) = Some (map f items, map_option enc nxt)"
    using ask(4) [OF ask(3)] page by simp
  show ?case
  proof (cases nxt)
    case None
    with page' cont show ?thesis by (intro follow_last [THEN trans]) auto
  next
    case (Some c)
    with cont obtain rest where rest: "walk ask (Suc i) (Some c) = Some rest" "out = items @ rest"
      by (auto simp: bind_eq_Some_conv)
    have "P (Some c)" using ask(5) [OF ask(3)] page Some by blast
    then have "follow ask' (Suc i) (map_option enc (Some c)) = Some (map f rest)"
      by (rule ask(1) [OF rest(1)]) (erule ask(4), erule (1) ask(5))
    then have "follow ask' (Suc i) (Some (enc c)) = Some (map f rest)" by simp
    with page' Some rest(2) show ?thesis by (simp add: follow_more)
  qed
qed

lemma follow_simulates:
  assumes "follow ask' i cursor = Some out'" and "cursor = map_option enc after" and "P after"
    and "\<And>j c. P c \<Longrightarrow> ask' j (map_option enc c) =
      map_option (\<lambda>(items, next). (map f items, map_option enc next)) (ask j c)"
    and "\<And>j c items k. P c \<Longrightarrow> ask j c = Some (items, Some k) \<Longrightarrow> P (Some k)"
  shows "\<exists>out. follow ask i after = Some out \<and> out' = map f out"
  using assms
proof (induction ask' i cursor out' arbitrary: after rule: follow.raw_induct [rotated, consumes 1, case_names ask])
  case (ask walk ask' i cursor out')
  have eq: "ask' i cursor = map_option (\<lambda>(items, next). (map f items, map_option enc next)) (ask i after)"
    using ask(5) [OF ask(4)] ask(3) by simp
  with ask(2) obtain items nxt where page: "ask i after = Some (items, nxt)"
    by (cases "ask i after") auto
  show ?case
  proof (cases nxt)
    case None
    with ask(2) eq page have "out' = map f items" by simp
    moreover have "follow ask i after = Some items" using page None by (intro follow_last) simp
    ultimately show ?thesis by blast
  next
    case (Some c)
    with ask(2) eq page obtain rest' where rest: "walk ask' (Suc i) (Some (enc c)) = Some rest'" "out' = map f items @ rest'"
      by (auto simp: bind_eq_Some_conv)
    have "P (Some c)" using ask(6) [OF ask(4)] page Some by blast
    have "\<exists>out. follow ask (Suc i) (Some c) = Some out \<and> rest' = map f out"
      by (rule ask(1) [OF rest(1) _ \<open>P (Some c)\<close>]) (simp, erule ask(5), erule (1) ask(6))
    then obtain rest where "follow ask (Suc i) (Some c) = Some rest" "rest' = map f rest" by blast
    with page Some rest(2) show ?thesis by (simp add: follow_more)
  qed
qed

lemma follow_simulation:
  assumes "P after"
    and "\<And>j c. P c \<Longrightarrow> ask' j (map_option enc c) =
      map_option (\<lambda>(items, next). (map f items, map_option enc next)) (ask j c)"
    and "\<And>j c items k. P c \<Longrightarrow> ask j c = Some (items, Some k) \<Longrightarrow> P (Some k)"
  shows "follow ask' i (map_option enc after) = map_option (map f) (follow ask i after)"
proof (cases "follow ask i after")
  case None
  have "\<exists>out. follow ask i after = Some out \<and> out' = map f out" if "follow ask' i (map_option enc after) = Some out'" for out'
    by (rule follow_simulates [where P = P and after = after and enc = enc and f = f and ask = ask, OF that refl assms(1)]) (erule assms(2), erule (1) assms(3))
  with None show ?thesis by (cases "follow ask' i (map_option enc after)") auto
next
  case (Some out)
  have "follow ask' i (map_option enc after) = Some (map f out)"
    by (rule follow_simulated [where P = P and enc = enc, OF Some assms(1)]) (erule assms(2), erule (1) assms(3))
  with Some show ?thesis by simp
qed

subsection \<open>Paging through the models\<close>

text \<open>Tables whose slugs all fit a cursor, and the rows of a filter page by page.\<close>

definition short_slugs :: "catalog_tables \<Rightarrow> bool" where
  "short_slugs T \<longleftrightarrow> list_all (\<lambda>m. length (mr_slug m) \<le> MAX_CURSOR_SLUG) (models T)"

definition read_models ::
  "(string \<Rightarrow> 'o::linorder) \<Rightarrow> FamilyId option \<Rightarrow> ModelListQuery \<Rightarrow> catalog_tables \<Rightarrow> Slug option \<Rightarrow>
     (ModelSummary list \<times> Slug option) option" where
  "read_models rank fam q T after =
     ask_page (list_models rank no_read_faults \<lparr> mf_family = fam \<rparr> T (from_requested (ml_limit q)) after)"

lemma requested_limit:
  "ml_limit q \<noteq> Some 0 \<Longrightarrow> 0 < limit_get (from_requested (ml_limit q))"
  "limit_get (from_requested (ml_limit q)) < nat u16_max"
  by (auto simp: from_requested_def DEFAULT_LIMIT_def MAX_LIMIT_def u16_max_def split: option.splits)

lemma models_in_order_slugs:
  assumes "models_ok rank T" and "m \<in> set (models_in_order rank flt T)"
  shows "valid_slug (slug_text (ms_slug m))" and "short_slugs T \<Longrightarrow> length (slug_text (ms_slug m)) \<le> MAX_CURSOR_SLUG"
  using assms by (auto simp: models_in_order_def models_ok_def short_slugs_def list_all_iff summary_of_model_def)

lemma read_models_next:
  assumes "models_ok rank T" and "short_slugs T" and "ml_limit q \<noteq> Some 0"
    and "read_models rank fam q T after = Some (items, Some k)"
  shows "cursor_ok (Some k)"
proof -
  let ?rest = "filter (beyond (slug_below rank) ms_slug after) (models_in_order rank \<lparr> mf_family = fam \<rparr> T)"
  let ?n = "limit_get (from_requested (ml_limit q))"
  have "read_models rank fam q T after =
      Some (take ?n ?rest, if length ?rest \<le> ?n then None else Some (ms_slug (?rest ! (?n - 1))))"
    unfolding read_models_def by (rule model_pages.page_facts(1) [OF assms(1) requested_limit(1) [OF assms(3)] requested_limit(2)])
  with assms(4) have k: "?n < length ?rest" "k = ms_slug (?rest ! (?n - 1))" by (auto split: if_splits)
  then have "?rest ! (?n - 1) \<in> set ?rest" by (intro nth_mem) linarith
  then have "?rest ! (?n - 1) \<in> set (models_in_order rank \<lparr> mf_family = fam \<rparr> T)" by simp
  from models_in_order_slugs [OF assms(1) this] assms(2) k(2) show ?thesis by (simp add: cursor_ok_def)
qed

lemma follow_models:
  assumes "cursor_libs_ok L" and "\<And>j. models_ok rank (T j)" and "\<And>j. short_slugs (T j)"
    and "\<And>j. resolve_family parse (family_id no_read_faults (T j)) (ml_family q) inst = Inr fam"
    and "ml_limit q \<noteq> Some 0"
  shows "follow (\<lambda>j. ask_models L parse rank inst q (T j)) i None =
     map_option (map model_json) (follow (\<lambda>j. read_models rank fam q (T j)) i None)"
proof -
  have "follow (\<lambda>j. ask_models L parse rank inst q (T j)) i (map_option (slug_cursor L q) None) =
      map_option (map model_json) (follow (\<lambda>j. read_models rank fam q (T j)) i None)"
  proof (rule follow_simulation [where P = cursor_ok])
    show "cursor_ok None" by (simp add: cursor_ok_def)
    show "ask_models L parse rank inst q (T j) (map_option (slug_cursor L q) c) =
        map_option (\<lambda>(items, next). (map model_json items, map_option (slug_cursor L q) next))
          (read_models rank fam q (T j) c)" if "cursor_ok c" for j c
      unfolding read_models_def by (rule ask_models_refines [OF assms(1) that assms(4)])
    show "cursor_ok (Some k)" if "cursor_ok c" "read_models rank fam q (T j) c = Some (items, Some k)" for j c items k
      using read_models_next [OF assms(2,3,5) that(2)] .
  qed
  then show ?thesis by simp
qed


lemma models_walk_complete:
  assumes "cursor_libs_ok L" and "models_ok rank T" and "short_slugs T"
    and "resolve_family parse (family_id no_read_faults T) (ml_family q) inst = Inr fam"
    and "ml_limit q \<noteq> Some 0"
  shows "follow (\<lambda>_. ask_models L parse rank inst q T) i None =
     Some (map model_json (models_in_order rank \<lparr> mf_family = fam \<rparr> T))"
proof -
  have "follow (\<lambda>_. read_models rank fam q T) i None = Some (models_in_order rank \<lparr> mf_family = fam \<rparr> T)"
    using model_pages.follow_complete [OF assms(2) requested_limit(1) [OF assms(5)] requested_limit(2), of "\<lparr> mf_family = fam \<rparr>" i None]
    by (simp add: read_models_def [abs_def])
  with follow_models [of L rank "\<lambda>_. T" parse q inst fam i] assms show ?thesis by simp
qed


text \<open>
  C13: when models are added and removed between the pages, a client that reaches the end has read no model
  twice, all in slug order, and every model that was there throughout.
\<close>

theorem models_walk_consistent:
  assumes "cursor_libs_ok L" and "\<And>j. models_ok rank (T j) \<and> short_slugs (T j)"
    and "\<And>j. resolve_family parse (family_id no_read_faults (T j)) (ml_family q) inst = Inr fam"
    and "ml_limit q \<noteq> Some 0"
    and "follow (\<lambda>j. ask_models L parse rank inst q (T j)) i None = Some out"
  shows "\<exists>ms. out = map model_json ms \<and> sorted_wrt (\<lambda>a b. slug_below rank (ms_slug a) (ms_slug b)) ms \<and>
     {m. \<forall>j. m \<in> set (models_in_order rank \<lparr> mf_family = fam \<rparr> (T j))} \<subseteq> set ms"
proof -
  from assms(5) follow_models [of L rank T parse q inst fam i] assms(1-4) obtain ms where
    ms: "follow (\<lambda>j. read_models rank fam q (T j)) i None = Some ms" "out = map model_json ms" by auto
  have "sorted_wrt (\<lambda>a b. slug_below rank (ms_slug a) (ms_slug b)) ms \<and>
     (\<forall>r \<in> set ms. beyond (slug_below rank) ms_slug None r) \<and>
     {m. (\<forall>j. m \<in> set (models_in_order rank \<lparr> mf_family = fam \<rparr> (T j))) \<and> beyond (slug_below rank) ms_slug None m} \<subseteq> set ms"
    by (rule model_pages.follow_changing [OF _ requested_limit(1) [OF assms(4)] requested_limit(2) ms(1)])
      (use assms(2) in \<open>auto simp: read_models_def fun_eq_iff\<close>)
  with ms(2) show ?thesis by auto
qed

text \<open>
  the schema bounds no slug, but the decoder bounds the cursor: when a page ends on a slug of more than
  314 bytes and more models follow, the cursor the service has just issued is refused and the
  client cannot read on.
\<close>

theorem long_slug_ends_walk:
  assumes "cursor_libs_ok L" and "models_ok rank T"
    and "resolve_family parse (family_id no_read_faults T) (ml_family q) inst = Inr fam"
    and "rows = models_in_order rank \<lparr> mf_family = fam \<rparr> T" and "n = limit_get (from_requested (ml_limit q))"
    and "0 < n" and "n < length rows" and "length (slug_text (ms_slug (rows ! (n - 1)))) > MAX_CURSOR_SLUG"
  shows "follow (\<lambda>_. ask_models L parse rank inst q T) i None = None"
proof -
  let ?s = "ms_slug (rows ! (n - 1))"
  have "ask_page (list_models rank no_read_faults \<lparr> mf_family = fam \<rparr> T (from_requested (ml_limit q)) None) =
      Some (take n rows, Some ?s)"
    using model_pages.page_facts(1) [OF assms(2) _ requested_limit(2), of q "\<lparr> mf_family = fam \<rparr>" None] assms(4-7) by simp
  with ask_models_refines [where rank = rank and after = None, OF assms(1) _ assms(3)] have
    first: "ask_models L parse rank inst q T None = Some (map model_json (take n rows), Some (slug_cursor L q ?s))"
    by (simp add: cursor_ok_def)
  have "rows ! (n - 1) \<in> set rows" using assms(6,7) by simp
  with assms(2,4) have "valid_slug (slug_text ?s)" using models_in_order_slugs(1) by blast
  with decode_slug_cursor [OF assms(1) this, of q] assms(8)
  have "into_page_request L parse \<lparr> lq_limit = ml_limit q, lq_cursor = Some (slug_cursor L q ?s) \<rparr>
      (model_fingerprint L (ml_family q)) inst = Inl (ApiProblem_new parse ValidationFailedProblem inst)"
    by (simp add: into_page_request_def)
  with assms(3) have "ask_models L parse rank inst q T (Some (slug_cursor L q ?s)) = None"
    by (simp add: ask_models_def list_models_route_def ApiQuery_from_request_def Let_def refused_fold)
  then have "follow (\<lambda>_. ask_models L parse rank inst q T) (Suc i) (Some (slug_cursor L q ?s)) = None"
    by (subst follow.simps) simp
  with first show ?thesis by (simp add: follow_more)
qed

subsection \<open>Examples\<close>

definition sample_model :: "string \<Rightarrow> model_row" where
  "sample_model s = \<lparr> mr_slug = s, mr_name = ''n'', mr_display_name = None, mr_family_id = 1, mr_series = None,
     mr_generation = None, mr_first_flight_year = Some 1939, mr_certification_year = None, mr_name_aliases = None,
     mr_description = None \<rparr>"

definition sample_tables :: "string list \<Rightarrow> catalog_tables" where
  "sample_tables slugs = \<lparr> models = map sample_model slugs,
     families = [\<lparr> fr_id = 1, fr_slug = ''f'', fr_name = ''F'', fr_common_name = None, fr_manufacturer_org_id = None,
       fr_country = None, fr_first_flight_year = None, fr_name_aliases = None, fr_description = None \<rparr>],
     organizations = [], lookups = (\<lambda>_. []) \<rparr>"

definition sample_query :: ModelListQuery where
  "sample_query = \<lparr> ml_sort = None, ml_family = Some ''f'', ml_limit = Some 1, ml_cursor = None \<rparr>"

lemma slug_word_valid: "slug_word w \<Longrightarrow> valid_slug w"
  unfolding valid_slug_iff slug_check_iff by (intro exI [of _ "[w]"]) simp

lemma sample_words: "slug_word (replicate (Suc n) (CHR ''a''))"
  by (simp add: slug_word_def list_all_iff byte_class_defs)

lemma sample_family: "resolve_family parse (family_id no_read_faults (sample_tables slugs)) (ml_family sample_query) inst =
    Inr (Some (FamilyId 1))"
proof -
  have "valid_slug ''f''" by (rule slug_word_valid) (simp add: slug_word_def byte_class_defs)
  then show ?thesis
    by (simp add: resolve_family_def sample_query_def Slug_try_from_valid family_id_def sample_tables_def)
qed

lemma sample_models_ok:
  assumes "distinct (map length slugs)" and "list_all slug_word slugs"
  shows "models_ok length (sample_tables slugs)"
proof -
  have "valid_slug ''f''" by (rule slug_word_valid) (simp add: slug_word_def byte_class_defs)
  with assms show ?thesis
    by (auto simp: models_ok_def sample_tables_def sample_model_def list_all_iff comp_def family_slug_def slug_word_valid)
qed

lemma sample_limit: "ml_limit sample_query \<noteq> Some 0"
  by (simp add: sample_query_def)

abbreviation sample_slugs :: "string list" where
  "sample_slugs \<equiv> [replicate 2 (CHR ''a''), replicate 1 (CHR ''a'')]"

lemma sample_slugs_ok: "models_ok length (sample_tables sample_slugs)" "short_slugs (sample_tables sample_slugs)"
proof -
  show "models_ok length (sample_tables sample_slugs)"
    using sample_words [of 0] sample_words [of 1] by (intro sample_models_ok) (simp_all add: numeral_eq_Suc)
qed (simp add: short_slugs_def sample_tables_def sample_model_def MAX_CURSOR_SLUG_def)



lemma models_walk_consistent_witness:
  "\<exists>ms. sorted_wrt (\<lambda>a b. slug_below length (ms_slug a) (ms_slug b)) ms \<and>
     set (models_in_order length \<lparr> mf_family = Some (FamilyId 1) \<rparr> (sample_tables sample_slugs)) \<subseteq> set ms"
proof -
  obtain out where "follow (\<lambda>_. ask_models sample_cursor_libs (\<lambda>_. None) length ''/v1/models'' sample_query
      (sample_tables sample_slugs)) 0 None = Some out"
    using models_walk_complete [OF sample_cursor_libs_ok sample_slugs_ok sample_family sample_limit] by blast
  from models_walk_consistent [OF sample_cursor_libs_ok _ sample_family sample_limit this] sample_slugs_ok
  show ?thesis by auto
qed

lemma long_slug_ends_walk_witness:
  "follow (\<lambda>_. ask_models sample_cursor_libs (\<lambda>_. None) length ''/v1/models'' sample_query
     (sample_tables [replicate 315 (CHR ''a''), replicate 316 (CHR ''a'')])) 0 None = None"
proof -
  let ?T = "sample_tables [replicate 315 (CHR ''a''), replicate 316 (CHR ''a'')]"
  have ok: "models_ok length ?T"
    using sample_words [of 314] sample_words [of 315] by (intro sample_models_ok) simp_all
  have one: "limit_get (from_requested (ml_limit sample_query)) = 1"
    by (simp add: from_requested_def sample_query_def MAX_LIMIT_def)
  have "models_in_order length \<lparr> mf_family = Some (FamilyId 1) \<rparr> ?T =
      map (summary_of_model ?T) [sample_model (replicate 315 (CHR ''a'')), sample_model (replicate 316 (CHR ''a''))]"
    by (simp add: models_in_order_def sample_tables_def sample_model_def)
  then show ?thesis
    by (intro long_slug_ends_walk [OF sample_cursor_libs_ok ok sample_family refl one [symmetric]])
      (simp_all add: summary_of_model_def sample_model_def MAX_CURSOR_SLUG_def)
qed

end
