(* ===== verification/Reference_Guarantees.thy ===== *)
theory Reference_Guarantees
  imports Catalog_Routes Source_Text_Facts "HOL-Library.Multiset"
begin

text \<open>
  What the reference-catalog route promises: a served catalog is whole and in a fixed order, and its
  validator revalidates exactly what was sent.
\<close>

subsection \<open>Whole catalogs\<close>

definition entry_of :: "Catalog \<Rightarrow> lookup_row \<Rightarrow> CatalogEntry" where
  "entry_of c r =
     \<lparr> ce_code = lk_code r, ce_label = lk_label r,
       ce_description = (if st_describes (statement c) then lk_description r else None) \<rparr>"

lemma guarded_read_Inr: "guarded_read F c v = Inr w \<Longrightarrow> w = v"
  by (auto simp: guarded_read_def split: option.splits)

lemma catalog_entry_Inr: "catalog_entry F (statement c) r = Inr e \<Longrightarrow> e = entry_of c r"
  by (auto simp: catalog_entry_def and_then_Inr_iff entry_of_def dest!: guarded_read_Inr)

text \<open>The rows a catalog's statement is about, and the order it puts them in.\<close>

definition active_rows :: "catalog_tables \<Rightarrow> Catalog \<Rightarrow> lookup_row list" where
  "active_rows T c = filter (\<lambda>r. \<not> st_active_only (statement c) \<or> lk_is_active r) (lookups T c)"

definition entry_before :: "(string \<Rightarrow> 'o::linorder) \<Rightarrow> Catalog \<Rightarrow> lookup_row \<Rightarrow> lookup_row \<Rightarrow> bool" where
  "entry_before rank c a b \<longleftrightarrow>
     (if st_sorted (statement c) \<and> lk_sort_order a \<noteq> lk_sort_order b then lk_sort_order a < lk_sort_order b
      else rank (lk_code a) \<le> rank (lk_code b))"

lemma insort_key_lex:
  assumes "sorted_wrt (\<lambda>a b. f a < f b \<or> f a = f b \<and> P a b) xs" and "\<And>y. y \<in> set xs \<Longrightarrow> P x y"
  shows "sorted_wrt (\<lambda>a b. f a < f b \<or> f a = f b \<and> P a b) (insort_key f x xs)"
  using assms by (induction xs) (auto simp: set_insort_key)

lemma sort_key_lex:
  assumes "sorted_wrt P xs"
  shows "sorted_wrt (\<lambda>a b. f a < f b \<or> f a = f b \<and> P a b) (sort_key f xs)"
  using assms
proof (induction xs)
  case (Cons x xs)
  then show ?case by (auto intro!: insort_key_lex)
qed simp

definition ordered_rows :: "(string \<Rightarrow> 'o::linorder) \<Rightarrow> Catalog \<Rightarrow> lookup_row list \<Rightarrow> lookup_row list" where
  "ordered_rows rank c rs =
     (let by_code = sort_key (\<lambda>r. rank (lk_code r)) rs
      in if st_sorted (statement c) then sort_key lk_sort_order by_code else by_code)"

lemma sorted_ordered_rows: "sorted_wrt (entry_before rank c) (ordered_rows rank c rs)"
proof -
  have codes: "sorted_wrt (\<lambda>a b. rank (lk_code a) \<le> rank (lk_code b)) (sort_key (\<lambda>r. rank (lk_code r)) rs)"
    using sorted_sort_key [of "\<lambda>r. rank (lk_code r)" rs] by (simp add: sorted_wrt_map)
  show ?thesis
  proof (cases "st_sorted (statement c)")
    case True
    have "sorted_wrt (\<lambda>a b. lk_sort_order a < lk_sort_order b \<or>
        lk_sort_order a = lk_sort_order b \<and> rank (lk_code a) \<le> rank (lk_code b)) (ordered_rows rank c rs)"
      using sort_key_lex [OF codes, of lk_sort_order] True by (simp add: ordered_rows_def)
    then show ?thesis using True by (rule_tac sorted_wrt_mono_rel) (auto simp: entry_before_def)
  next
    case False
    with codes show ?thesis by (simp add: ordered_rows_def entry_before_def [abs_def])
  qed
qed

lemma mset_ordered_rows: "mset (ordered_rows rank c rs) = mset rs"
  by (simp add: ordered_rows_def Let_def)

lemma select_entries_eq:
  "select_entries rank (statement c) (lookups T c) n = take n (ordered_rows rank c (active_rows T c))"
  by (auto simp: select_entries_def ordered_rows_def active_rows_def Let_def)

text \<open>
  C30: a catalog is never served short or out of order: when its read succeeds the entries are those of all
  of its active rows, at most a thousand, in the order of \<open>sort_order\<close> and \<open>code\<close>; a longer one is refused.
\<close>

theorem catalog_never_truncated:
  assumes "entries rank F T c = Inr es"
  shows "\<exists>rows. es = map (entry_of c) rows \<and> mset rows = mset (active_rows T c) \<and>
     sorted_wrt (entry_before rank c) rows \<and> length es \<le> MAX_CATALOG_ROWS"
proof -
  let ?rows = "ordered_rows rank c (active_rows T c)"
  have size: "length ?rows = length (active_rows T c)"
    using mset_ordered_rows [of rank c "active_rows T c"] by (metis size_mset)
  from assms obtain rows where rows: "rows = take (MAX_CATALOG_ROWS + 1) ?rows" "length rows \<le> MAX_CATALOG_ROWS"
      "collect_results (map (catalog_entry F (statement c)) rows) = Inr es"
    by (auto simp: entries_def and_then_Inr_iff select_entries_eq split: if_splits dest!: guarded_read_Inr)
  from rows(1,2) have "rows = ?rows" by (auto simp: min_def split: if_splits)
  moreover have "es = map (entry_of c) rows"
    using rows(3)
  proof (induction rows arbitrary: es)
    case (Cons r rs)
    then show ?case by (auto simp: and_then_Inr_iff dest: catalog_entry_Inr)
  qed simp
  ultimately show ?thesis
    using rows(2) mset_ordered_rows [of rank c "active_rows T c"] sorted_ordered_rows [of rank c "active_rows T c"]
    by (intro exI [of _ rows]) simp
qed

subsection \<open>Revalidation\<close>

definition catalog_body :: "cursor_libs \<Rightarrow> CatalogEntry list \<Rightarrow> string" where
  "catalog_body L es = to_vec L (JArray (map (entry_json \<circ> CatalogEntryResponse_from) es))"

lemma entity_tag_word: "trimmed_word (entity_tag L body)" "CHR '','' \<notin> set (entity_tag L body)"
  "entity_tag L body \<noteq> ''*''" "strip_prefix ''W/'' (entity_tag L body) = None"
proof -
  have hex: "c \<noteq> CHR '',''" if "c \<in> set (hex_digest s)" for c s
    using hex_digest_lower [of s] that by (auto simp: list_all_iff is_lower_hex_def is_ascii_digit_def)
  show "CHR '','' \<notin> set (entity_tag L body)" using hex by (auto simp: entity_tag_def)
qed (simp_all add: trimmed_word_def entity_tag_def is_ascii_graphic_def strip_prefix_def starts_with_def)

lemma matches_own_tag:
  assumes "header_values ''if-none-match'' rq = [entity_tag L a]" and "header_text (entity_tag L a) = Some (entity_tag L a)"
  shows "if_none_match_matches header_text rq (entity_tag L b) \<longleftrightarrow> cu_sha256 L a = cu_sha256 L b"
proof -
  have "map trim (take MAX_VALIDATORS (split_char (CHR '','') (entity_tag L a))) = [entity_tag L a]"
    using entity_tag_word [of L a] by (simp add: split_char_none MAX_VALIDATORS_def)
  then show ?thesis
    using assms entity_tag_word(3,4) [of L a]
    by (simp add: if_none_match_matches_def map_filter_def) (auto simp: entity_tag_def hex_digest_inj)
qed

text \<open>
  a client that sends back the validator of a served catalog is told \<open>304\<close> exactly when the catalog's
  bytes still have the digest of the bytes it was sent, and otherwise gets the new bytes.
\<close>

theorem catalog_revalidation:
  assumes "Catalog_try_from name = Inr c" and "read c = Inr es" and "read' c = Inr es'"
    and "resp_status (catalog_route L header_text parse read inst name rq) = 200"
    and "header_values ''if-none-match'' rq' = map snd (filter (\<lambda>(n, _). n = ''etag'')
       (resp_headers (catalog_route L header_text parse read inst name rq)))"
    and "\<And>s. list_all is_ascii_graphic s \<Longrightarrow> header_text s = Some s"
  shows "catalog_route L header_text parse read' inst name rq' =
     (if cu_sha256 L (catalog_body L es) = cu_sha256 L (catalog_body L es')
      then \<lparr> resp_status = 304, resp_headers = [(''etag'', entity_tag L (catalog_body L es')),
              (''cache-control'', ''private, no-cache'')], resp_body = None \<rparr>
      else \<lparr> resp_status = 200, resp_headers = [(''etag'', entity_tag L (catalog_body L es')),
              (''cache-control'', ''private, no-cache''), (''content-type'', ''application/json'')],
              resp_body = Some (JArray (map (entry_json \<circ> CatalogEntryResponse_from) es')) \<rparr>)"
proof -
  have "header_values ''if-none-match'' rq' = [entity_tag L (catalog_body L es)]"
    using assms(1,2,4,5) by (auto simp: catalog_route_def catalog_body_def Let_def split: if_splits)
  moreover have "list_all is_ascii_graphic (entity_tag L body)" for body
    using hex_digest_lower [of "cu_sha256 L body"]
    by (auto simp: entity_tag_def list_all_iff is_lower_hex_def is_ascii_graphic_def is_ascii_digit_def)
  then have "header_text (entity_tag L (catalog_body L es)) = Some (entity_tag L (catalog_body L es))"
    by (rule assms(6))
  ultimately have "if_none_match_matches header_text rq' (entity_tag L (catalog_body L es')) \<longleftrightarrow>
      cu_sha256 L (catalog_body L es) = cu_sha256 L (catalog_body L es')"
    by (rule matches_own_tag)
  then show ?thesis
    using assms(1,3) by (simp add: catalog_route_def catalog_body_def Let_def CATALOG_CACHE_CONTROL_def)
qed

subsection \<open>Examples\<close>

definition sample_lookups :: catalog_tables where
  "sample_lookups = \<lparr> models = [], families = [], organizations = [], lookups = (\<lambda>_.
     [\<lparr> lk_code = ''BB'', lk_label = ''b'', lk_description = None, lk_sort_order = 1, lk_is_active = True \<rparr>,
      \<lparr> lk_code = ''A'', lk_label = ''a'', lk_description = None, lk_sort_order = 1, lk_is_active = True \<rparr>,
      \<lparr> lk_code = ''C'', lk_label = ''c'', lk_description = None, lk_sort_order = 0, lk_is_active = False \<rparr>]) \<rparr>"

lemma catalog_never_truncated_witness:
  "\<exists>rows. mset rows = mset (active_rows sample_lookups FuelTypes) \<and> length rows = 2"
proof -
  have "\<exists>es. entries length no_read_faults sample_lookups FuelTypes = Inr es \<and> length es = 2"
    by (simp add: entries_def sample_lookups_def statement_def select_entries_def Let_def MAX_CATALOG_ROWS_def
        catalog_entry_def)
  then obtain es where es: "entries length no_read_faults sample_lookups FuelTypes = Inr es" "length es = 2" by blast
  from catalog_never_truncated [OF es(1)] es(2) show ?thesis by auto
qed

definition sample_get :: "(string \<times> string) list \<Rightarrow> http_request" where
  "sample_get headers = \<lparr> rq_method = GET, rq_path = ''/v1/reference/fuel-types'', rq_original = None,
     rq_headers = headers, rq_body = [], rq_principal = None \<rparr>"

lemma catalog_revalidation_witness:
  "resp_status (catalog_route sample_cursor_libs Some (\<lambda>_. None) (\<lambda>_. Inr []) ''/v1/reference/fuel-types'' ''fuel-types''
     (sample_get [(''if-none-match'', entity_tag sample_cursor_libs (catalog_body sample_cursor_libs []))])) = 304"
proof -
  have name: "Catalog_try_from ''fuel-types'' = Inr FuelTypes"
    by (simp add: Catalog_try_from_def catalog.lookup_Inr_iff)
  have first: "resp_status (catalog_route sample_cursor_libs Some (\<lambda>_. None) (\<lambda>_. Inr []) inst ''fuel-types'' (sample_get [])) = 200"
    "map snd (filter (\<lambda>(n, _). n = ''etag'') (resp_headers (catalog_route sample_cursor_libs Some (\<lambda>_. None) (\<lambda>_. Inr []) inst
        ''fuel-types'' (sample_get [])))) = [entity_tag sample_cursor_libs (catalog_body sample_cursor_libs [])]" for inst
    by (simp_all add: catalog_route_def name Let_def if_none_match_matches_def header_values_def sample_get_def
        catalog_body_def map_filter_def)
  show ?thesis
    by (subst catalog_revalidation [where es = "[]" and es' = "[]" and read = "\<lambda>_. Inr []" and read' = "\<lambda>_. Inr []" and
          rq = "sample_get []", OF name refl refl first(1)])
      (simp_all add: first(2), simp add: header_values_def sample_get_def)
qed

end
