(* ===== verification/Rate_Limit.thy ===== *)
theory Rate_Limit
  imports Rust_Str "HOL-Library.AList"
begin

text \<open>
  \<open>aircraft_api::rate_limit\<close>: the token buckets of one replica. Instants are nanoseconds, tokens are
  counted in thousandths, and the saturating \<open>u64\<close> operations are written out. The bucket map is an
  association list; the code's order of traversal never matters. The rate guarantee is proved once
  for any metered account (locale \<open>credit_meter\<close>) and obtained for the limiter by interpretation.
\<close>

subsection \<open>Quotas and policy\<close>

definition TOKENS_PER_UNIT :: nat where "TOKENS_PER_UNIT = 1000"
definition RETRY_AFTER_SECONDS :: nat where "RETRY_AFTER_SECONDS = 1"
definition NANOS_PER_MS :: nat where "NANOS_PER_MS = 1000000"

definition saturating :: "nat \<Rightarrow> nat" where
  "saturating n = min u64_max n"

record Quota =
  capacity :: nat
  refill_per_second :: nat

datatype InvalidQuota = InvalidQuota

definition Quota_new :: "nat \<Rightarrow> nat \<Rightarrow> InvalidQuota + Quota" where
  "Quota_new cap rate =
     (if cap = 0 then Inl InvalidQuota
      else if rate = 0 then Inl InvalidQuota
      else Inr \<lparr> capacity = cap, refill_per_second = rate \<rparr>)"

definition capacity_units :: "Quota \<Rightarrow> nat" where
  "capacity_units q = saturating (capacity q * TOKENS_PER_UNIT)"

datatype InvalidPolicy = BucketCeiling | TierOverride nat

record RateLimitPolicy =
  default_quota :: Quota
  tiers :: "string \<rightharpoonup> Quota"
  max_buckets :: nat

text \<open>One \<open>CODE:capacity:refill\<close> entry; every way of being malformed is the same refusal.\<close>

definition override_entry :: "string \<Rightarrow> (string \<times> Quota) option" where
  "override_entry entry =
     (case split_char (CHR '':'') entry of
        [code, cap, rate] \<Rightarrow>
          Option.bind (parse_unsigned u32_max cap) (\<lambda>c.
          Option.bind (parse_unsigned u32_max rate) (\<lambda>r.
            case Quota_new (nat c) (nat r) of
              Inl _ \<Rightarrow> None
            | Inr q \<Rightarrow> if code = [] then None else Some (code, q)))
      | _ \<Rightarrow> None)"

fun read_overrides :: "nat \<Rightarrow> string list \<Rightarrow> (string \<rightharpoonup> Quota) \<Rightarrow> InvalidPolicy + (string \<rightharpoonup> Quota)" where
  "read_overrides index [] m = Inr m"
| "read_overrides index (entry # rest) m =
     (case override_entry entry of
        None \<Rightarrow> Inl (TierOverride (index + 1))
      | Some (code, q) \<Rightarrow>
          if m code \<noteq> None then Inl (TierOverride (index + 1))
          else read_overrides (index + 1) rest (m(code \<mapsto> q)))"

definition RateLimitPolicy_new :: "Quota \<Rightarrow> nat \<Rightarrow> string list \<Rightarrow> InvalidPolicy + RateLimitPolicy" where
  "RateLimitPolicy_new fallback ceiling overrides =
     (if ceiling = 0 then Inl BucketCeiling
      else (case read_overrides 0 overrides Map.empty of
              Inl e \<Rightarrow> Inl e
            | Inr m \<Rightarrow> Inr \<lparr> default_quota = fallback, tiers = m, max_buckets = ceiling \<rparr>))"

definition quota_for :: "RateLimitPolicy \<Rightarrow> string \<Rightarrow> Quota" where
  "quota_for P tier = (case tiers P tier of None \<Rightarrow> default_quota P | Some q \<Rightarrow> q)"

subsection \<open>Buckets\<close>

type_synonym instant = nat

record Bucket =
  units :: nat
  last_seen :: instant
  quota :: Quota

definition elapsed_ms :: "Bucket \<Rightarrow> instant \<Rightarrow> nat" where
  "elapsed_ms b now = saturating ((now - last_seen b) div NANOS_PER_MS)"

definition earned :: "Bucket \<Rightarrow> nat \<Rightarrow> nat" where
  "earned b ms = saturating (ms * refill_per_second (quota b))"

definition refill :: "Quota \<Rightarrow> instant \<Rightarrow> Bucket \<Rightarrow> Bucket" where
  "refill q now b =
     (let b' = b \<lparr> quota := q \<rparr>; ms = elapsed_ms b' now in
      b' \<lparr> units := min (saturating (units b' + earned b' ms)) (capacity_units q),
           last_seen := last_seen b' + ms * NANOS_PER_MS \<rparr>)"

definition is_full_at :: "Bucket \<Rightarrow> instant \<Rightarrow> bool" where
  "is_full_at b now \<longleftrightarrow>
     saturating (units b + earned b (elapsed_ms b now)) \<ge> capacity_units (quota b)"

subsection \<open>The limiter\<close>

datatype Admission = Admitted | Refused nat | Saturated

type_synonym buckets = "(int \<times> Bucket) list"

record RateLimiter =
  policy :: RateLimitPolicy
  buckets :: buckets

definition RateLimiter_new :: "RateLimitPolicy \<Rightarrow> RateLimiter" where
  "RateLimiter_new P = \<lparr> policy = P, buckets = [] \<rparr>"

text \<open>The part of \<open>spend\<close> after admission control: the bucket, created full when absent, is
  refilled and charged.\<close>

definition charge :: "buckets \<Rightarrow> int \<Rightarrow> Quota \<Rightarrow> instant \<Rightarrow> buckets \<times> Admission" where
  "charge bs p q now =
     (let b = (case map_of bs p of
                 Some b \<Rightarrow> b
               | None \<Rightarrow> \<lparr> units = capacity_units q, last_seen = now, quota = q \<rparr>);
          b' = refill q now b
      in if units b' < TOKENS_PER_UNIT then (AList.update p b' bs, Refused RETRY_AFTER_SECONDS)
         else (AList.update p (b' \<lparr> units := units b' - TOKENS_PER_UNIT \<rparr>) bs, Admitted))"

definition sweep :: "instant \<Rightarrow> buckets \<Rightarrow> buckets" where
  "sweep now bs = filter (\<lambda>(_, b). \<not> is_full_at b now) bs"

definition spend :: "nat \<Rightarrow> buckets \<Rightarrow> int \<Rightarrow> Quota \<Rightarrow> instant \<Rightarrow> buckets \<times> Admission" where
  "spend ceiling bs p q now =
     (if length bs \<ge> ceiling \<and> map_of bs p = None
      then (let bs' = sweep now bs in
            if length bs' \<ge> ceiling then (bs', Saturated) else charge bs' p q now)
      else charge bs p q now)"

definition admit :: "RateLimiter \<Rightarrow> int \<Rightarrow> string \<Rightarrow> instant \<Rightarrow> RateLimiter \<times> Admission" where
  "admit L p tier now =
     (case spend (max_buckets (policy L)) (buckets L) p (quota_for (policy L) tier) now of
        (bs, a) \<Rightarrow> (L \<lparr> buckets := bs \<rparr>, a))"

subsection \<open>The policy a configuration builds\<close>

lemma read_overrides_Inr:
  "read_overrides i os m = Inr m' \<longleftrightarrow>
     (\<exists>kqs. map override_entry os = map Some kqs \<and> distinct (map fst kqs) \<and>
        (\<forall>k \<in> fst ` set kqs. m k = None) \<and> m' = m ++ map_of kqs)"
proof (induction os arbitrary: i m)
  case (Cons entry os)
  show ?case
  proof (cases "override_entry entry")
    case (Some kq)
    obtain k q where kq: "kq = (k, q)" by fastforce
    have split: "(\<exists>kqs. map override_entry (entry # os) = map Some kqs \<and> P kqs) \<longleftrightarrow>
        (\<exists>rest. map override_entry os = map Some rest \<and> P (kq # rest))" for P
      using Some kq by (auto simp: Cons_eq_map_conv)
    have upd: "m(k \<mapsto> q) ++ map_of rest = m ++ map_of ((k, q) # rest)"
      if "k \<notin> fst ` set rest" for rest
      using that by (simp add: map_add_upd_left dom_map_of_conv_image_fst)
    have none: "(\<forall>c \<in> S. (m(k \<mapsto> q)) c = None) \<longleftrightarrow> k \<notin> S \<and> (\<forall>c \<in> S. m c = None)" for S
      by auto
    have each: "(distinct (map fst rest) \<and> (\<forall>c \<in> fst ` set rest. (m(k \<mapsto> q)) c = None) \<and>
          m' = m(k \<mapsto> q) ++ map_of rest) \<and> m k = None \<longleftrightarrow>
        distinct (map fst (kq # rest)) \<and> (\<forall>c \<in> fst ` set (kq # rest). m c = None) \<and>
          m' = m ++ map_of (kq # rest)" for rest
    proof (cases "k \<in> fst ` set rest")
      case True
      then show ?thesis unfolding none by (simp add: kq)
    next
      case False
      then show ?thesis unfolding none kq by (auto simp: upd [OF False])
    qed
    show ?thesis unfolding split each [symmetric] using Some kq
      by (auto simp: Cons.IH simp del: fun_upd_apply)
  qed (auto simp: Cons_eq_map_conv)
qed auto

text \<open>
  a configuration is accepted exactly when the ceiling is not zero, every override entry is well
  formed and no code repeats; the policy then holds just those entries, so that every other
  tier has the default quota.
\<close>

theorem policy_accepted_iff:
  "RateLimitPolicy_new fallback ceiling overrides = Inr P \<longleftrightarrow>
     ceiling \<noteq> 0 \<and>
     (\<exists>entries. map override_entry overrides = map Some entries \<and> distinct (map fst entries) \<and>
        P = \<lparr> default_quota = fallback, tiers = map_of entries, max_buckets = ceiling \<rparr>)"
proof (cases "read_overrides 0 overrides Map.empty")
  case (Inl e)
  then have "\<nexists>kqs. map override_entry overrides = map Some kqs \<and> distinct (map fst kqs)"
    using read_overrides_Inr [of 0 overrides Map.empty] by auto
  with Inl show ?thesis by (auto simp: RateLimitPolicy_new_def)
next
  case (Inr m)
  then obtain entries where e: "map override_entry overrides = map Some entries"
    "distinct (map fst entries)" "m = map_of entries"
    using read_overrides_Inr [of 0 overrides Map.empty m] by auto
  have same: "entries' = entries" if "map override_entry overrides = map Some entries'" for entries'
  proof -
    have "map Some entries' = map Some entries" using that e(1) by (simp only:)
    then show ?thesis by (simp add: inj_map_eq_map)
  qed
  have "RateLimitPolicy_new fallback ceiling overrides = Inr P \<longleftrightarrow> ceiling \<noteq> 0 \<and>
      P = \<lparr> default_quota = fallback, tiers = map_of entries, max_buckets = ceiling \<rparr>"
    using Inr e(3) by (auto simp: RateLimitPolicy_new_def)
  with e(1,2) same show ?thesis by metis
qed

subsection \<open>Metered accounts\<close>

text \<open>
  An account whose credit grows at no more than \<open>rate\<close> per unit of time, is not raised by any event
  and is charged \<open>price\<close> by each event that spends: over any stretch of time it spends no more than
  the credit it had and what time has added.
\<close>

locale credit_meter =
  fixes step :: "'s \<Rightarrow> 'e \<Rightarrow> 's"
    and time :: "'e \<Rightarrow> nat"
    and valid :: "'s \<Rightarrow> 'e \<Rightarrow> bool"
    and ok :: "'s \<Rightarrow> bool"
    and spends :: "'s \<Rightarrow> 'e \<Rightarrow> bool"
    and credit :: "'s \<Rightarrow> nat \<Rightarrow> nat"
    and price :: nat
    and rate :: nat
  assumes ok_step: "ok s \<Longrightarrow> valid s e \<Longrightarrow> ok (step s e)"
    and valid_step: "valid s e \<Longrightarrow> valid s e' \<Longrightarrow> valid (step s e) e'"
    and accrue: "ok s \<Longrightarrow> t \<le> t' \<Longrightarrow> credit s t' \<le> credit s t + (t' - t) * rate"
    and spent: "ok s \<Longrightarrow> valid s e \<Longrightarrow> spends s e \<Longrightarrow> credit (step s e) (time e) + price \<le> credit s (time e)"
    and kept: "ok s \<Longrightarrow> valid s e \<Longrightarrow> credit (step s e) (time e) \<le> credit s (time e)"
begin

primrec spendings :: "'s \<Rightarrow> 'e list \<Rightarrow> nat" where
  "spendings s [] = 0"
| "spendings s (e # es) = (if spends s e then 1 else 0) + spendings (step s e) es"

lemma spending_bounded:
  assumes "ok s" and "\<forall>e \<in> set es. valid s e" and "sorted (map time es)" and "\<forall>e \<in> set es. start \<le> time e \<and> time e \<le> stop"
    and "start \<le> stop"
  shows "price * spendings s es \<le> credit s start + (stop - start) * rate"
  using assms
proof (induction es arbitrary: s start)
  case (Cons e es)
  let ?s = "step s e" and ?t = "time e"
  have t: "start \<le> ?t" "?t \<le> stop" using Cons.prems by auto
  have v: "valid s e" using Cons.prems by simp
  have "price * spendings ?s es \<le> credit ?s ?t + (stop - ?t) * rate"
  proof (rule Cons.IH)
    show "ok ?s" using Cons.prems ok_step by simp
    show "\<forall>e' \<in> set es. valid ?s e'" using Cons.prems valid_step [OF v] by simp
    show "sorted (map time es)" "\<forall>e \<in> set es. ?t \<le> time e \<and> time e \<le> stop" "?t \<le> stop"
      using Cons.prems by auto
  qed
  moreover have "price * (if spends s e then 1 else 0) + credit ?s ?t \<le> credit s ?t"
    using spent [OF _ v] kept [OF _ v] Cons.prems(1) by (cases "spends s e") (auto simp: add.commute)
  moreover have "credit s ?t \<le> credit s start + (?t - start) * rate"
    using accrue Cons.prems(1) t by blast
  moreover have "(stop - ?t) * rate + (?t - start) * rate = (stop - start) * rate"
  proof -
    have "stop - start = (stop - ?t) + (?t - start)" using t by simp
    then show ?thesis by (simp only: add_mult_distrib)
  qed
  ultimately show ?case by (simp add: add_mult_distrib2)
qed simp

end

subsection \<open>The limiter is a meter of every principal\<close>

lemma saturating_le: "saturating n \<le> n" "saturating n \<le> u64_max"
  by (simp_all add: saturating_def)

lemma min_saturating [simp]: "min (saturating n) (capacity_units q) = min n (capacity_units q)"
  by (auto simp: saturating_def capacity_units_def min_def)

lemma saturating_ge: "saturating n \<ge> capacity_units q \<longleftrightarrow> n \<ge> capacity_units q"
  by (auto simp: saturating_def capacity_units_def)

text \<open>The ceiling of a bucket is reached with the earnings counted without saturation.\<close>

lemma earned_unsaturated:
  "min (u + earned b ms) (capacity_units q) = min (u + ms * refill_per_second (quota b)) (capacity_units q)"
  by (auto simp: earned_def saturating_def capacity_units_def min_def)

lemma earned_full:
  "u + earned b ms \<ge> capacity_units q \<longleftrightarrow> u + ms * refill_per_second (quota b) \<ge> capacity_units q"
  by (auto simp: earned_def saturating_def capacity_units_def)

text \<open>Instants whose milliseconds fit a \<open>u64\<close>.\<close>

definition max_instant :: instant where
  "max_instant = u64_max * NANOS_PER_MS"

lemma elapsed_ms_exact: "now \<le> max_instant \<Longrightarrow> elapsed_ms b now = (now - last_seen b) div NANOS_PER_MS"
proof -
  assume "now \<le> max_instant"
  then have "(now - last_seen b) div NANOS_PER_MS \<le> max_instant div NANOS_PER_MS"
    by (intro div_le_mono) simp
  then show ?thesis by (simp add: elapsed_ms_def saturating_def max_instant_def NANOS_PER_MS_def)
qed

text \<open>The credit of a bucket in billionths of a token: its units, what whole milliseconds have earned
  up to the capacity, and the fraction of a millisecond that is carried over.\<close>

definition bucket_credit :: "Quota \<Rightarrow> Bucket option \<Rightarrow> instant \<Rightarrow> nat" where
  "bucket_credit q b now =
     (case b of
        None \<Rightarrow> capacity_units q * NANOS_PER_MS
      | Some b \<Rightarrow>
          (let d = now - last_seen b in
           min (units b + d div NANOS_PER_MS * refill_per_second q) (capacity_units q) * NANOS_PER_MS +
           d mod NANOS_PER_MS * refill_per_second q))"

definition bucket_of_quota :: "Quota \<Rightarrow> Bucket option \<Rightarrow> bool" where
  "bucket_of_quota q b = (case b of None \<Rightarrow> True | Some b \<Rightarrow> quota b = q \<and> units b \<le> capacity_units q)"

lemma bucket_credit_accrue:
  assumes "t \<le> t'"
  shows "bucket_credit q b t' \<le> bucket_credit q b t + (t' - t) * refill_per_second q"
proof (cases b)
  case (Some x)
  let ?M = NANOS_PER_MS and ?r = "refill_per_second q" and ?C = "capacity_units q"
  define d d' k where "d = t - last_seen x" and "d' = t' - last_seen x" and "k = d' - d"
  have d': "d' = d + k" and k: "k \<le> t' - t" using assms by (auto simp: d_def d'_def k_def)
  have lin: "(units x + n div ?M * ?r) * ?M + n mod ?M * ?r = units x * ?M + n * ?r" for n
  proof -
    have "(units x + a * ?r) * ?M + c * ?r = units x * ?M + (a * ?M + c) * ?r" for a c
      by (simp add: algebra_simps)
    then show ?thesis by (simp only: div_mult_mod_eq)
  qed
  have "min (units x + d' div ?M * ?r) ?C * ?M + d' mod ?M * ?r \<le>
      min (units x + d div ?M * ?r) ?C * ?M + d mod ?M * ?r + k * ?r"
  proof (cases "units x + d div ?M * ?r \<le> ?C")
    case True
    have "min (units x + d' div ?M * ?r) ?C * ?M + d' mod ?M * ?r \<le> units x * ?M + d' * ?r"
      unfolding lin [symmetric] by (intro add_right_mono mult_right_mono) simp_all
    also have "\<dots> = units x * ?M + d * ?r + k * ?r" by (simp add: d' algebra_simps)
    also have "\<dots> = min (units x + d div ?M * ?r) ?C * ?M + d mod ?M * ?r + k * ?r"
      using True by (simp only: lin [symmetric] min_absorb1)
    finally show ?thesis .
  next
    case False
    have "d' mod ?M \<le> d mod ?M + k"
    proof -
      have "d' mod ?M = (d mod ?M + k) mod ?M" by (simp add: d' mod_simps)
      then show ?thesis by simp
    qed
    then have "d' mod ?M * ?r \<le> (d mod ?M + k) * ?r" by (rule mult_right_mono) simp
    then have "d' mod ?M * ?r \<le> d mod ?M * ?r + k * ?r" by (simp only: add_mult_distrib)
    moreover have "min (units x + d' div ?M * ?r) ?C * ?M \<le> min (units x + d div ?M * ?r) ?C * ?M"
      using False by (intro mult_right_mono) auto
    ultimately show ?thesis by linarith
  qed
  also have "k * ?r \<le> (t' - t) * ?r" using k by simp
  finally show ?thesis by (simp add: Some bucket_credit_def Let_def d_def d'_def)
qed (simp add: bucket_credit_def)

text \<open>What a request does to one account.\<close>

lemma refill_credit:
  assumes "now \<le> max_instant" and "bucket_of_quota q (Some b)"
  shows "bucket_credit q (Some (refill q now b)) now = bucket_credit q (Some b) now"
    and "units (refill q now b) \<le> capacity_units q" and "quota (refill q now b) = q"
    and "units (refill q now b) = min (units b + (now - last_seen b) div NANOS_PER_MS * refill_per_second q)
      (capacity_units q)"
    and "(now - last_seen (refill q now b)) div NANOS_PER_MS = 0"
proof -
  let ?d = "now - last_seen b"
  have q: "quota b = q" using assms(2) by (simp add: bucket_of_quota_def)
  then have b: "b \<lparr> quota := q \<rparr> = b" by simp
  have u: "units (refill q now b) = min (units b + ?d div NANOS_PER_MS * refill_per_second q) (capacity_units q)"
    and last: "last_seen (refill q now b) = last_seen b + ?d div NANOS_PER_MS * NANOS_PER_MS"
    and quota: "quota (refill q now b) = q"
    using elapsed_ms_exact [OF assms(1), of b] q
    by (simp_all add: refill_def b Let_def earned_unsaturated)
  have rest: "now - last_seen (refill q now b) = ?d mod NANOS_PER_MS"
    by (simp only: last diff_diff_left [symmetric] minus_div_mult_eq_mod)
  then show zero: "(now - last_seen (refill q now b)) div NANOS_PER_MS = 0"
    by (simp add: NANOS_PER_MS_def)
  show "units (refill q now b) \<le> capacity_units q" "quota (refill q now b) = q"
    "units (refill q now b) = min (units b + ?d div NANOS_PER_MS * refill_per_second q) (capacity_units q)"
    using u quota by simp_all
  show "bucket_credit q (Some (refill q now b)) now = bucket_credit q (Some b) now"
    using u rest by (simp add: bucket_credit_def Let_def NANOS_PER_MS_def)
qed

definition charge_bucket :: "Bucket \<Rightarrow> Bucket" where
  "charge_bucket b = b \<lparr> units := units b - TOKENS_PER_UNIT \<rparr>"

lemma charge_credit:
  assumes "TOKENS_PER_UNIT \<le> units b" and "units b \<le> capacity_units q"
    and "(now - last_seen b) div NANOS_PER_MS = 0"
  shows "bucket_credit q (Some (charge_bucket b)) now + TOKENS_PER_UNIT * NANOS_PER_MS =
     bucket_credit q (Some b) now"
proof -
  have "(units b - TOKENS_PER_UNIT) * NANOS_PER_MS + TOKENS_PER_UNIT * NANOS_PER_MS = units b * NANOS_PER_MS"
    using assms(1) by (simp add: add_mult_distrib [symmetric])
  then show ?thesis using assms by (simp add: bucket_credit_def charge_bucket_def Let_def)
qed

definition opened :: "Quota \<Rightarrow> instant \<Rightarrow> Bucket option \<Rightarrow> Bucket" where
  "opened q now b = (case b of Some b \<Rightarrow> b
     | None \<Rightarrow> \<lparr> units = capacity_units q, last_seen = now, quota = q \<rparr>)"

lemma opened_ok:
  "bucket_of_quota q b \<Longrightarrow> bucket_of_quota q (Some (opened q now b))"
  "bucket_credit q (Some (opened q now b)) now = bucket_credit q b now"
  by (auto simp: opened_def bucket_of_quota_def bucket_credit_def split: option.splits)

lemma charge_eq:
  "charge bs p q now =
     (let b' = refill q now (opened q now (map_of bs p)) in
      if units b' < TOKENS_PER_UNIT then (AList.update p b' bs, Refused RETRY_AFTER_SECONDS)
      else (AList.update p (charge_bucket b') bs, Admitted))"
  by (simp add: charge_def opened_def charge_bucket_def Let_def)

lemma charge_account:
  assumes "now \<le> max_instant" and "bucket_of_quota q (map_of bs p)"
    and "charge bs p q now = (bs', a)"
  shows "bucket_of_quota q (map_of bs' p)"
    and "bucket_credit q (map_of bs' p) now +
      (if a = Admitted then TOKENS_PER_UNIT * NANOS_PER_MS else 0) = bucket_credit q (map_of bs p) now"
    and "a \<noteq> Saturated"
proof -
  let ?b = "opened q now (map_of bs p)" and ?b' = "refill q now (opened q now (map_of bs p))"
  note o = opened_ok(1) [OF assms(2), of now]
  note r = refill_credit [OF assms(1) o]
  have "bucket_credit q (Some ?b') now = bucket_credit q (map_of bs p) now"
    using r(1) by (simp add: opened_ok(2))
  then have credit: "bucket_credit q (Some (if a = Admitted then charge_bucket ?b' else ?b')) now +
      (if a = Admitted then TOKENS_PER_UNIT * NANOS_PER_MS else 0) = bucket_credit q (map_of bs p) now"
    using r(2,5) charge_credit [of ?b' q now] assms(3) by (auto simp: charge_eq Let_def split: if_splits)
  have new: "map_of bs' p = Some (if a = Admitted then charge_bucket ?b' else ?b')" and "a \<noteq> Saturated"
    using assms(3) by (auto simp: charge_eq Let_def update_conv' split: if_splits)
  with credit r(2,3) show "bucket_of_quota q (map_of bs' p)" "a \<noteq> Saturated"
    "bucket_credit q (map_of bs' p) now +
      (if a = Admitted then TOKENS_PER_UNIT * NANOS_PER_MS else 0) = bucket_credit q (map_of bs p) now"
    by (simp_all only: new) (auto simp: charge_bucket_def bucket_of_quota_def)
qed

lemma charge_other: "charge bs p q now = (bs', a) \<Longrightarrow> r \<noteq> p \<Longrightarrow> map_of bs' r = map_of bs r"
  by (auto simp: charge_eq Let_def update_conv' split: if_splits)

text \<open>The sweep drops a bucket only if it is full, so no account loses or gains by it.\<close>

lemma map_of_filter:
  "distinct (map fst xs) \<Longrightarrow> map_of (filter (\<lambda>(k, v). P v) xs) k =
     (case map_of xs k of None \<Rightarrow> None | Some v \<Rightarrow> if P v then Some v else None)"
  by (induction xs) (auto split: option.splits simp: map_of_eq_None_iff image_iff)

lemma sweep_account:
  assumes "distinct (map fst bs)"
  shows "map_of (sweep now bs) r = map_of bs r \<or>
     (\<exists>b. map_of bs r = Some b \<and> is_full_at b now \<and> map_of (sweep now bs) r = None)"
  unfolding sweep_def map_of_filter [OF assms] by (auto split: option.splits)

lemma sweep_credit:
  assumes "distinct (map fst bs)" and "now \<le> max_instant" and "bucket_of_quota q (map_of bs r)"
  shows "bucket_of_quota q (map_of (sweep now bs) r)"
    and "bucket_credit q (map_of (sweep now bs) r) now \<le> bucket_credit q (map_of bs r) now"
proof -
  have "bucket_credit q None now \<le> bucket_credit q (Some b) now"
    if "is_full_at b now" "bucket_of_quota q (Some b)" for b
  proof -
    have "capacity_units q \<le> units b + (now - last_seen b) div NANOS_PER_MS * refill_per_second q"
      using that elapsed_ms_exact [OF assms(2), of b]
      by (simp add: is_full_at_def saturating_ge earned_full bucket_of_quota_def)
    then show ?thesis by (simp add: bucket_credit_def Let_def)
  qed
  with sweep_account [OF assms(1), of now r] assms(3)
  show "bucket_of_quota q (map_of (sweep now bs) r)"
    "bucket_credit q (map_of (sweep now bs) r) now \<le> bucket_credit q (map_of bs r) now"
    by (auto simp: bucket_of_quota_def)
qed

subsection \<open>The requests of a replica\<close>

record request =
  req_principal :: int
  req_tier :: string
  req_time :: instant

definition limiter_step :: "RateLimiter \<Rightarrow> request \<Rightarrow> RateLimiter" where
  "limiter_step L e = fst (admit L (req_principal e) (req_tier e) (req_time e))"

definition answer :: "RateLimiter \<Rightarrow> request \<Rightarrow> Admission" where
  "answer L e = snd (admit L (req_principal e) (req_tier e) (req_time e))"

fun run_requests :: "RateLimiter \<Rightarrow> request list \<Rightarrow> RateLimiter" where
  "run_requests L [] = L"
| "run_requests L (e # es) = run_requests (limiter_step L e) es"

lemma step_policy [simp]: "policy (limiter_step L e) = policy L"
  by (simp add: limiter_step_def admit_def split: prod.splits)

lemma step_buckets:
  "buckets (limiter_step L e) = fst (spend (max_buckets (policy L)) (buckets L) (req_principal e)
     (quota_for (policy L) (req_tier e)) (req_time e))"
  "answer L e = snd (spend (max_buckets (policy L)) (buckets L) (req_principal e)
     (quota_for (policy L) (req_tier e)) (req_time e))"
  by (simp_all add: limiter_step_def answer_def admit_def split: prod.splits)

lemma keys_charge: "fst ` set (fst (charge bs p q now)) = insert p (fst ` set bs)"
  by (simp add: charge_eq Let_def dom_update)

lemma distinct_charge: "distinct (map fst bs) \<Longrightarrow> distinct (map fst (fst (charge bs p q now)))"
  by (simp add: charge_eq Let_def distinct_update)

lemma distinct_sweep: "distinct (map fst bs) \<Longrightarrow> distinct (map fst (sweep now bs))"
  unfolding sweep_def by (rule distinct_map_filter)

lemma distinct_spend: "distinct (map fst bs) \<Longrightarrow> distinct (map fst (fst (spend m bs p q now)))"
  by (simp add: spend_def Let_def distinct_charge distinct_sweep)

lemma spend_other:
  assumes "distinct (map fst bs)" and "spend m bs p q now = (bs', a)" and "r \<noteq> p"
  shows "map_of bs' r = map_of bs r \<or>
     (\<exists>b. map_of bs r = Some b \<and> is_full_at b now \<and> map_of bs' r = None)"
  using assms(2,3) sweep_account [OF assms(1), of now r]
  by (auto simp: spend_def Let_def charge_other split: if_splits dest!: charge_other)

lemma spend_account:
  assumes "distinct (map fst bs)" and "now \<le> max_instant" and "bucket_of_quota q (map_of bs r)"
    and "p = r \<longrightarrow> q' = q" and "spend m bs p q' now = (bs', a)"
  shows "bucket_of_quota q (map_of bs' r)"
    and "bucket_credit q (map_of bs' r) now +
      (if p = r \<and> a = Admitted then TOKENS_PER_UNIT * NANOS_PER_MS else 0) \<le> bucket_credit q (map_of bs r) now"
proof -
  note swept = sweep_credit [OF assms(1-3)]
  have "bucket_of_quota q (map_of cs' r) \<and> bucket_credit q (map_of cs' r) now +
      (if p = r \<and> a = Admitted then TOKENS_PER_UNIT * NANOS_PER_MS else 0) \<le> bucket_credit q (map_of cs r) now"
    if "charge cs p q' now = (cs', a)" "bucket_of_quota q (map_of cs r)" for cs cs' a
  proof (cases "p = r")
    case True
    with that assms(4) charge_account [OF assms(2), of q cs p cs' a] show ?thesis by simp
  next
    case False
    with that charge_other [OF that(1), of r] show ?thesis by simp
  qed
  with assms(3,5) swept show "bucket_of_quota q (map_of bs' r)"
    "bucket_credit q (map_of bs' r) now +
      (if p = r \<and> a = Admitted then TOKENS_PER_UNIT * NANOS_PER_MS else 0) \<le> bucket_credit q (map_of bs r) now"
    by (fastforce simp: spend_def Let_def split: if_splits)+
qed

text \<open>
  The limiter is a meter of the account of any principal \<open>p\<close> whose requests all carry a tier of
  quota \<open>q\<close>, whatever the other principals do.
\<close>

interpretation meter: credit_meter limiter_step req_time
  "\<lambda>L e. req_time e \<le> max_instant \<and> (req_principal e = p \<longrightarrow> quota_for (policy L) (req_tier e) = q)"
  "\<lambda>L. distinct (map fst (buckets L)) \<and> bucket_of_quota q (map_of (buckets L) p)"
  "\<lambda>L e. req_principal e = p \<and> answer L e = Admitted"
  "\<lambda>L. bucket_credit q (map_of (buckets L) p)"
  "TOKENS_PER_UNIT * NANOS_PER_MS" "refill_per_second q" for p q
proof
  fix L :: RateLimiter and e :: request
  assume ok: "distinct (map fst (buckets L)) \<and> bucket_of_quota q (map_of (buckets L) p)"
    and valid: "req_time e \<le> max_instant \<and> (req_principal e = p \<longrightarrow> quota_for (policy L) (req_tier e) = q)"
  obtain bs a where spend: "spend (max_buckets (policy L)) (buckets L) (req_principal e)
      (quota_for (policy L) (req_tier e)) (req_time e) = (bs, a)" by fastforce
  note acc = spend_account [OF _ _ _ _ spend, of q p]
  show "distinct (map fst (buckets (limiter_step L e))) \<and>
      bucket_of_quota q (map_of (buckets (limiter_step L e)) p)"
    using ok valid acc(1) spend distinct_spend [of "buckets L"]
    by (metis (no_types) fst_conv step_buckets(1))
  show "bucket_credit q (map_of (buckets (limiter_step L e)) p) (req_time e)
      \<le> bucket_credit q (map_of (buckets L) p) (req_time e)"
    using ok valid acc(2) spend by (simp add: step_buckets)
  show "bucket_credit q (map_of (buckets (limiter_step L e)) p) (req_time e) + TOKENS_PER_UNIT * NANOS_PER_MS
      \<le> bucket_credit q (map_of (buckets L) p) (req_time e)"
    if "req_principal e = p \<and> answer L e = Admitted"
    using that ok valid acc(2) spend by (simp add: step_buckets)
qed (auto intro: bucket_credit_accrue)

text \<open>How many requests of a principal a run admits.\<close>

fun admitted :: "int \<Rightarrow> RateLimiter \<Rightarrow> request list \<Rightarrow> nat" where
  "admitted p L [] = 0"
| "admitted p L (e # es) =
     (if req_principal e = p \<and> answer L e = Admitted then 1 else 0) + admitted p (limiter_step L e) es"

lemma admitted_spendings: "meter.spendings p L es = admitted p L es"
  by (induction es arbitrary: L) simp_all


definition sample_policy :: RateLimitPolicy where
  "sample_policy = \<lparr> default_quota = \<lparr> capacity = 2, refill_per_second = 1 \<rparr>,
     tiers = (\<lambda>_. None)(''FAST'' \<mapsto> \<lparr> capacity = 5, refill_per_second = 1 \<rparr>), max_buckets = 1 \<rparr>"

definition sample_request_at :: "int \<Rightarrow> string \<Rightarrow> instant \<Rightarrow> request" where
  "sample_request_at p tier t = \<lparr> req_principal = p, req_tier = tier, req_time = t \<rparr>"


subsection \<open>The store is bounded, principals are isolated\<close>

definition limiter_ok :: "RateLimiter \<Rightarrow> bool" where
  "limiter_ok L \<longleftrightarrow> distinct (map fst (buckets L)) \<and> length (buckets L) \<le> max_buckets (policy L)"

lemma length_charge:
  assumes "distinct (map fst bs)"
  shows "length (fst (charge bs p q now)) = (if map_of bs p = None then Suc (length bs) else length bs)"
proof -
  let ?bs = "fst (charge bs p q now)"
  have "length ?bs = card (fst ` set ?bs)"
    using distinct_card [OF distinct_charge [OF assms]] by simp
  also have "\<dots> = card (insert p (fst ` set bs))" by (simp only: keys_charge)
  also have "\<dots> = (if map_of bs p = None then Suc (length bs) else length bs)"
    using distinct_card [OF assms] by (auto simp: map_of_eq_None_iff insert_absorb)
  finally show ?thesis .
qed

text \<open>
  the store never holds more buckets than its ceiling, nor two buckets of one principal, after
  any requests.
\<close>

theorem buckets_bounded:
  "limiter_ok (run_requests (RateLimiter_new P) es)"
proof -
  have "limiter_ok (limiter_step L e)" if "limiter_ok L" for L e
  proof -
    let ?m = "max_buckets (policy L)" and ?now = "req_time e"
    have d: "distinct (map fst (buckets L))" and l: "length (buckets L) \<le> ?m"
      using that by (auto simp: limiter_ok_def)
    have "length (sweep ?now (buckets L)) \<le> length (buckets L)" by (simp add: sweep_def)
    with d l have "length (fst (spend ?m (buckets L) p q ?now)) \<le> ?m" for p q
      using length_charge [OF d, of p q ?now] length_charge [OF distinct_sweep [OF d], of ?now p q ?now]
      by (auto simp: spend_def Let_def)
    then show ?thesis using distinct_spend [OF d] by (simp add: limiter_ok_def step_buckets)
  qed
  then have "limiter_ok L \<Longrightarrow> limiter_ok (run_requests L es)" for L
    by (induction es arbitrary: L) simp_all
  then show ?thesis by (simp add: limiter_ok_def RateLimiter_new_def)
qed

subsection \<open>Waiting is enough\<close>

definition quota_ok :: "Quota \<Rightarrow> bool" where
  "quota_ok q \<longleftrightarrow> 0 < capacity q \<and> 0 < refill_per_second q"

definition policy_ok :: "RateLimitPolicy \<Rightarrow> bool" where
  "policy_ok P \<longleftrightarrow> quota_ok (default_quota P) \<and> (\<forall>tier q. tiers P tier = Some q \<longrightarrow> quota_ok q)"

lemma policy_ok_quota: "policy_ok P \<Longrightarrow> quota_ok (quota_for P tier)"
  by (simp add: policy_ok_def quota_for_def split: option.splits)

text \<open>No bucket was computed after \<open>t\<close>.\<close>

definition seen_in :: "buckets \<Rightarrow> instant \<Rightarrow> bool" where
  "seen_in bs t \<longleftrightarrow> (\<forall>r b. map_of bs r = Some b \<longrightarrow> last_seen b \<le> t)"

definition seen_by :: "RateLimiter \<Rightarrow> instant \<Rightarrow> bool" where
  "seen_by L t \<longleftrightarrow> distinct (map fst (buckets L)) \<and> seen_in (buckets L) t"

lemma seen_in_mono: "seen_in bs t \<Longrightarrow> t \<le> u \<Longrightarrow> seen_in bs u"
  unfolding seen_in_def by (meson order_trans)

lemma refill_last_seen: "last_seen b \<le> now \<Longrightarrow> last_seen (refill q now b) \<le> now"
proof -
  assume b: "last_seen b \<le> now"
  have "saturating ((now - last_seen b) div NANOS_PER_MS) * NANOS_PER_MS \<le>
      (now - last_seen b) div NANOS_PER_MS * NANOS_PER_MS"
    using saturating_le(1) by (rule mult_le_mono1)
  also have "\<dots> \<le> now - last_seen b" by simp
  finally show ?thesis using b by (simp add: refill_def elapsed_ms_def Let_def)
qed

lemma seen_in_charge:
  assumes "seen_in bs now"
  shows "seen_in (fst (charge bs p q now)) now"
proof -
  have "last_seen (refill q now (opened q now (map_of bs p))) \<le> now"
    by (rule refill_last_seen) (use assms in \<open>auto simp: seen_in_def opened_def split: option.splits\<close>)
  with assms show ?thesis by (auto simp: seen_in_def charge_eq Let_def update_conv' charge_bucket_def)
qed

lemma seen_in_sweep:
  "distinct (map fst bs) \<Longrightarrow> seen_in bs now \<Longrightarrow> seen_in (sweep now bs) now"
  unfolding seen_in_def by (metis option.distinct(1) sweep_account)

lemma seen_by_step:
  assumes "seen_by L t" and "t \<le> req_time e"
  shows "seen_by (limiter_step L e) (req_time e)"
proof -
  let ?now = "req_time e"
  have d: "distinct (map fst (buckets L))" and l: "seen_in (buckets L) ?now"
    using assms by (auto simp: seen_by_def intro: seen_in_mono)
  then have "seen_in (fst (spend m (buckets L) p q ?now)) ?now" for m p q
    by (simp add: spend_def Let_def seen_in_charge seen_in_sweep)
  then show ?thesis using distinct_spend [OF d] by (simp add: seen_by_def step_buckets)
qed

lemma seen_by_run:
  assumes "seen_by L t" and "sorted (t # map req_time es)" and "\<forall>e \<in> set es. req_time e \<le> u" and "t \<le> u"
  shows "seen_by (run_requests L es) u"
  using assms
proof (induction es arbitrary: L t)
  case Nil
  then show ?case by (auto simp: seen_by_def intro: seen_in_mono)
next
  case (Cons e es)
  then show ?case using seen_by_step [of L t e] by simp
qed

text \<open>The bucket of a refused principal survives the others' requests or is dropped when full.\<close>

lemma others_keep_bucket:
  assumes "distinct (map fst (buckets L))" and "\<forall>e \<in> set es. req_principal e \<noteq> p"
  shows "map_of (buckets (run_requests L es)) p \<in> {map_of (buckets L) p, None}"
  using assms
proof (induction es arbitrary: L)
  case (Cons e es)
  have "map_of (buckets (limiter_step L e)) p \<in> {map_of (buckets L) p, None}"
    using spend_other [OF Cons.prems(1) prod.collapse [symmetric], of p] Cons.prems(2)
    by (fastforce simp: step_buckets)
  moreover have "distinct (map fst (buckets (limiter_step L e)))"
    using distinct_spend [OF Cons.prems(1)] by (simp add: step_buckets)
  ultimately show ?case using Cons.IH [of "limiter_step L e"] Cons.prems(2) by auto
qed simp

lemma run_policy [simp]: "policy (run_requests L es) = policy L"
  by (induction es arbitrary: L) simp_all

lemma capacity_units_ge: "quota_ok q \<Longrightarrow> TOKENS_PER_UNIT \<le> capacity_units q"
  by (simp add: quota_ok_def capacity_units_def saturating_def TOKENS_PER_UNIT_def u64_max_def)

lemma charge_after_wait:
  assumes "quota_ok q" and "now \<le> max_instant"
    and "\<forall>b. map_of bs p = Some b \<longrightarrow> last_seen b + 1000000000 \<le> now"
  shows "snd (charge bs p q now) = Admitted"
proof -
  let ?b = "opened q now (map_of bs p)"
  have "TOKENS_PER_UNIT \<le> units (refill q now ?b)"
  proof (cases "map_of bs p")
    case None
    then have "units (refill q now ?b) = capacity_units q"
      by (simp add: refill_def opened_def Let_def elapsed_ms_def earned_def saturating_def capacity_units_def)
    with capacity_units_ge [OF assms(1)] show ?thesis by simp
  next
    case (Some b)
    let ?ms = "(now - last_seen b) div NANOS_PER_MS"
    have "1000000000 div NANOS_PER_MS \<le> ?ms" using assms(3) Some by (intro div_le_mono) auto
    then have "TOKENS_PER_UNIT * 1 \<le> ?ms * refill_per_second q"
      using assms(1) by (intro mult_le_mono) (auto simp: NANOS_PER_MS_def TOKENS_PER_UNIT_def quota_ok_def)
    moreover have "units (refill q now ?b) =
        min (units b + ?ms * refill_per_second q) (capacity_units q)"
      using Some elapsed_ms_exact [OF assms(2), of "b \<lparr> quota := q \<rparr>"]
      by (simp add: refill_def opened_def Let_def earned_unsaturated)
    ultimately show ?thesis using capacity_units_ge [OF assms(1)] by simp
  qed
  then show ?thesis by (simp add: charge_eq Let_def)
qed

text \<open>
  the wait a refused caller is told is enough: whatever other principals do meanwhile, its next
  request after that many seconds is not refused for its rate, though the replica may have no
  room for it if its bucket was dropped in between.
\<close>

theorem retry_after_suffices:
  assumes "policy_ok P" and "L = run_requests (RateLimiter_new P) earlier"
    and "sorted (map req_time (earlier @ [e]))" and "answer L e = Refused s"
    and "\<forall>e' \<in> set others. req_principal e' \<noteq> req_principal e"
    and "req_principal again = req_principal e"
    and "req_time e + s * 1000000000 \<le> req_time again" and "req_time again \<le> max_instant"
  shows "answer (run_requests (limiter_step L e) others) again \<in> {Admitted, Saturated}"
proof -
  let ?p = "req_principal e" and ?now = "req_time again"
  let ?L = "limiter_step L e" and ?L' = "run_requests (limiter_step L e) others"
  let ?q = "quota_for P (req_tier again)"
  have pol: "policy L = P" by (simp add: assms(2) RateLimiter_new_def)
  have "seen_by (RateLimiter_new P) 0" by (simp add: seen_by_def seen_in_def RateLimiter_new_def)
  then have "seen_by L (req_time e)" unfolding assms(2)
    by (rule seen_by_run) (use assms(3) in \<open>auto simp: sorted_append\<close>)
  then have seen: "seen_by ?L (req_time e)" by (rule seen_by_step) simp
  have s: "s = 1" using assms(4)
    by (auto simp: step_buckets spend_def charge_eq RETRY_AFTER_SECONDS_def Let_def split: if_splits)
  have d: "distinct (map fst (buckets ?L))" using seen by (simp add: seen_by_def)
  have kept: "map_of (buckets ?L') ?p \<in> {map_of (buckets ?L) ?p, None}"
    by (rule others_keep_bucket [OF d]) (use assms(5) in simp)
  have wait: "\<forall>b. map_of (buckets ?L') ?p = Some b \<longrightarrow> last_seen b + 1000000000 \<le> ?now"
  proof (intro allI impI)
    fix b assume "map_of (buckets ?L') ?p = Some b"
    with kept have "map_of (buckets ?L) ?p = Some b" by auto
    with seen have "last_seen b \<le> req_time e" unfolding seen_by_def seen_in_def by blast
    with assms(7) s show "last_seen b + 1000000000 \<le> ?now" by simp
  qed
  have swept: "\<forall>b. map_of (sweep ?now (buckets ?L')) ?p = Some b \<longrightarrow> last_seen b + 1000000000 \<le> ?now"
    if "map_of (buckets ?L') ?p = None"
  proof -
    have "?p \<notin> fst ` set (sweep ?now (buckets ?L'))" using that by (auto simp: sweep_def map_of_eq_None_iff)
    then show ?thesis by (simp add: map_of_eq_None_iff [THEN iffD2])
  qed
  note q = policy_ok_quota [OF assms(1), of "req_tier again"]
  show ?thesis
    using charge_after_wait [OF q assms(8) wait] charge_after_wait [OF q assms(8) swept] assms(6)
    by (auto simp: step_buckets spend_def pol Let_def)
qed

lemma retry_after_suffices_witness:
  "answer (run_requests (limiter_step (run_requests (RateLimiter_new sample_policy)
       [sample_request_at 7 [] 0, sample_request_at 7 [] 0]) (sample_request_at 7 [] 5))
     [sample_request_at 8 [] 6]) (sample_request_at 7 [] 2000000000) \<in> {Admitted, Saturated}"
  by (rule retry_after_suffices [where P = sample_policy and s = 1 and
        earlier = "[sample_request_at 7 [] 0, sample_request_at 7 [] 0]"])
     (simp_all add: sample_request_at_def sample_policy_def policy_ok_def quota_ok_def max_instant_def
        u64_max_def NANOS_PER_MS_def RateLimiter_new_def limiter_step_def answer_def admit_def spend_def
        charge_def quota_for_def refill_def elapsed_ms_def earned_def saturating_def capacity_units_def
        TOKENS_PER_UNIT_def RETRY_AFTER_SECONDS_def)

subsection \<open>Isolation, and what eviction can show\<close>

text \<open>
  a request of one principal never changes another principal's bucket, except that a sweep may
  drop one that is full at that instant.
\<close>

theorem principals_isolated:
  assumes "req_principal e \<noteq> p"
  shows "let L = run_requests (RateLimiter_new P) es in
     map_of (buckets (limiter_step L e)) p = map_of (buckets L) p \<or>
     (\<exists>b. map_of (buckets L) p = Some b \<and> is_full_at b (req_time e) \<and>
        map_of (buckets (limiter_step L e)) p = None)"
proof -
  have "distinct (map fst (buckets L)) \<Longrightarrow> distinct (map fst (buckets (run_requests L es)))" for L
    by (induction es arbitrary: L) (simp_all add: step_buckets distinct_spend)
  then have d: "distinct (map fst (buckets (run_requests (RateLimiter_new P) es)))"
    by (simp add: RateLimiter_new_def)
  from spend_other [OF d prod.collapse [symmetric] assms [symmetric]]
  show ?thesis by (simp add: step_buckets Let_def)
qed

lemma principals_isolated_witness:
  "let L = run_requests (RateLimiter_new sample_policy) [sample_request_at 7 [] 0] in
     map_of (buckets (limiter_step L (sample_request_at 8 [] 2000000000))) 7 = map_of (buckets L) 7 \<or>
     (\<exists>b. map_of (buckets L) 7 = Some b \<and> is_full_at b 2000000000 \<and>
        map_of (buckets (limiter_step L (sample_request_at 8 [] 2000000000))) 7 = None)"
  using principals_isolated [of "sample_request_at 8 [] 2000000000" 7 sample_policy "[sample_request_at 7 [] 0]"]
  by (simp add: sample_request_at_def)

definition two_tiers :: RateLimitPolicy where
  "two_tiers = \<lparr> default_quota = \<lparr> capacity = 1, refill_per_second = 1 \<rparr>,
     tiers = [''FAST'' \<mapsto> \<lparr> capacity = 2, refill_per_second = 1 \<rparr>], max_buckets = 9 \<rparr>"

definition full_bucket :: Bucket where
  "full_bucket = \<lparr> units = 1000, last_seen = 0, quota = default_quota two_tiers \<rparr>"

lemmas limiter_defs = elapsed_ms_def earned_def saturating_def u64_max_def capacity_units_def
  TOKENS_PER_UNIT_def NANOS_PER_MS_def answer_def limiter_step_def admit_def
  spend_def charge_def refill_def quota_for_def sample_request_at_def RETRY_AFTER_SECONDS_def

text \<open>
  dropping a full bucket is not always invisible: a principal with a full bucket that has moved to a
  tier of larger capacity is admitted twice at once if the bucket was dropped, and only once if it
  was kept, since a kept bucket carries the smaller capacity's tokens over.
\<close>

theorem eviction_observable:
  "sweep 0 [(7, full_bucket)] = [] \<and>
   admitted 7 \<lparr> policy = two_tiers, buckets = [(7, full_bucket)] \<rparr>
     [sample_request_at 7 ''FAST'' 0, sample_request_at 7 ''FAST'' 0] = 1 \<and>
   admitted 7 \<lparr> policy = two_tiers, buckets = sweep 0 [(7, full_bucket)] \<rparr>
     [sample_request_at 7 ''FAST'' 0, sample_request_at 7 ''FAST'' 0] = 2"
proof -
  have swept: "sweep 0 [(7, full_bucket)] = []"
    by (simp add: sweep_def is_full_at_def full_bucket_def two_tiers_def limiter_defs)
  have "admitted 7 \<lparr> policy = two_tiers, buckets = [(7, full_bucket)] \<rparr>
     [sample_request_at 7 ''FAST'' 0, sample_request_at 7 ''FAST'' 0] = 1"
    by (simp add: full_bucket_def two_tiers_def limiter_defs)
  moreover have "admitted 7 \<lparr> policy = two_tiers, buckets = [] \<rparr>
     [sample_request_at 7 ''FAST'' 0, sample_request_at 7 ''FAST'' 0] = 2"
    by (simp add: two_tiers_def limiter_defs)
  ultimately show ?thesis using swept by simp
qed

end
