(* ===== verification/Shutdown.thy ===== *)
theory Shutdown
  imports Main "HOL-Library.Word"
begin

text \<open>
  \<open>aircraft_api::shutdown\<close> and the admission semaphore of \<open>aircraft_api::limits\<close>, as they move while
  requests interleave: a latched phase, an atomic 64-bit count of requests in flight and a number of
  permits. The count wraps as \<open>fetch_add\<close> and \<open>fetch_sub\<close> do; that it never does is a theorem.
\<close>

subsection \<open>The phase\<close>

datatype Phase = Serving | Draining | Cancelled

fun phase_rank :: "Phase \<Rightarrow> nat" where
  "phase_rank Serving = 0"
| "phase_rank Draining = 1"
| "phase_rank Cancelled = 2"

lemma phase_rank_inj: "phase_rank a = phase_rank b \<Longrightarrow> a = b"
  by (cases a; cases b) simp_all

text \<open>The derived \<open>Ord\<close>: the order of the variants.\<close>

instantiation Phase :: linorder
begin

definition less_eq_Phase :: "Phase \<Rightarrow> Phase \<Rightarrow> bool" where
  "less_eq_Phase a b \<longleftrightarrow> phase_rank a \<le> phase_rank b"

definition less_Phase :: "Phase \<Rightarrow> Phase \<Rightarrow> bool" where
  "less_Phase a b \<longleftrightarrow> phase_rank a < phase_rank b"

instance
  by standard (auto simp: less_eq_Phase_def less_Phase_def dest: phase_rank_inj)

end

record ShutdownState =
  in_flight :: "64 word"
  phase :: Phase

definition ShutdownState_new :: ShutdownState where
  "ShutdownState_new = \<lparr> in_flight = 0, phase = Serving \<rparr>"

definition advance_to :: "Phase \<Rightarrow> ShutdownState \<Rightarrow> ShutdownState" where
  "advance_to p st = (if p > phase st then st \<lparr> phase := p \<rparr> else st)"

definition begin_draining :: "ShutdownState \<Rightarrow> ShutdownState" where
  "begin_draining = advance_to Draining"

definition cancel :: "ShutdownState \<Rightarrow> ShutdownState" where
  "cancel = advance_to Cancelled"

definition is_draining :: "ShutdownState \<Rightarrow> bool" where
  "is_draining st \<longleftrightarrow> phase st \<ge> Draining"

text \<open>\<open>reaches\<close> resolves as soon as the phase is at least \<open>p\<close>, also for a late subscriber.\<close>

definition reaches :: "Phase \<Rightarrow> ShutdownState \<Rightarrow> bool" where
  "reaches p st \<longleftrightarrow> phase st \<ge> p"

definition enter :: "ShutdownState \<Rightarrow> ShutdownState" where
  "enter st = st \<lparr> in_flight := in_flight st + 1 \<rparr>"

definition guard_dropped :: "ShutdownState \<Rightarrow> ShutdownState" where
  "guard_dropped st = st \<lparr> in_flight := in_flight st - 1 \<rparr>"

subsection \<open>Requests in the perimeter\<close>

text \<open>
  \<open>admitted_ids\<close> have their permit but have not entered \<open>track_in_flight\<close> yet, \<open>inside\<close> are counted,
  \<open>leaving\<close> are no longer counted but still hold the permit.
\<close>

record traffic =
  shutdown :: ShutdownState
  permits :: nat
  admitted_ids :: "nat set"
  inside :: "nat set"
  leaving :: "nat set"

definition carried :: "traffic \<Rightarrow> nat set" where
  "carried t = admitted_ids t \<union> inside t \<union> leaving t"

inductive traffic_step :: "traffic \<Rightarrow> traffic \<Rightarrow> bool" where
  Admit: "permits t > 0 \<Longrightarrow> r \<notin> carried t \<Longrightarrow>
     traffic_step t (t \<lparr> permits := permits t - 1, admitted_ids := insert r (admitted_ids t) \<rparr>)"
| Shed: "permits t = 0 \<Longrightarrow> traffic_step t t"
| Enter: "r \<in> admitted_ids t \<Longrightarrow>
     traffic_step t (t \<lparr> shutdown := enter (shutdown t), admitted_ids := admitted_ids t - {r},
       inside := insert r (inside t) \<rparr>)"
| Answer: "r \<in> inside t \<Longrightarrow>
     traffic_step t (t \<lparr> shutdown := guard_dropped (shutdown t), inside := inside t - {r},
       leaving := insert r (leaving t) \<rparr>)"
| Release: "r \<in> leaving t \<Longrightarrow>
     traffic_step t (t \<lparr> permits := permits t + 1, leaving := leaving t - {r} \<rparr>)"
| Drop_admitted: "r \<in> admitted_ids t \<Longrightarrow>
     traffic_step t (t \<lparr> permits := permits t + 1, admitted_ids := admitted_ids t - {r} \<rparr>)"
| Drain: "traffic_step t (t \<lparr> shutdown := begin_draining (shutdown t) \<rparr>)"
| Cancel: "traffic_step t (t \<lparr> shutdown := cancel (shutdown t) \<rparr>)"

definition idle :: "nat \<Rightarrow> traffic" where
  "idle m = \<lparr> shutdown = ShutdownState_new, permits = m, admitted_ids = {}, inside = {}, leaving = {} \<rparr>"

inductive traffic_reachable :: "nat \<Rightarrow> traffic \<Rightarrow> bool" for m where
  start: "traffic_reachable m (idle m)"
| move: "traffic_reachable m t \<Longrightarrow> traffic_step t t' \<Longrightarrow> traffic_reachable m t'"

inductive_cases traffic_stepE: "traffic_step t t'"

definition traffic_ok :: "nat \<Rightarrow> traffic \<Rightarrow> bool" where
  "traffic_ok m t \<longleftrightarrow>
     finite (carried t) \<and> permits t + card (carried t) = m \<and>
     admitted_ids t \<inter> inside t = {} \<and> admitted_ids t \<inter> leaving t = {} \<and> inside t \<inter> leaving t = {} \<and>
     in_flight (shutdown t) = of_nat (card (inside t))"

lemma advance_in_flight [simp]: "in_flight (advance_to p st) = in_flight st"
  by (simp add: advance_to_def)

lemma traffic_ok_step:
  assumes "traffic_step t t'" and ok: "traffic_ok m t"
  shows "traffic_ok m t'"
  using assms(1)
proof cases
  case (Admit r)
  then have "carried t' = insert r (carried t)" by (auto simp: carried_def)
  with Admit ok show ?thesis by (auto simp: traffic_ok_def carried_def)
next
  case (Enter r)
  then have "carried t' = carried t" by (auto simp: carried_def)
  moreover have "finite (inside t)" "r \<notin> inside t" using ok Enter by (auto simp: traffic_ok_def carried_def)
  ultimately show ?thesis using Enter ok by (auto simp: traffic_ok_def enter_def)
next
  case (Answer r)
  then have "carried t' = carried t" by (auto simp: carried_def)
  moreover have fin: "finite (inside t)" using ok by (auto simp: traffic_ok_def carried_def)
  moreover have "card (inside t) = Suc (card (inside t - {r}))"
    using card.remove [OF fin Answer(2)] .
  ultimately show ?thesis using Answer ok by (auto simp: traffic_ok_def guard_dropped_def)
next
  case (Release r)
  then have "carried t' = carried t - {r}" using ok by (auto simp: carried_def traffic_ok_def)
  moreover have "r \<in> carried t" "finite (carried t)" using ok Release by (auto simp: carried_def traffic_ok_def)
  then have "card (carried t) = Suc (card (carried t - {r}))" by (metis card.remove)
  ultimately show ?thesis using Release ok by (auto simp: traffic_ok_def)
next
  case (Drop_admitted r)
  then have "carried t' = carried t - {r}" using ok by (auto simp: carried_def traffic_ok_def)
  moreover have "r \<in> carried t" "finite (carried t)" using ok Drop_admitted by (auto simp: carried_def traffic_ok_def)
  then have "card (carried t) = Suc (card (carried t - {r}))" by (metis card.remove)
  ultimately show ?thesis using Drop_admitted ok by (auto simp: traffic_ok_def)
qed (use ok in \<open>auto simp: traffic_ok_def carried_def begin_draining_def cancel_def\<close>)

lemma traffic_reachable_ok: "traffic_reachable m t \<Longrightarrow> traffic_ok m t"
proof (induction rule: traffic_reachable.induct)
  case start
  show ?case by (simp add: traffic_ok_def idle_def carried_def ShutdownState_new_def)
next
  case (move t t')
  then show ?case by (blast intro: traffic_ok_step)
qed

text \<open>
  however requests arrive, finish and are cancelled, the perimeter never carries more than its
  configured number, and the atomic count, which wraps at its width, is exactly the number of
  requests inside: it never underflows, and it is zero only when nothing is in flight.
\<close>

theorem in_flight_exact:
  assumes "traffic_reachable m t" and "m < 2 ^ 64"
  shows "card (carried t) \<le> m \<and> unat (in_flight (shutdown t)) = card (inside t) \<and>
     (in_flight (shutdown t) = 0 \<longleftrightarrow> inside t = {})"
proof -
  have ok: "traffic_ok m t" by (rule traffic_reachable_ok [OF assms(1)])
  then have fin: "finite (carried t)" "finite (inside t)" and le: "card (carried t) \<le> m"
    by (auto simp: traffic_ok_def carried_def)
  have "card (inside t) \<le> card (carried t)"
    by (rule card_mono [OF fin(1)]) (auto simp: carried_def)
  with le assms(2) have "card (inside t) < 2 ^ 64" by linarith
  with ok have "unat (in_flight (shutdown t)) = card (inside t)"
    by (simp add: traffic_ok_def unat_of_nat take_bit_nat_eq_self)
  moreover from this fin have "in_flight (shutdown t) = 0 \<longleftrightarrow> inside t = {}"
    using unat_eq_zero [of "in_flight (shutdown t)"] by simp
  ultimately show ?thesis using le by blast
qed

text \<open>
  the shutdown phase only moves forward: no step revokes draining or cancellation, so whoever waits
  for a phase, early or late, sees it once it has been reached.
\<close>

theorem shutdown_latched:
  assumes "traffic_step\<^sup>*\<^sup>* t t'"
  shows "phase (shutdown t) \<le> phase (shutdown t') \<and>
     (reaches p (shutdown t) \<longrightarrow> reaches p (shutdown t')) \<and>
     (is_draining (shutdown t) \<longrightarrow> is_draining (shutdown t'))"
proof -
  have step: "phase (shutdown t) \<le> phase (shutdown t')" if "traffic_step t t'" for t t'
    using that
    by cases (auto simp: enter_def guard_dropped_def begin_draining_def cancel_def advance_to_def)
  from assms have "phase (shutdown t) \<le> phase (shutdown t')"
  proof (induction rule: rtranclp_induct)
    case (step u v)
    then show ?case using \<open>\<And>t t'. traffic_step t t' \<Longrightarrow> phase (shutdown t) \<le> phase (shutdown t')\<close>
      by (meson order_trans)
  qed simp
  then show ?thesis by (auto simp: reaches_def is_draining_def)
qed

lemma sample_traffic: "traffic_reachable 2 (\<lparr> shutdown = enter ShutdownState_new, permits = 1,
   admitted_ids = {}, inside = {5}, leaving = {} \<rparr>)"
proof -
  have "traffic_step (idle 2) \<lparr> shutdown = ShutdownState_new, permits = 1, admitted_ids = {5},
      inside = {}, leaving = {} \<rparr>"
    using traffic_step.Admit [of "idle 2" 5] by (simp add: idle_def carried_def)
  note first = traffic_reachable.move [OF traffic_reachable.start this]
  then show ?thesis
    using traffic_reachable.move [OF first traffic_step.Enter [of 5]] by simp
qed

lemma in_flight_exact_witness:
  "unat (in_flight (enter ShutdownState_new)) = card {5::nat}"
  using in_flight_exact [OF sample_traffic] by simp

lemma shutdown_latched_witness:
  "phase ShutdownState_new \<le> phase (begin_draining ShutdownState_new)"
proof -
  have "traffic_step\<^sup>*\<^sup>* (idle 1) (idle 1 \<lparr> shutdown := begin_draining (shutdown (idle 1)) \<rparr>)"
    by (rule r_into_rtranclp, rule traffic_step.Drain)
  from shutdown_latched [OF this] show ?thesis by (simp add: idle_def)
qed

end
