(* ===== verification/Routes.thy ===== *)
theory Routes
  imports Perimeter Rate_Limit Credential_Store Shutdown
begin

text \<open>
  \<open>aircraft_api::routes\<close> and \<open>aircraft_api::authentication\<close>: registration, and the policy every
  registration enforces. A handler is a service on the world behind the API; a policed one is a
  service on that world and the rate limiter. axum's router is a list of services and a choice.
\<close>

subsection \<open>Policies and methods\<close>

datatype RoutePolicy =
  Public | CatalogReadPolicy | MilitaryReadPolicy | CurationReadPolicy | CurationWritePolicy | AdminPolicy

fun required_scope :: "RoutePolicy \<Rightarrow> Scope option" where
  "required_scope Public = None"
| "required_scope CatalogReadPolicy = Some CatalogRead"
| "required_scope MilitaryReadPolicy = Some MilitaryRead"
| "required_scope CurationReadPolicy = Some CurationRead"
| "required_scope CurationWritePolicy = Some CurationWrite"
| "required_scope AdminPolicy = Some Admin"

datatype RouteMethod = Delete | Get | Head | Patch | Post | Put | Trace

fun method_filter :: "RouteMethod \<Rightarrow> http_method" where
  "method_filter Delete = DELETE"
| "method_filter Get = GET"
| "method_filter Head = HEAD"
| "method_filter Patch = PATCH"
| "method_filter Post = POST"
| "method_filter Put = PUT"
| "method_filter Trace = TRACE"

record RegisteredRoute =
  rr_method :: RouteMethod
  rr_path :: string
  rr_policy :: RoutePolicy

subsection \<open>Authentication of a request\<close>

text \<open>
  What a request is judged with: axum's URI parser, \<open>HeaderValue::to_str\<close>, the credential libraries,
  the lookup and the clock.
\<close>

record 'k gate =
  g_parse :: uri_parser
  g_text :: "string \<Rightarrow> string option"
  g_libs :: "'k cred_libs"
  g_resolve :: "'k \<Rightarrow> PersistenceError + CredentialLookupRecord option"
  g_now :: instant

definition AUTHORIZATION :: string where "AUTHORIZATION = ''authorization''"

definition bearer_token :: "(string \<Rightarrow> string option) \<Rightarrow> http_request \<Rightarrow> string option" where
  "bearer_token header_text rq =
     (case header_values AUTHORIZATION rq of
        [value] \<Rightarrow>
          Option.bind (header_text value) (\<lambda>text.
          Option.bind (split_once (CHR '' '') text) (\<lambda>(scheme, token).
            if eq_ignore_ascii_case scheme ''Bearer'' then Some token else None))
      | _ \<Rightarrow> None)"

definition remove_header :: "string \<Rightarrow> http_request \<Rightarrow> http_request" where
  "remove_header name rq = rq \<lparr> rq_headers := filter (\<lambda>(n, _). n \<noteq> name) (rq_headers rq) \<rparr>"

definition ok :: "'e + 'a \<Rightarrow> 'a option" where
  "ok r = (case r of Inl _ \<Rightarrow> None | Inr a \<Rightarrow> Some a)"

lemma ok_Some_iff [simp]: "ok r = Some a \<longleftrightarrow> r = Inr a"
  by (auto simp: ok_def split: sum.splits)

definition presented :: "'k gate \<Rightarrow> http_request \<Rightarrow> 'k CredentialCandidate option" where
  "presented G rq =
     Option.bind (bearer_token (g_text G) rq) (\<lambda>token. ok (CredentialCandidate_parse (g_libs G) token))"

definition authenticate ::
  "'k gate \<Rightarrow> http_request \<Rightarrow> string \<Rightarrow> http_request \<times> (ApiProblem + AuthenticatedPrincipal)" where
  "authenticate G rq inst =
     (let candidate = presented G rq;
          rq' = remove_header AUTHORIZATION rq
      in (rq',
        case candidate of
          None \<Rightarrow> Inl (ApiProblem_new (g_parse G) AuthenticationRequired inst)
        | Some c \<Rightarrow>
            (case authenticate_candidate (g_libs G) (g_resolve G) c of
               Inr who \<Rightarrow> Inr who
             | Inl Rejected \<Rightarrow> Inl (ApiProblem_new (g_parse G) AuthenticationRequired inst)
             | Inl (Unavailable e) \<Rightarrow>
                 (case e of
                    Database _ _ \<Rightarrow> Inl (ApiProblem_new (g_parse G) DatabaseUnavailable inst)
                  | Invariant _ \<Rightarrow> Inl (ApiProblem_new (g_parse G) Internal inst)))))"

subsection \<open>A policed handler\<close>

record 'w api =
  limiter :: RateLimiter
  world :: 'w

definition run_handler :: "'w service \<Rightarrow> 'w api service" where
  "run_handler h rq st = (case h rq (world st) of (w, r) \<Rightarrow> (st \<lparr> world := w \<rparr>, r))"

definition instance_of :: "http_request \<Rightarrow> string" where
  "instance_of rq = (case rq_original rq of None \<Rightarrow> rq_path rq | Some path \<Rightarrow> path)"

definition problem_at :: "'k gate \<Rightarrow> ProblemKind \<Rightarrow> string \<Rightarrow> response" where
  "problem_at G kind inst = problem_response (ApiProblem_new (g_parse G) kind inst)"

definition policed :: "'k gate \<Rightarrow> RoutePolicy \<Rightarrow> 'w service \<Rightarrow> 'w api service" where
  "policed G pol h rq st =
     (case required_scope pol of
        None \<Rightarrow> run_handler h rq st
      | Some required \<Rightarrow>
          (let inst = instance_of rq in
           case authenticate G rq inst of
             (rq', Inl problem) \<Rightarrow> (st, problem_response problem)
           | (rq', Inr who) \<Rightarrow>
               (case admit (limiter st) (ap_principal_id who) (ap_tier who) (g_now G) of
                  (L, Refused seconds) \<Rightarrow> (st \<lparr> limiter := L \<rparr>, problem_at G (RateLimited seconds) inst)
                | (L, Saturated) \<Rightarrow> (st \<lparr> limiter := L \<rparr>, problem_at G Overloaded inst)
                | (L, Admitted) \<Rightarrow>
                    if required \<notin> set (ap_scopes who)
                    then (st \<lparr> limiter := L \<rparr>,
                          problem_at G (InsufficientScope (RequiredScope_from required)) inst)
                    else run_handler h (rq' \<lparr> rq_principal := Some who \<rparr>) (st \<lparr> limiter := L \<rparr>))))"

subsection \<open>Registration\<close>

record 'w Routes =
  router :: "(RouteMethod \<times> string \<times> 'w api service) list"
  inventory :: "RegisteredRoute list"

definition Routes_new :: "'w Routes" where
  "Routes_new = \<lparr> router = [], inventory = [] \<rparr>"

definition Routes_route ::
  "'k gate \<Rightarrow> RouteMethod \<Rightarrow> string \<Rightarrow> RoutePolicy \<Rightarrow> 'w service \<Rightarrow> 'w Routes \<Rightarrow> 'w Routes" where
  "Routes_route G m path pol h R =
     R \<lparr> router := router R @ [(m, path, policed G pol h)],
         inventory := inventory R @ [\<lparr> rr_method = m, rr_path = path, rr_policy = pol \<rparr>] \<rparr>"

text \<open>\<open>trim_start_matches('/')\<close> on the inner path.\<close>

definition nested_path :: "string \<Rightarrow> string \<Rightarrow> string" where
  "nested_path pre inner =
     (if ends_with ''/'' pre then pre @ dropWhile (\<lambda>c. c = CHR ''/'') inner
      else if inner = ''/'' then pre
      else pre @ inner)"

text \<open>\<open>axum_path\<close> is the path under which \<open>Router::nest\<close> serves an inner route.\<close>

definition Routes_nest ::
  "(string \<Rightarrow> string \<Rightarrow> string) \<Rightarrow> string \<Rightarrow> 'w Routes \<Rightarrow> 'w Routes \<Rightarrow> 'w Routes" where
  "Routes_nest axum_path pre inner R =
     R \<lparr> router := router R @ map (\<lambda>(m, path, s). (m, axum_path pre path, s)) (router inner),
         inventory := inventory R @
           map (\<lambda>r. r \<lparr> rr_path := nested_path pre (rr_path r) \<rparr>) (inventory inner) \<rparr>"

definition Routes_merge :: "'w Routes \<Rightarrow> 'w Routes \<Rightarrow> 'w Routes" where
  "Routes_merge other R =
     R \<lparr> router := router R @ router other, inventory := inventory R @ inventory other \<rparr>"

definition not_found :: "uri_parser \<Rightarrow> string \<Rightarrow> response" where
  "not_found parse path = problem_response (ApiProblem_new parse NotFound path)"

definition method_not_allowed :: "uri_parser \<Rightarrow> string \<Rightarrow> response" where
  "method_not_allowed parse path = problem_response (ApiProblem_new parse MethodNotAllowed path)"

text \<open>
  axum's router: it notes the original path, picks a route for the request or neither, and the two
  fallbacks answer the rest. \<open>pick\<close> is axum's matching of methods and path patterns.
\<close>

datatype axum_match = Matched nat | OtherMethod | NoPath

definition served ::
  "uri_parser \<Rightarrow> ((RouteMethod \<times> string) list \<Rightarrow> http_request \<Rightarrow> axum_match) \<Rightarrow> 'w Routes \<Rightarrow> 'w api service" where
  "served parse pick R rq st =
     (let rq' = rq \<lparr> rq_original := Some (rq_path rq) \<rparr> in
      case pick (map (\<lambda>(m, path, _). (m, path)) (router R)) rq' of
        Matched i \<Rightarrow>
          if i < length (router R) then snd (snd (router R ! i)) rq' st
          else (st, not_found parse (rq_path rq))
      | OtherMethod \<Rightarrow> (st, method_not_allowed parse (rq_path rq))
      | NoPath \<Rightarrow> (st, not_found parse (rq_path rq)))"

subsection \<open>The scope is enforced\<close>

lemma header_values_removed [simp]: "header_values name (remove_header name rq) = []"
  by (auto simp: header_values_def remove_header_def filter_empty_conv)

lemma fst_authenticate [simp]: "fst (authenticate G rq inst) = remove_header AUTHORIZATION rq"
  by (simp add: authenticate_def Let_def)

lemma authenticate_Inr:
  assumes "authenticate G rq inst = (rq', Inr who)"
  shows "\<exists>token candidate. bearer_token (g_text G) rq = Some token \<and>
     CredentialCandidate_parse (g_libs G) token = Inr candidate \<and>
     authenticate_candidate (g_libs G) (g_resolve G) candidate = Inr who"
proof -
  from assms obtain candidate where c: "presented G rq = Some candidate"
      "authenticate_candidate (g_libs G) (g_resolve G) candidate = Inr who"
    by (auto simp: authenticate_def Let_def
        split: option.splits sum.splits AuthenticationError.splits PersistenceError.splits)
  from c(1) show ?thesis using c(2)
    by (auto simp: presented_def bind_eq_Some_conv)
qed

text \<open>Which problems \<open>authenticate\<close> answers with.\<close>

lemma authenticate_Inl:
  assumes "authenticate G rq inst = (rq', Inl p)"
  shows "ap_kind p \<in> {AuthenticationRequired, DatabaseUnavailable, Internal}"
  using assms
  by (auto simp: authenticate_def Let_def ApiProblem_new_def
      split: option.splits sum.splits AuthenticationError.splits PersistenceError.splits)

lemma status_of_problem: "resp_status (problem_response p) = pc_status (contract (ap_kind p))"
  by (cases "ap_kind p")
    (simp_all add: problem_response_def details_response_def details_def Let_def contract_of_def)

text \<open>A scoped request is granted when it is authenticated, admitted and holds the scope.\<close>

definition granted :: "'k gate \<Rightarrow> Scope \<Rightarrow> http_request \<Rightarrow> 'w api \<Rightarrow> AuthenticatedPrincipal \<Rightarrow> bool" where
  "granted G sc rq st who \<longleftrightarrow>
     snd (authenticate G rq (instance_of rq)) = Inr who \<and>
     snd (admit (limiter st) (ap_principal_id who) (ap_tier who) (g_now G)) = Admitted \<and> sc \<in> set (ap_scopes who)"

definition GATE_REFUSALS :: "nat set" where "GATE_REFUSALS = {401, 403, 429, 500, 503}"

lemma policed_cases:
  assumes "required_scope pol = Some sc"
  shows "(\<exists>who L. granted G sc rq st who \<and>
       L = fst (admit (limiter st) (ap_principal_id who) (ap_tier who) (g_now G)) \<and>
       policed G pol h rq st =
         run_handler h (remove_header AUTHORIZATION rq \<lparr> rq_principal := Some who \<rparr>) (st \<lparr> limiter := L \<rparr>)) \<or>
     world (fst (policed G pol h rq st)) = world st \<and>
     resp_status (snd (policed G pol h rq st)) \<in> GATE_REFUSALS"
proof -
  obtain rq' res where auth: "authenticate G rq (instance_of rq) = (rq', res)" by fastforce
  from auth have rq': "rq' = remove_header AUTHORIZATION rq"
    using fst_authenticate [of G rq "instance_of rq"] by simp
  show ?thesis
  proof (cases res)
    case (Inl p)
    with auth authenticate_Inl [of G rq "instance_of rq" rq' p] assms show ?thesis
      by (auto simp: policed_def Let_def status_of_problem contract_of_def GATE_REFUSALS_def)
  next
    case (Inr who)
    obtain L a where adm: "admit (limiter st) (ap_principal_id who) (ap_tier who) (g_now G) = (L, a)"
      by fastforce
    show ?thesis
    proof (cases "a = Admitted \<and> sc \<in> set (ap_scopes who)")
      case True
      with auth Inr adm rq' assms show ?thesis
        by (auto simp: policed_def Let_def granted_def)
    next
      case False
      with auth Inr adm assms show ?thesis
        by (cases a) (auto simp: policed_def Let_def problem_at_def status_of_problem ApiProblem_new_def
            contract_of_def GATE_REFUSALS_def)
    qed
  qed
qed

text \<open>Routes built by the operations of \<open>Routes\<close>; layers are not used outside tests.\<close>

inductive registered :: "'k gate \<Rightarrow> 'w Routes \<Rightarrow> bool" for G where
  new: "registered G Routes_new"
| route: "registered G R \<Longrightarrow> registered G (Routes_route G m path pol h R)"
| nest: "registered G R \<Longrightarrow> registered G inner \<Longrightarrow> registered G (Routes_nest nested_path pre inner R)"
| merge: "registered G R \<Longrightarrow> registered G other \<Longrightarrow> registered G (Routes_merge other R)"

definition entry_policed :: "'k gate \<Rightarrow> RouteMethod \<times> string \<times> 'w api service \<Rightarrow> RegisteredRoute \<Rightarrow> bool" where
  "entry_policed G e r \<longleftrightarrow> fst e = rr_method r \<and> fst (snd e) = rr_path r \<and>
     (\<exists>h. snd (snd e) = policed G (rr_policy r) h)"

lemma registered_policed:
  "registered G R \<Longrightarrow> list_all2 (entry_policed G) (router R) (inventory R)"
proof (induction rule: registered.induct)
  case (nest R inner pre)
  have "list_all2 (entry_policed G) (map (\<lambda>(m, path, s). (m, nested_path pre path, s)) es)
      (map (\<lambda>r. r \<lparr> rr_path := nested_path pre (rr_path r) \<rparr>) rs)"
    if "list_all2 (entry_policed G) es rs" for es :: "(RouteMethod \<times> string \<times> 'b api service) list" and rs
    using that by (induction rule: list_all2_induct) (auto simp: entry_policed_def)
  with nest show ?case by (simp add: Routes_nest_def list_all2_appendI)
next
  case (route R m path pol h)
  have "entry_policed G (m, path, policed G pol h) \<lparr> rr_method = m, rr_path = path, rr_policy = pol \<rparr>"
    by (auto simp: entry_policed_def)
  with route show ?case by (simp add: Routes_route_def list_all2_appendI)
qed (simp_all add: Routes_new_def Routes_merge_def list_all2_appendI)

text \<open>What the store says of an accepted principal.\<close>

definition live_principal :: "'k auth_store \<Rightarrow> int \<Rightarrow> Scope \<Rightarrow> bool" where
  "live_principal store who sc \<longleftrightarrow>
     (\<exists>p \<in> set (principal_rows store). prin_id p = who \<and> \<not> prin_disabled p \<and> Scope_code sc \<in> set (prin_scope_codes p))"

lemma accepted_is_live:
  assumes "authenticate_candidate L (resolve_credential E store) candidate = Inr who"
    and "sc \<in> set (ap_scopes who)"
  shows "live_principal store (ap_principal_id who) sc"
proof -
  from assms(1) obtain r where r: "resolve_credential E store (cc_key_id candidate) = Inr (Some r)"
      "\<not> lr_disabled r" "ap_principal_id who = lr_principal_id r" "ap_scopes who = lr_scopes r"
    by (auto simp: authenticate_candidate_def Let_def split: sum.splits option.splits if_splits)
  from r(1) obtain c p where row: "select_credential store (cc_key_id candidate) = Some (c, p)"
      "lookup_record_from_row E (c, p) = Inr r"
    by (auto simp: resolve_credential_def map_sum_def split: option.splits sum.splits)
  from row(2) have fields: "collect_results (map Scope_try_from (prin_scope_codes p)) = Inr (lr_scopes r)"
      "lr_disabled r = prin_disabled p" "lr_principal_id r = prin_id p"
    by (auto simp: lookup_record_from_row_def Let_def split: option.splits if_splits sum.splits)
  from row(1) have "p \<in> set (principal_rows store)"
    by (auto simp: select_credential_def find_Some_iff split: option.splits)
  moreover have "Scope_code sc \<in> set (prin_scope_codes p)"
  proof -
    from fields(1) have eq: "map Scope_try_from (prin_scope_codes p) = map Inr (lr_scopes r)"
      by (simp add: collect_results_Inr_iff)
    have "Inr sc \<in> set (map Inr (lr_scopes r) :: (UnknownScope + Scope) list)" using assms(2) r(4) by simp
    then have "Inr sc \<in> Scope_try_from ` set (prin_scope_codes p)" unfolding eq [symmetric] by simp
    then show ?thesis by (auto simp: Scope_try_from_def scope.lookup_Inr_iff dest: sym)
  qed
  ultimately show ?thesis using r(2,3) fields(2,3) unfolding live_principal_def by metis
qed


text \<open>
  a scoped handler never sees the credential: it runs on the request without any authorization
  field and with the principal attached, so two requests that differ only in the token they present
  for the same principal are indistinguishable to it.
\<close>

theorem handler_never_sees_credential:
  assumes "required_scope pol = Some sc"
  shows "policed G pol h rq st =
     policed G pol (\<lambda>rq'. if header_values AUTHORIZATION rq' = [] \<and> rq_principal rq' \<noteq> None \<and>
         rq_body rq' = rq_body rq \<and> rq_path rq' = rq_path rq then h rq' else undefined) rq st"
  using assms
  by (auto simp: policed_def Let_def run_handler_def remove_header_def header_values_def filter_empty_conv
      authenticate_def split: prod.splits sum.splits Admission.splits)

definition lookup_answers :: "'k gate \<Rightarrow> http_request \<Rightarrow> bool" where
  "lookup_answers G rq \<longleftrightarrow>
     (case presented G rq of None \<Rightarrow> True | Some c \<Rightarrow> is_ok (g_resolve G (cc_key_id c)))"

text \<open>
  C37: when the lookup works, every rejected request for a path gets the same answer, whatever was wrong
  with its credential, and leaves the limiter and the world as they were.
\<close>

theorem rejections_indistinguishable:
  assumes "required_scope pol = Some sc" and "required_scope pol' = Some sc'"
    and "lookup_answers G rq"
    and "lookup_answers G rq'"
    and "instance_of rq = instance_of rq'"
    and "\<not> is_ok (snd (authenticate G rq (instance_of rq)))"
    and "\<not> is_ok (snd (authenticate G rq' (instance_of rq')))"
  shows "policed G pol h rq st = (st, snd (policed G pol' h' rq' st')) \<and>
     resp_status (snd (policed G pol h rq st)) = 401"
proof -
  have rejected: "policed G pol h rq st = (st, problem_at G AuthenticationRequired (instance_of rq))"
    if scoped: "required_scope pol = Some sc"
    and works: "lookup_answers G rq"
    and no: "\<not> is_ok (snd (authenticate G rq (instance_of rq)))"
    for pol sc and h :: "http_request \<Rightarrow> 'w \<Rightarrow> 'w \<times> response" and rq and st :: "'w api"
  proof (cases "presented G rq")
    case None
    with scoped show ?thesis by (simp add: policed_def authenticate_def Let_def problem_at_def)
  next
    case (Some c)
    then obtain found where f: "g_resolve G (cc_key_id c) = Inr found"
      using works by (cases "g_resolve G (cc_key_id c)") (auto simp: lookup_answers_def)
    have "authenticate_candidate (g_libs G) (g_resolve G) c = Inl Rejected"
      using no Some f
      by (auto simp: authenticate_def Let_def authenticate_candidate_def split: option.splits if_splits)
    with Some scoped show ?thesis by (simp add: policed_def authenticate_def Let_def problem_at_def)
  qed
  show ?thesis
    unfolding rejected [OF assms(1,3,6)] rejected [OF assms(2,4,7)]
    using assms(5) by (simp add: problem_at_def status_of_problem ApiProblem_new_def contract_of_def)
qed

subsection \<open>A route that is reached\<close>

definition sample_handler :: "nat service" where
  "sample_handler rq n = (n + 1, \<lparr> resp_status = 200, resp_headers = [], resp_body = None \<rparr>)"

definition sample_gate :: "bool auth_store \<Rightarrow> bool gate" where
  "sample_gate store = \<lparr> g_parse = (\<lambda>_. None), g_text = Some, g_libs = sample_cred_libs,
     g_resolve = resolve_credential sample_auth_env store, g_now = 0 \<rparr>"

definition sample_http :: "string \<Rightarrow> http_request" where
  "sample_http token = \<lparr> rq_method = GET, rq_path = ''/x'', rq_original = None,
     rq_headers = [(''authorization'', ''Bearer '' @ token)], rq_body = [], rq_principal = None \<rparr>"

definition sample_api :: "nat api" where
  "sample_api = \<lparr> limiter = RateLimiter_new sample_policy, world = 0 \<rparr>"

lemma sample_admitted: "snd (admit (RateLimiter_new sample_policy) p ''DEFAULT'' 0) = Admitted"
  by (simp add: admit_def spend_def charge_def refill_def Let_def RateLimiter_new_def sample_policy_def
      quota_for_def limiter_defs TOKENS_PER_UNIT_def)

lemma sample_bearer: "bearer_token Some (sample_http token) = Some token"
  by (simp add: bearer_token_def header_values_def sample_http_def AUTHORIZATION_def
      eq_ignore_ascii_case_def)

definition sample_who :: AuthenticatedPrincipal where
  "sample_who = \<lparr> ap_principal_id = 7, ap_scopes = [CatalogRead, CurationRead], ap_tier = ''DEFAULT'' \<rparr>"

abbreviation sample_drawn :: "(string \<times> int) list" where
  "sample_drawn \<equiv> drawn_tokens sample_cred_libs sample_entropy sample_issue_request"

lemma sample_session:
  "\<exists>store token. issued_store sample_cred_libs sample_drawn store \<and>
     (\<forall>p inst. authenticate (sample_gate store) (sample_http token \<lparr> rq_original := p \<rparr>) inst =
        (remove_header AUTHORIZATION (sample_http token \<lparr> rq_original := p \<rparr>), Inr sample_who))"
proof -
  obtain store issued where issued: "issue sample_cred_libs sample_entropy (persist_credential sample_auth_env)
      sample_auth_store sample_issue_request = (store, Inr issued)"
    using sample_issue by blast
  have none: "issued_store sample_cred_libs [] sample_auth_store"
    by (rule issued_store.no_credentials) (simp add: sample_auth_store_def)
  have store: "issued_store sample_cred_libs sample_drawn store"
    using issued_store.after_issue [OF none issued] by simp
  have scopes: "collect_results (map Scope_try_from [''CATALOG_READ'', ''CURATION_READ'']) =
      Inr [CatalogRead, CurationRead]"
    by (simp add: Scope_try_from_def lookup_code_def Scope_ALL_def)
  obtain candidate where candidate: "CredentialCandidate_parse sample_cred_libs (is_clear issued) = Inr candidate"
      "authenticate_candidate sample_cred_libs (resolve_credential sample_auth_env store) candidate = Inr sample_who"
    using accepted_after_issue [OF sample_cred_libs_ok issued, of sample_auth_env _ "[CatalogRead, CurationRead]"] scopes
    by (fastforce simp: sample_entropy_def lookup_works_def sample_auth_env_def sample_auth_store_def
        sample_issue_request_def sample_who_def)
  have "bearer_token Some (sample_http (is_clear issued) \<lparr> rq_original := p \<rparr>) = Some (is_clear issued)" for p
    using sample_bearer [of "is_clear issued"] by (simp add: bearer_token_def header_values_def)
  then have "authenticate (sample_gate store) (sample_http (is_clear issued) \<lparr> rq_original := p \<rparr>) inst =
      (remove_header AUTHORIZATION (sample_http (is_clear issued) \<lparr> rq_original := p \<rparr>), Inr sample_who)" for p inst
    using candidate by (simp add: authenticate_def presented_def ok_def sample_gate_def)
  with store show ?thesis by blast
qed

lemma sample_policed:
  assumes "\<And>p inst. authenticate (sample_gate store) (sample_http token \<lparr> rq_original := p \<rparr>) inst =
        (remove_header AUTHORIZATION (sample_http token \<lparr> rq_original := p \<rparr>), Inr sample_who)"
    and "limiter st = RateLimiter_new sample_policy"
  shows "\<exists>L. policed (sample_gate store) CatalogReadPolicy h (sample_http token \<lparr> rq_original := p \<rparr>) st =
     run_handler h (remove_header AUTHORIZATION (sample_http token) \<lparr> rq_original := p, rq_principal := Some sample_who \<rparr>)
       (st \<lparr> limiter := L \<rparr>)"
proof -
  obtain L where "admit (RateLimiter_new sample_policy) 7 ''DEFAULT'' 0 = (L, Admitted)"
    using sample_admitted [of 7] by (metis prod.collapse)
  moreover have "g_now (sample_gate store) = 0" by (simp add: sample_gate_def)
  moreover have "remove_header AUTHORIZATION (sample_http token \<lparr> rq_original := p \<rparr>) \<lparr> rq_principal := Some sample_who \<rparr> =
      remove_header AUTHORIZATION (sample_http token) \<lparr> rq_original := p, rq_principal := Some sample_who \<rparr>"
    by (simp add: remove_header_def)
  ultimately have "policed (sample_gate store) CatalogReadPolicy h (sample_http token \<lparr> rq_original := p \<rparr>) st =
     run_handler h (remove_header AUTHORIZATION (sample_http token) \<lparr> rq_original := p, rq_principal := Some sample_who \<rparr>)
       (st \<lparr> limiter := L \<rparr>)"
    using assms by (simp add: policed_def Let_def sample_who_def)
  then show ?thesis by blast
qed


lemma handler_never_sees_credential_witness:
  "policed (sample_gate sample_auth_store) CatalogReadPolicy sample_handler (sample_http ''k'') sample_api =
   policed (sample_gate sample_auth_store) CatalogReadPolicy
     (\<lambda>rq'. if header_values AUTHORIZATION rq' = [] \<and> rq_principal rq' \<noteq> None \<and> rq_body rq' = [] \<and>
        rq_path rq' = ''/x'' then sample_handler rq' else undefined) (sample_http ''k'') sample_api"
  using handler_never_sees_credential [of CatalogReadPolicy CatalogRead "sample_gate sample_auth_store"
      sample_handler "sample_http ''k''" sample_api]
  by (simp add: sample_http_def)

lemma rejections_indistinguishable_witness:
  "resp_status (snd (policed (sample_gate sample_auth_store) CatalogReadPolicy sample_handler
     (sample_http ''k'') sample_api)) = 401"
proof -
  have "presented (sample_gate sample_auth_store) (sample_http ''k'') = None"
    using sample_bearer [of "''k''"]
    by (simp add: presented_def ok_def sample_gate_def CredentialCandidate_parse_def TOKEN_CHARS_def)
  then have "lookup_answers (sample_gate sample_auth_store) (sample_http ''k'')"
    "\<not> is_ok (snd (authenticate (sample_gate sample_auth_store) (sample_http ''k'') (instance_of (sample_http ''k''))))"
    by (simp_all add: lookup_answers_def authenticate_def)
  from rejections_indistinguishable [where pol = CatalogReadPolicy and pol' = CatalogReadPolicy and
      h = sample_handler and st = sample_api and h' = sample_handler and st' = sample_api, OF _ _ this(1,1) refl this(2,2)]
  show ?thesis by simp
qed

end
