(* ===== verification/Publication.thy ===== *)
theory Publication
  imports Routes Catalog
begin

text \<open>
  The writers of the generated OpenAPI document in \<open>aircraft_api::lib\<close>: security requirements from the
  route inventory, the catalog enumeration from \<open>Catalog::ALL\<close>. The document utoipa derives is the
  argument; its parts the writers do not touch are left out.
\<close>

subsection \<open>The document\<close>

datatype schema = ObjectSchema "string list option" | OtherSchema

record parameter =
  pm_name :: string
  pm_schema :: "schema option"

record operation =
  op_security :: "(string \<times> string list) list option"
  op_responses :: "string \<rightharpoonup> string"
  op_parameters :: "parameter list option"

type_synonym path_item = "RouteMethod \<rightharpoonup> operation"

record document =
  security_schemes :: "string list"
  doc_paths :: "string \<rightharpoonup> path_item"

definition published :: "document \<Rightarrow> string \<Rightarrow> RouteMethod \<Rightarrow> operation option" where
  "published D path m = Option.bind (doc_paths D path) (\<lambda>item. item m)"

text \<open>\<open>get_mut(path).and_then(operation_mut)\<close>: the operation is updated in place when it exists.\<close>

definition update_operation :: "string \<Rightarrow> RouteMethod \<Rightarrow> (operation \<Rightarrow> operation) \<Rightarrow> document \<Rightarrow> document" where
  "update_operation path m f D =
     (case doc_paths D path of
        None \<Rightarrow> D
      | Some item \<Rightarrow>
          (case item m of
             None \<Rightarrow> D
           | Some op \<Rightarrow> D \<lparr> doc_paths := (doc_paths D)(path \<mapsto> item(m \<mapsto> f op)) \<rparr>))"

subsection \<open>The writers\<close>

definition API_CREDENTIAL_SCHEME :: string where "API_CREDENTIAL_SCHEME = ''apiCredential''"
definition CATALOG_PATH :: string where "CATALOG_PATH = ''/v1/reference/{catalog}''"
definition MODELS_PATH :: string where "MODELS_PATH = ''/v1/models''"
definition MODEL_PATH :: string where "MODEL_PATH = ''/v1/models/{model}''"

definition scope_requirement :: "Scope \<Rightarrow> operation \<Rightarrow> operation" where
  "scope_requirement scope op =
     op \<lparr> op_security := Some [(API_CREDENTIAL_SCHEME, [Scope_code scope])],
          op_responses := (op_responses op)(''401'' \<mapsto> ''AuthenticationRequiredProblem'',
            ''403'' \<mapsto> ''InsufficientScopeProblem'', ''429'' \<mapsto> ''RateLimitedProblem'') \<rparr>"

definition publish_route :: "RegisteredRoute \<Rightarrow> document \<Rightarrow> document" where
  "publish_route r D =
     (case required_scope (rr_policy r) of
        None \<Rightarrow> D
      | Some scope \<Rightarrow> update_operation (rr_path r) (rr_method r) (scope_requirement scope) D)"

definition publish_route_policies :: "RegisteredRoute list \<Rightarrow> document \<Rightarrow> document" where
  "publish_route_policies routes D =
     fold publish_route routes (D \<lparr> security_schemes := security_schemes D @ [API_CREDENTIAL_SCHEME] \<rparr>)"

text \<open>The first parameter named \<open>catalog\<close>.\<close>

fun set_catalog_enum :: "string list \<Rightarrow> parameter list \<Rightarrow> parameter list" where
  "set_catalog_enum slugs [] = []"
| "set_catalog_enum slugs (p # ps) =
     (if pm_name p = ''catalog''
      then (case pm_schema p of
              Some (ObjectSchema _) \<Rightarrow> p \<lparr> pm_schema := Some (ObjectSchema (Some slugs)) \<rparr>
            | _ \<Rightarrow> p) # ps
      else p # set_catalog_enum slugs ps)"

definition publish_catalog_slugs :: "document \<Rightarrow> document" where
  "publish_catalog_slugs D =
     (let slugs = map Catalog_slug Catalog_ALL in
      update_operation CATALOG_PATH Get
        (\<lambda>op. op \<lparr> op_parameters := map_option (set_catalog_enum slugs) (op_parameters op) \<rparr>) D)"

text \<open>The inventory of \<open>declared_routes\<close>.\<close>

definition declared_inventory :: "RegisteredRoute list" where
  "declared_inventory =
     [\<lparr> rr_method = Get, rr_path = ''/health'', rr_policy = Public \<rparr>,
      \<lparr> rr_method = Get, rr_path = ''/ready'', rr_policy = Public \<rparr>,
      \<lparr> rr_method = Get, rr_path = ''/version'', rr_policy = Public \<rparr>,
      \<lparr> rr_method = Get, rr_path = CATALOG_PATH, rr_policy = CatalogReadPolicy \<rparr>,
      \<lparr> rr_method = Get, rr_path = MODELS_PATH, rr_policy = CatalogReadPolicy \<rparr>,
      \<lparr> rr_method = Get, rr_path = MODEL_PATH, rr_policy = CatalogReadPolicy \<rparr>]"

definition openapi :: "document \<Rightarrow> document" where
  "openapi D = publish_catalog_slugs (publish_route_policies declared_inventory D)"

subsection \<open>What is published is what is enforced\<close>

lemma published_update:
  "published (update_operation path m f D) path' m' =
     (if path' = path \<and> m' = m then map_option f (published D path m) else published D path' m')"
  by (auto simp: published_def update_operation_def split: option.splits)

lemma published_route:
  "published (publish_route r D) path m =
     (if path = rr_path r \<and> m = rr_method r
      then map_option (case required_scope (rr_policy r) of None \<Rightarrow> id | Some sc \<Rightarrow> scope_requirement sc)
             (published D path m)
      else published D path m)"
  by (auto simp: publish_route_def published_update option.map_id split: option.splits)

definition same_operation :: "RegisteredRoute \<Rightarrow> RegisteredRoute \<Rightarrow> bool" where
  "same_operation a b \<longleftrightarrow> rr_path a = rr_path b \<and> rr_method a = rr_method b"

lemma published_fold:
  assumes "distinct (map (\<lambda>r. (rr_path r, rr_method r)) routes)"
  shows "published (fold publish_route routes D) path m =
     (case List.find (\<lambda>r. rr_path r = path \<and> rr_method r = m) routes of
        None \<Rightarrow> published D path m
      | Some r \<Rightarrow> map_option (case required_scope (rr_policy r) of None \<Rightarrow> id | Some sc \<Rightarrow> scope_requirement sc)
             (published D path m))"
  using assms
proof (induction routes arbitrary: D)
  case (Cons r routes)
  show ?case
  proof (cases "rr_path r = path \<and> rr_method r = m")
    case True
    with Cons.prems have "List.find (\<lambda>r. rr_path r = path \<and> rr_method r = m) routes = None"
      by (auto simp: find_None_iff image_iff)
    with True Cons show ?thesis by (simp add: published_route)
  next
    case False
    then have "published (publish_route r D) path m = published D path m" by (auto simp: published_route)
    moreover have "List.find (\<lambda>r. rr_path r = path \<and> rr_method r = m) (r # routes) =
        List.find (\<lambda>r. rr_path r = path \<and> rr_method r = m) routes"
      using False by (simp only: find.simps if_False)
    ultimately show ?thesis using Cons.IH [of "publish_route r D"] Cons.prems
      by (simp only: fold_Cons o_apply distinct.simps list.map)
  qed
qed simp

lemma published_schemes [simp]:
  "published (D \<lparr> security_schemes := x \<rparr>) = published D"
  by (simp add: published_def fun_eq_iff)

text \<open>
  in the generated document an operation of a registered route requires exactly the scope the router
  enforces for it, under the declared scheme, and no scope when the route is public; every
  scoped operation documents the 401, 403 and 429 enforcement can answer.
\<close>

theorem published_security_is_enforced:
  assumes "distinct (map (\<lambda>r. (rr_path r, rr_method r)) routes)" and "r \<in> set routes"
    and "published D (rr_path r) (rr_method r) = Some op" and "op_security op = None"
  shows "\<exists>op'. published (publish_route_policies routes D) (rr_path r) (rr_method r) = Some op' \<and>
     op_security op' = map_option (\<lambda>sc. [(API_CREDENTIAL_SCHEME, [Scope_code sc])]) (required_scope (rr_policy r)) \<and>
     (required_scope (rr_policy r) = None \<or> {''401'', ''403'', ''429''} \<subseteq> dom (op_responses op'))"
proof -
  have "List.find (\<lambda>r'. rr_path r' = rr_path r \<and> rr_method r' = rr_method r) routes = Some r"
    using find_distinct_key [OF assms(1,2)] by (simp add: conj_commute)
  then have "published (publish_route_policies routes D) (rr_path r) (rr_method r) =
      Some ((case required_scope (rr_policy r) of None \<Rightarrow> id | Some sc \<Rightarrow> scope_requirement sc) op)"
    using assms(3) by (simp add: publish_route_policies_def published_fold [OF assms(1)])
  then show ?thesis using assms(4)
    by (cases "required_scope (rr_policy r)") (auto simp: scope_requirement_def)
qed

lemma declared_distinct: "distinct (map (\<lambda>r. (rr_path r, rr_method r)) declared_inventory)"
  by (simp add: declared_inventory_def CATALOG_PATH_def MODELS_PATH_def MODEL_PATH_def)

definition sample_operation :: operation where
  "sample_operation = \<lparr> op_security = None, op_responses = (\<lambda>_. None),
     op_parameters = Some [\<lparr> pm_name = ''X-Request-Id'', pm_schema = Some OtherSchema \<rparr>,
       \<lparr> pm_name = ''catalog'', pm_schema = Some (ObjectSchema None) \<rparr>] \<rparr>"

definition sample_document :: document where
  "sample_document = \<lparr> security_schemes = [], doc_paths = (\<lambda>p. Some (\<lambda>m. Some sample_operation)) \<rparr>"

lemma published_security_is_enforced_witness:
  "\<exists>op'. published (publish_route_policies declared_inventory sample_document) MODELS_PATH Get = Some op' \<and>
     op_security op' = Some [(''apiCredential'', [''CATALOG_READ''])]"
  using published_security_is_enforced [OF declared_distinct, of "declared_inventory ! 4" sample_document sample_operation]
  by (simp add: declared_inventory_def sample_document_def published_def sample_operation_def API_CREDENTIAL_SCHEME_def)
    (use nothing in auto)

text \<open>
  the enumeration published for the catalog path segment holds a name exactly when the handler
  resolves that name to a catalog.
\<close>

theorem published_catalogs_are_served:
  assumes "published D CATALOG_PATH Get = Some op" and "op_parameters op = Some ps"
    and "List.find (\<lambda>p. pm_name p = ''catalog'') ps = Some p" and "pm_schema p = Some (ObjectSchema e)"
  shows "\<exists>op' ps' p' slugs. published (openapi D) CATALOG_PATH Get = Some op' \<and> op_parameters op' = Some ps' \<and>
     List.find (\<lambda>p. pm_name p = ''catalog'') ps' = Some p' \<and> pm_schema p' = Some (ObjectSchema (Some slugs)) \<and>
     (\<forall>s. s \<in> set slugs \<longleftrightarrow> is_ok (Catalog_try_from s))"
proof -
  let ?slugs = "map Catalog_slug Catalog_ALL"
  let ?op = "scope_requirement CatalogRead op"
  have "published (publish_route_policies declared_inventory D) CATALOG_PATH Get = Some ?op"
    using assms(1)
    by (simp add: publish_route_policies_def published_fold [OF declared_distinct])
      (simp add: declared_inventory_def CATALOG_PATH_def MODELS_PATH_def MODEL_PATH_def)
  then have "published (openapi D) CATALOG_PATH Get =
      Some (?op \<lparr> op_parameters := Some (set_catalog_enum ?slugs ps) \<rparr>)"
    using assms(2) by (simp add: openapi_def publish_catalog_slugs_def Let_def published_update scope_requirement_def)
  moreover have "List.find (\<lambda>p. pm_name p = ''catalog'') (set_catalog_enum ?slugs ps) =
      Some (p \<lparr> pm_schema := Some (ObjectSchema (Some ?slugs)) \<rparr>)"
    using assms(3,4) by (induction ps) (auto split: if_splits)
  moreover have "s \<in> set ?slugs \<longleftrightarrow> is_ok (Catalog_try_from s)" for s
    using catalog.lookup_Inl_iff [of UnknownCatalog s UnknownCatalog] catalog.finite_vocabulary
    by (cases "Catalog_try_from s") (auto simp: Catalog_try_from_def catalog.lookup_Inr_iff)
  ultimately show ?thesis by (intro exI conjI allI) (assumption | simp)+
qed

lemma published_catalogs_are_served_witness:
  "\<exists>op' ps' p' slugs. published (openapi sample_document) CATALOG_PATH Get = Some op' \<and> op_parameters op' = Some ps' \<and>
     List.find (\<lambda>p. pm_name p = ''catalog'') ps' = Some p' \<and> pm_schema p' = Some (ObjectSchema (Some slugs)) \<and>
     (\<forall>s. s \<in> set slugs \<longleftrightarrow> is_ok (Catalog_try_from s))"
  by (rule published_catalogs_are_served [of sample_document sample_operation
        "[\<lparr> pm_name = ''X-Request-Id'', pm_schema = Some OtherSchema \<rparr>,
          \<lparr> pm_name = ''catalog'', pm_schema = Some (ObjectSchema None) \<rparr>]"
        "\<lparr> pm_name = ''catalog'', pm_schema = Some (ObjectSchema None) \<rparr>" None])
    (simp_all add: sample_document_def published_def sample_operation_def)

end
