(* ===== verification/Api_App.thy ===== *)
theory Api_App
  imports Publication Catalog_Routes
begin

text \<open>
  The routes the API serves, with their handlers, as \<open>aircraft_api::lib\<close> assembles them: \<open>declared_routes\<close>
  behind the fallbacks and the perimeter. The world behind the handlers is what they consult; every
  declared handler leaves it alone.
\<close>

subsection \<open>Readiness\<close>

text \<open>What became of the probe's statement within \<open>READINESS_DEADLINE\<close>.\<close>

definition READINESS_DEADLINE_MS :: nat where "READINESS_DEADLINE_MS = 250"

record probe =
  probe_answer :: "driver_error option"
  probe_ms :: nat

definition READINESS_TIMEOUT :: PersistenceError where
  "READINESS_TIMEOUT =
     Database ''DATABASE_UNAVAILABLE'' ''the database did not answer within the readiness deadline''"

definition readiness_check :: "probe \<Rightarrow> PersistenceError + unit" where
  "readiness_check p =
     (if probe_ms p < READINESS_DEADLINE_MS
      then (case probe_answer p of None \<Rightarrow> Inr () | Some e \<Rightarrow> Inl (database_error e))
      else Inl READINESS_TIMEOUT)"

subsection \<open>The state behind the handlers\<close>

record 'o api_state =
  st_tables :: catalog_tables
  st_faults :: read_faults
  st_rank :: "string \<Rightarrow> 'o"
  st_probe :: probe
  st_shutdown :: ShutdownState
  st_version :: string
  st_build_commit :: "string option"

text \<open>What axum extracts from a request: a path segment and the query.\<close>

record extractors =
  ex_segment :: "http_request \<Rightarrow> string"
  ex_query :: "http_request \<Rightarrow> unit + ModelListQuery"

definition health :: "'o api_state service" where
  "health rq s = (s, json_response (JObject [(''status'', JString ''ok'')]))"

definition version_route :: "'o api_state service" where
  "version_route rq s =
     (s, json_response (JObject ([(''version'', JString (st_version s))] @
           optional ''build_commit'' JString (st_build_commit s))))"

definition ready :: "uri_parser \<Rightarrow> 'o api_state service" where
  "ready parse rq s =
     (if is_draining (st_shutdown s) then (s, refused parse ShuttingDown ''/ready'')
      else (s,
        case readiness_check (st_probe s) of
          Inr _ \<Rightarrow> json_response (JObject [(''status'', JString ''ready'')])
        | Inl _ \<Rightarrow> refused parse DatabaseUnavailable ''/ready''))"

definition catalog_handler :: "cursor_libs \<Rightarrow> 'k gate \<Rightarrow> extractors \<Rightarrow> 'o::linorder api_state service" where
  "catalog_handler L G X rq s =
     (s,
      catalog_route L (g_text G) (g_parse G) (entries (st_rank s) (st_faults s) (st_tables s)) (instance_of rq)
        (ex_segment X rq) rq)"

definition models_handler :: "cursor_libs \<Rightarrow> 'k gate \<Rightarrow> extractors \<Rightarrow> 'o::linorder api_state service" where
  "models_handler L G X rq s =
     (s,
      list_models_route L (g_parse G) (family_id (st_faults s) (st_tables s))
        (\<lambda>flt limit after. list_models (st_rank s) (st_faults s) flt (st_tables s) limit after) (instance_of rq)
        (ex_query X rq))"

definition model_handler :: "'k gate \<Rightarrow> extractors \<Rightarrow> 'o api_state service" where
  "model_handler G X rq s =
     (s,
      model_route (g_parse G) (find_model (st_faults s) (st_tables s)) (instance_of rq) (ex_segment X rq))"

subsection \<open>The router\<close>

definition declared_routes :: "cursor_libs \<Rightarrow> 'k gate \<Rightarrow> extractors \<Rightarrow> 'o::linorder api_state Routes" where
  "declared_routes L G X =
     Routes_route G Get MODEL_PATH CatalogReadPolicy (model_handler G X)
     (Routes_route G Get MODELS_PATH CatalogReadPolicy (models_handler L G X)
     (Routes_route G Get CATALOG_PATH CatalogReadPolicy (catalog_handler L G X)
     (Routes_route G Get ''/version'' Public version_route
     (Routes_route G Get ''/ready'' Public (ready (g_parse G))
     (Routes_route G Get ''/health'' Public health Routes_new)))))"

definition router_with_routes ::
  "cursor_libs \<Rightarrow> 'k gate \<Rightarrow> extractors \<Rightarrow> string \<Rightarrow> ('o::linorder api_state api service \<Rightarrow> 'o api_state api service) \<Rightarrow>
     nat \<Rightarrow> 'o api_state api fate \<Rightarrow> ((RouteMethod \<times> string) list \<Rightarrow> http_request \<Rightarrow> axum_match) \<Rightarrow>
     'o api_state Routes \<Rightarrow> 'o api_state api service" where
  "router_with_routes L G X fresh cors max_bytes f pick additional =
     perimeter (g_parse G) (g_text G) fresh cors max_bytes f
       (served (g_parse G) pick (Routes_merge additional (declared_routes L G X)))"

lemma declared_registered: "registered G (declared_routes L G X)"
  unfolding declared_routes_def by (intro registered.route registered.new)

text \<open>The inventory the document is generated from is that of the routes served.\<close>

lemma declared_inventory_eq: "inventory (declared_routes L G X) = declared_inventory"
  by (simp add: declared_routes_def Routes_route_def Routes_new_def declared_inventory_def)

subsection \<open>Confidentiality of the catalog\<close>

lemma policed_independent:
  assumes "required_scope pol = Some sc" and "\<nexists>who. granted G sc rq st who" and "limiter st' = limiter st"
  shows "snd (policed G pol h rq st) = snd (policed G pol h' rq st')"
proof -
  obtain rq' res where auth: "authenticate G rq (instance_of rq) = (rq', res)" by fastforce
  show ?thesis
  proof (cases res)
    case (Inl p)
    with auth assms(1) show ?thesis by (simp add: policed_def Let_def)
  next
    case (Inr who)
    obtain L a where adm: "admit (limiter st) (ap_principal_id who) (ap_tier who) (g_now G) = (L, a)" by fastforce
    from assms(2) have "\<not> granted G sc rq st who" by blast
    with auth Inr adm have "a \<noteq> Admitted \<or> sc \<notin> set (ap_scopes who)" by (simp add: granted_def)
    with auth Inr adm assms(1,3) show ?thesis by (cases a) (auto simp: policed_def Let_def)
  qed
qed

lemma granted_token:
  assumes "granted G sc rq st who" and "cred_libs_ok (g_libs G)" and "issued_store (g_libs G) ts store"
    and "g_resolve G = resolve_credential E store"
  shows "\<exists>token t who. bearer_token (g_text G) rq = Some token \<and> (t, who) \<in> set ts \<and>
     cl_sha256 (g_libs G) token = cl_sha256 (g_libs G) t \<and> live_principal store who sc"
proof -
  from assms(1) obtain rq' where auth: "authenticate G rq (instance_of rq) = (rq', Inr who)"
    and sc: "sc \<in> set (ap_scopes who)"
    unfolding granted_def by (metis prod.collapse)
  from authenticate_Inr [OF auth] obtain token candidate where tok:
    "bearer_token (g_text G) rq = Some token" "CredentialCandidate_parse (g_libs G) token = Inr candidate"
    "authenticate_candidate (g_libs G) (resolve_credential E store) candidate = Inr who"
    using assms(4) by auto
  from accepted_token_was_drawn [OF assms(2,3) tok(2,3)] accepted_is_live [OF tok(3) sc] tok(1)
  show ?thesis by blast
qed

lemma bearer_original [simp]: "bearer_token text (rq \<lparr> rq_original := p \<rparr>) = bearer_token text rq"
  by (simp add: bearer_token_def header_values_def)

text \<open>The declared routes, one by one.\<close>

lemma declared_router:
  "router (declared_routes L G X) =
     [(Get, ''/health'', policed G Public health), (Get, ''/ready'', policed G Public (ready (g_parse G))),
      (Get, ''/version'', policed G Public version_route),
      (Get, CATALOG_PATH, policed G CatalogReadPolicy (catalog_handler L G X)),
      (Get, MODELS_PATH, policed G CatalogReadPolicy (models_handler L G X)),
      (Get, MODEL_PATH, policed G CatalogReadPolicy (model_handler G X))]"
  by (simp add: declared_routes_def Routes_route_def Routes_new_def)

text \<open>
  C16: catalog data only reaches holders of the catalog scope: if two systems that differ in nothing but
  their tables answer a request differently, whatever route axum picks, then the request carries a
  token this store issued (up to SHA-256 collisions) for a live principal granted \<open>CATALOG_READ\<close>.
\<close>

theorem catalog_confidential:
  assumes "cred_libs_ok (g_libs G)" and "issued_store (g_libs G) ts store"
    and "g_resolve G = resolve_credential E store"
    and "st' = st \<lparr> world := world st \<lparr> st_tables := T, st_faults := F, st_rank := rank \<rparr> \<rparr>"
    and "snd (served parse pick (declared_routes L G X) rq st) \<noteq> snd (served parse pick (declared_routes L G X) rq st')"
  shows "\<exists>token t who. bearer_token (g_text G) rq = Some token \<and> (t, who) \<in> set ts \<and>
     cl_sha256 (g_libs G) token = cl_sha256 (g_libs G) t \<and> live_principal store who CatalogRead"
proof (rule ccontr)
  let ?rq = "rq \<lparr> rq_original := Some (rq_path rq) \<rparr>"
  assume none: "\<nexists>token t who. bearer_token (g_text G) rq = Some token \<and> (t, who) \<in> set ts \<and>
     cl_sha256 (g_libs G) token = cl_sha256 (g_libs G) t \<and> live_principal store who CatalogRead"
  have "\<nexists>who. granted G CatalogRead ?rq st who"
    using granted_token [OF _ assms(1-3), of CatalogRead ?rq st] none by auto
  then have scoped: "snd (policed G CatalogReadPolicy h ?rq st) = snd (policed G CatalogReadPolicy h ?rq st')" for h
    using assms(4) by (intro policed_independent) auto
  have public: "snd (policed G Public h ?rq st) = snd (policed G Public h ?rq st')"
    if "h \<in> {health, ready (g_parse G), version_route}" for h
    using that assms(4)
    by (auto simp: policed_def run_handler_def health_def ready_def version_route_def)
  have "snd (snd (snd (router (declared_routes L G X) ! i)) ?rq st) = snd (snd (snd (router (declared_routes L G X) ! i)) ?rq st')"
    if "i < length (router (declared_routes L G X))" for i
  proof -
    from that have "i \<in> {0, 1, 2, 3, 4, 5}" by (auto simp: declared_router)
    then show ?thesis using scoped public by (auto simp: declared_router)
  qed
  with assms(5) show False by (auto simp: served_def Let_def split: axum_match.splits if_splits)
qed

subsection \<open>Readiness and draining\<close>

text \<open>
  the readiness route answers 200 exactly when the process is not draining and the pool answered
  within the deadline; in every other case it answers 503, and while draining without looking at the
  pool.
\<close>

theorem ready_iff:
  "let r = snd (ready parse rq s) in
     (resp_status r = 200 \<longleftrightarrow> \<not> is_draining (st_shutdown s) \<and> probe_answer (st_probe s) = None \<and>
        probe_ms (st_probe s) < READINESS_DEADLINE_MS) \<and>
     (resp_status r = 503 \<longleftrightarrow> resp_status r \<noteq> 200) \<and>
     (is_draining (st_shutdown s) \<longleftrightarrow> r = refused parse ShuttingDown ''/ready'')"
proof -
  have status: "resp_status (refused parse k inst) = pc_status (contract k)" for k inst
    by (simp add: refused_def status_of_problem ApiProblem_new_def)
  have "refused parse DatabaseUnavailable ''/ready'' \<noteq> refused parse ShuttingDown ''/ready''"
    by (simp add: refused_def problem_response_def details_response_def details_def Let_def ApiProblem_new_def
        contract_of_def problem_json_def)
  moreover have "json_response b \<noteq> refused parse ShuttingDown ''/ready''" for b
    using status [of ShuttingDown "''/ready''"] by (auto simp: json_response_def contract_of_def dest!: arg_cong [where f = resp_status])
  ultimately show ?thesis
    by (auto simp: ready_def Let_def status contract_of_def json_response_def readiness_check_def
        split: option.splits)
qed

subsection \<open>An authenticated read\<close>

definition sample_state :: "catalog_tables \<Rightarrow> nat api_state api" where
  "sample_state T =
     \<lparr> limiter = RateLimiter_new sample_policy,
       world = \<lparr> st_tables = T, st_faults = no_read_faults, st_rank = length,
         st_probe = \<lparr> probe_answer = None, probe_ms = 0 \<rparr>, st_shutdown = ShutdownState_new,
         st_version = ''1'', st_build_commit = None \<rparr> \<rparr>"

definition one_row :: catalog_tables where
  "one_row = \<lparr> models = [], families = [], organizations = [], lookups = (\<lambda>_.
     [\<lparr> lk_code = ''A'', lk_label = ''a'', lk_description = None, lk_sort_order = 1, lk_is_active = True \<rparr>]) \<rparr>"

definition sample_extractors :: extractors where
  "sample_extractors = \<lparr> ex_segment = (\<lambda>_. ''fuel-types''), ex_query = (\<lambda>_. Inl ()) \<rparr>"

lemma sample_catalog_body:
  assumes "header_values ''if-none-match'' rq = []" and "entries length no_read_faults T FuelTypes = Inr es"
  shows "resp_body (snd (run_handler (catalog_handler L G sample_extractors) rq (sample_state T))) =
     Some (JArray (map (entry_json \<circ> CatalogEntryResponse_from) es))"
proof -
  have "Catalog_try_from ''fuel-types'' = Inr FuelTypes"
    by (simp add: Catalog_try_from_def catalog.lookup_Inr_iff)
  with assms show ?thesis
    by (simp add: run_handler_def catalog_handler_def sample_extractors_def sample_state_def catalog_route_def Let_def
        if_none_match_matches_def map_filter_def)
qed

lemma catalog_confidential_witness:
  "\<exists>store :: bool auth_store. live_principal store 7 CatalogRead"
proof -
  obtain store token where session: "issued_store sample_cred_libs sample_drawn store"
      "\<And>p inst. authenticate (sample_gate store) (sample_http token \<lparr> rq_original := p \<rparr>) inst =
        (remove_header AUTHORIZATION (sample_http token \<lparr> rq_original := p \<rparr>), Inr sample_who)"
    using sample_session by blast
  let ?G = "sample_gate store" and ?L = sample_cursor_libs and ?X = sample_extractors
  let ?rq = "sample_http token" and ?empty = "one_row \<lparr> lookups := (\<lambda>_. []) \<rparr>"
  let ?run = "\<lambda>T. snd (served (\<lambda>_. None) (\<lambda>_ _. Matched 3) (declared_routes ?L ?G ?X) ?rq (sample_state T))"
  let ?rq' = "remove_header AUTHORIZATION ?rq \<lparr> rq_original := Some ''/x'', rq_principal := Some sample_who \<rparr>"
  have body: "resp_body (?run T) = resp_body (snd (run_handler (catalog_handler ?L ?G ?X) ?rq' (sample_state T)))" for T
  proof -
    obtain Lm where "policed ?G CatalogReadPolicy (catalog_handler ?L ?G ?X) (?rq \<lparr> rq_original := Some ''/x'' \<rparr>) (sample_state T) =
        run_handler (catalog_handler ?L ?G ?X) ?rq' (sample_state T \<lparr> limiter := Lm \<rparr>)"
      using sample_policed [OF session(2), of "sample_state T" "catalog_handler ?L ?G ?X" "Some ''/x''"]
      by (auto simp: sample_state_def)
    then show ?thesis
      by (simp add: served_def Let_def declared_router sample_http_def run_handler_def catalog_handler_def)
  qed
  have none: "header_values ''if-none-match'' ?rq' = []"
    by (simp add: header_values_def remove_header_def sample_http_def AUTHORIZATION_def)
  have read: "entries length no_read_faults ?empty FuelTypes = Inr []"
    "\<exists>e. entries length no_read_faults one_row FuelTypes = Inr [e]"
    by (simp_all add: entries_def one_row_def statement_def select_entries_def Let_def MAX_CATALOG_ROWS_def
        catalog_entry_def)
  then obtain e where e: "entries length no_read_faults one_row FuelTypes = Inr [e]" by blast
  have "resp_body (?run one_row) \<noteq> resp_body (?run ?empty)"
    unfolding body sample_catalog_body [OF none e] sample_catalog_body [OF none read(1)] by simp
  then have differ: "?run one_row \<noteq> ?run ?empty" by auto
  have "sample_state ?empty = sample_state one_row \<lparr> world := world (sample_state one_row)
      \<lparr> st_tables := ?empty, st_faults := no_read_faults, st_rank := length \<rparr> \<rparr>"
    by (simp add: sample_state_def)
  from catalog_confidential [OF _ _ _ this differ, of sample_drawn store sample_auth_env] session(1) sample_cred_libs_ok
  show ?thesis
    by (auto simp: sample_gate_def drawn_tokens_def sample_entropy_def sample_issue_request_def)
qed

end
