(* ===== verification/Curation.thy ===== *)
theory Curation
  imports Credential_Store "HOL-Library.Sublist"
begin

text \<open>
  \<open>aircraft_app::curation\<close> and \<open>aircraft_db::curation_repository\<close>: deciding an assertion, publishing what
  it backs, and the durable read-model refresh. A decision is one transaction on the committed
  tables; every statement may fail. Numbers are PostgreSQL numerics, a value with its text.
\<close>

subsection \<open>Vocabulary\<close>

datatype Decision = DecAccepted | DecRejected

fun status_code :: "Decision \<Rightarrow> string" where
  "status_code DecAccepted = ''ACCEPTED''"
| "status_code DecRejected = ''REJECTED''"

fun is_accepted :: "Decision \<Rightarrow> bool" where
  "is_accepted DecAccepted = True"
| "is_accepted DecRejected = False"

datatype RefreshPolicy = Immediate | Deferred

record CurationOutcome =
  co_schema_version :: nat
  co_assertion_id :: int
  co_decision :: Decision
  measurement_canonicalized :: bool
  flags_resolved :: nat
  read_model_refreshed :: bool
  read_model_refresh_pending :: bool

definition CurationOutcome_new :: "int \<Rightarrow> Decision \<Rightarrow> CurationOutcome" where
  "CurationOutcome_new i d =
     \<lparr> co_schema_version = REPORT_SCHEMA_VERSION, co_assertion_id = i, co_decision = d,
       measurement_canonicalized = False, flags_resolved = 0, read_model_refreshed = False,
       read_model_refresh_pending = False \<rparr>"

record RefreshOutcome =
  ro_schema_version :: nat
  ro_refreshed :: bool
  requests_completed :: nat

definition nothing_pending :: RefreshOutcome where
  "nothing_pending = \<lparr> ro_schema_version = REPORT_SCHEMA_VERSION, ro_refreshed = False, requests_completed = 0 \<rparr>"

definition refreshed :: "nat \<Rightarrow> RefreshOutcome" where
  "refreshed n = \<lparr> ro_schema_version = REPORT_SCHEMA_VERSION, ro_refreshed = True, requests_completed = n \<rparr>"

datatype CurationError =
    UnknownAssertion int
  | AlreadyDecided int string
  | CurationConflict string int
  | SnapshotConflict string int
  | ValueMismatch int string string string
  | CurationPersistence PersistenceError

fun curation_code :: "CurationError \<Rightarrow> string" where
  "curation_code (UnknownAssertion _) = ''UNKNOWN_ASSERTION''"
| "curation_code (AlreadyDecided _ _) = ''ALREADY_DECIDED''"
| "curation_code (CurationConflict _ _) = ''CURATION_CONFLICT''"
| "curation_code (SnapshotConflict _ _) = ''SNAPSHOT_CONFLICT''"
| "curation_code (ValueMismatch _ _ _ _) = ''VALUE_MISMATCH''"
| "curation_code (CurationPersistence e) = persistence_code e"

subsection \<open>Tables\<close>

type_synonym numeric = "rat \<times> string"

record assertion =
  as_id :: int
  as_entity_type :: string
  as_entity_id :: int
  as_field :: string
  as_numeric :: "numeric option"
  as_status :: string
  as_accepted :: bool

datatype metric_table = PerformanceMetrics | WeightMetrics

record metric_row =
  me_table :: metric_table
  me_assertion :: "int option"
  me_variant :: int
  me_metric :: string
  me_canonical :: bool

datatype market_table = Valuations | CostSnapshots

text \<open>A valuation or cost snapshot; \<open>sn_values\<close> are the columns or rows a field name is compared with.\<close>

record snapshot_row =
  sn_table :: market_table
  sn_id :: int
  sn_variant :: int
  sn_date :: int
  sn_source :: string
  sn_canonical :: bool
  sn_columns :: "string \<Rightarrow> numeric option"
  sn_totals :: "(string \<Rightarrow> numeric option) option"
  sn_lines :: "(string \<times> numeric option) list"

record flag_row =
  fg_entity_type :: string
  fg_entity_id :: int
  fg_field :: "string option"
  fg_status :: string

record refresh_row =
  rq_id :: nat
  rq_status :: string
  rq_attempts :: nat

record curation_state =
  assertions :: "assertion list"
  metrics :: "metric_row list"
  snapshots :: "snapshot_row list"
  flags :: "flag_row list"
  requests :: "refresh_row list"
  read_model :: "metric_row list \<times> snapshot_row list"

text \<open>What the views select when they are rebuilt: the canonical rows.\<close>

definition published_rows :: "curation_state \<Rightarrow> metric_row list \<times> snapshot_row list" where
  "published_rows st = (filter me_canonical (metrics st), filter sn_canonical (snapshots st))"

subsection \<open>Routing of field names\<close>

definition PERFORMANCE_PREFIX :: string where "PERFORMANCE_PREFIX = ''performance.''"
definition WEIGHT_PREFIX :: string where "WEIGHT_PREFIX = ''weight.''"

definition market_target :: "string \<Rightarrow> market_table option" where
  "market_target entity_type =
     (if entity_type = ''VALUATION'' then Some Valuations
      else if entity_type = ''COST_SNAPSHOT'' then Some CostSnapshots else None)"

definition valuation_column :: "string \<Rightarrow> string option" where
  "valuation_column field =
     (if field = ''papi_price_estimate'' then Some ''papi_price_estimate''
      else if field = ''for_sale_count'' then Some ''for_sale_count'' else None)"

definition cost_total_column :: "string \<Rightarrow> string option" where
  "cost_total_column field =
     (if field = ''TOTAL_COST_ANNUAL'' then Some ''total_annual_usd''
      else if field = ''TOTAL_FIXED_COST'' then Some ''total_fixed_usd''
      else if field = ''TOTAL_VARIABLE_COST'' then Some ''total_variable_usd'' else None)"

definition measurement_target :: "string \<Rightarrow> (metric_table \<times> string) option" where
  "measurement_target field =
     (case strip_prefix PERFORMANCE_PREFIX field of
        Some code \<Rightarrow> Some (PerformanceMetrics, code)
      | None \<Rightarrow> map_option (Pair WeightMetrics) (strip_prefix WEIGHT_PREFIX field))"

subsection \<open>Statements\<close>

datatype curation_call =
    BeginDecision | LockField | UpdateAssertion | RollbackDecision | ReadCompetitor | UpdateMetric
  | ReadPublishable | ReadMismatch | ReadBlocking | UpdateSnapshot | ResolveFlags | EnqueueRequest
  | CommitDecision | ReadOutstanding | RebuildViews | CloseRequests | RecordFailure | ReadPending

text \<open>
  A failure is the driver's error and the constraint it names. A failed commit may have been applied.
  \<open>meanwhile\<close> is what other transactions have made of the tables when they are read after a rollback.
\<close>

record curation_env =
  cu_fault :: "curation_call \<Rightarrow> (driver_error \<times> string option) option"
  cu_applied :: bool
  cu_unique_text :: string
  cu_meanwhile :: "curation_state \<Rightarrow> curation_state"

definition statement_error :: "curation_env \<Rightarrow> curation_call \<Rightarrow> PersistenceError option" where
  "statement_error E c = map_option (\<lambda>(e, _). database_error e) (cu_fault E c)"

definition run_statement :: "curation_env \<Rightarrow> curation_call \<Rightarrow> 'a \<Rightarrow> CurationError + 'a" where
  "run_statement E c v =
     (case statement_error E c of Some e \<Rightarrow> Inl (CurationPersistence e) | None \<Rightarrow> Inr v)"

definition same_field :: "assertion \<Rightarrow> assertion \<Rightarrow> bool" where
  "same_field a b \<longleftrightarrow>
     as_entity_type a = as_entity_type b \<and> as_entity_id a = as_entity_id b \<and> as_field a = as_field b"

text \<open>\<open>lock_assertion_field\<close>: every assertion of the field of \<open>i\<close>, by id.\<close>

definition lock_assertion_field :: "curation_state \<Rightarrow> int \<Rightarrow> assertion list" where
  "lock_assertion_field st i =
     (case List.find (\<lambda>a. as_id a = i) (assertions st) of
        None \<Rightarrow> []
      | Some a \<Rightarrow> sort_key as_id (filter (same_field a) (assertions st)))"

definition set_assertion :: "int \<Rightarrow> Decision \<Rightarrow> curation_state \<Rightarrow> curation_state" where
  "set_assertion i d st =
     st \<lparr> assertions := map (\<lambda>a. if as_id a = i
            then a \<lparr> as_status := status_code d, as_accepted := is_accepted d \<rparr> else a) (assertions st) \<rparr>"

definition UNIQUE_ERROR :: "curation_env \<Rightarrow> driver_error" where
  "UNIQUE_ERROR E = (Some ''23505'', cu_unique_text E)"

text \<open>The partial unique indexes \<open>uq_perf_canonical\<close>, \<open>uq_wm_canonical\<close>, \<open>uq_val_canonical\<close>, \<open>uq_cs_canonical\<close>.\<close>

definition metrics_unique :: "metric_row list \<Rightarrow> bool" where
  "metrics_unique rs \<longleftrightarrow> distinct (map (\<lambda>r. (me_table r, me_variant r, me_metric r)) (filter me_canonical rs))"

definition snapshots_unique :: "snapshot_row list \<Rightarrow> bool" where
  "snapshots_unique rs \<longleftrightarrow> distinct (map (\<lambda>r. (sn_table r, sn_variant r)) (filter sn_canonical rs))"

definition metric_hit :: "metric_table \<Rightarrow> int \<Rightarrow> int \<Rightarrow> string \<Rightarrow> bool \<Rightarrow> metric_row \<Rightarrow> bool" where
  "metric_hit t i variant code b r \<longleftrightarrow>
     me_table r = t \<and> me_assertion r = Some i \<and> me_variant r = variant \<and> me_metric r = code \<and> me_canonical r \<noteq> b"

definition update_metric ::
  "curation_env \<Rightarrow> metric_table \<Rightarrow> int \<Rightarrow> int \<Rightarrow> string \<Rightarrow> bool \<Rightarrow> curation_state \<Rightarrow>
     CurationError + curation_state \<times> nat" where
  "update_metric E t i variant code b st =
     (let hit = metric_hit t i variant code b;
          rows = map (\<lambda>r. if hit r then r \<lparr> me_canonical := b \<rparr> else r) (metrics st)
      in if \<not> metrics_unique rows then Inl (CurationPersistence (database_error (UNIQUE_ERROR E)))
         else run_statement E UpdateMetric (st \<lparr> metrics := rows \<rparr>, length (filter hit (metrics st))))"

definition of_entity :: "string \<Rightarrow> int \<Rightarrow> assertion \<Rightarrow> bool" where
  "of_entity ty i a \<longleftrightarrow> as_entity_type a = ty \<and> as_entity_id a = i"

definition publishable :: "curation_state \<Rightarrow> string \<Rightarrow> int \<Rightarrow> bool" where
  "publishable st ty i \<longleftrightarrow>
     list_ex (\<lambda>a. of_entity ty i a \<and> as_accepted a) (assertions st) \<and>
     \<not> list_ex (\<lambda>u. of_entity ty i u \<and>
          \<not> list_ex (\<lambda>a. of_entity ty i a \<and> as_field a = as_field u \<and> as_accepted a) (assertions st))
        (assertions st)"

text \<open>\<open>IS DISTINCT FROM\<close> on a non-null left value, and the texts of a disagreement.\<close>

definition disagreement :: "numeric option \<Rightarrow> numeric option \<Rightarrow> (string \<times> string) option" where
  "disagreement asserted stored =
     (case asserted of
        None \<Rightarrow> None
      | Some a \<Rightarrow>
          (case stored of
             None \<Rightarrow> Some (snd a, ''no value'')
           | Some s \<Rightarrow> if fst a = fst s then None else Some (snd a, snd s)))"

definition stored_value :: "curation_state \<Rightarrow> market_table \<Rightarrow> int \<Rightarrow> string \<Rightarrow> numeric option option" where
  "stored_value st t i field =
     Option.bind (List.find (\<lambda>s. sn_table s = t \<and> sn_id s = i) (snapshots st)) (\<lambda>s.
       case t of
         Valuations \<Rightarrow> map_option (sn_columns s) (valuation_column field)
       | CostSnapshots \<Rightarrow>
           (case cost_total_column field of
              Some column \<Rightarrow> map_option (\<lambda>totals. totals column) (sn_totals s)
            | None \<Rightarrow> map_of (sn_lines s) field))"

definition market_value_mismatch :: "curation_state \<Rightarrow> int \<Rightarrow> market_table \<Rightarrow> int \<Rightarrow> string \<Rightarrow> (string \<times> string) option" where
  "market_value_mismatch st i t entity field =
     Option.bind (List.find (\<lambda>a. as_id a = i) (assertions st)) (\<lambda>a.
     Option.bind (stored_value st t entity field) (disagreement (as_numeric a)))"

definition blocking_snapshot :: "curation_state \<Rightarrow> market_table \<Rightarrow> int \<Rightarrow> int option" where
  "blocking_snapshot st t i =
     Option.bind (List.find (\<lambda>s. sn_table s = t \<and> sn_id s = i) (snapshots st)) (\<lambda>s.
       map_option sn_id (List.find (\<lambda>o'. sn_table o' = t \<and> sn_variant o' = sn_variant s \<and> sn_canonical o' \<and>
         sn_id o' \<noteq> i) (snapshots st)))"

definition snapshot_hit :: "market_table \<Rightarrow> int \<Rightarrow> bool \<Rightarrow> snapshot_row \<Rightarrow> bool" where
  "snapshot_hit t i b s \<longleftrightarrow> sn_table s = t \<and> sn_id s = i \<and> sn_canonical s \<noteq> b"

definition update_snapshot ::
  "curation_env \<Rightarrow> market_table \<Rightarrow> int \<Rightarrow> bool \<Rightarrow> curation_state \<Rightarrow> CurationError + curation_state \<times> nat" where
  "update_snapshot E t i b st =
     (let hit = snapshot_hit t i b;
          rows = map (\<lambda>s. if hit s then s \<lparr> sn_canonical := b \<rparr> else s) (snapshots st)
      in if \<not> snapshots_unique rows then Inl (CurationPersistence (database_error (UNIQUE_ERROR E)))
         else run_statement E UpdateSnapshot (st \<lparr> snapshots := rows \<rparr>, length (filter hit (snapshots st))))"

subsection \<open>Publishing a decision\<close>

text \<open>The tables, whether something was made canonical, and whether the read model's inputs moved.\<close>

definition publish_decision ::
  "curation_env \<Rightarrow> curation_state \<Rightarrow> int \<Rightarrow> string \<Rightarrow> int \<Rightarrow> string \<Rightarrow> Decision \<Rightarrow>
     CurationError + curation_state \<times> bool \<times> bool" where
  "publish_decision E st i ty entity field d =
     (case (if ty = ''AIRCRAFT_VARIANT'' then measurement_target field else None) of
        Some (t, code) \<Rightarrow>
          and_then (update_metric E t i entity code (is_accepted d) st) (\<lambda>(st', affected).
            Inr (st', is_accepted d \<and> affected > 0, affected > 0))
      | None \<Rightarrow>
     (case market_target ty of
        None \<Rightarrow> Inr (st, False, False)
      | Some t \<Rightarrow>
          and_then (run_statement E ReadPublishable (publishable st ty entity)) (\<lambda>pub.
          and_then (if \<not> is_accepted d \<or> t = Valuations \<and> valuation_column field = None then Inr None
                    else run_statement E ReadMismatch (market_value_mismatch st i t entity field)) (\<lambda>mismatch.
          case mismatch of
            Some (asserted, stored) \<Rightarrow> Inl (ValueMismatch i field asserted stored)
          | None \<Rightarrow>
          and_then (if pub then run_statement E ReadBlocking (blocking_snapshot st t entity) else Inr None) (\<lambda>blocking.
          case blocking of
            Some b \<Rightarrow> Inl (SnapshotConflict ty b)
          | None \<Rightarrow>
          and_then (update_snapshot E t entity pub st) (\<lambda>(st', affected).
            Inr (st', pub \<and> affected > 0, affected > 0)))))))"

definition flag_hit :: "string \<Rightarrow> int \<Rightarrow> string \<Rightarrow> flag_row \<Rightarrow> bool" where
  "flag_hit ty entity field f \<longleftrightarrow>
     fg_entity_type f = ty \<and> fg_entity_id f = entity \<and> fg_field f = Some field \<and> fg_status f = ''OPEN''"

definition resolve_flags :: "string \<Rightarrow> int \<Rightarrow> string \<Rightarrow> Decision \<Rightarrow> curation_state \<Rightarrow> curation_state \<times> nat" where
  "resolve_flags ty entity field d st =
     (let hit = flag_hit ty entity field in
      (st \<lparr> flags := map (\<lambda>f. if hit f
             then f \<lparr> fg_status := if is_accepted d then ''RESOLVED'' else ''DISMISSED'' \<rparr> else f) (flags st) \<rparr>,
       length (filter hit (flags st))))"

text \<open>The serial key of the next request.\<close>

definition next_request :: "curation_state \<Rightarrow> nat" where
  "next_request st = Suc (foldr max (map rq_id (requests st)) 0)"

definition enqueue_refresh_request :: "curation_state \<Rightarrow> curation_state" where
  "enqueue_refresh_request st =
     st \<lparr> requests := requests st @ [\<lparr> rq_id = next_request st, rq_status = ''PENDING'', rq_attempts = 0 \<rparr>] \<rparr>"

subsection \<open>Refreshing\<close>

definition pending_request :: "refresh_row \<Rightarrow> bool" where
  "pending_request r \<longleftrightarrow> rq_status r = ''PENDING''"

definition outstanding :: "curation_state \<Rightarrow> nat list" where
  "outstanding st = sort (map rq_id (filter pending_request (requests st)))"

definition rebuild_views :: "curation_state \<Rightarrow> curation_state" where
  "rebuild_views st = st \<lparr> read_model := published_rows st \<rparr>"

definition close_requests :: "nat list \<Rightarrow> curation_state \<Rightarrow> curation_state" where
  "close_requests ids st =
     st \<lparr> requests := map (\<lambda>r. if rq_id r \<in> set ids \<and> pending_request r
            then r \<lparr> rq_status := ''COMPLETED'' \<rparr> else r) (requests st) \<rparr>"

definition closed_count :: "nat list \<Rightarrow> curation_state \<Rightarrow> nat" where
  "closed_count ids st = length (filter (\<lambda>r. rq_id r \<in> set ids \<and> pending_request r) (requests st))"

definition record_refresh_failure :: "curation_env \<Rightarrow> nat list \<Rightarrow> curation_state \<Rightarrow> curation_state" where
  "record_refresh_failure E ids st =
     (if cu_fault E RecordFailure \<noteq> None then st
      else st \<lparr> requests := map (\<lambda>r. if rq_id r \<in> set ids \<and> pending_request r
             then r \<lparr> rq_attempts := rq_attempts r + 1 \<rparr> else r) (requests st) \<rparr>)"

definition refresh_and_settle :: "curation_env \<Rightarrow> curation_state \<Rightarrow> curation_state \<times> (PersistenceError + RefreshOutcome)" where
  "refresh_and_settle E st =
     (case statement_error E ReadOutstanding of
        Some e \<Rightarrow> (st, Inl e)
      | None \<Rightarrow>
     (let ids = outstanding st in
      if ids = [] then (st, Inr nothing_pending)
      else (case statement_error E RebuildViews of
        Some e \<Rightarrow> (record_refresh_failure E ids st, Inl e)
      | None \<Rightarrow>
     (let st1 = rebuild_views st in
      case statement_error E CloseRequests of
        Some e \<Rightarrow> (st1, Inl e)
      | None \<Rightarrow> (close_requests ids st1, Inr (refreshed (closed_count ids st1)))))))"

subsection \<open>Deciding\<close>

definition ROW_NOT_FOUND :: driver_error where
  "ROW_NOT_FOUND = (None, ''no rows returned by a query that expected to return at least one row'')"

fun is_assertion_acceptance_conflict :: "driver_error \<times> string option \<Rightarrow> bool" where
  "is_assertion_acceptance_conflict ((code, _), violated) \<longleftrightarrow>
     code = Some ''23505'' \<and> violated = Some ''uq_assertion_accepted''"

definition accepted_rival :: "assertion \<Rightarrow> assertion list \<Rightarrow> assertion option" where
  "accepted_rival a as = List.find (\<lambda>b. same_field a b \<and> as_id b \<noteq> as_id a \<and> as_accepted b) as"

text \<open>What a transaction that has locked the field writes before it commits.\<close>

definition decision_writes ::
  "curation_env \<Rightarrow> curation_state \<Rightarrow> assertion \<Rightarrow> Decision \<Rightarrow> CurationError + curation_state \<times> bool \<times> bool \<times> nat" where
  "decision_writes E st a d =
     and_then (publish_decision E (set_assertion (as_id a) d st) (as_id a) (as_entity_type a) (as_entity_id a)
         (as_field a) d) (\<lambda>(st1, canonicalized, changed).
     and_then (run_statement E ResolveFlags
         (resolve_flags (as_entity_type a) (as_entity_id a) (as_field a) d st1)) (\<lambda>(st2, resolved).
     and_then (if changed then run_statement E EnqueueRequest (enqueue_refresh_request st2) else Inr st2) (\<lambda>st3.
       Inr (st3, canonicalized, changed, resolved))))"

definition decide_with ::
  "curation_env \<Rightarrow> curation_state \<Rightarrow> int \<Rightarrow> Decision \<Rightarrow> RefreshPolicy \<Rightarrow>
     curation_state \<times> (CurationError + CurationOutcome)" where
  "decide_with E st i d refresh =
     (case statement_error E BeginDecision of Some e \<Rightarrow> (st, Inl (CurationPersistence e)) | None \<Rightarrow>
     (case statement_error E LockField of Some e \<Rightarrow> (st, Inl (CurationPersistence e)) | None \<Rightarrow>
     (let locked = lock_assertion_field st i in
      case List.find (\<lambda>a. as_id a = i) locked of
        None \<Rightarrow> (st, Inl (UnknownAssertion i))
      | Some a \<Rightarrow>
      if as_status a = status_code d then (st, Inl (AlreadyDecided i (as_status a)))
      else (case (if is_accepted d then accepted_rival a locked else None) of
        Some b \<Rightarrow> (st, Inl (CurationConflict (as_field a) (as_id b)))
      | None \<Rightarrow>
     (case cu_fault E UpdateAssertion of
        Some failure \<Rightarrow>
          if is_accepted d \<and> is_assertion_acceptance_conflict failure
          then (case statement_error E RollbackDecision of Some e \<Rightarrow> (st, Inl (CurationPersistence e)) | None \<Rightarrow>
               (case statement_error E ReadCompetitor of Some e \<Rightarrow> (st, Inl (CurationPersistence e)) | None \<Rightarrow>
               (case accepted_rival a (assertions (cu_meanwhile E st)) of
                  None \<Rightarrow> (st, Inl (CurationPersistence (database_error ROW_NOT_FOUND)))
                | Some b \<Rightarrow> (st, Inl (CurationConflict (as_field a) (as_id b))))))
          else (st, Inl (CurationPersistence (database_error (fst failure))))
      | None \<Rightarrow>
     (case decision_writes E st a d of
        Inl e \<Rightarrow> (st, Inl e)
      | Inr (st3, canonicalized, changed, resolved) \<Rightarrow>
     (case statement_error E CommitDecision of
        Some e \<Rightarrow> (if cu_applied E then st3 else st, Inl (CurationPersistence e))
      | None \<Rightarrow>
     (let outcome = CurationOutcome_new i d
            \<lparr> measurement_canonicalized := canonicalized, flags_resolved := resolved \<rparr>
      in if changed \<and> refresh = Deferred then (st3, Inr (outcome \<lparr> read_model_refresh_pending := True \<rparr>))
         else if changed
         then (case refresh_and_settle E st3 of
                 (st4, Inr _) \<Rightarrow> (st4, Inr (outcome \<lparr> read_model_refreshed := True \<rparr>))
               | (st4, Inl _) \<Rightarrow> (st4, Inr (outcome \<lparr> read_model_refresh_pending := True \<rparr>)))
         else (st3, Inr outcome)))))))))"

definition accept :: "curation_env \<Rightarrow> curation_state \<Rightarrow> int \<Rightarrow> curation_state \<times> (CurationError + CurationOutcome)" where
  "accept E st i = decide_with E st i DecAccepted Immediate"

definition accept_deferring_refresh ::
  "curation_env \<Rightarrow> curation_state \<Rightarrow> int \<Rightarrow> curation_state \<times> (CurationError + CurationOutcome)" where
  "accept_deferring_refresh E st i = decide_with E st i DecAccepted Deferred"

definition reject :: "curation_env \<Rightarrow> curation_state \<Rightarrow> int \<Rightarrow> curation_state \<times> (CurationError + CurationOutcome)" where
  "reject E st i = decide_with E st i DecRejected Immediate"

end
