(* ===== verification/Curation_Facts.thy ===== *)
theory Curation_Facts
  imports Curation
begin

text \<open>
  What a decision does, statement by statement, and the invariant of the curated tables: an accepted
  assertion is unique for its field, whatever is canonical is backed by accepted assertions, and an
  accepted market assertion agrees with the row it publishes.
\<close>

named_theorems curation_simps

subsection \<open>What each write leaves alone\<close>

lemma run_statement_Inr: "run_statement E c v = Inr w \<longleftrightarrow> w = v \<and> statement_error E c = None"
  by (auto simp: run_statement_def split: option.splits)

lemma set_assertion_fields [curation_simps]:
  "metrics (set_assertion i d st) = metrics st"
  "snapshots (set_assertion i d st) = snapshots st"
  "requests (set_assertion i d st) = requests st"
  "read_model (set_assertion i d st) = read_model st"
  by (simp_all add: set_assertion_def)

lemma resolve_flags_fields [curation_simps]:
  "assertions (fst (resolve_flags ty e f d st)) = assertions st"
  "metrics (fst (resolve_flags ty e f d st)) = metrics st"
  "snapshots (fst (resolve_flags ty e f d st)) = snapshots st"
  "requests (fst (resolve_flags ty e f d st)) = requests st"
  "read_model (fst (resolve_flags ty e f d st)) = read_model st"
  by (simp_all add: resolve_flags_def Let_def)

lemma enqueue_fields [curation_simps]:
  "assertions (enqueue_refresh_request st) = assertions st"
  "metrics (enqueue_refresh_request st) = metrics st"
  "snapshots (enqueue_refresh_request st) = snapshots st"
  "read_model (enqueue_refresh_request st) = read_model st"
  by (simp_all add: enqueue_refresh_request_def)

lemma rebuild_fields [curation_simps]:
  "assertions (rebuild_views st) = assertions st"
  "metrics (rebuild_views st) = metrics st"
  "snapshots (rebuild_views st) = snapshots st"
  "requests (rebuild_views st) = requests st"
  "read_model (rebuild_views st) = published_rows st"
  by (simp_all add: rebuild_views_def)

lemma close_fields [curation_simps]:
  "assertions (close_requests ids st) = assertions st"
  "metrics (close_requests ids st) = metrics st"
  "snapshots (close_requests ids st) = snapshots st"
  "read_model (close_requests ids st) = read_model st"
  by (simp_all add: close_requests_def)

lemma failure_fields [curation_simps]:
  "assertions (record_refresh_failure E ids st) = assertions st"
  "metrics (record_refresh_failure E ids st) = metrics st"
  "snapshots (record_refresh_failure E ids st) = snapshots st"
  "read_model (record_refresh_failure E ids st) = read_model st"
  by (simp_all add: record_refresh_failure_def)

text \<open>The columns a refresh never touches.\<close>

definition same_facts :: "curation_state \<Rightarrow> curation_state \<Rightarrow> bool" where
  "same_facts st st' \<longleftrightarrow>
     assertions st' = assertions st \<and> metrics st' = metrics st \<and> snapshots st' = snapshots st"

lemma refresh_same_facts: "same_facts st (fst (refresh_and_settle E st))"
  by (auto simp: refresh_and_settle_def same_facts_def Let_def curation_simps split: option.splits)

subsection \<open>Market values do not depend on what is canonical\<close>

definition same_but_canonical :: "snapshot_row \<Rightarrow> snapshot_row \<Rightarrow> bool" where
  "same_but_canonical s s' \<longleftrightarrow> s' = s \<lparr> sn_canonical := sn_canonical s' \<rparr>"

lemma find_map_key:
  assumes "\<And>s. P (f s) = P s"
  shows "List.find P (map f xs) = map_option f (List.find P xs)"
  using assms by (induction xs) auto

lemma stored_value_update:
  assumes "snapshots st' = map f (snapshots st)"
    and "\<And>s. same_but_canonical s (f s)"
  shows "stored_value st' t i field = stored_value st t i field"
proof -
  have key: "sn_table (f s) = sn_table s" "sn_id (f s) = sn_id s" "sn_columns (f s) = sn_columns s"
    "sn_totals (f s) = sn_totals s" "sn_lines (f s) = sn_lines s" for s
  proof -
    have eq: "f s = s \<lparr> sn_canonical := sn_canonical (f s) \<rparr>"
      using assms(2)[of s] by (simp add: same_but_canonical_def)
    show "sn_table (f s) = sn_table s" by (subst eq) simp
    show "sn_id (f s) = sn_id s" by (subst eq) simp
    show "sn_columns (f s) = sn_columns s" by (subst eq) simp
    show "sn_totals (f s) = sn_totals s" by (subst eq) simp
    show "sn_lines (f s) = sn_lines s" by (subst eq) simp
  qed
  show ?thesis
    by (cases "List.find (\<lambda>s. sn_table s = t \<and> sn_id s = i) (snapshots st)")
       (simp_all add: stored_value_def assms(1) find_map_key key split: market_table.splits option.splits)
qed

subsection \<open>Publishing\<close>

lemma update_metric_Inr:
  assumes "update_metric E t i v c b st = Inr (st', n)"
  shows "st' = st \<lparr> metrics := map (\<lambda>r. if metric_hit t i v c b r then r \<lparr> me_canonical := b \<rparr> else r) (metrics st) \<rparr>"
    and "n = length (filter (metric_hit t i v c b) (metrics st))"
    and "metrics_unique (metrics st')"
  using assms by (auto simp: update_metric_def Let_def run_statement_Inr split: if_splits)

lemma update_snapshot_Inr:
  assumes "update_snapshot E t i b st = Inr (st', n)"
  shows "st' = st \<lparr> snapshots := map (\<lambda>s. if snapshot_hit t i b s then s \<lparr> sn_canonical := b \<rparr> else s) (snapshots st) \<rparr>"
    and "n = length (filter (snapshot_hit t i b) (snapshots st))"
    and "snapshots_unique (snapshots st')"
  using assms by (auto simp: update_snapshot_def Let_def run_statement_Inr split: if_splits)

lemma not_Some_pair: "(\<forall>a b. x \<noteq> Some (a, b)) \<longleftrightarrow> x = None"
  by (cases x) auto

text \<open>The three ways a decision publishes.\<close>

lemma publish_decision_cases:
  assumes "publish_decision E st i ty entity field d = Inr (st', canonicalized, changed)"
  obtains
    (metric) t code n where "ty = ''AIRCRAFT_VARIANT''" "measurement_target field = Some (t, code)"
      "update_metric E t i entity code (is_accepted d) st = Inr (st', n)"
      "canonicalized = (is_accepted d \<and> 0 < n)" "changed = (0 < n)"
  | (market) t n where "market_target ty = Some t"
      "is_accepted d \<Longrightarrow> market_value_mismatch st i t entity field = None"
      "update_snapshot E t entity (publishable st ty entity) st = Inr (st', n)"
      "canonicalized = (publishable st ty entity \<and> 0 < n)" "changed = (0 < n)"
  | (provenance) "ty = ''AIRCRAFT_VARIANT'' \<Longrightarrow> measurement_target field = None"
      "market_target ty = None" "st' = st" "\<not> canonicalized" "\<not> changed"
proof (cases "if ty = ''AIRCRAFT_VARIANT'' then measurement_target field else None")
  case (Some target)
  then show thesis
    using assms by (cases target)
      (auto simp: publish_decision_def and_then_Inr_iff split: if_splits intro: metric)
next
  case no_metric: None
  show thesis
  proof (cases "market_target ty")
    case None
    then show thesis
      using assms no_metric by (auto simp: publish_decision_def split: if_splits intro!: provenance)
  next
    case (Some t)
    have agrees: "market_value_mismatch st i t entity field = None"
      if "t = Valuations" "valuation_column field = None"
      using that by (auto simp: market_value_mismatch_def stored_value_def split: Option.bind_splits)
    show thesis
      using assms no_metric Some agrees
      by (auto simp: publish_decision_def and_then_Inr_iff run_statement_Inr not_Some_pair
          split: option.splits if_splits intro!: market[OF Some])
  qed
qed

subsection \<open>Deciding\<close>

lemma find_SomeD: "List.find P xs = Some x \<Longrightarrow> x \<in> set xs \<and> P x"
  by (auto simp: find_Some_iff)

lemma locked_target:
  assumes "List.find (\<lambda>a. as_id a = i) (lock_assertion_field st i) = Some a"
  shows "a \<in> set (assertions st) \<and> as_id a = i"
  using find_SomeD[OF assms] by (auto simp: lock_assertion_field_def split: option.splits)

lemma locked_field:
  assumes "List.find (\<lambda>a. as_id a = i) (lock_assertion_field st i) = Some a"
  shows "set (lock_assertion_field st i) = {b \<in> set (assertions st). same_field a b}"
proof -
  obtain a' where locked: "set (lock_assertion_field st i) = {b \<in> set (assertions st). same_field a' b}"
    using assms by (cases "List.find (\<lambda>a. as_id a = i) (assertions st)") (auto simp: lock_assertion_field_def)
  moreover have "same_field a' a"
    using find_SomeD[OF assms] locked by auto
  ultimately show ?thesis
    by (auto simp: same_field_def)
qed

lemma accepted_rival_None:
  assumes "accepted_rival a (lock_assertion_field st i) = None"
    and "List.find (\<lambda>a. as_id a = i) (lock_assertion_field st i) = Some a"
    and "b \<in> set (assertions st)" "same_field a b" "as_accepted b"
  shows "as_id b = as_id a"
  using assms(1) assms(3-) locked_field[OF assms(2)] by (auto simp: accepted_rival_def find_None_iff)

text \<open>A decision that moved the tables: its assertion, and what the transaction wrote.\<close>

definition decided ::
  "curation_env \<Rightarrow> curation_state \<Rightarrow> int \<Rightarrow> Decision \<Rightarrow> assertion \<Rightarrow> curation_state \<Rightarrow> bool \<Rightarrow> bool" where
  "decided E st i d a st3 changed \<longleftrightarrow>
     a \<in> set (assertions st) \<and> as_id a = i \<and>
     (\<forall>b \<in> set (assertions st). is_accepted d \<and> same_field a b \<and> as_accepted b \<longrightarrow> as_id b = i) \<and>
     (\<exists>canonicalized resolved. decision_writes E st a d = Inr (st3, canonicalized, changed, resolved))"

lemma decide_with_cases:
  obtains (unchanged) "fst (decide_with E st i d r) = st"
  | (written) a st3 changed where "decided E st i d a st3 changed"
      "fst (decide_with E st i d r) = st3 \<or>
       changed \<and> r = Immediate \<and> fst (decide_with E st i d r) = fst (refresh_and_settle E st3)"
proof (cases "fst (decide_with E st i d r) = st")
  case True
  then show thesis by (rule unchanged)
next
  case False
  have begun: "statement_error E BeginDecision = None"
    using False by (cases "statement_error E BeginDecision") (simp_all add: decide_with_def)
  have locked: "statement_error E LockField = None"
    using False by (cases "statement_error E LockField") (simp_all add: decide_with_def begun)
  obtain a where a: "List.find (\<lambda>a. as_id a = i) (lock_assertion_field st i) = Some a"
    using False by (cases "List.find (\<lambda>a. as_id a = i) (lock_assertion_field st i)")
      (simp_all add: decide_with_def begun locked)
  have fresh: "as_status a \<noteq> status_code d"
    using False by (auto simp: decide_with_def begun locked a)
  have rival: "(if is_accepted d then accepted_rival a (lock_assertion_field st i) else None) = None" (is "?r = None")
    using False by (cases ?r) (simp_all add: decide_with_def begun locked a fresh)
  have refused: "fst (decide_with E st i d r) = st" if "cu_fault E UpdateAssertion = Some f" for f
    using fresh rival that by (auto simp: decide_with_def begun locked a split: option.split)
  have update: "cu_fault E UpdateAssertion = None"
    using False refused by (cases "cu_fault E UpdateAssertion") auto
  obtain st3 canonicalized changed resolved where
    writes: "decision_writes E st a d = Inr (st3, canonicalized, changed, resolved)"
    using False
    by (cases "decision_writes E st a d") (auto simp: decide_with_def begun locked a fresh rival update)
  have "decided E st i d a st3 changed"
    unfolding decided_def using locked_target[OF a] accepted_rival_None[OF _ a] rival writes by auto
  moreover have "fst (decide_with E st i d r) = st3 \<or>
       changed \<and> r = Immediate \<and> fst (decide_with E st i d r) = fst (refresh_and_settle E st3)"
  proof (cases "statement_error E CommitDecision")
    case None
    then show ?thesis
      by (cases r; cases "refresh_and_settle E st3"; cases "snd (refresh_and_settle E st3)")
         (auto simp: decide_with_def begun locked a fresh rival update writes Let_def)
  next
    case (Some e)
    then show ?thesis
      using False by (auto simp: decide_with_def begun locked a fresh rival update writes split: if_splits)
  qed
  ultimately show thesis by (rule written)
qed

lemma decision_writes_Inr:
  assumes "decision_writes E st a d = Inr (st3, canonicalized, changed, resolved)"
  obtains st1 where
    "publish_decision E (set_assertion (as_id a) d st) (as_id a) (as_entity_type a) (as_entity_id a) (as_field a) d
       = Inr (st1, canonicalized, changed)"
    "st3 = (let st2 = fst (resolve_flags (as_entity_type a) (as_entity_id a) (as_field a) d st1)
            in if changed then enqueue_refresh_request st2 else st2)"
  using assms
  by (auto simp: decision_writes_def and_then_Inr_iff run_statement_Inr case_prod_beta Let_def split: if_splits)

lemma decision_writes_rows:
  assumes "decision_writes E st a d = Inr (st3, canonicalized, changed, resolved)"
    and "publish_decision E (set_assertion (as_id a) d st) (as_id a) (as_entity_type a) (as_entity_id a) (as_field a) d
       = Inr (st1, canonicalized', changed')"
  shows "same_facts st1 st3" "read_model st3 = read_model st1"
  using assms(1)
  by (rule decision_writes_Inr; use assms(2) in \<open>simp add: same_facts_def Let_def curation_simps\<close>)+

subsection \<open>The invariant\<close>

definition assertions_ok :: "assertion list \<Rightarrow> bool" where
  "assertions_ok as \<longleftrightarrow>
     distinct (map as_id as) \<and>
     (\<forall>a \<in> set as. as_accepted a \<longleftrightarrow> as_status a = ''ACCEPTED'') \<and>
     (\<forall>a \<in> set as. \<forall>b \<in> set as. same_field a b \<and> as_accepted a \<and> as_accepted b \<longrightarrow> as_id a = as_id b)"

text \<open>A canonical measurement is the one its own accepted assertion produced.\<close>

definition backs :: "assertion \<Rightarrow> metric_row \<Rightarrow> bool" where
  "backs a r \<longleftrightarrow> me_assertion r = Some (as_id a) \<and> as_entity_type a = ''AIRCRAFT_VARIANT'' \<and>
     as_entity_id a = me_variant r \<and> measurement_target (as_field a) = Some (me_table r, me_metric r)"

definition metric_backed :: "assertion list \<Rightarrow> metric_row \<Rightarrow> bool" where
  "metric_backed as r \<longleftrightarrow> (me_canonical r \<longrightarrow> (\<exists>a \<in> set as. as_accepted a \<and> backs a r))"

text \<open>A canonical snapshot is fully curated.\<close>

definition snapshot_backed :: "curation_state \<Rightarrow> snapshot_row \<Rightarrow> bool" where
  "snapshot_backed st s \<longleftrightarrow>
     (sn_canonical s \<longrightarrow> (\<exists>ty. market_target ty = Some (sn_table s) \<and> publishable st ty (sn_id s)))"

text \<open>An accepted market assertion agrees with the stored value it is compared with.\<close>

definition value_agrees :: "curation_state \<Rightarrow> assertion \<Rightarrow> bool" where
  "value_agrees st a \<longleftrightarrow>
     (as_accepted a \<longrightarrow> (\<forall>t v. market_target (as_entity_type a) = Some t \<longrightarrow>
        stored_value st t (as_entity_id a) (as_field a) = Some v \<longrightarrow> disagreement (as_numeric a) v = None))"

definition curation_ok :: "curation_state \<Rightarrow> bool" where
  "curation_ok st \<longleftrightarrow>
     assertions_ok (assertions st) \<and> metrics_unique (metrics st) \<and> snapshots_unique (snapshots st) \<and>
     (\<forall>r \<in> set (metrics st). metric_backed (assertions st) r) \<and>
     (\<forall>s \<in> set (snapshots st). snapshot_backed st s) \<and>
     (\<forall>a \<in> set (assertions st). value_agrees st a)"

lemma stored_value_cong: "snapshots st' = snapshots st \<Longrightarrow> stored_value st' = stored_value st"
  by (simp add: stored_value_def fun_eq_iff)

lemma curation_ok_cong:
  assumes "same_facts st st'"
  shows "curation_ok st' \<longleftrightarrow> curation_ok st"
proof -
  have "stored_value st' = stored_value st"
    using assms by (intro stored_value_cong) (simp add: same_facts_def)
  then show ?thesis
    using assms
    by (simp add: same_facts_def curation_ok_def snapshot_backed_def value_agrees_def publishable_def)
qed

subsection \<open>A decision keeps it\<close>

definition redecide :: "int \<Rightarrow> Decision \<Rightarrow> assertion \<Rightarrow> assertion" where
  "redecide i d a = (if as_id a = i then a \<lparr> as_status := status_code d, as_accepted := is_accepted d \<rparr> else a)"

lemma set_assertion_redecide: "assertions (set_assertion i d st) = map (redecide i d) (assertions st)"
  by (simp add: set_assertion_def redecide_def)

lemma redecide_fields [simp]:
  "as_id (redecide i d a) = as_id a"
  "as_entity_type (redecide i d a) = as_entity_type a"
  "as_entity_id (redecide i d a) = as_entity_id a"
  "as_field (redecide i d a) = as_field a"
  "as_numeric (redecide i d a) = as_numeric a"
  "as_accepted (redecide i d a) = (if as_id a = i then is_accepted d else as_accepted a)"
  "as_status (redecide i d a) = (if as_id a = i then status_code d else as_status a)"
  by (simp_all add: redecide_def)

lemma redecide_views [simp]:
  "same_field (redecide i d a) (redecide i d b) = same_field a b"
  "backs (redecide i d a) r = backs a r"
  "of_entity ty e (redecide i d a) = of_entity ty e a"
  by (simp_all add: same_field_def backs_def of_entity_def)

lemma redecide_other: "as_id a \<noteq> i \<Longrightarrow> redecide i d a = a"
  by (simp add: redecide_def)

lemma status_code_accepted: "status_code d = ''ACCEPTED'' \<longleftrightarrow> is_accepted d"
  by (cases d) simp_all

lemma redecide_assertions_ok:
  assumes "assertions_ok as" "a \<in> set as" "as_id a = i"
    and "\<And>b. is_accepted d \<Longrightarrow> b \<in> set as \<Longrightarrow> same_field a b \<Longrightarrow> as_accepted b \<Longrightarrow> as_id b = i"
  shows "assertions_ok (map (redecide i d) as)"
proof -
  have ids: "inj_on as_id (set as)" "distinct (map as_id as)"
    and unique: "x \<in> set as \<Longrightarrow> y \<in> set as \<Longrightarrow> same_field x y \<Longrightarrow> as_accepted x \<Longrightarrow> as_accepted y \<Longrightarrow> as_id x = as_id y"
    and status: "x \<in> set as \<Longrightarrow> as_accepted x \<longleftrightarrow> as_status x = ''ACCEPTED''" for x y
    using assms(1) by (auto simp: assertions_ok_def distinct_map)
  have same: "b = a" if "b \<in> set as" "as_id b = i" for b
    using ids(1) assms(2,3) that by (auto dest: inj_onD)
  have "as_id x = as_id y"
    if xy: "x \<in> set as" "y \<in> set as" "same_field x y"
      "as_accepted (redecide i d x)" "as_accepted (redecide i d y)" for x y
  proof (cases "as_id x = i"; cases "as_id y = i")
    assume "as_id x = i" "as_id y \<noteq> i"
    then show ?thesis using xy same[of x] assms(4)[of y] by simp
  next
    assume "as_id x \<noteq> i" "as_id y = i"
    then show ?thesis using xy same[of y] assms(4)[of x] by (simp add: same_field_def)
  next
    assume "as_id x \<noteq> i" "as_id y \<noteq> i"
    then show ?thesis using xy unique by simp
  qed simp
  moreover have "as_accepted (redecide i d x) \<longleftrightarrow> as_status (redecide i d x) = ''ACCEPTED''" if "x \<in> set as" for x
    using status[OF that] by (simp add: status_code_accepted)
  ultimately show ?thesis
    using ids(2) by (simp add: assertions_ok_def comp_def)
qed

lemma redecide_publishable:
  assumes "assertions_ok (assertions st)" "a \<in> set (assertions st)" "as_id a = i" "\<not> of_entity ty e a"
    and "assertions st' = map (redecide i d) (assertions st)"
  shows "publishable st' ty e \<longleftrightarrow> publishable st ty e"
proof -
  have same: "b = a" if "b \<in> set (assertions st)" "as_id b = i" for b
    using assms(1-3) that by (auto simp: assertions_ok_def distinct_map dest: inj_onD)
  have "redecide i d b = b" if "b \<in> set (assertions st)" "of_entity ty e b" for b
    using same[of b] that assms(4) by (cases "as_id b = i") (auto simp: redecide_other)
  then have accepted: "as_accepted (redecide i d b) = as_accepted b"
    if "b \<in> set (assertions st)" "of_entity ty e b" for b
    using that by metis
  show ?thesis
    unfolding publishable_def assms(5) list_ex_iff set_map bex_simps(7) redecide_views redecide_fields(4)
    using accepted by blast
qed

lemma backed_by_other:
  assumes "metric_backed as r" "\<And>b. b \<in> set as \<Longrightarrow> as_id b = i \<Longrightarrow> \<not> backs b r"
  shows "metric_backed (map (redecide i d) as) r"
  unfolding metric_backed_def
proof
  assume "me_canonical r"
  then obtain b where "b \<in> set as" "as_accepted b" "backs b r"
    using assms(1) by (auto simp: metric_backed_def)
  moreover from this assms(2) have "redecide i d b = b"
    by (auto intro!: redecide_other)
  ultimately show "\<exists>a \<in> set (map (redecide i d) as). as_accepted a \<and> backs a r"
    by (metis image_eqI list.set_map)
qed

lemma backed_after_update:
  assumes "assertions_ok as" "a \<in> set as" "as_id a = i" "as_entity_type a = ''AIRCRAFT_VARIANT''"
    and "measurement_target (as_field a) = Some (t, code)" "metric_backed as r"
  shows "metric_backed (map (redecide i d) as)
    (if metric_hit t i (as_entity_id a) code (is_accepted d) r then r \<lparr> me_canonical := is_accepted d \<rparr> else r)"
proof -
  have same: "b = a" if "b \<in> set as" "as_id b = i" for b
    using assms(1-3) that by (auto simp: assertions_ok_def distinct_map dest: inj_onD)
  show ?thesis
  proof (cases "metric_hit t i (as_entity_id a) code (is_accepted d) r")
    case True
    then have "backs (redecide i d a) (r \<lparr> me_canonical := is_accepted d \<rparr>)"
      using assms(3-5) by (simp add: backs_def metric_hit_def)
    then show ?thesis
      using True assms(2,3) by (auto simp: metric_backed_def intro!: bexI[of _ a])
  next
    case no_hit: False
    show ?thesis
    proof (cases "backs a r \<and> is_accepted d")
      case True
      then show ?thesis
        using True no_hit assms(2,3) by (auto simp: metric_backed_def intro!: bexI[of _ a])
    next
      case False
      have "\<not> me_canonical r" if "backs a r"
        using that False no_hit assms(3-5) by (simp add: backs_def metric_hit_def)
      then have "metric_backed (map (redecide i d) as) r"
      proof (cases "backs a r")
        case True
        with \<open>backs a r \<Longrightarrow> \<not> me_canonical r\<close> show ?thesis by (simp add: metric_backed_def)
      next
        case False
        then show ?thesis using backed_by_other[OF assms(6), of i d] same by blast
      qed
      then show ?thesis using no_hit by simp
    qed
  qed
qed

lemma snapshot_backed_other:
  assumes "snapshot_backed st s"
    and "\<And>ty. market_target ty = Some (sn_table s) \<Longrightarrow> publishable st ty (sn_id s) \<Longrightarrow> publishable st' ty (sn_id s)"
  shows "snapshot_backed st' s"
  using assms by (auto simp: snapshot_backed_def)

lemma market_target_inj: "market_target a = Some t \<Longrightarrow> market_target b = Some t \<Longrightarrow> a = b"
  by (auto simp: market_target_def split: if_splits)

lemma market_not_variant: "market_target ''AIRCRAFT_VARIANT'' = None"
  by (simp add: market_target_def)

lemma stored_value_flip:
  assumes "snapshots st' = map (\<lambda>s. if P s then s \<lparr> sn_canonical := b \<rparr> else s) (snapshots st)"
  shows "stored_value st' = stored_value st"
  using stored_value_update[OF assms] by (auto simp: fun_eq_iff same_but_canonical_def)

lemma agrees_after:
  assumes "value_agrees st a" "stored_value st' = stored_value st"
    and "\<And>t v. as_id a = i \<Longrightarrow> is_accepted d \<Longrightarrow> market_target (as_entity_type a) = Some t \<Longrightarrow>
      stored_value st t (as_entity_id a) (as_field a) = Some v \<Longrightarrow> disagreement (as_numeric a) v = None"
  shows "value_agrees st' (redecide i d a)"
  using assms by (auto simp: value_agrees_def)

lemma find_by_id: "distinct (map f xs) \<Longrightarrow> x \<in> set xs \<Longrightarrow> List.find (\<lambda>y. f y = f x) xs = Some x"
  by (induction xs) (auto simp: image_iff)

lemma mismatch_None:
  assumes "assertions_ok (assertions st)" "a \<in> set (assertions st)" "as_id a = i"
    and "market_value_mismatch (set_assertion i d st) i t (as_entity_id a) (as_field a) = None"
    and "stored_value st t (as_entity_id a) (as_field a) = Some v"
  shows "disagreement (as_numeric a) v = None"
proof -
  have "List.find (\<lambda>a. as_id a = i) (assertions st) = Some a"
    using assms(1-3) find_by_id[of as_id "assertions st" a] by (simp add: assertions_ok_def)
  then show ?thesis
    using assms(4,5)
    by (simp add: market_value_mismatch_def set_assertion_redecide find_map_key
        stored_value_cong[of "set_assertion i d st" st] curation_simps)
qed

text \<open>A sound state in which \<open>a\<close> may be decided: no other assertion of its field is accepted already.\<close>

definition decidable_in :: "curation_state \<Rightarrow> int \<Rightarrow> Decision \<Rightarrow> assertion \<Rightarrow> bool" where
  "decidable_in st i d a \<longleftrightarrow> curation_ok st \<and> a \<in> set (assertions st) \<and> as_id a = i \<and>
     (\<forall>b \<in> set (assertions st). is_accepted d \<and> same_field a b \<and> as_accepted b \<longrightarrow> as_id b = i)"

lemma decidable_parts:
  assumes "decidable_in st i d a"
  shows "assertions_ok (assertions st)" "a \<in> set (assertions st)" "as_id a = i"
    and "metrics_unique (metrics st)" "snapshots_unique (snapshots st)"
    and "r \<in> set (metrics st) \<Longrightarrow> metric_backed (assertions st) r"
    and "s \<in> set (snapshots st) \<Longrightarrow> snapshot_backed st s"
    and "b \<in> set (assertions st) \<Longrightarrow> value_agrees st b"
    and "b \<in> set (assertions st) \<Longrightarrow> as_id b = i \<Longrightarrow> b = a"
    and "assertions_ok (assertions (set_assertion i d st))"
proof -
  show ok: "assertions_ok (assertions st)" and a: "a \<in> set (assertions st)" "as_id a = i"
    using assms by (simp_all add: decidable_in_def curation_ok_def)
  show "assertions_ok (assertions (set_assertion i d st))"
    unfolding set_assertion_redecide
    by (rule redecide_assertions_ok[OF ok a]) (use assms in \<open>simp add: decidable_in_def\<close>)
  show "b \<in> set (assertions st) \<Longrightarrow> as_id b = i \<Longrightarrow> b = a"
    using ok a by (auto simp: assertions_ok_def distinct_map dest: inj_onD)
qed (use assms in \<open>simp_all add: decidable_in_def curation_ok_def\<close>)

lemma other_entity:
  assumes "decidable_in st i d a" "\<not> of_entity ty e a" "assertions st' = assertions (set_assertion i d st)"
  shows "publishable st' ty e \<longleftrightarrow> publishable st ty e"
  using redecide_publishable[OF decidable_parts(1-3)[OF assms(1)] assms(2)] assms(3)
  by (simp add: set_assertion_redecide)

lemma metrics_kept:
  assumes "decidable_in st i d a" "r \<in> set (metrics st)" "\<not> backs a r"
  shows "metric_backed (assertions (set_assertion i d st)) r"
  unfolding set_assertion_redecide
  using backed_by_other[OF decidable_parts(6)[OF assms(1,2)], of i d] decidable_parts(9)[OF assms(1)] assms(3)
  by metis

lemma snapshot_kept:
  assumes "decidable_in st i d a" "s \<in> set (snapshots st)" "assertions st' = assertions (set_assertion i d st)"
    and "market_target (as_entity_type a) \<noteq> Some (sn_table s) \<or> sn_id s \<noteq> as_entity_id a"
  shows "snapshot_backed st' s"
proof (rule snapshot_backed_other[OF decidable_parts(7)[OF assms(1,2)]])
  fix ty assume "market_target ty = Some (sn_table s)" "publishable st ty (sn_id s)"
  moreover from this(1) assms(4) have "\<not> of_entity ty (sn_id s) a"
    by (auto simp: of_entity_def)
  ultimately show "publishable st' ty (sn_id s)"
    using other_entity[OF assms(1) _ assms(3)] by simp
qed

lemma values_kept:
  assumes "decidable_in st i d a" "stored_value st' = stored_value st" "assertions st' = assertions (set_assertion i d st)"
    and agrees: "\<And>t. market_target (as_entity_type a) = Some t \<Longrightarrow> is_accepted d \<Longrightarrow>
        market_value_mismatch (set_assertion i d st) i t (as_entity_id a) (as_field a) = None"
    and "b' \<in> set (assertions st')"
  shows "value_agrees st' b'"
proof -
  obtain b where b: "b \<in> set (assertions st)" "b' = redecide i d b"
    using assms(3,5) by (auto simp: set_assertion_redecide)
  have "disagreement (as_numeric b) v = None"
    if "as_id b = i" "is_accepted d" "market_target (as_entity_type b) = Some t"
      "stored_value st t (as_entity_id b) (as_field b) = Some v" for t v
    using decidable_parts(9)[OF assms(1) b(1) that(1)] that mismatch_None[OF decidable_parts(1-3)[OF assms(1)] agrees]
    by simp
  then show ?thesis
    unfolding b(2) using agrees_after[OF decidable_parts(8)[OF assms(1) b(1)] assms(2)] by blast
qed

lemma publish_metric_ok:
  assumes a: "decidable_in st i d a" "as_entity_type a = ''AIRCRAFT_VARIANT''" "measurement_target (as_field a) = Some (t, code)"
    and "update_metric E t i (as_entity_id a) code (is_accepted d) (set_assertion i d st) = Inr (st', n)"
  shows "curation_ok st'"
proof -
  note st' = update_metric_Inr[OF assms(4)]
  have facts': "assertions st' = assertions (set_assertion i d st)" "snapshots st' = snapshots st"
    by (simp_all add: st'(1) curation_simps)
  have "metric_backed (assertions st') r" if new: "r \<in> set (metrics st')" for r
  proof -
    obtain r0 where r0: "r0 \<in> set (metrics st)"
      "r = (if metric_hit t i (as_entity_id a) code (is_accepted d) r0 then r0 \<lparr> me_canonical := is_accepted d \<rparr> else r0)"
      using new by (auto simp: st'(1) curation_simps)
    show ?thesis
      using backed_after_update[OF decidable_parts(1-3)[OF a(1)] a(2,3) decidable_parts(6)[OF a(1) r0(1)], of d]
      by (simp add: r0(2) st'(1) set_assertion_redecide)
  qed
  then show ?thesis
    using decidable_parts(5,10)[OF a(1)] st'(3) snapshot_kept[OF a(1) _ facts'(1)]
      values_kept[OF a(1) stored_value_cong[OF facts'(2)] facts'(1)] a(2)
    by (simp add: curation_ok_def facts' market_not_variant)
qed

lemma publish_market_ok:
  assumes a: "decidable_in st i d a" "market_target (as_entity_type a) = Some t"
    and agrees: "is_accepted d \<Longrightarrow>
      market_value_mismatch (set_assertion i d st) i t (as_entity_id a) (as_field a) = None"
    and "update_snapshot E t (as_entity_id a) pub (set_assertion i d st) = Inr (st', n)"
    and pub: "pub \<longleftrightarrow> publishable (set_assertion i d st) (as_entity_type a) (as_entity_id a)"
  shows "curation_ok st'"
proof -
  note st' = update_snapshot_Inr[OF assms(4)]
  have facts': "assertions st' = assertions (set_assertion i d st)" "metrics st' = metrics st"
    by (simp_all add: st'(1) curation_simps)
  have rows: "snapshots st' = map (\<lambda>s. if snapshot_hit t (as_entity_id a) pub s
      then s \<lparr> sn_canonical := pub \<rparr> else s) (snapshots st)"
    by (simp add: st'(1) curation_simps)
  have "metric_backed (assertions st') r" if "r \<in> set (metrics st)" for r
    unfolding facts'(1)
    by (rule metrics_kept[OF a(1) that]) (use a(2) in \<open>auto simp: backs_def market_not_variant\<close>)
  moreover have "snapshot_backed st' s" if new: "s \<in> set (snapshots st')" for s
  proof -
    obtain s0 where s0: "s0 \<in> set (snapshots st)"
      "s = (if snapshot_hit t (as_entity_id a) pub s0 then s0 \<lparr> sn_canonical := pub \<rparr> else s0)"
      using new unfolding rows by auto
    show ?thesis
    proof (cases "sn_table s0 = t \<and> sn_id s0 = as_entity_id a")
      case True
      then have "sn_canonical s \<longrightarrow> publishable st' (as_entity_type a) (sn_id s)" "sn_table s = t"
        by (simp_all add: s0(2) snapshot_hit_def pub publishable_def facts')
      then show ?thesis
        using a(2) by (auto simp: snapshot_backed_def)
    next
      case False
      then have "s = s0" by (auto simp: s0(2) snapshot_hit_def)
      then show ?thesis
        using snapshot_kept[OF a(1) s0(1) facts'(1)] False a(2) by auto
    qed
  qed
  ultimately show ?thesis
    using decidable_parts(4,10)[OF a(1)] st'(3) values_kept[OF a(1) stored_value_flip[OF rows] facts'(1)] a(2) agrees
    by (simp add: curation_ok_def facts')
qed

lemma provenance_ok:
  assumes a: "decidable_in st i d a" "market_target (as_entity_type a) = None"
    and "as_entity_type a = ''AIRCRAFT_VARIANT'' \<Longrightarrow> measurement_target (as_field a) = None"
  shows "curation_ok (set_assertion i d st)"
proof -
  have "metric_backed (assertions (set_assertion i d st)) r" if "r \<in> set (metrics st)" for r
    by (rule metrics_kept[OF a(1) that]) (use assms(3) in \<open>auto simp: backs_def\<close>)
  then show ?thesis
    using decidable_parts(4,5,10)[OF a(1)] snapshot_kept[OF a(1)] values_kept[OF a(1) stored_value_cong] a(2)
    by (simp add: curation_ok_def curation_simps)
qed

lemma decided_ok:
  assumes "curation_ok st" "decided E st i d a st3 changed"
  shows "curation_ok st3"
proof -
  have a: "decidable_in st i d a"
    using assms by (auto simp: decided_def decidable_in_def)
  obtain canonicalized resolved where
    writes: "decision_writes E st a d = Inr (st3, canonicalized, changed, resolved)"
    using assms(2) by (auto simp: decided_def)
  obtain st1 where pub: "publish_decision E (set_assertion i d st) i (as_entity_type a) (as_entity_id a)
      (as_field a) d = Inr (st1, canonicalized, changed)"
    using writes decidable_parts(3)[OF a] by (auto elim: decision_writes_Inr)
  then have "curation_ok st1"
  proof (cases rule: publish_decision_cases)
    case (metric t code n)
    then show ?thesis by (intro publish_metric_ok[OF a])
  next
    case (market t n)
    then show ?thesis by (intro publish_market_ok[OF a]) auto
  next
    case provenance
    then show ?thesis using provenance_ok[OF a] by simp
  qed
  then show ?thesis
    using curation_ok_cong decision_writes_rows(1)[OF writes] pub decidable_parts(3)[OF a] by blast
qed

lemma decide_with_ok:
  assumes "curation_ok st"
  shows "curation_ok (fst (decide_with E st i d r))"
proof (cases rule: decide_with_cases[of E st i d r])
  case (written a st3 changed)
  then show ?thesis
    using decided_ok[OF assms] curation_ok_cong[OF refresh_same_facts] by metis
qed (simp add: assms)

end
