(* ===== verification/Curation_Guarantees.thy ===== *)
theory Curation_Guarantees
  imports Curation_Facts
begin

text \<open>
  Curation under interleaving. Decisions commit one at a time; any number of processes run
  \<open>refresh_and_settle\<close> between them, its list, rebuild and close statements apart, each of which may
  fail or be the process's last. A rebuild reads the canonical rows and replaces the read model at once.
\<close>

subsection \<open>Steps\<close>

datatype refresh_phase = Idle | Listed "nat list" | Rebuilt "nat list"

record curation_system =
  tables :: curation_state
  refreshers :: "nat \<Rightarrow> refresh_phase"

definition at_rest :: "curation_state \<Rightarrow> curation_system" where
  "at_rest st = \<lparr> tables = st, refreshers = (\<lambda>_. Idle) \<rparr>"

inductive curation_step :: "curation_system \<Rightarrow> curation_system \<Rightarrow> bool" where
  decides: "curation_step \<sigma> (\<sigma> \<lparr> tables := fst (decide_with E (tables \<sigma>) i d Deferred) \<rparr>)"
| lists: "refreshers \<sigma> p = Idle \<Longrightarrow>
    curation_step \<sigma> (\<sigma> \<lparr> refreshers := (refreshers \<sigma>)(p := Listed (outstanding (tables \<sigma>))) \<rparr>)"
| rebuilds: "refreshers \<sigma> p = Listed ids \<Longrightarrow>
    curation_step \<sigma> (\<sigma> \<lparr> tables := rebuild_views (tables \<sigma>), refreshers := (refreshers \<sigma>)(p := Rebuilt ids) \<rparr>)"
| fails: "refreshers \<sigma> p = Listed ids \<Longrightarrow>
    curation_step \<sigma> (\<sigma> \<lparr> tables := record_refresh_failure E ids (tables \<sigma>), refreshers := (refreshers \<sigma>)(p := Idle) \<rparr>)"
| closes: "refreshers \<sigma> p = Rebuilt ids \<Longrightarrow>
    curation_step \<sigma> (\<sigma> \<lparr> tables := close_requests ids (tables \<sigma>), refreshers := (refreshers \<sigma>)(p := Idle) \<rparr>)"
| stops: "curation_step \<sigma> (\<sigma> \<lparr> refreshers := (refreshers \<sigma>)(p := Idle) \<rparr>)"

inductive_cases curation_stepE: "curation_step \<sigma> \<sigma>'"

text \<open>\<open>refresh_and_settle\<close> is one process's walk through the phases, and an immediate decision a deferred one
  followed by it.\<close>

lemma refresh_is_steps:
  assumes "refreshers \<sigma> p = Idle"
  shows "curation_step\<^sup>*\<^sup>* \<sigma> (\<sigma> \<lparr> tables := fst (refresh_and_settle E (tables \<sigma>)) \<rparr>)"
proof -
  let ?st = "tables \<sigma>" and ?ids = "outstanding (tables \<sigma>)"
  let ?listed = "\<sigma> \<lparr> refreshers := (refreshers \<sigma>)(p := Listed ?ids) \<rparr>"
  let ?rebuilt = "\<sigma> \<lparr> tables := rebuild_views ?st, refreshers := (refreshers \<sigma>)(p := Rebuilt ?ids) \<rparr>"
  have idle: "(refreshers \<sigma>)(p := Idle) = refreshers \<sigma>"
    using assms by auto
  have rest: "\<sigma> \<lparr> tables := st, refreshers := refreshers \<sigma> \<rparr> = \<sigma> \<lparr> tables := st \<rparr>" for st
    by simp
  have list: "curation_step \<sigma> ?listed"
    using assms by (rule lists)
  have rebuild: "curation_step ?listed ?rebuilt"
    using rebuilds[of ?listed p ?ids] by simp
  have fail: "curation_step ?listed (\<sigma> \<lparr> tables := record_refresh_failure E ?ids ?st \<rparr>)"
    using fails[of ?listed p ?ids E] idle by (simp add: rest)
  have close: "curation_step ?rebuilt (\<sigma> \<lparr> tables := close_requests ?ids (rebuild_views ?st) \<rparr>)"
    using closes[of ?rebuilt p ?ids] idle rest by simp
  have stop: "curation_step ?rebuilt (\<sigma> \<lparr> tables := rebuild_views ?st \<rparr>)"
    using stops[of ?rebuilt p] idle rest by simp
  have "fst (refresh_and_settle E ?st) \<in>
      {?st, record_refresh_failure E ?ids ?st, rebuild_views ?st, close_requests ?ids (rebuild_views ?st)}"
    by (auto simp: refresh_and_settle_def Let_def split: option.splits)
  then show ?thesis
    using list rebuild fail close stop by (auto intro: converse_rtranclp_into_rtranclp)
qed

lemma immediate_is_deferred:
  "fst (decide_with E st i d Immediate) \<in>
     {fst (decide_with E st i d Deferred), fst (refresh_and_settle E (fst (decide_with E st i d Deferred)))}"
proof (cases "statement_error E BeginDecision")
  case begun: None
  show ?thesis
  proof (cases "statement_error E LockField")
    case locked: None
    show ?thesis
    proof (cases "List.find (\<lambda>a. as_id a = i) (lock_assertion_field st i)")
      case a: (Some a)
      show ?thesis
      proof (cases "decision_writes E st a d")
        case (Inr w)
        then show ?thesis
          by (cases w; cases "refresh_and_settle E (fst w)"; cases "snd (refresh_and_settle E (fst w))";
              cases "statement_error E CommitDecision")
             (auto simp: decide_with_def begun locked a Let_def split: option.splits)
      qed (auto simp: decide_with_def begun locked a Let_def split: option.split)
    qed (simp add: decide_with_def begun locked)
  qed (simp add: decide_with_def begun)
qed (simp add: decide_with_def)

subsection \<open>Reachable states\<close>

lemma step_ok:
  assumes "curation_step \<sigma> \<sigma>'" "curation_ok (tables \<sigma>)"
  shows "curation_ok (tables \<sigma>')"
  using assms
proof cases
  case (rebuilds p ids)
  then show ?thesis
    using assms(2) curation_ok_cong[of "tables \<sigma>" "rebuild_views (tables \<sigma>)"]
    by (simp add: same_facts_def curation_simps)
next
  case (fails p ids E)
  then show ?thesis
    using assms(2) curation_ok_cong[of "tables \<sigma>" "record_refresh_failure E ids (tables \<sigma>)"]
    by (simp add: same_facts_def curation_simps)
next
  case (closes p ids)
  then show ?thesis
    using assms(2) curation_ok_cong[of "tables \<sigma>" "close_requests ids (tables \<sigma>)"]
    by (simp add: same_facts_def curation_simps)
qed (simp_all add: decide_with_ok)

lemma steps_ok: "curation_step\<^sup>*\<^sup>* \<sigma> \<sigma>' \<Longrightarrow> curation_ok (tables \<sigma>) \<Longrightarrow> curation_ok (tables \<sigma>')"
  by (induction rule: rtranclp_induct) (auto intro: step_ok)

subsection \<open>A decision that moves the read model's inputs leaves a request\<close>

lemma published_rows_cong:
  "metrics st' = metrics st \<Longrightarrow> snapshots st' = snapshots st \<Longrightarrow> published_rows st' = published_rows st"
  by (simp add: published_rows_def)

lemma update_nothing: "filter P xs = [] \<Longrightarrow> map (\<lambda>x. if P x then f x else x) xs = xs"
  by (auto simp: filter_empty_conv intro: map_idI)

lemma publish_requests:
  assumes "publish_decision E st i ty entity field d = Inr (st', canonicalized, changed)"
  shows "requests st' = requests st \<and> read_model st' = read_model st \<and>
    (\<not> changed \<longrightarrow> published_rows st' = published_rows st)"
  using assms
proof (cases rule: publish_decision_cases)
  case (metric t code n)
  then show ?thesis
    using update_metric_Inr[OF metric(3)] by (auto simp: published_rows_def update_nothing)
next
  case (market t n)
  then show ?thesis
    using update_snapshot_Inr[OF market(3)] by (auto simp: published_rows_def update_nothing)
qed simp

definition fresh_request :: "curation_state \<Rightarrow> refresh_row" where
  "fresh_request st = \<lparr> rq_id = next_request st, rq_status = ''PENDING'', rq_attempts = 0 \<rparr>"

lemma decided_requests:
  assumes "decided E st i d a st3 changed"
  shows "read_model st3 = read_model st \<and>
    requests st3 = requests st @ (if changed then [fresh_request st] else []) \<and>
    (\<not> changed \<longrightarrow> published_rows st3 = published_rows st)"
proof -
  obtain canonicalized resolved where
    writes: "decision_writes E st a d = Inr (st3, canonicalized, changed, resolved)" and i: "as_id a = i"
    using assms by (auto simp: decided_def)
  from writes obtain st1 where pub: "publish_decision E (set_assertion i d st) i (as_entity_type a) (as_entity_id a)
      (as_field a) d = Inr (st1, canonicalized, changed)"
    and st3: "st3 = (let st2 = fst (resolve_flags (as_entity_type a) (as_entity_id a) (as_field a) d st1)
      in if changed then enqueue_refresh_request st2 else st2)"
    using i by (auto elim: decision_writes_Inr)
  have "published_rows (set_assertion i d st) = published_rows st"
    by (simp add: published_rows_def curation_simps)
  then show ?thesis
    using publish_requests[OF pub]
    by (auto simp: st3 Let_def curation_simps published_rows_def enqueue_refresh_request_def fresh_request_def
        next_request_def)
qed

lemma max_ge: "x \<in> set xs \<Longrightarrow> x \<le> foldr max xs (0::nat)"
  by (induction xs) auto

lemma next_request_fresh: "r \<in> set (requests st) \<Longrightarrow> rq_id r \<noteq> next_request st"
  using max_ge[of "rq_id r" "map rq_id (requests st)"] by (auto simp: next_request_def)

subsection \<open>Staleness is always recorded\<close>

definition holds_ids :: "refresh_phase \<Rightarrow> nat set" where
  "holds_ids ph = (case ph of Idle \<Rightarrow> {} | Listed ids \<Rightarrow> set ids | Rebuilt ids \<Rightarrow> set ids)"

definition ids_known :: "curation_system \<Rightarrow> bool" where
  "ids_known \<sigma> \<longleftrightarrow> (\<forall>p. holds_ids (refreshers \<sigma> p) \<subseteq> rq_id ` set (requests (tables \<sigma>)))"

text \<open>A pending request that no process has already rebuilt for and is about to close.\<close>

definition covered :: "curation_system \<Rightarrow> bool" where
  "covered \<sigma> \<longleftrightarrow> (\<exists>r \<in> set (requests (tables \<sigma>)). pending_request r \<and>
     (\<forall>p ids. refreshers \<sigma> p = Rebuilt ids \<longrightarrow> rq_id r \<notin> set ids))"

definition stale :: "curation_state \<Rightarrow> bool" where
  "stale st \<longleftrightarrow> read_model st \<noteq> published_rows st"

definition refresh_inv :: "curation_system \<Rightarrow> bool" where
  "refresh_inv \<sigma> \<longleftrightarrow> ids_known \<sigma> \<and> (stale (tables \<sigma>) \<longrightarrow> covered \<sigma>)"

lemma decide_requests:
  obtains (unchanged) "fst (decide_with E st i d Deferred) = st"
  | (quiet) "requests (fst (decide_with E st i d Deferred)) = requests st"
      "stale (fst (decide_with E st i d Deferred)) \<longleftrightarrow> stale st"
  | (requested) "requests (fst (decide_with E st i d Deferred)) = requests st @ [fresh_request st]"
proof (cases rule: decide_with_cases[of E st i d Deferred])
  case unchanged
  then show thesis by (rule that(1))
next
  case (written a st3 changed)
  then show thesis
    using decided_requests[OF written(1)] that(2,3) by (cases changed) (auto simp: stale_def)
qed

lemma pending_outstanding: "r \<in> set (requests st) \<Longrightarrow> pending_request r \<Longrightarrow> rq_id r \<in> set (outstanding st)"
  by (auto simp: outstanding_def)

lemma outstanding_known: "set (outstanding st) \<subseteq> rq_id ` set (requests st)"
  by (auto simp: outstanding_def)

lemma ids_map: "(\<And>r. rq_id (f r) = rq_id r) \<Longrightarrow> rq_id ` set (map f rs) = rq_id ` set rs"
  by (simp add: image_image)

lemma request_ids_kept:
  "rq_id ` set (requests (close_requests ids st)) = rq_id ` set (requests st)"
  "rq_id ` set (requests (record_refresh_failure E ids st)) = rq_id ` set (requests st)"
  by (simp_all add: close_requests_def record_refresh_failure_def ids_map del: set_map)

lemma survives_close:
  "r \<in> set (requests st) \<Longrightarrow> rq_id r \<notin> set ids \<Longrightarrow> r \<in> set (requests (close_requests ids st))"
  by (auto simp: close_requests_def image_iff)

lemma survives_failure:
  assumes "r \<in> set (requests st)" "pending_request r"
  obtains r' where "r' \<in> set (requests (record_refresh_failure E ids st))" "pending_request r'" "rq_id r' = rq_id r"
proof (cases "cu_fault E RecordFailure = None \<and> rq_id r \<in> set ids")
  case True
  then show thesis
    using assms by (intro that[of "r \<lparr> rq_attempts := rq_attempts r + 1 \<rparr>"])
      (auto simp: record_refresh_failure_def pending_request_def image_iff)
next
  case False
  then show thesis
    using assms by (intro that[of r]) (auto simp: record_refresh_failure_def image_iff)
qed

lemma ids_known_phase:
  assumes "ids_known \<sigma>" "rq_id ` set (requests (tables \<sigma>)) \<subseteq> rq_id ` set (requests st)"
    and "holds_ids ph \<subseteq> rq_id ` set (requests st)"
  shows "ids_known (\<sigma> \<lparr> tables := st, refreshers := (refreshers \<sigma>)(p := ph) \<rparr>)"
  unfolding ids_known_def
proof
  fix q
  have "holds_ids (refreshers \<sigma> q) \<subseteq> rq_id ` set (requests st)"
    using assms(1,2) unfolding ids_known_def by (meson subset_trans)
  then show "holds_ids (refreshers (\<sigma> \<lparr> tables := st, refreshers := (refreshers \<sigma>)(p := ph) \<rparr>) q)
      \<subseteq> rq_id ` set (requests (tables (\<sigma> \<lparr> tables := st, refreshers := (refreshers \<sigma>)(p := ph) \<rparr>)))"
    using assms(3) by simp
qed

lemma covered_phase:
  assumes "covered \<sigma>" "\<nexists>ids. ph = Rebuilt ids"
  shows "covered (\<sigma> \<lparr> refreshers := (refreshers \<sigma>)(p := ph) \<rparr>)"
proof -
  obtain r where r: "r \<in> set (requests (tables \<sigma>))" "pending_request r"
    and free: "\<And>q ids. refreshers \<sigma> q = Rebuilt ids \<Longrightarrow> rq_id r \<notin> set ids"
    using assms(1) by (auto simp: covered_def)
  show ?thesis
    unfolding covered_def
    by (rule bexI[of _ r]) (use r free assms(2) in auto)
qed

lemma step_refresh_inv:
  assumes "curation_step \<sigma> \<sigma>'" "refresh_inv \<sigma>"
  shows "refresh_inv \<sigma>'"
proof -
  have known: "ids_known \<sigma>" and stale: "stale (tables \<sigma>) \<Longrightarrow> covered \<sigma>"
    using assms(2) by (simp_all add: refresh_inv_def)
  have held: "holds_ids ph \<subseteq> rq_id ` set (requests (tables \<sigma>))" if "refreshers \<sigma> p = ph" for p ph
    using known that by (auto simp: ids_known_def)
  from assms(1) show ?thesis
  proof cases
    case (decides E i d)
    show ?thesis
    proof (cases rule: decide_requests[of E "tables \<sigma>" i d])
      case requested
      have "rq_id (fresh_request (tables \<sigma>)) \<notin> set ids" if "refreshers \<sigma> p = Rebuilt ids" for p ids
        using held[OF that] next_request_fresh by (force simp: holds_ids_def fresh_request_def)
      then have "covered \<sigma>'"
        by (auto simp: covered_def decides requested pending_request_def fresh_request_def)
      then show ?thesis
        using known by (auto simp: refresh_inv_def ids_known_def decides requested)
    qed (use known stale in \<open>simp_all add: refresh_inv_def ids_known_def covered_def decides\<close>)
  next
    case (lists p)
    then show ?thesis
      using ids_known_phase[OF known, of "tables \<sigma>" "Listed (outstanding (tables \<sigma>))" p] covered_phase stale
        outstanding_known
      by (auto simp: refresh_inv_def holds_ids_def)
  next
    case (rebuilds p ids)
    then show ?thesis
      using ids_known_phase[OF known, of "rebuild_views (tables \<sigma>)" "Rebuilt ids" p] held[OF rebuilds(2)]
      by (simp add: refresh_inv_def stale_def curation_simps published_rows_def holds_ids_def)
  next
    case (fails p ids E)
    have "covered \<sigma>'" if "covered \<sigma>"
    proof -
      obtain r where r: "r \<in> set (requests (tables \<sigma>))" "pending_request r"
        and free: "\<And>q ids. refreshers \<sigma> q = Rebuilt ids \<Longrightarrow> rq_id r \<notin> set ids"
        using \<open>covered \<sigma>\<close> by (auto simp: covered_def)
      obtain r' where r': "r' \<in> set (requests (record_refresh_failure E ids (tables \<sigma>)))" "pending_request r'"
        "rq_id r' = rq_id r"
        using r by (rule survives_failure)
      show ?thesis
        unfolding covered_def fails(1)
        by (rule bexI[of _ r']) (use r' free in \<open>auto split: if_splits\<close>)
    qed
    then show ?thesis
      using stale ids_known_phase[OF known, of "record_refresh_failure E ids (tables \<sigma>)" Idle p]
      by (simp add: refresh_inv_def fails(1) request_ids_kept holds_ids_def stale_def curation_simps published_rows_def)
  next
    case (closes p ids)
    have "covered \<sigma>'" if "covered \<sigma>"
    proof -
      obtain r where r: "r \<in> set (requests (tables \<sigma>))" "pending_request r"
        and free: "\<And>q ids. refreshers \<sigma> q = Rebuilt ids \<Longrightarrow> rq_id r \<notin> set ids"
        using \<open>covered \<sigma>\<close> by (auto simp: covered_def)
      show ?thesis
        unfolding covered_def closes(1)
        by (rule bexI[of _ r]) (use r free closes(2) survives_close in \<open>auto split: if_splits\<close>)
    qed
    then show ?thesis
      using stale ids_known_phase[OF known, of "close_requests ids (tables \<sigma>)" Idle p]
      by (simp add: refresh_inv_def closes(1) request_ids_kept holds_ids_def stale_def curation_simps published_rows_def)
  next
    case (stops p)
    then show ?thesis
      using ids_known_phase[OF known, of "tables \<sigma>" Idle p] covered_phase stale
      by (auto simp: refresh_inv_def holds_ids_def)
  qed
qed

lemma steps_refresh_inv: "curation_step\<^sup>*\<^sup>* \<sigma> \<sigma>' \<Longrightarrow> refresh_inv \<sigma> \<Longrightarrow> refresh_inv \<sigma>'"
  by (induction rule: rtranclp_induct) (auto intro: step_refresh_inv)

lemma at_rest_refresh_inv: "\<not> stale st \<Longrightarrow> refresh_inv (at_rest st)"
  by (simp add: refresh_inv_def at_rest_def ids_known_def holds_ids_def)

subsection \<open>Refusals\<close>

text \<open>An error leaves the tables as they were, unless it is the commit itself whose answer was lost.\<close>

lemma decide_error_unchanged:
  assumes "snd (decide_with E st i d r) = Inl e" "statement_error E CommitDecision = None"
  shows "fst (decide_with E st i d r) = st"
proof (cases "statement_error E BeginDecision")
  case begun: None
  show ?thesis
  proof (cases "statement_error E LockField")
    case locked: None
    show ?thesis
    proof (cases "List.find (\<lambda>a. as_id a = i) (lock_assertion_field st i)")
      case a: (Some a)
      show ?thesis
      proof (cases "decision_writes E st a d")
        case (Inr w)
        then show ?thesis
          using assms
          by (cases w; cases "refresh_and_settle E (fst w)"; cases "snd (refresh_and_settle E (fst w))")
             (auto simp: decide_with_def begun locked a Let_def split: option.splits if_splits)
      qed (auto simp: decide_with_def begun locked a Let_def split: option.split)
    qed (simp add: decide_with_def begun locked)
  qed (simp add: decide_with_def begun)
qed (simp add: decide_with_def)

subsection \<open>A sample\<close>

text \<open>One pending speed of variant 7 with the row it produced, and its accepted mirror.\<close>

definition sample_speed :: assertion where
  "sample_speed = \<lparr> as_id = 1, as_entity_type = ''AIRCRAFT_VARIANT'', as_entity_id = 7,
     as_field = ''performance.SPEED'', as_numeric = Some (120, ''120''), as_status = ''PENDING'', as_accepted = False \<rparr>"

definition sample_row :: metric_row where
  "sample_row = \<lparr> me_table = PerformanceMetrics, me_assertion = Some 1, me_variant = 7, me_metric = ''SPEED'',
     me_canonical = False \<rparr>"

text \<open>A valuation of variant 7 with one pending price.\<close>

definition sample_price :: assertion where
  "sample_price = \<lparr> as_id = 2, as_entity_type = ''VALUATION'', as_entity_id = 5,
     as_field = ''papi_price_estimate'', as_numeric = Some (900, ''900''), as_status = ''PENDING'', as_accepted = False \<rparr>"

definition sample_valuation :: snapshot_row where
  "sample_valuation = \<lparr> sn_table = Valuations, sn_id = 5, sn_variant = 7, sn_date = 20000, sn_source = ''PLANEPHD'',
     sn_canonical = False, sn_columns = (\<lambda>c. if c = ''papi_price_estimate'' then Some (900, ''900'') else None),
     sn_totals = None, sn_lines = [] \<rparr>"

definition sample_tables :: curation_state where
  "sample_tables = \<lparr> assertions = [sample_speed, sample_price], metrics = [sample_row],
     snapshots = [sample_valuation], flags = [], requests = [], read_model = ([], []) \<rparr>"

definition calm :: curation_env where
  "calm = \<lparr> cu_fault = (\<lambda>_. None), cu_applied = False, cu_unique_text = '''', cu_meanwhile = (\<lambda>st. st) \<rparr>"

lemma calm_statements [simp]: "statement_error calm c = None" "cu_fault calm c = None"
  "run_statement calm c v = Inr v"
  by (simp_all add: calm_def statement_error_def run_statement_def)

lemmas sample_defs = sample_tables_def sample_speed_def sample_row_def sample_price_def sample_valuation_def

lemma sample_ok: "curation_ok sample_tables"
  by (auto simp: curation_ok_def sample_defs assertions_ok_def metrics_unique_def snapshots_unique_def
      metric_backed_def snapshot_backed_def value_agrees_def same_field_def)

lemma sample_fresh: "\<not> stale sample_tables"
  by (simp add: stale_def published_rows_def sample_defs)

lemmas decide_evals = decide_with_def lock_assertion_field_def accepted_rival_def decision_writes_def set_assertion_def
  publish_decision_def update_metric_def update_snapshot_def metric_hit_def snapshot_hit_def resolve_flags_def
  enqueue_refresh_request_def measurement_target_def market_target_def PERFORMANCE_PREFIX_def WEIGHT_PREFIX_def
  same_field_def next_request_def metrics_unique_def snapshots_unique_def publishable_def of_entity_def
  market_value_mismatch_def stored_value_def valuation_column_def disagreement_def blocking_snapshot_def strip_prefix_def starts_with_def

lemma sample_speed_accepted:
  "fst (decide_with calm sample_tables 1 DecAccepted Deferred) = sample_tables
     \<lparr> assertions := [sample_speed \<lparr> as_status := ''ACCEPTED'', as_accepted := True \<rparr>, sample_price],
       metrics := [sample_row \<lparr> me_canonical := True \<rparr>],
       requests := [\<lparr> rq_id = 1, rq_status = ''PENDING'', rq_attempts = 0 \<rparr>] \<rparr>"
  by (simp add: decide_evals sample_defs Let_def)

lemma sample_price_accepted:
  "fst (decide_with calm sample_tables 2 DecAccepted Deferred) = sample_tables
     \<lparr> assertions := [sample_speed, sample_price \<lparr> as_status := ''ACCEPTED'', as_accepted := True \<rparr>],
       snapshots := [sample_valuation \<lparr> sn_canonical := True \<rparr>],
       requests := [\<lparr> rq_id = 1, rq_status = ''PENDING'', rq_attempts = 0 \<rparr>] \<rparr>"
  by (simp add: decide_evals sample_defs Let_def)

lemma sample_step:
  "curation_step\<^sup>*\<^sup>* (at_rest sample_tables)
     (at_rest (fst (decide_with calm sample_tables i DecAccepted Deferred)))"
  using decides[of "at_rest sample_tables" calm i DecAccepted] by (auto simp: at_rest_def)

subsection \<open>What curation guarantees\<close>

lemma served_snapshot_field:
  assumes "curation_ok st" "s \<in> set (snapshots st)" "sn_canonical s"
    and "u \<in> set (assertions st)" "of_entity ty (sn_id s) u" "market_target ty = Some (sn_table s)"
  shows "\<exists>a \<in> set (assertions st). of_entity ty (sn_id s) a \<and> as_field a = as_field u \<and> as_accepted a \<and>
    (\<forall>v. stored_value st (sn_table s) (sn_id s) (as_field u) = Some v \<longrightarrow> disagreement (as_numeric a) v = None)"
proof -
  obtain ty' where "market_target ty' = Some (sn_table s)" "publishable st ty' (sn_id s)"
    using assms(1-3) by (auto simp: curation_ok_def snapshot_backed_def)
  then have "publishable st ty (sn_id s)"
    using market_target_inj[OF assms(6)] by metis
  then obtain a where a: "a \<in> set (assertions st)" "of_entity ty (sn_id s) a" "as_field a = as_field u" "as_accepted a"
    using assms(4,5) by (auto simp: publishable_def list_ex_iff)
  moreover have "value_agrees st a"
    using assms(1) a(1) by (simp add: curation_ok_def)
  ultimately show ?thesis
    using assms(6) by (intro bexI[of _ a]) (auto simp: value_agrees_def of_entity_def)
qed

lemma settled_refresh_current:
  assumes "refresh_inv \<sigma>" "statement_error E ReadOutstanding = None" "statement_error E RebuildViews = None"
  shows "\<not> stale (fst (refresh_and_settle E (tables \<sigma>)))"
proof (cases "outstanding (tables \<sigma>) = []")
  case True
  then have "\<not> stale (tables \<sigma>)"
    using assms(1) pending_outstanding by (fastforce simp: refresh_inv_def covered_def)
  then show ?thesis
    using True assms(2) by (simp add: refresh_and_settle_def)
next
  case False
  then show ?thesis
    using assms(2,3)
    by (auto simp: refresh_and_settle_def Let_def stale_def curation_simps published_rows_def split: option.split)
qed





text \<open>
  C7: The read model is never quietly stale: whenever it differs from the canonical rows, a pending refresh request
  records it, also when decisions commit while other processes rebuild, fail or stop half way.
\<close>

theorem stale_read_model_is_pending:
  assumes "\<not> stale st" "curation_step\<^sup>*\<^sup>* (at_rest st) \<sigma>" "stale (tables \<sigma>)"
  shows "\<exists>r \<in> set (requests (tables \<sigma>)). pending_request r"
  using steps_refresh_inv[OF assms(2) at_rest_refresh_inv[OF assms(1)]] assms(3)
  by (auto simp: refresh_inv_def covered_def)

theorem stale_read_model_is_pending_witness:
  "\<exists>r \<in> set (requests (fst (decide_with calm sample_tables 1 DecAccepted Deferred))). pending_request r"
  using stale_read_model_is_pending[OF sample_fresh sample_step[of 1]]
  unfolding at_rest_def curation_system.select_convs sample_speed_accepted
  by (simp add: stale_def published_rows_def sample_defs)

text \<open>
  C25: A refresh whose list and rebuild statements succeed leaves the read model current, from any state that
  decisions and other refreshes can reach, whether or not its closing statement succeeds.
\<close>

theorem refresh_makes_current:
  assumes "\<not> stale st" "curation_step\<^sup>*\<^sup>* (at_rest st) \<sigma>"
    and "statement_error E ReadOutstanding = None" "statement_error E RebuildViews = None"
  shows "read_model (fst (refresh_and_settle E (tables \<sigma>))) = published_rows (fst (refresh_and_settle E (tables \<sigma>)))"
  using settled_refresh_current[OF steps_refresh_inv[OF assms(2) at_rest_refresh_inv[OF assms(1)]] assms(3,4)]
  by (simp add: stale_def)

theorem refresh_makes_current_witness:
  "(let st = fst (refresh_and_settle calm (fst (decide_with calm sample_tables 1 DecAccepted Deferred)))
    in read_model st = published_rows st)"
  using refresh_makes_current[OF sample_fresh sample_step[of 1], of calm] by (simp add: at_rest_def Let_def)

text \<open>
  C27: A refused decision changes nothing: whichever error a decision returns, unknown or repeated, a rival
  assertion or snapshot, a disagreeing value or a failed statement, the tables are as before; only a failed
  commit, whose effect the driver cannot know, is excepted.
\<close>

theorem refused_decision_changes_nothing:
  assumes "snd (decide_with E st i d r) = Inl e" "statement_error E CommitDecision = None"
  shows "fst (decide_with E st i d r) = st"
  using assms by (rule decide_error_unchanged)

theorem refused_decision_changes_nothing_witness:
  "fst (decide_with calm sample_tables 9 DecAccepted Immediate) = sample_tables"
  using refused_decision_changes_nothing[of calm sample_tables 9 DecAccepted Immediate "UnknownAssertion 9"]
  by (simp add: decide_with_def lock_assertion_field_def sample_defs Let_def)

end
