(* ===== verification/Promotion.thy ===== *)
theory Promotion
  imports Curation_Facts
begin

text \<open>
  The statements of \<open>aircraft_db::ingestion_repository\<close> that promote a prepared record into the tables a
  curator decides on: assertions, measurement rows, valuations, cost snapshots and curation flags. They run
  inside the import's transaction and each may fail. The variant, and the source document with the raw texts
  of an assertion, are given; extra attributes are not among the columns the read model serves.
\<close>

subsection \<open>Statements\<close>

datatype promote_call =
    InsertAssertion int | InsertMetric int | InsertValuation | SelectValuation | InsertCostSnapshot
  | SelectCostSnapshot | UpsertTotals string | InsertLine string | UpdateExtras | InsertFlag string

text \<open>\<open>pm_numeric\<close> is the cast \<open>::numeric\<close>, \<open>pm_fixed\<close> the \<open>is_fixed\<close> column of \<open>cost_item_types\<close> by code.\<close>

record promotion_env =
  pm_fault :: "promote_call \<Rightarrow> PersistenceError option"
  pm_numeric :: "string \<Rightarrow> numeric"
  pm_fixed :: "string \<Rightarrow> bool option"
  pm_today :: int
  pm_source :: string

definition promote :: "promotion_env \<Rightarrow> promote_call \<Rightarrow> 'a \<Rightarrow> PersistenceError + 'a" where
  "promote P c v = (case pm_fault P c of Some e \<Rightarrow> Inl e | None \<Rightarrow> Inr v)"

fun promote_all :: "('a \<Rightarrow> 'st \<Rightarrow> 'e + 'st) \<Rightarrow> 'a list \<Rightarrow> 'st \<Rightarrow> 'e + 'st" where
  "promote_all f [] st = Inr st"
| "promote_all f (x # xs) st = and_then (f x st) (promote_all f xs)"

text \<open>The next value of a serial key.\<close>

definition next_key :: "int list \<Rightarrow> int" where
  "next_key ks = 1 + foldr max ks 0"

definition assert_entity_value ::
  "promotion_env \<Rightarrow> string \<Rightarrow> int \<Rightarrow> string \<Rightarrow> string option \<Rightarrow> curation_state \<Rightarrow> PersistenceError + curation_state \<times> int"
where
  "assert_entity_value P ty entity field number st =
     (let i = next_key (map as_id (assertions st)) in
      promote P (InsertAssertion i) (st \<lparr> assertions := assertions st @
        [\<lparr> as_id = i, as_entity_type = ty, as_entity_id = entity, as_field = field,
           as_numeric = map_option (pm_numeric P) number, as_status = ''PENDING'', as_accepted = False \<rparr>] \<rparr>, i))"

subsection \<open>Measurements\<close>

definition promote_measurement ::
  "promotion_env \<Rightarrow> metric_table \<Rightarrow> string \<Rightarrow> int \<Rightarrow> MeasurementInput \<Rightarrow> curation_state \<Rightarrow> PersistenceError + curation_state"
where
  "promote_measurement P t pre variant m st =
     (let field = pre @ (case mi_metric_code m of Some code \<Rightarrow> code | None \<Rightarrow> mi_source_field m) in
      and_then (assert_entity_value P ''AIRCRAFT_VARIANT'' variant field (mi_numeric_value m) st) (\<lambda>(st', i).
      case (mi_metric_code m, mi_numeric_value m, mi_unit_code m) of
        (Some code, Some _, Some _) \<Rightarrow>
          promote P (InsertMetric i) (st' \<lparr> metrics := metrics st' @
            [\<lparr> me_table = t, me_assertion = Some i, me_variant = variant, me_metric = code, me_canonical = False \<rparr>] \<rparr>)
      | _ \<Rightarrow> Inr st'))"

definition promote_weight_metrics ::
  "promotion_env \<Rightarrow> int \<Rightarrow> PreparedAircraftRecord \<Rightarrow> curation_state \<Rightarrow> PersistenceError + curation_state" where
  "promote_weight_metrics P variant r =
     promote_all (promote_measurement P WeightMetrics ''weight.'' variant) (weight_measurements (rec_weights r))"

definition promote_measurements ::
  "promotion_env \<Rightarrow> int \<Rightarrow> PreparedAircraftRecord \<Rightarrow> curation_state \<Rightarrow> PersistenceError + curation_state" where
  "promote_measurements P variant r st =
     and_then (promote_all (promote_measurement P PerformanceMetrics ''performance.'' variant)
         (performance_measurements (rec_performance r)) st)
       (promote_weight_metrics P variant r)"

subsection \<open>Market data\<close>

text \<open>\<open>uq_val_variant_date_source\<close> and its sibling for cost snapshots: one row per variant, day and source.\<close>

definition of_today :: "promotion_env \<Rightarrow> market_table \<Rightarrow> int \<Rightarrow> snapshot_row \<Rightarrow> bool" where
  "of_today P t variant s \<longleftrightarrow>
     sn_table s = t \<and> sn_variant s = variant \<and> sn_date s = pm_today P \<and> sn_source s = pm_source P"

definition next_snapshot :: "market_table \<Rightarrow> curation_state \<Rightarrow> int" where
  "next_snapshot t st = next_key (map sn_id (filter (\<lambda>s. sn_table s = t) (snapshots st)))"

text \<open>\<open>INSERT \<dots> ON CONFLICT DO NOTHING RETURNING id\<close>.\<close>

definition insert_snapshot ::
  "promotion_env \<Rightarrow> market_table \<Rightarrow> int \<Rightarrow> (string \<Rightarrow> numeric option) \<Rightarrow> curation_state \<Rightarrow> curation_state \<times> int option" where
  "insert_snapshot P t variant columns st =
     (if list_ex (of_today P t variant) (snapshots st) then (st, None)
      else (st \<lparr> snapshots := snapshots st @
              [\<lparr> sn_table = t, sn_id = next_snapshot t st, sn_variant = variant, sn_date = pm_today P,
                 sn_source = pm_source P, sn_canonical = False, sn_columns = columns, sn_totals = None,
                 sn_lines = [] \<rparr>] \<rparr>, Some (next_snapshot t st)))"

definition select_snapshot :: "promotion_env \<Rightarrow> market_table \<Rightarrow> int \<Rightarrow> curation_state \<Rightarrow> PersistenceError + int" where
  "select_snapshot P t variant st =
     (case List.find (of_today P t variant) (snapshots st) of
        Some s \<Rightarrow> Inr (sn_id s)
      | None \<Rightarrow> Inl (database_error ROW_NOT_FOUND))"

definition valuation_columns :: "promotion_env \<Rightarrow> string \<Rightarrow> int option \<Rightarrow> string \<Rightarrow> numeric option" where
  "valuation_columns P price count c =
     (if c = ''papi_price_estimate'' then Some (pm_numeric P price)
      else if c = ''for_sale_count'' then map_option (\<lambda>n. pm_numeric P (show_int n)) count else None)"

definition promote_valuation ::
  "promotion_env \<Rightarrow> int \<Rightarrow> ValuationInput \<Rightarrow> curation_state \<Rightarrow> PersistenceError + curation_state" where
  "promote_valuation P variant v st =
     (case papi_price_estimate v of
        None \<Rightarrow> Inr st
      | Some price \<Rightarrow>
          and_then (promote P InsertValuation
              (insert_snapshot P Valuations variant (valuation_columns P price (for_sale_count v)) st)) (\<lambda>(st1, inserted).
          and_then (case inserted of
              Some i \<Rightarrow> Inr i
            | None \<Rightarrow> and_then (promote P SelectValuation ()) (\<lambda>_. select_snapshot P Valuations variant st1)) (\<lambda>i.
          and_then (assert_entity_value P ''VALUATION'' i ''papi_price_estimate'' (Some price) st1) (\<lambda>(st2, _).
          case for_sale_count v of
            None \<Rightarrow> Inr st2
          | Some n \<Rightarrow> and_then (assert_entity_value P ''VALUATION'' i ''for_sale_count'' (Some (show_int n)) st2)
              (\<lambda>(st3, _). Inr st3)))))"

text \<open>\<open>ON CONFLICT(snapshot_id) DO UPDATE\<close> with \<open>COALESCE\<close>: a total that stands is kept.\<close>

definition update_row :: "market_table \<Rightarrow> int \<Rightarrow> (snapshot_row \<Rightarrow> snapshot_row) \<Rightarrow> curation_state \<Rightarrow> curation_state" where
  "update_row t i f st =
     st \<lparr> snapshots := map (\<lambda>s. if sn_table s = t \<and> sn_id s = i then f s else s) (snapshots st) \<rparr>"

definition upsert_totals :: "string \<Rightarrow> numeric \<Rightarrow> snapshot_row \<Rightarrow> snapshot_row" where
  "upsert_totals code v s =
     (let excluded = (\<lambda>c. if cost_total_column code = Some c then Some v else None) in
      s \<lparr> sn_totals := Some (case sn_totals s of
             None \<Rightarrow> excluded
           | Some old \<Rightarrow> (\<lambda>c. case old c of Some w \<Rightarrow> Some w | None \<Rightarrow> excluded c)) \<rparr>)"

text \<open>\<open>ON CONFLICT(snapshot_id,cost_item_type_code) DO NOTHING\<close>; a code the reference table lacks inserts no row.\<close>

definition insert_line :: "promotion_env \<Rightarrow> string \<Rightarrow> numeric \<Rightarrow> snapshot_row \<Rightarrow> snapshot_row" where
  "insert_line P code v s =
     (if pm_fixed P code = None \<or> code \<in> fst ` set (sn_lines s) then s
      else s \<lparr> sn_lines := sn_lines s @ [(code, Some v)] \<rparr>)"

definition promote_cost_item ::
  "promotion_env \<Rightarrow> int \<Rightarrow> CostItemInput \<Rightarrow> curation_state \<Rightarrow> PersistenceError + curation_state" where
  "promote_cost_item P snapshot item st =
     and_then (case (ci_mapped_code item, ci_numeric_value item) of
         (Some code, Some amount) \<Rightarrow>
           if ci_is_aggregate item
           then promote P (UpsertTotals code) (update_row CostSnapshots snapshot (upsert_totals code (pm_numeric P amount)) st)
           else promote P (InsertLine code) (update_row CostSnapshots snapshot (insert_line P code (pm_numeric P amount)) st)
       | _ \<Rightarrow> Inr st) (\<lambda>st1.
     and_then (assert_entity_value P ''COST_SNAPSHOT'' snapshot
         (case ci_mapped_code item of Some code \<Rightarrow> code | None \<Rightarrow> ''EXTRA:'' @ ci_source_key item)
         (ci_numeric_value item) st1) (\<lambda>(st2, _). Inr st2))"

definition is_extra :: "CostItemInput \<Rightarrow> bool" where
  "is_extra item \<longleftrightarrow> ci_mapped_code item = None \<or> ci_numeric_value item = None"

text \<open>\<open>unwrap_or\<close> evaluates its argument: the snapshot is selected whether or not it was inserted.\<close>

definition promote_costs ::
  "promotion_env \<Rightarrow> int \<Rightarrow> OperatingCostInput \<Rightarrow> curation_state \<Rightarrow> PersistenceError + curation_state" where
  "promote_costs P variant costs st =
     (if cost_line_items costs = [] then Inr st
      else and_then (promote P InsertCostSnapshot (insert_snapshot P CostSnapshots variant (\<lambda>_. None) st)) (\<lambda>(st1, inserted).
           and_then (and_then (promote P SelectCostSnapshot ()) (\<lambda>_. select_snapshot P CostSnapshots variant st1)) (\<lambda>selected.
           and_then (promote_all (promote_cost_item P (case inserted of Some i \<Rightarrow> i | None \<Rightarrow> selected))
               (cost_line_items costs) st1) (\<lambda>st2.
           if list_ex is_extra (cost_line_items costs) then promote P UpdateExtras st2 else Inr st2))))"

definition promote_market ::
  "promotion_env \<Rightarrow> int \<Rightarrow> PreparedAircraftRecord \<Rightarrow> curation_state \<Rightarrow> PersistenceError + curation_state" where
  "promote_market P variant r st =
     and_then (promote_valuation P variant (rec_valuation r) st) (promote_costs P variant (rec_operating_costs r))"

subsection \<open>Issues\<close>

definition promote_issues ::
  "promotion_env \<Rightarrow> int \<Rightarrow> PreparedAircraftRecord \<Rightarrow> curation_state \<Rightarrow> PersistenceError + curation_state" where
  "promote_issues P variant r =
     promote_all (\<lambda>issue st. promote P (InsertFlag (issue_code issue)) (st \<lparr> flags := flags st @
         [\<lparr> fg_entity_type = ''AIRCRAFT_VARIANT'', fg_entity_id = variant,
            fg_field = Some (issue_field_path issue), fg_status = ''OPEN'' \<rparr>] \<rparr>))
       (filter is_warning (rec_issues r))"

text \<open>The curated part of \<open>stage_and_promote\<close>, for the variant that promotion has found or made.\<close>

definition promote_record ::
  "promotion_env \<Rightarrow> int \<Rightarrow> PreparedAircraftRecord \<Rightarrow> curation_state \<Rightarrow> PersistenceError + curation_state" where
  "promote_record P variant r st =
     and_then (promote_measurements P variant r st) (\<lambda>st1.
     and_then (promote_market P variant r st1) (promote_issues P variant r))"

subsection \<open>What promotion leaves alone\<close>

lemma promote_Inr: "promote P c v = Inr w \<longleftrightarrow> w = v \<and> pm_fault P c = None"
  by (auto simp: promote_def split: option.splits)

lemma promote_all_rel:
  assumes "\<And>x st st'. f x st = Inr st' \<Longrightarrow> R st st'" "\<And>st. R st st"
    and "\<And>a b c. R a b \<Longrightarrow> R b c \<Longrightarrow> R a c" "promote_all f xs st = Inr st'"
  shows "R st st'"
  using assms(4) by (induction xs arbitrary: st) (auto simp: and_then_Inr_iff assms(2) intro: assms(1,3))

text \<open>Only pending assertions and rows that are not canonical are added; requests and the read model stand.\<close>

definition only_pending_added :: "curation_state \<Rightarrow> curation_state \<Rightarrow> bool" where
  "only_pending_added st st' \<longleftrightarrow>
     prefix (assertions st) (assertions st') \<and>
     (\<forall>a \<in> set (drop (length (assertions st)) (assertions st')). as_status a = ''PENDING'' \<and> \<not> as_accepted a) \<and>
     filter me_canonical (metrics st') = filter me_canonical (metrics st) \<and>
     requests st' = requests st \<and> read_model st' = read_model st"

lemma only_pending_refl: "only_pending_added st st"
  by (simp add: only_pending_added_def)

lemma only_pending_trans:
  assumes "only_pending_added a b" "only_pending_added b c"
  shows "only_pending_added a c"
proof -
  obtain xs ys where app: "assertions b = assertions a @ xs" "assertions c = assertions b @ ys"
    using assms by (auto simp: only_pending_added_def elim!: prefixE)
  show ?thesis
    using assms by (auto simp: only_pending_added_def app)
qed

lemma only_pending_and_then:
  "and_then (f st) g = Inr st' \<Longrightarrow> (\<And>st1. f st = Inr st1 \<Longrightarrow> only_pending_added st st1) \<Longrightarrow>
   (\<And>st1. f st = Inr st1 \<Longrightarrow> g st1 = Inr st' \<Longrightarrow> only_pending_added st1 st') \<Longrightarrow> only_pending_added st st'"
  by (auto simp: and_then_Inr_iff intro: only_pending_trans)

lemma assert_only_pending: "assert_entity_value P ty e f n st = Inr (st', i) \<Longrightarrow> only_pending_added st st'"
  by (auto simp: assert_entity_value_def Let_def promote_Inr only_pending_added_def)

lemma assert_snapshots: "assert_entity_value P ty e f n st = Inr (st', i) \<Longrightarrow> snapshots st' = snapshots st"
  by (auto simp: assert_entity_value_def Let_def promote_Inr)

lemma measurement_step:
  assumes "promote_measurement P t pre variant m st = Inr st'"
  shows "only_pending_added st st' \<and> snapshots st' = snapshots st"
proof -
  obtain st1 i field where a: "assert_entity_value P ''AIRCRAFT_VARIANT'' variant field (mi_numeric_value m) st = Inr (st1, i)"
    and rest: "st' = st1 \<or> (\<exists>code. st' = st1 \<lparr> metrics := metrics st1 @
      [\<lparr> me_table = t, me_assertion = Some i, me_variant = variant, me_metric = code, me_canonical = False \<rparr>] \<rparr>)"
    using assms
    by (auto simp: promote_measurement_def Let_def and_then_Inr_iff promote_Inr split: option.splits prod.splits)
  have "only_pending_added st1 st' \<and> snapshots st' = snapshots st1"
    using rest by (auto simp: only_pending_added_def)
  then show ?thesis
    using only_pending_trans[OF assert_only_pending[OF a]] assert_snapshots[OF a] by simp
qed

text \<open>The same for the operations that leave the snapshots alone.\<close>

definition adds_values :: "curation_state \<Rightarrow> curation_state \<Rightarrow> bool" where
  "adds_values st st' \<longleftrightarrow> only_pending_added st st' \<and> snapshots st' = snapshots st"

lemma adds_values_refl: "adds_values st st"
  by (simp add: adds_values_def only_pending_refl)

lemma adds_values_trans: "adds_values a b \<Longrightarrow> adds_values b c \<Longrightarrow> adds_values a c"
  by (auto simp: adds_values_def intro: only_pending_trans)

lemma promote_all_adds:
  assumes "\<And>x st st'. f x st = Inr st' \<Longrightarrow> adds_values st st'" "promote_all f xs st = Inr st'"
  shows "adds_values st st'"
  using assms(1) adds_values_refl adds_values_trans assms(2) by (rule promote_all_rel)

lemma measurements_step:
  assumes "promote_measurements P variant r st = Inr st'"
  shows "adds_values st st'"
proof -
  have step: "adds_values a b" if "promote_all (promote_measurement P t pre variant) ms a = Inr b" for t pre ms a b
    by (rule promote_all_adds[OF _ that]) (simp add: adds_values_def measurement_step)
  show ?thesis
    using assms step adds_values_trans
    unfolding promote_measurements_def promote_weight_metrics_def and_then_Inr_iff by blast
qed

lemma issues_step:
  assumes "promote_issues P variant r st = Inr st'"
  shows "adds_values st st'"
  by (rule promote_all_adds[OF _ assms[unfolded promote_issues_def]])
     (auto simp: promote_Inr adds_values_def only_pending_added_def)

subsection \<open>Served snapshots\<close>

definition snapshot_key :: "snapshot_row \<Rightarrow> market_table \<times> int" where
  "snapshot_key s = (sn_table s, sn_id s)"

text \<open>The snapshots promotion may write into are not served.\<close>

definition unserved_today :: "promotion_env \<Rightarrow> int \<Rightarrow> curation_state \<Rightarrow> bool" where
  "unserved_today P variant st \<longleftrightarrow>
     distinct (map snapshot_key (snapshots st)) \<and>
     (\<forall>s \<in> set (snapshots st). \<forall>t. of_today P t variant s \<longrightarrow> \<not> sn_canonical s)"

definition unserved_row :: "market_table \<Rightarrow> int \<Rightarrow> curation_state \<Rightarrow> bool" where
  "unserved_row t i st \<longleftrightarrow>
     (\<forall>s \<in> set (snapshots st). sn_table s = t \<and> sn_id s = i \<longrightarrow> \<not> sn_canonical s)"

definition served_kept :: "curation_state \<Rightarrow> curation_state \<Rightarrow> bool" where
  "served_kept st st' \<longleftrightarrow> filter sn_canonical (snapshots st') = filter sn_canonical (snapshots st)"

lemma next_key_fresh: "k \<in> set ks \<Longrightarrow> k < next_key ks"
  by (induction ks) (auto simp: next_key_def)

lemma next_snapshot_fresh: "s \<in> set (snapshots st) \<Longrightarrow> sn_table s = t \<Longrightarrow> sn_id s \<noteq> next_snapshot t st"
  using next_key_fresh[of "sn_id s" "map sn_id (filter (\<lambda>s. sn_table s = t) (snapshots st))"]
  by (auto simp: next_snapshot_def)

lemma insert_snapshot_kept:
  assumes "insert_snapshot P t variant columns st = (st', inserted)" "unserved_today P variant st"
  shows "served_kept st st'" "unserved_today P variant st'" "only_pending_added st st'"
    "inserted = Some i \<Longrightarrow> unserved_row t i st'"
proof -
  show "served_kept st st'" "only_pending_added st st'"
    using assms(1) by (auto simp: insert_snapshot_def served_kept_def only_pending_added_def split: if_splits)
  have fresh: "sn_id s \<noteq> next_snapshot t st" if "s \<in> set (snapshots st)" "sn_table s = t" for s
    using next_snapshot_fresh that by blast
  have keys: "(t, next_snapshot t st) \<notin> snapshot_key ` set (snapshots st)"
    by (auto simp: snapshot_key_def dest: fresh)
  show "unserved_today P variant st'"
  proof (cases "list_ex (of_today P t variant) (snapshots st)")
    case False
    then show ?thesis
      using assms keys by (auto simp: insert_snapshot_def unserved_today_def snapshot_key_def)
  qed (use assms in \<open>simp add: insert_snapshot_def\<close>)
  show "unserved_row t i st'" if new: "inserted = Some i"
  proof -
    have "\<exists>row. snapshots st' = snapshots st @ [row] \<and> \<not> sn_canonical row" "i = next_snapshot t st"
      using assms(1) new by (auto simp: insert_snapshot_def split: if_splits)
    then show ?thesis using fresh by (auto simp: unserved_row_def)
  qed
qed

lemma select_snapshot_unserved:
  assumes "select_snapshot P t variant st = Inr i" "unserved_today P variant st"
  shows "unserved_row t i st"
proof -
  obtain s where s: "s \<in> set (snapshots st)" "of_today P t variant s" "sn_id s = i"
    using assms(1) find_SomeD by (fastforce simp: select_snapshot_def split: option.splits)
  then have "snapshot_key s = (t, i)" "\<not> sn_canonical s"
    using assms(2) by (auto simp: snapshot_key_def of_today_def unserved_today_def)
  moreover have "s' = s" if "s' \<in> set (snapshots st)" "snapshot_key s' = snapshot_key s" for s'
    using assms(2) s(1) that by (auto simp: unserved_today_def distinct_map dest: inj_onD)
  ultimately show ?thesis
    by (auto simp: unserved_row_def snapshot_key_def)
qed

text \<open>Writes into a row that is not served keep it so.\<close>

lemma update_row_kept:
  assumes "unserved_row t i st"
    and "\<And>s. sn_canonical (f s) = sn_canonical s \<and> sn_table (f s) = sn_table s \<and> sn_id (f s) = sn_id s"
  shows "served_kept st (update_row t i f st)" "unserved_row t i (update_row t i f st)"
    "only_pending_added st (update_row t i f st)"
proof -
  have kept: "filter sn_canonical (map g ss) = filter sn_canonical ss"
    if "\<And>s. s \<in> set ss \<Longrightarrow> sn_canonical s \<Longrightarrow> g s = s" "\<And>s. sn_canonical (g s) = sn_canonical s" for g ss
    using that by (induction ss) auto
  show "served_kept st (update_row t i f st)"
    unfolding served_kept_def update_row_def
    using assms by (auto simp: unserved_row_def intro!: kept split: if_splits)
  show "unserved_row t i (update_row t i f st)"
    using assms by (auto simp: unserved_row_def update_row_def split: if_splits)
  show "only_pending_added st (update_row t i f st)"
    by (simp add: only_pending_added_def update_row_def)
qed

text \<open>One transition of promotion, as seen by the read model.\<close>

definition quiet_step :: "promotion_env \<Rightarrow> int \<Rightarrow> curation_state \<Rightarrow> curation_state \<Rightarrow> bool" where
  "quiet_step P variant st st' \<longleftrightarrow>
     (unserved_today P variant st \<longrightarrow>
        unserved_today P variant st' \<and> served_kept st st' \<and> only_pending_added st st' \<and>
        (\<forall>t i. unserved_row t i st \<longrightarrow> unserved_row t i st'))"

lemma quiet_step_refl: "quiet_step P variant st st"
  by (simp add: quiet_step_def served_kept_def only_pending_refl)

lemma quiet_step_trans: "quiet_step P variant a b \<Longrightarrow> quiet_step P variant b c \<Longrightarrow> quiet_step P variant a c"
  by (auto simp: quiet_step_def served_kept_def intro: only_pending_trans)

lemma adds_values_quiet: "adds_values st st' \<Longrightarrow> quiet_step P variant st st'"
  by (simp add: adds_values_def quiet_step_def unserved_today_def served_kept_def unserved_row_def)

lemma assert_quiet:
  assumes "assert_entity_value P ty e f n st = Inr (st', i)"
  shows "quiet_step Q variant st st'"
  using assert_only_pending[OF assms] assert_snapshots[OF assms]
  by (intro adds_values_quiet) (simp add: adds_values_def)

lemma insert_snapshot_quiet:
  assumes "insert_snapshot P t variant columns st = (st', inserted)"
  shows "quiet_step P variant st st'"
  unfolding quiet_step_def
proof (intro impI conjI allI)
  assume u: "unserved_today P variant st"
  show "unserved_today P variant st'" "served_kept st st'" "only_pending_added st st'"
    using insert_snapshot_kept[OF assms u] by simp_all
  show "unserved_row t' i st \<Longrightarrow> unserved_row t' i st'" for t' i
    using assms by (auto simp: insert_snapshot_def unserved_row_def split: if_splits)
qed

lemma update_row_unserved:
  assumes "\<And>s. sn_canonical (f s) = sn_canonical s \<and> sn_table (f s) = sn_table s \<and> sn_id (f s) = sn_id s \<and>
      sn_variant (f s) = sn_variant s \<and> sn_date (f s) = sn_date s \<and> sn_source (f s) = sn_source s"
  shows "unserved_today P variant st \<Longrightarrow> unserved_today P variant (update_row t i f st)"
    "unserved_row t' i' st \<Longrightarrow> unserved_row t' i' (update_row t i f st)"
proof -
  obtain g where rows: "snapshots (update_row t i f st) = map g (snapshots st)"
    and g: "g = (\<lambda>s. if sn_table s = t \<and> sn_id s = i then f s else s)"
    by (simp add: update_row_def)
  have same: "sn_canonical (g s) = sn_canonical s" "snapshot_key (g s) = snapshot_key s"
    "of_today P t' variant (g s) = of_today P t' variant s" "sn_table (g s) = sn_table s" "sn_id (g s) = sn_id s"
    for s t'
    using assms by (simp_all add: g snapshot_key_def of_today_def)
  show "unserved_today P variant st \<Longrightarrow> unserved_today P variant (update_row t i f st)"
    unfolding unserved_today_def rows by (simp add: comp_def same)
  show "unserved_row t' i' st \<Longrightarrow> unserved_row t' i' (update_row t i f st)"
    unfolding unserved_row_def rows by (simp add: same)
qed

lemma update_row_quiet:
  assumes "unserved_row t i st"
    and "\<And>s. sn_canonical (f s) = sn_canonical s \<and> sn_table (f s) = sn_table s \<and> sn_id (f s) = sn_id s \<and>
      sn_variant (f s) = sn_variant s \<and> sn_date (f s) = sn_date s \<and> sn_source (f s) = sn_source s"
  shows "quiet_step P variant st (update_row t i f st)"
  unfolding quiet_step_def
  using update_row_kept(1,3)[OF assms(1), of f] update_row_unserved[of f] assms(2) by blast

lemma write_fields:
  "sn_canonical (upsert_totals code v s) = sn_canonical s \<and> sn_table (upsert_totals code v s) = sn_table s \<and>
   sn_id (upsert_totals code v s) = sn_id s \<and> sn_variant (upsert_totals code v s) = sn_variant s \<and>
   sn_date (upsert_totals code v s) = sn_date s \<and> sn_source (upsert_totals code v s) = sn_source s"
  "sn_canonical (insert_line P code v s) = sn_canonical s \<and> sn_table (insert_line P code v s) = sn_table s \<and>
   sn_id (insert_line P code v s) = sn_id s \<and> sn_variant (insert_line P code v s) = sn_variant s \<and>
   sn_date (insert_line P code v s) = sn_date s \<and> sn_source (insert_line P code v s) = sn_source s"
  by (simp_all add: upsert_totals_def insert_line_def Let_def)

lemma cost_item_quiet:
  assumes "promote_cost_item P i item st = Inr st'" "unserved_row CostSnapshots i st"
  shows "quiet_step P variant st st'"
proof -
  obtain st1 j ty f n where a: "assert_entity_value P ty i f n st1 = Inr (st', j)"
    and wrote: "(case (ci_mapped_code item, ci_numeric_value item) of
         (Some code, Some amount) \<Rightarrow>
           if ci_is_aggregate item
           then promote P (UpsertTotals code) (update_row CostSnapshots i (upsert_totals code (pm_numeric P amount)) st)
           else promote P (InsertLine code) (update_row CostSnapshots i (insert_line P code (pm_numeric P amount)) st)
       | _ \<Rightarrow> Inr st) = Inr st1"
    using assms(1) by (auto simp: promote_cost_item_def and_then_Inr_iff)
  have "quiet_step P variant st st1"
    using wrote update_row_quiet[OF assms(2) write_fields(1)] update_row_quiet[OF assms(2) write_fields(2)] quiet_step_refl
    by (auto simp: promote_Inr split: option.splits if_splits)
  then show ?thesis
    using assert_quiet[OF a] by (rule quiet_step_trans)
qed

lemma cost_items_quiet:
  assumes "promote_all (promote_cost_item P i) items st = Inr st'" "unserved_row CostSnapshots i st"
    and "unserved_today P variant st"
  shows "quiet_step P variant st st'"
  using assms
proof (induction items arbitrary: st)
  case (Cons item items)
  then obtain st1 where step: "promote_cost_item P i item st = Inr st1"
    and rest: "promote_all (promote_cost_item P i) items st1 = Inr st'"
    by (auto simp: and_then_Inr_iff)
  have q: "quiet_step P variant st st1"
    using cost_item_quiet[OF step Cons.prems(2)] .
  then have "unserved_row CostSnapshots i st1" "unserved_today P variant st1"
    using Cons.prems(2,3) by (simp_all add: quiet_step_def)
  then show ?case
    using quiet_step_trans[OF q] Cons.IH[OF rest] by blast
qed (simp add: quiet_step_refl)

lemma valuation_quiet:
  assumes "promote_valuation P variant v st = Inr st'"
  shows "quiet_step P variant st st'"
proof (cases "papi_price_estimate v")
  case None
  then show ?thesis using assms by (simp add: promote_valuation_def quiet_step_refl)
next
  case (Some price)
  obtain st1 inserted where ins: "insert_snapshot P Valuations variant
      (valuation_columns P price (for_sale_count v)) st = (st1, inserted)"
    by fastforce
  obtain i where rest: "and_then (assert_entity_value P ''VALUATION'' i ''papi_price_estimate'' (Some price) st1) (\<lambda>(st2, _).
          case for_sale_count v of
            None \<Rightarrow> Inr st2
          | Some n \<Rightarrow> and_then (assert_entity_value P ''VALUATION'' i ''for_sale_count'' (Some (show_int n)) st2)
              (\<lambda>(st3, _). Inr st3)) = Inr st'"
    using assms Some by (auto simp: promote_valuation_def and_then_Inr_iff promote_Inr ins)
  from rest obtain st2 j where price: "assert_entity_value P ''VALUATION'' i ''papi_price_estimate'' (Some price) st1 = Inr (st2, j)"
    and count: "(case for_sale_count v of
            None \<Rightarrow> Inr st2
          | Some n \<Rightarrow> and_then (assert_entity_value P ''VALUATION'' i ''for_sale_count'' (Some (show_int n)) st2)
              (\<lambda>(st3, _). Inr st3)) = Inr st'"
    by (auto simp: and_then_Inr_iff)
  have "quiet_step P variant st2 st'"
    using count assert_quiet quiet_step_refl by (auto simp: and_then_Inr_iff split: option.splits)
  then show ?thesis
    using quiet_step_trans[OF insert_snapshot_quiet[OF ins]] quiet_step_trans[OF assert_quiet[OF price]] by blast
qed

lemma costs_quiet:
  assumes "promote_costs P variant costs st = Inr st'"
  shows "quiet_step P variant st st'"
proof (cases "cost_line_items costs = [] \<or> \<not> unserved_today P variant st")
  case True
  then show ?thesis
    using assms by (auto simp: promote_costs_def quiet_step_refl) (simp add: quiet_step_def)
next
  case False
  then obtain st1 inserted selected where
    ins: "insert_snapshot P CostSnapshots variant (\<lambda>_. None) st = (st1, inserted)"
    and sel: "select_snapshot P CostSnapshots variant st1 = Inr selected"
    and items: "promote_all (promote_cost_item P (case inserted of Some i \<Rightarrow> i | None \<Rightarrow> selected))
      (cost_line_items costs) st1 = Inr st'"
    using assms by (auto simp: promote_costs_def and_then_Inr_iff promote_Inr split: prod.splits if_splits)
  have u: "unserved_today P variant st1"
    using insert_snapshot_kept(2)[OF ins] False by simp
  have "unserved_row CostSnapshots (case inserted of Some i \<Rightarrow> i | None \<Rightarrow> selected) st1"
    using insert_snapshot_kept(4)[OF ins] select_snapshot_unserved[OF sel u] False by (cases inserted) auto
  then show ?thesis
    using quiet_step_trans[OF insert_snapshot_quiet[OF ins]] cost_items_quiet[OF items _ u] by blast
qed

lemma promote_record_quiet:
  assumes "promote_record P variant r st = Inr st'"
  shows "quiet_step P variant st st'"
  using assms adds_values_quiet measurements_step issues_step valuation_quiet costs_quiet quiet_step_trans
  unfolding promote_record_def promote_market_def and_then_Inr_iff by meson

lemma promote_record_adds:
  assumes "promote_record P variant r st = Inr st'" "unserved_today P variant st"
  shows "published_rows st' = published_rows st" "only_pending_added st st'"
  using promote_record_quiet[OF assms(1)] assms(2)
  by (simp_all add: quiet_step_def served_kept_def only_pending_added_def published_rows_def)

end
