(* ===== verification/Curation_Imports.thy ===== *)
theory Curation_Imports
  imports Curation_Guarantees Promotion
begin

text \<open>
  Imports and curation on the same tables: what an import may change of the read model's input, and the one
  case in which it does.
\<close>

subsection \<open>A sample record\<close>

definition sample_promotion :: promotion_env where
  "sample_promotion = \<lparr> pm_fault = (\<lambda>_. None), pm_numeric = (\<lambda>s. (of_nat (length s), s)),
     pm_fixed = (\<lambda>code. if code \<in> {''HANGAR'', ''INSURANCE''} then Some True else None),
     pm_today = 20100, pm_source = ''PLANEPHD'' \<rparr>"

definition hangar_cost :: CostItemInput where
  "hangar_cost = \<lparr> ci_source_key = ''hangar'', ci_raw_value = ''$1,200'', ci_mapped_code = Some ''HANGAR'',
     ci_numeric_value = Some ''1200'', ci_is_aggregate = False, ci_is_numeric = True \<rparr>"

definition sample_cruise :: MeasurementInput where
  "sample_cruise = \<lparr> mi_source_field = ''cruise'', mi_metric_code = Some ''SPEED'', mi_raw_value = ''120 KTAS'',
     mi_numeric_value = Some ''120'', mi_raw_unit = Some ''KTAS'', mi_unit_code = Some ''KT'' \<rparr>"

definition sample_record :: PreparedAircraftRecord where
  "sample_record = \<lparr> source_record_key = ''C172'',
     rec_identity = \<lparr> manufacturer_name = ''Cessna'', aircraft_name = ''172'', id_source_link = None, id_page_url = None,
       id_title = None, id_description = None \<rparr>,
     rec_lifecycle = LifecycleInput_default,
     rec_performance = \<lparr> performance_measurements = [sample_cruise] \<rparr>,
     rec_weights = \<lparr> weight_measurements = [] \<rparr>, rec_propulsion = PropulsionInput_default,
     rec_valuation = ValuationInput_default, rec_operating_costs = \<lparr> cost_line_items = [hangar_cost] \<rparr>,
     rec_images = [],
     rec_provenance = \<lparr> source_system_key = ''k'', source_url = None, source_path = None, prov_confidence = confidence_get SCRAPED_SOURCE \<rparr>,
     rec_issues = [], raw_document = JNull \<rparr>"

text \<open>A cost snapshot imported earlier the same day, fully curated and served.\<close>

definition served_costs :: curation_state where
  "served_costs = \<lparr> assertions = [\<lparr> as_id = 1, as_entity_type = ''COST_SNAPSHOT'', as_entity_id = 3,
       as_field = ''INSURANCE'', as_numeric = Some (3, ''900''), as_status = ''ACCEPTED'', as_accepted = True \<rparr>],
     metrics = [],
     snapshots = [\<lparr> sn_table = CostSnapshots, sn_id = 3, sn_variant = 7, sn_date = 20100, sn_source = ''PLANEPHD'',
       sn_canonical = True, sn_columns = (\<lambda>_. None), sn_totals = None, sn_lines = [(''INSURANCE'', Some (3, ''900''))] \<rparr>],
     flags = [], requests = [], read_model = ([], []) \<rparr>"

lemmas promote_evals = promote_record_def promote_measurements_def promote_weight_metrics_def promote_measurement_def
  promote_market_def promote_valuation_def promote_costs_def promote_cost_item_def promote_issues_def
  assert_entity_value_def promote_def insert_snapshot_def select_snapshot_def of_today_def next_snapshot_def
  next_key_def update_row_def insert_line_def is_extra_def sample_record_def hangar_cost_def sample_cruise_def
  sample_promotion_def ValuationInput_default_def

lemma served_costs_ok: "curation_ok served_costs"
  by (auto simp: curation_ok_def served_costs_def assertions_ok_def metrics_unique_def snapshots_unique_def
      snapshot_backed_def value_agrees_def market_target_def publishable_def of_entity_def
      stored_value_def cost_total_column_def disagreement_def)

definition pending_hangar :: assertion where
  "pending_hangar = \<lparr> as_id = 3, as_entity_type = ''COST_SNAPSHOT'', as_entity_id = 3, as_field = ''HANGAR'',
     as_numeric = Some (4, ''1200''), as_status = ''PENDING'', as_accepted = False \<rparr>"

definition extended_costs :: snapshot_row where
  "extended_costs = \<lparr> sn_table = CostSnapshots, sn_id = 3, sn_variant = 7, sn_date = 20100, sn_source = ''PLANEPHD'',
     sn_canonical = True, sn_columns = (\<lambda>_. None), sn_totals = None,
     sn_lines = [(''INSURANCE'', Some (3, ''900'')), (''HANGAR'', Some (4, ''1200''))] \<rparr>"

lemma reimported_eq:
  "promote_record sample_promotion 7 sample_record served_costs = Inr (served_costs \<lparr>
     assertions := assertions served_costs @
       [\<lparr> as_id = 2, as_entity_type = ''AIRCRAFT_VARIANT'', as_entity_id = 7, as_field = ''performance.SPEED'',
          as_numeric = Some (3, ''120''), as_status = ''PENDING'', as_accepted = False \<rparr>, pending_hangar],
     metrics := [\<lparr> me_table = PerformanceMetrics, me_assertion = Some 2, me_variant = 7, me_metric = ''SPEED'',
       me_canonical = False \<rparr>],
     snapshots := [extended_costs] \<rparr>)"
  by (simp add: promote_evals served_costs_def pending_hangar_def extended_costs_def Let_def)

lemma sample_unserved: "unserved_today sample_promotion 7 sample_tables"
  by (simp add: unserved_today_def sample_defs of_today_def)

subsection \<open>What an import may serve\<close>

text \<open>
  C17: Nothing an import promotes is served before a curator decides: unless a snapshot of the same variant, day
  and source is already canonical, promoting a record leaves the rows the read model selects unchanged, whatever
  measurements, prices, costs and issues it carries.
\<close>

theorem import_serves_nothing_new:
  assumes "promote_record P variant r st = Inr st'" "unserved_today P variant st"
  shows "published_rows st' = published_rows st"
  using assms by (rule promote_record_adds(1))

theorem import_serves_nothing_new_witness:
  "\<exists>st'. promote_record sample_promotion 7 sample_record sample_tables = Inr st' \<and> length (metrics st') = 2 \<and>
     published_rows st' = published_rows sample_tables"
proof -
  obtain st' where st': "promote_record sample_promotion 7 sample_record sample_tables = Inr st'" "length (metrics st') = 2"
    by (simp add: promote_evals sample_defs Let_def)
  with import_serves_nothing_new[OF st'(1) sample_unserved] show ?thesis by blast
qed

text \<open>
  The excepted case does serve an undecided value: importing a second artifact on the day a cost snapshot was
  imported and curated adds its new line items to the canonical snapshot, while the assertion behind the line is
  still pending.
\<close>

theorem reimport_serves_pending_line:
  "\<exists>P variant r st st' s u v. curation_ok st \<and> promote_record P variant r st = Inr st' \<and>
     s \<in> set (snd (published_rows st')) \<and> u \<in> set (assertions st') \<and> of_entity ''COST_SNAPSHOT'' (sn_id s) u \<and>
     (as_field u, v) \<in> set (sn_lines s) \<and> as_status u = ''PENDING'' \<and>
     \<not> (\<exists>a \<in> set (assertions st'). same_field a u \<and> as_accepted a)"
  by (intro exI[of _ sample_promotion] exI[of _ 7] exI[of _ sample_record] exI[of _ served_costs]
        exI[of _ extended_costs] exI[of _ pending_hangar] exI[of _ "Some (4, ''1200'')"] exI conjI,
      rule served_costs_ok, rule reimported_eq)
     (simp_all add: published_rows_def of_entity_def same_field_def served_costs_def extended_costs_def pending_hangar_def)

end
