(* ===== verification/Identity.thy ===== *)
theory Identity
  imports Promotion Ingestion_Service
begin

text \<open>
  How \<open>aircraft_db::ingestion_repository\<close> finds or makes the rows a record is about: organization, family,
  model and variant, the source document, the engine, and the staged copy. Every statement may fail, and the
  schema's unique indexes and checks refuse what violates them. Sequences hand out the next number.
\<close>

subsection \<open>Text functions\<close>

text \<open>PostgreSQL's case functions and digest; \<open>id_pick\<close> is the row an unordered \<open>LIMIT 1\<close> returns.\<close>

record organization_row =
  og_id :: int
  og_name :: string
  og_slug :: string
  og_aliases :: "string list"

datatype identity_call =
    InsertStaged | InsertImage nat | SelectOrganization | InsertOrganization | InsertFamily | InsertModel
  | InsertVariant | LinkManufacturer | FlagCollision | InsertSource | InsertDocument | InsertEngine
  | InsertPowerplant | UpdateStaged | UpdateDocument

record identity_env =
  id_fault :: "identity_call \<Rightarrow> PersistenceError option"
  id_lower :: "string \<Rightarrow> string"
  id_upper :: "string \<Rightarrow> string"
  id_initcap :: "string \<Rightarrow> string"
  id_md5 :: "string \<Rightarrow> string"
  id_pick :: "organization_row list \<Rightarrow> organization_row"
  id_source :: SourceDescriptor
  id_run :: int
  id_label :: string

definition slug_char :: "char \<Rightarrow> bool" where
  "slug_char c \<longleftrightarrow> is_ascii_lowercase c \<or> is_ascii_digit c"

text \<open>\<open>regexp_replace(s, '[^a-z0-9]+', '-', 'g')\<close>; the flag says that a run of other characters is open.\<close>

fun hyphenate :: "bool \<Rightarrow> string \<Rightarrow> string" where
  "hyphenate run [] = []"
| "hyphenate run (c # cs) =
     (if slug_char c then c # hyphenate False cs
      else if run then hyphenate True cs
      else CHR ''-'' # hyphenate True cs)"

definition slugify :: "identity_env \<Rightarrow> string \<Rightarrow> string" where
  "slugify I s = trim_bytes (\<lambda>c. c = CHR ''-'') (hyphenate False (id_lower I s))"

subsection \<open>Tables\<close>

record family_row =
  fm_id :: int
  fm_name :: string
  fm_slug :: string
  fm_org :: int

record model_row =
  ml_id :: int
  ml_name :: string
  ml_slug :: string
  ml_family_id :: int

record variant_row =
  vr_id :: int
  vr_key :: "string option"
  vr_model :: int
  vr_name :: string
  vr_slug :: string
  vr_description :: "string option"
  vr_start :: "int option"
  vr_end :: "int option"
  vr_in_production :: "bool option"
  vr_status :: "string option"
  vr_passengers :: "int option"
  vr_crew :: "int option"
  vr_engine_count :: "int option"
  vr_source_path :: "string option"
  vr_propulsion :: "string option"
  vr_gear :: "string option"
  vr_type :: "string option"

record link_row =
  lk_variant :: int
  lk_org :: int
  lk_role :: string
  lk_primary :: bool

record collision_row =
  cl_variant :: int
  cl_slug :: string
  cl_open :: bool

record source_row =
  so_id :: int
  so_slug :: string
  so_name :: string
  so_base_url :: "string option"

record document_row =
  do_id :: int
  do_source :: int
  do_variant :: int
  do_system_key :: string
  do_run :: int
  do_label :: string
  do_processed :: bool

record engine_row =
  eg_id :: int
  eg_slug :: string
  eg_maker :: string
  eg_model :: string
  eg_hp :: "rat option"
  eg_thrust :: "rat option"
  eg_thrust_lbf :: "rat option"
  eg_tbo_hours :: "int option"
  eg_tbo_years :: "int option"

record powerplant_row =
  pp_variant :: int
  pp_engine :: int
  pp_count :: "int option"
  pp_standard :: bool
  pp_primary :: bool
  pp_document :: int

record staged_row =
  sg_id :: int
  sg_run :: int
  sg_record :: PreparedAircraftRecord
  sg_images :: "ImageMetadataInput list"
  sg_status :: "string option"
  sg_variant :: "int option"

record identity_tables =
  t_orgs :: "organization_row list"
  t_families :: "family_row list"
  t_models :: "model_row list"
  t_variants :: "variant_row list"
  t_links :: "link_row list"
  t_collisions :: "collision_row list"
  t_sources :: "source_row list"
  t_documents :: "document_row list"
  t_engines :: "engine_row list"
  t_plants :: "powerplant_row list"
  t_staged :: "staged_row list"

subsection \<open>Statements\<close>

text \<open>The domain \<open>slug_text\<close> accepts what the domain type \<open>Slug\<close> does: \<open>slug_check\<close>.\<close>

definition id_run_statement :: "identity_env \<Rightarrow> identity_call \<Rightarrow> 'a \<Rightarrow> PersistenceError + 'a" where
  "id_run_statement I c v = (case id_fault I c of Some e \<Rightarrow> Inl e | None \<Rightarrow> Inr v)"

definition unique_violation :: "string \<Rightarrow> PersistenceError" where
  "unique_violation constraint = database_error (Some ''23505'', constraint)"

definition check_violation :: "string \<Rightarrow> PersistenceError" where
  "check_violation constraint = database_error (Some ''23514'', constraint)"

definition require :: "bool \<Rightarrow> PersistenceError \<Rightarrow> PersistenceError + unit" where
  "require b e = (if b then Inr () else Inl e)"

text \<open>\<open>COALESCE\<close>.\<close>

definition coalesce :: "'a option \<Rightarrow> 'a option \<Rightarrow> 'a option" where
  "coalesce a b = (case a of Some x \<Rightarrow> Some x | None \<Rightarrow> b)"

text \<open>\<open>INSERT \<dots> ON CONFLICT(key) DO UPDATE \<dots> RETURNING\<close>: the rows and the row returned.\<close>

definition upsert :: "('r \<Rightarrow> bool) \<Rightarrow> ('r \<Rightarrow> 'r) \<Rightarrow> 'r \<Rightarrow> 'r list \<Rightarrow> 'r list \<times> 'r" where
  "upsert same change fresh rows =
     (case List.find same rows of
        Some r \<Rightarrow> (map (\<lambda>q. if same q then change q else q) rows, change r)
      | None \<Rightarrow> (rows @ [fresh], fresh))"

subsection \<open>Organization, family, model\<close>

definition names_organization :: "identity_env \<Rightarrow> string \<Rightarrow> organization_row \<Rightarrow> bool" where
  "names_organization I name o' \<longleftrightarrow> name \<in> set (og_aliases o') \<or> id_upper I (og_name o') = id_upper I name"

definition promote_organization ::
  "identity_env \<Rightarrow> string \<Rightarrow> identity_tables \<Rightarrow> PersistenceError + identity_tables \<times> int" where
  "promote_organization I name T =
     and_then (id_run_statement I SelectOrganization (filter (names_organization I name) (t_orgs T))) (\<lambda>found.
     if found \<noteq> [] then Inr (T, og_id (id_pick I found))
     else
       (let slug = slugify I name in
        and_then (require (slug_check slug) (check_violation ''slug_text_check'')) (\<lambda>_.
        (case upsert (\<lambda>o'. og_slug o' = slug) (\<lambda>o'. o' \<lparr> og_aliases := remdups (og_aliases o' @ [name]) \<rparr>)
            \<lparr> og_id = next_key (map og_id (t_orgs T)), og_name = id_initcap I name, og_slug = slug, og_aliases = [name] \<rparr>
            (t_orgs T) of
          (rows, o') \<Rightarrow> id_run_statement I InsertOrganization (T \<lparr> t_orgs := rows \<rparr>, og_id o')))))"

definition promote_family ::
  "identity_env \<Rightarrow> string \<Rightarrow> int \<Rightarrow> identity_tables \<Rightarrow> PersistenceError + identity_tables \<times> int" where
  "promote_family I manufacturer org T =
     (let slug = slugify I (manufacturer @ ''-family'') in
      and_then (require (slug_check slug) (check_violation ''slug_text_check'')) (\<lambda>_.
      (case upsert (\<lambda>f. fm_slug f = slug) (\<lambda>f. f \<lparr> fm_org := org \<rparr>)
          \<lparr> fm_id = next_key (map fm_id (t_families T)), fm_name = id_initcap I manufacturer, fm_slug = slug, fm_org = org \<rparr>
          (t_families T) of
        (rows, f) \<Rightarrow> id_run_statement I InsertFamily (T \<lparr> t_families := rows \<rparr>, fm_id f))))"

definition promote_model ::
  "identity_env \<Rightarrow> string \<Rightarrow> string \<Rightarrow> int \<Rightarrow> identity_tables \<Rightarrow> PersistenceError + identity_tables \<times> int" where
  "promote_model I manufacturer aircraft family T =
     (let slug = slugify I (manufacturer @ ''-'' @ aircraft) in
      and_then (require (slug_check slug) (check_violation ''slug_text_check'')) (\<lambda>_.
      (case upsert (\<lambda>m. ml_slug m = slug) (\<lambda>m. m \<lparr> ml_family_id := family \<rparr>)
          \<lparr> ml_id = next_key (map ml_id (t_models T)), ml_name = aircraft, ml_slug = slug, ml_family_id = family \<rparr>
          (t_models T) of
        (rows, m) \<Rightarrow> id_run_statement I InsertModel (T \<lparr> t_models := rows \<rparr>, ml_id m))))"

subsection \<open>The variant\<close>

definition base_slug :: "identity_env \<Rightarrow> PreparedAircraftRecord \<Rightarrow> string" where
  "base_slug I r = slugify I (manufacturer_name (rec_identity r) @ ''-'' @ aircraft_name (rec_identity r) @ ''-v1'')"

text \<open>The slug of another record is left to it; this one is suffixed with a digest of its own key.\<close>

definition candidate_slug :: "identity_env \<Rightarrow> PreparedAircraftRecord \<Rightarrow> identity_tables \<Rightarrow> string" where
  "candidate_slug I r T =
     (if list_ex (\<lambda>v. vr_slug v = base_slug I r \<and> vr_key v \<noteq> Some (source_record_key r)) (t_variants T)
      then base_slug I r @ ''-'' @ take 8 (id_md5 I (source_record_key r))
      else base_slug I r)"

text \<open>The domain \<open>year_value\<close> and the checks of the table.\<close>

definition schema_year :: "int option \<Rightarrow> bool" where
  "schema_year y \<longleftrightarrow> (case y of None \<Rightarrow> True | Some v \<Rightarrow> 1900 \<le> v \<and> v \<le> 2100)"

definition at_least :: "int \<Rightarrow> int option \<Rightarrow> bool" where
  "at_least n v \<longleftrightarrow> (case v of None \<Rightarrow> True | Some i \<Rightarrow> n \<le> i)"

definition variant_checks :: "variant_row \<Rightarrow> PersistenceError + unit" where
  "variant_checks v =
     and_then (require (slug_check (vr_slug v)) (check_violation ''slug_text_check'')) (\<lambda>_.
     and_then (require (schema_year (vr_start v) \<and> schema_year (vr_end v)) (check_violation ''year_value_check'')) (\<lambda>_.
     and_then (require (years_ordered (vr_start v) (vr_end v)) (check_violation ''chk_variant_production_years'')) (\<lambda>_.
     and_then (require (at_least 1 (vr_engine_count v)) (check_violation ''chk_variant_engine_count'')) (\<lambda>_.
     and_then (require (at_least 0 (vr_passengers v)) (check_violation ''chk_variant_passenger'')) (\<lambda>_.
     require (at_least 0 (vr_crew v)) (check_violation ''chk_variant_crew''))))))"

definition fresh_variant :: "identity_env \<Rightarrow> int \<Rightarrow> PreparedAircraftRecord \<Rightarrow> identity_tables \<Rightarrow> variant_row" where
  "fresh_variant I model r T =
     \<lparr> vr_id = next_key (map vr_id (t_variants T)), vr_key = Some (source_record_key r), vr_model = model,
       vr_name = aircraft_name (rec_identity r), vr_slug = candidate_slug I r T,
       vr_description = id_description (rec_identity r),
       vr_start = production_start_year (rec_lifecycle r), vr_end = production_end_year (rec_lifecycle r),
       vr_in_production = is_in_production (rec_lifecycle r), vr_status = service_status_code (rec_lifecycle r),
       vr_passengers = passenger_capacity (rec_lifecycle r), vr_crew = crew_count (rec_lifecycle r),
       vr_engine_count = pr_engine_count (rec_propulsion r), vr_source_path = id_source_link (rec_identity r),
       vr_propulsion = pr_category (rec_propulsion r), vr_gear = landing_gear_code (rec_lifecycle r),
       vr_type = variant_type_code (rec_lifecycle r) \<rparr>"

text \<open>\<open>DO UPDATE SET\<close>: \<open>new\<close> is \<open>EXCLUDED\<close>. The production range moves as one value.\<close>

definition merge_variant :: "variant_row \<Rightarrow> variant_row \<Rightarrow> variant_row" where
  "merge_variant new old = old
     \<lparr> vr_description := vr_description new,
       vr_engine_count := coalesce (vr_engine_count old) (vr_engine_count new),
       vr_start := coalesce (vr_start new) (vr_start old),
       vr_end := (if vr_start new \<noteq> None then vr_end new else vr_end old),
       vr_in_production := (if vr_start new \<noteq> None then vr_in_production new
         else coalesce (vr_in_production new) (vr_in_production old)),
       vr_propulsion := coalesce (vr_propulsion new) (vr_propulsion old),
       vr_status := (if vr_start new \<noteq> None then vr_status new else coalesce (vr_status new) (vr_status old)),
       vr_gear := coalesce (vr_gear new) (vr_gear old),
       vr_type := coalesce (vr_type new) (vr_type old) \<rparr>"

definition link_primary_manufacturer ::
  "identity_env \<Rightarrow> int \<Rightarrow> int \<Rightarrow> identity_tables \<Rightarrow> PersistenceError + identity_tables" where
  "link_primary_manufacturer I variant org T =
     id_run_statement I LinkManufacturer
       (if list_ex (\<lambda>l. lk_variant l = variant \<and> lk_primary l) (t_links T) then T
        else T \<lparr> t_links := fst (upsert (\<lambda>l. lk_variant l = variant \<and> lk_org l = org) (\<lambda>l. l \<lparr> lk_primary := True \<rparr>)
          \<lparr> lk_variant = variant, lk_org = org, lk_role = ''MANUFACTURER'', lk_primary = True \<rparr> (t_links T)) \<rparr>)"

definition flag_slug_collision ::
  "identity_env \<Rightarrow> int \<Rightarrow> string \<Rightarrow> identity_tables \<Rightarrow> PersistenceError + identity_tables" where
  "flag_slug_collision I variant slug T =
     id_run_statement I FlagCollision
       (if list_ex (\<lambda>c. cl_variant c = variant \<and> cl_open c) (t_collisions T) then T
        else T \<lparr> t_collisions := t_collisions T @ [\<lparr> cl_variant = variant, cl_slug = slug, cl_open = True \<rparr>] \<rparr>)"

definition upsert_variant ::
  "identity_env \<Rightarrow> int \<Rightarrow> PreparedAircraftRecord \<Rightarrow> identity_tables \<Rightarrow> PersistenceError + identity_tables \<times> variant_row"
where
  "upsert_variant I model r T =
     (let new = fresh_variant I model r T;
          same = (\<lambda>v. vr_key v = Some (source_record_key r))
      in and_then (variant_checks new) (\<lambda>_.
         case List.find same (t_variants T) of
           None \<Rightarrow>
             and_then (require (vr_slug new \<notin> vr_slug ` set (t_variants T)) (unique_violation ''variants_slug_key'')) (\<lambda>_.
             id_run_statement I InsertVariant (T \<lparr> t_variants := t_variants T @ [new] \<rparr>, new))
         | Some old \<Rightarrow>
             and_then (variant_checks (merge_variant new old)) (\<lambda>_.
             id_run_statement I InsertVariant
               (T \<lparr> t_variants := map (\<lambda>v. if same v then merge_variant new v else v) (t_variants T) \<rparr>,
                merge_variant new old))))"

definition promote_variant ::
  "identity_env \<Rightarrow> int \<Rightarrow> int \<Rightarrow> PreparedAircraftRecord \<Rightarrow> identity_tables \<Rightarrow> PersistenceError + identity_tables \<times> int"
where
  "promote_variant I model org r T =
     and_then (upsert_variant I model r T) (\<lambda>(T1, v).
     and_then (link_primary_manufacturer I (vr_id v) org T1) (\<lambda>T2.
     and_then (if vr_slug v \<noteq> base_slug I r then flag_slug_collision I (vr_id v) (vr_slug v) T2 else Inr T2) (\<lambda>T3.
     Inr (T3, vr_id v))))"

definition promote_identity ::
  "identity_env \<Rightarrow> PreparedAircraftRecord \<Rightarrow> identity_tables \<Rightarrow> PersistenceError + identity_tables \<times> int" where
  "promote_identity I r T =
     (let manufacturer = manufacturer_name (rec_identity r); aircraft = aircraft_name (rec_identity r) in
      and_then (promote_organization I manufacturer T) (\<lambda>(T1, org).
      and_then (promote_family I manufacturer org T1) (\<lambda>(T2, family).
      and_then (promote_model I manufacturer aircraft family T2) (\<lambda>(T3, model).
      promote_variant I model org r T3))))"

subsection \<open>Source document and engine\<close>

text \<open>What promotion changes: the identity tables and the tables of \<open>Promotion\<close>.\<close>

type_synonym promotion_state = "identity_tables \<times> curation_state"

text \<open>\<open>assert_value\<close>: an assertion about the variant, its id dropped.\<close>

definition assert_value ::
  "promotion_env \<Rightarrow> int \<Rightarrow> string \<Rightarrow> string option \<Rightarrow> curation_state \<Rightarrow> PersistenceError + curation_state" where
  "assert_value P variant field number st =
     and_then (assert_entity_value P ''AIRCRAFT_VARIANT'' variant field number st) (\<lambda>(st', _). Inr st')"

definition upsert_source :: "identity_env \<Rightarrow> identity_tables \<Rightarrow> PersistenceError + identity_tables \<times> int" where
  "upsert_source I T =
     (let slug = src_slug (id_source I) in
      and_then (require (slug_check slug) (check_violation ''slug_text_check'')) (\<lambda>_.
      (case upsert (\<lambda>so. so_slug so = slug) (\<lambda>so. so \<lparr> so_base_url := src_base_url (id_source I) \<rparr>)
          \<lparr> so_id = next_key (map so_id (t_sources T)), so_slug = slug, so_name = src_name (id_source I),
            so_base_url = src_base_url (id_source I) \<rparr> (t_sources T) of
        (rows, so) \<Rightarrow> id_run_statement I InsertSource (T \<lparr> t_sources := rows \<rparr>, so_id so))))"

definition insert_document ::
  "identity_env \<Rightarrow> PreparedAircraftRecord \<Rightarrow> int \<Rightarrow> int \<Rightarrow> identity_tables \<Rightarrow> PersistenceError + identity_tables \<times> int"
where
  "insert_document I r variant source T =
     (let key = source_system_key (rec_provenance r); document = next_key (map do_id (t_documents T)) in
      and_then (require (\<not> list_ex (\<lambda>d. do_source d = source \<and> do_system_key d = key \<and> do_run d = id_run I)
          (t_documents T)) (unique_violation ''uq_sd_source_run_key'')) (\<lambda>_.
      id_run_statement I InsertDocument (T \<lparr> t_documents := t_documents T @
          [\<lparr> do_id = document, do_source = source, do_variant = variant, do_system_key = key,
             do_run = id_run I, do_label = id_label I, do_processed = False \<rparr>] \<rparr>, document)))"

definition promote_document ::
  "identity_env \<Rightarrow> promotion_env \<Rightarrow> PreparedAircraftRecord \<Rightarrow> int \<Rightarrow> promotion_state \<Rightarrow>
     PersistenceError + promotion_state \<times> int" where
  "promote_document I P r variant s =
     and_then (upsert_source I (fst s)) (\<lambda>(T1, source).
     and_then (insert_document I r variant source T1) (\<lambda>(T2, document).
     and_then (assert_value P variant ''name'' None (snd s)) (\<lambda>st.
     Inr ((T2, st), document))))"

text \<open>\<open>round(x, 2)\<close> on numerics: half away from zero.\<close>

definition round2 :: "rat \<Rightarrow> rat" where
  "round2 x = sgn x * rat_of_int \<lfloor>\<bar>x\<bar> * 100 + 1 / 2\<rfloor> / 100"

definition engine_row_of :: "identity_env \<Rightarrow> promotion_env \<Rightarrow> PropulsionInput \<Rightarrow> string \<Rightarrow> identity_tables \<Rightarrow> engine_row" where
  "engine_row_of I P e model T =
     (let maker = (case pr_manufacturer e of Some m \<Rightarrow> m | None \<Rightarrow> ''unknown'');
          thrust = map_option (\<lambda>t. fst (pm_numeric P t)) (pr_thrust_newtons e)
      in \<lparr> eg_id = next_key (map eg_id (t_engines T)), eg_slug = slugify I (maker @ ''-'' @ model), eg_maker = maker,
           eg_model = model, eg_hp = map_option (\<lambda>h. fst (pm_numeric P h)) (pr_horsepower e), eg_thrust = thrust,
           eg_thrust_lbf = map_option (\<lambda>n. round2 (n * 224809 / 1000000)) thrust,
           eg_tbo_hours = pr_tbo_hours e, eg_tbo_years = pr_tbo_years e \<rparr>)"

definition merge_engine :: "engine_row \<Rightarrow> engine_row \<Rightarrow> engine_row" where
  "merge_engine new old = old
     \<lparr> eg_hp := coalesce (eg_hp new) (eg_hp old), eg_thrust := coalesce (eg_thrust new) (eg_thrust old),
       eg_thrust_lbf := coalesce (eg_thrust_lbf new) (eg_thrust_lbf old),
       eg_tbo_hours := coalesce (eg_tbo_hours new) (eg_tbo_hours old),
       eg_tbo_years := coalesce (eg_tbo_years new) (eg_tbo_years old) \<rparr>"

text \<open>
  The powerplant is inserted as standard and primary. Its conflict clause names (variant, engine); the indexes
  \<open>uq_vp_primary\<close> and \<open>uq_vp_standard_per_variant\<close> allow a variant one primary and one standard engine.
\<close>

definition link_powerplant ::
  "identity_env \<Rightarrow> int \<Rightarrow> int \<Rightarrow> int option \<Rightarrow> int \<Rightarrow> identity_tables \<Rightarrow> PersistenceError + identity_tables" where
  "link_powerplant I variant engine count document T =
     (let same = (\<lambda>p. pp_variant p = variant \<and> pp_engine p = engine) in
      and_then (require (at_least 1 count) (check_violation ''chk_vp_engine_count'')) (\<lambda>_.
      and_then (require (list_ex same (t_plants T) \<or>
          \<not> list_ex (\<lambda>p. pp_variant p = variant \<and> pp_primary p) (t_plants T)) (unique_violation ''uq_vp_primary'')) (\<lambda>_.
      and_then (require (list_ex same (t_plants T) \<or>
          \<not> list_ex (\<lambda>p. pp_variant p = variant \<and> pp_standard p) (t_plants T))
          (unique_violation ''uq_vp_standard_per_variant'')) (\<lambda>_.
      id_run_statement I InsertPowerplant
        (T \<lparr> t_plants := fst (upsert same (\<lambda>p. p \<lparr> pp_count := coalesce count (pp_count p) \<rparr>)
          \<lparr> pp_variant = variant, pp_engine = engine, pp_count = count, pp_standard = True, pp_primary = True,
            pp_document = document \<rparr> (t_plants T)) \<rparr>)))))"

definition promote_engine ::
  "identity_env \<Rightarrow> promotion_env \<Rightarrow> PreparedAircraftRecord \<Rightarrow> int \<Rightarrow> int \<Rightarrow> identity_tables \<Rightarrow>
     PersistenceError + identity_tables" where
  "promote_engine I P r variant document T =
     (case pr_model (rec_propulsion r) of
        None \<Rightarrow> Inr T
      | Some model \<Rightarrow>
          (let new = engine_row_of I P (rec_propulsion r) model T in
           and_then (require (slug_check (eg_slug new)) (check_violation ''slug_text_check'')) (\<lambda>_.
           (case upsert (\<lambda>e. eg_slug e = eg_slug new) (merge_engine new) new (t_engines T) of
             (rows, e) \<Rightarrow>
               and_then (id_run_statement I InsertEngine (T \<lparr> t_engines := rows \<rparr>)) (\<lambda>T1.
               link_powerplant I variant (eg_id e) (pr_engine_count (rec_propulsion r)) document T1)))))"

subsection \<open>Staging and promoting a record\<close>

text \<open>The staged copy: the record's members, and its images one by one.\<close>

fun stage_images :: "identity_env \<Rightarrow> nat \<Rightarrow> ImageMetadataInput list \<Rightarrow> staged_row \<Rightarrow> PersistenceError + staged_row" where
  "stage_images I n [] row = Inr row"
| "stage_images I n (img # imgs) row =
     and_then (require (array_position img \<notin> array_position ` set (sg_images row))
         (unique_violation ''staged_images_staged_aircraft_id_array_position_key'')) (\<lambda>_.
     and_then (id_run_statement I (InsertImage n) (row \<lparr> sg_images := sg_images row @ [img] \<rparr>))
       (stage_images I (Suc n) imgs))"

definition same_staged_name :: "PreparedAircraftRecord \<Rightarrow> PreparedAircraftRecord \<Rightarrow> bool" where
  "same_staged_name r q \<longleftrightarrow> manufacturer_name (rec_identity r) = manufacturer_name (rec_identity q) \<and>
     aircraft_name (rec_identity r) = aircraft_name (rec_identity q)"

definition stage :: "identity_env \<Rightarrow> PreparedAircraftRecord \<Rightarrow> identity_tables \<Rightarrow> PersistenceError + identity_tables \<times> int" where
  "stage I r T =
     (let i = next_key (map sg_id (t_staged T));
          mine = filter (\<lambda>s. sg_run s = id_run I) (t_staged T)
      in and_then (require (\<not> list_ex (\<lambda>s. same_staged_name (sg_record s) r) mine)
           (unique_violation ''staged_aircraft_ingest_run_id_manufacturer_name_raw_aircraft_name_raw_key'')) (\<lambda>_.
         and_then (require (\<not> list_ex (\<lambda>s. source_record_key (sg_record s) = source_record_key r) mine)
           (unique_violation ''uq_staged_aircraft_source_key'')) (\<lambda>_.
         and_then (id_run_statement I InsertStaged
             \<lparr> sg_id = i, sg_run = id_run I, sg_record = r, sg_images = [], sg_status = Some ''PENDING'', sg_variant = None \<rparr>) (\<lambda>row.
         and_then (stage_images I 0 (rec_images r) row) (\<lambda>row'.
         Inr (T \<lparr> t_staged := t_staged T @ [row'] \<rparr>, i))))))"

definition finish_staged ::
  "identity_env \<Rightarrow> int \<Rightarrow> int \<Rightarrow> string \<Rightarrow> identity_tables \<Rightarrow> PersistenceError + identity_tables" where
  "finish_staged I i variant status T =
     id_run_statement I UpdateStaged (T \<lparr> t_staged := map (\<lambda>s. if sg_id s = i
       then s \<lparr> sg_status := Some status, sg_variant := Some variant \<rparr> else s) (t_staged T) \<rparr>)"

definition finish_document :: "identity_env \<Rightarrow> int \<Rightarrow> identity_tables \<Rightarrow> PersistenceError + identity_tables" where
  "finish_document I document T =
     id_run_statement I UpdateDocument (T \<lparr> t_documents := map (\<lambda>d. if do_id d = document
       then d \<lparr> do_processed := True \<rparr> else d) (t_documents T) \<rparr>)"

text \<open>The whole of \<open>stage_and_promote\<close> on the rows.\<close>

definition stage_and_promote_rows ::
  "identity_env \<Rightarrow> promotion_env \<Rightarrow> PreparedAircraftRecord \<Rightarrow> promotion_state \<Rightarrow> PersistenceError + promotion_state \<times> RecordOutcome"
where
  "stage_and_promote_rows I P r s =
     and_then (stage I r (fst s)) (\<lambda>(T1, staged).
     and_then (promote_identity I r T1) (\<lambda>(T2, variant).
     and_then (promote_document I P r variant (T2, snd s)) (\<lambda>((T3, st3), document).
     and_then (promote_measurements P variant r st3) (\<lambda>st4.
     and_then (promote_engine I P r variant document T3) (\<lambda>T4.
     and_then (promote_market P variant r st4) (\<lambda>st5.
     and_then (promote_issues P variant r st5) (\<lambda>st6.
     and_then (finish_staged I staged variant
         (if filter is_warning (rec_issues r) = [] then ''PROMOTED'' else ''FLAGGED'') T4) (\<lambda>T5.
     and_then (finish_document I document T5) (\<lambda>T6.
     Inr ((T6, st6), record_outcome r))))))))))"

text \<open>The records of one import, in order.\<close>

definition promote_all_rows ::
  "identity_env \<Rightarrow> promotion_env \<Rightarrow> PreparedAircraftRecord list \<Rightarrow> promotion_state \<Rightarrow> PersistenceError + promotion_state" where
  "promote_all_rows I P =
     promote_all (\<lambda>r s. and_then (stage_and_promote_rows I P r s) (\<lambda>(s', _). Inr s'))"

end
