(* ===== verification/Identity_Facts.thy ===== *)
theory Identity_Facts
  imports Identity
begin

text \<open>
  Facts about the promotion of identity rows: what \<open>slugify\<close> yields, what a merge keeps of the schema's checks,
  how variants follow their keys, and what becomes of manufacturers and engines.
\<close>

subsection \<open>Slugs\<close>

abbreviation hyphen :: char where "hyphen \<equiv> CHR ''-''"

definition single_hyphens :: "string \<Rightarrow> bool" where
  "single_hyphens s \<longleftrightarrow> successively (\<lambda>a b. \<not> (a = hyphen \<and> b = hyphen)) s"

lemma slug_char_not_hyphen: "slug_char c \<Longrightarrow> c \<noteq> hyphen"
  by (auto simp: slug_char_def byte_class_defs)

lemma hyphenate_start: "hyphenate True s = [] \<or> hd (hyphenate True s) \<noteq> hyphen"
  by (induction s) (auto dest: slug_char_not_hyphen)

lemma hyphenate_single: "single_hyphens (hyphenate run s)"
proof (induction s arbitrary: run)
  case (Cons c s)
  then show ?case
    using hyphenate_start[of s] slug_char_not_hyphen[of c]
    by (auto simp: single_hyphens_def successively_Cons)
qed (simp add: single_hyphens_def)

lemma hyphenate_chars: "c \<in> set (hyphenate run s) \<Longrightarrow> slug_char c \<or> c = hyphen"
  by (induction run s rule: hyphenate.induct) (auto split: if_splits)

lemma hyphenate_keeps: "slug_char c \<Longrightarrow> c \<in> set (hyphenate run s) \<longleftrightarrow> c \<in> set s"
  by (induction run s rule: hyphenate.induct) (auto dest: slug_char_not_hyphen)

lemma single_hyphens_groups:
  assumes "s \<noteq> []" "hd s \<noteq> hyphen" "last s \<noteq> hyphen" "single_hyphens s"
  shows "[] \<notin> set (split_char hyphen s)"
  using assms
proof (induction s rule: length_induct)
  case (1 s)
  obtain c cs where s: "s = c # cs" "c \<noteq> hyphen"
    using "1.prems" by (cases s) auto
  show ?case
  proof (cases "cs = []")
    case True
    then show ?thesis using s by simp
  next
    case cs: False
    show ?thesis
    proof (cases "hd cs = hyphen")
      case False
      then have "[] \<notin> set (split_char hyphen cs)"
        using 1 s cs by (auto simp: single_hyphens_def successively_Cons)
      then show ?thesis
        using s by (cases "split_char hyphen cs") auto
    next
      case True
      then obtain ds where ds: "cs = hyphen # ds"
        using cs by (cases cs) auto
      then have "ds \<noteq> []" "hd ds \<noteq> hyphen" "last ds \<noteq> hyphen" "single_hyphens ds"
        using "1.prems" s by (auto simp: single_hyphens_def successively_Cons split: if_splits)
      then have "[] \<notin> set (split_char hyphen ds)"
        using 1 s ds by simp
      then show ?thesis
        using s ds by auto
    qed
  qed
qed

text \<open>Both trims keep the rest of the text.\<close>

lemma single_hyphens_trim:
  assumes "single_hyphens s"
  shows "single_hyphens (trim_bytes (\<lambda>c. c = hyphen) s)"
proof -
  have drop: "single_hyphens (dropWhile P t)" if "single_hyphens t" for P t
    using that by (induction t) (auto simp: single_hyphens_def successively_Cons split: if_splits)
  have rev: "single_hyphens (rev t)" if "single_hyphens t" for t
    using that successively_mono[of "\<lambda>a b. \<not> (a = hyphen \<and> b = hyphen)" t "\<lambda>a b. \<not> (b = hyphen \<and> a = hyphen)"]
    unfolding single_hyphens_def successively_rev by blast
  show ?thesis
    unfolding trim_bytes_def by (intro rev drop assms)
qed

lemma trim_edges:
  assumes "trim_bytes P s \<noteq> []"
  shows "\<not> P (hd (trim_bytes P s))" "\<not> P (last (trim_bytes P s))"
proof -
  let ?m = "dropWhile P s" and ?t = "dropWhile P (rev (dropWhile P s))"
  have t: "?t \<noteq> []" using assms by (simp add: trim_bytes_def)
  then show "\<not> P (last (trim_bytes P s))"
    using hd_dropWhile[of P "rev ?m"] by (simp add: trim_bytes_def last_rev)
  have "?m \<noteq> []" using t by fastforce
  moreover have "last ?t = hd ?m"
    using t by (metis dropWhile_eq_drop last_drop last_rev drop_eq_Nil leI)
  ultimately show "\<not> P (hd (trim_bytes P s))"
    using hd_dropWhile[of P s] by (simp add: trim_bytes_def hd_rev)
qed

lemma trim_chars: "c \<in> set s \<Longrightarrow> \<not> P c \<Longrightarrow> c \<in> set (trim_bytes P s)" "set (trim_bytes P s) \<subseteq> set s"
proof -
  have drop: "c \<in> set (dropWhile P t)" if "c \<in> set t" "\<not> P c" for c t
    using that by (induction t) auto
  show "c \<in> set s \<Longrightarrow> \<not> P c \<Longrightarrow> c \<in> set (trim_bytes P s)"
    using drop[of c s] drop[of c "rev (dropWhile P s)"] by (simp add: trim_bytes_def)
  show "set (trim_bytes P s) \<subseteq> set s"
    using set_dropWhileD[where P = P] unfolding trim_bytes_def set_rev by (metis set_rev subsetI)
qed

lemma slugify_valid_iff: "slug_check (slugify I s) \<longleftrightarrow> (\<exists>c \<in> set (id_lower I s). slug_char c)"
proof
  let ?h = "hyphenate False (id_lower I s)"
  let ?t = "trim_bytes (\<lambda>c. c = hyphen) ?h"
  have chars: "slug_char c \<or> c = hyphen" if "c \<in> set ?t" for c
    using that trim_chars(2) hyphenate_chars by blast
  assume "\<exists>c \<in> set (id_lower I s). slug_char c"
  then have ne: "?t \<noteq> []"
    using trim_chars(1)[of _ ?h "\<lambda>c. c = hyphen"] hyphenate_keeps slug_char_not_hyphen by (metis empty_iff list.set(1))
  have "[] \<notin> set (split_char hyphen ?t)"
    using single_hyphens_groups[OF ne trim_edges[OF ne] single_hyphens_trim[OF hyphenate_single]] .
  then show "slug_check (slugify I s)"
    using ne chars split_char_parts[of _ hyphen ?t]
    by (auto simp: slugify_def slug_check_def list_all_iff slug_char_def)
next
  assume check: "slug_check (slugify I s)"
  then obtain c where c: "c \<in> set (slugify I s)" "c \<noteq> hyphen"
    using trim_edges[of "\<lambda>c. c = hyphen"] by (auto simp: slug_check_def slugify_def intro: hd_in_set)
  then have "slug_char c" "c \<in> set (hyphenate False (id_lower I s))"
    using trim_chars(2) hyphenate_chars unfolding slugify_def by blast+
  then show "\<exists>c \<in> set (id_lower I s). slug_char c"
    using hyphenate_keeps by blast
qed

subsection \<open>Checks\<close>

lemma require_Inr [simp]: "require b e = Inr u \<longleftrightarrow> b"
  by (simp add: require_def)

lemma id_run_Inr [simp]: "id_run_statement I c v = Inr w \<longleftrightarrow> w = v \<and> id_fault I c = None"
  by (auto simp: id_run_statement_def split: option.splits)

definition variant_valid :: "variant_row \<Rightarrow> bool" where
  "variant_valid v \<longleftrightarrow> slug_check (vr_slug v) \<and> schema_year (vr_start v) \<and> schema_year (vr_end v) \<and>
     years_ordered (vr_start v) (vr_end v) \<and> at_least 1 (vr_engine_count v) \<and> at_least 0 (vr_passengers v) \<and>
     at_least 0 (vr_crew v)"

lemma variant_checks_iff: "variant_checks v = Inr u \<longleftrightarrow> variant_valid v"
  by (auto simp: variant_checks_def variant_valid_def and_then_Inr_iff)

lemma merge_valid:
  assumes "variant_valid new" "variant_valid old"
  shows "variant_valid (merge_variant new old)"
  using assms
  by (auto simp: variant_valid_def merge_variant_def coalesce_def years_ordered_def split: option.splits)

lemma merge_keeps [simp]:
  "vr_id (merge_variant new old) = vr_id old" "vr_key (merge_variant new old) = vr_key old"
  "vr_slug (merge_variant new old) = vr_slug old"
  by (simp_all add: merge_variant_def)

subsection \<open>Variants follow their keys\<close>

definition variant_of :: "identity_tables \<Rightarrow> string \<Rightarrow> int option" where
  "variant_of T k = map_option vr_id (List.find (\<lambda>v. vr_key v = Some k) (t_variants T))"

text \<open>What the schema guarantees of the variants and their manufacturers.\<close>

definition identity_ok :: "identity_tables \<Rightarrow> bool" where
  "identity_ok T \<longleftrightarrow>
     distinct (map vr_id (t_variants T)) \<and> distinct (map vr_slug (t_variants T)) \<and>
     distinct (List.map_filter vr_key (t_variants T)) \<and>
     (\<forall>v \<in> set (t_variants T). variant_valid v) \<and>
     distinct (map (\<lambda>l. (lk_variant l, lk_org l)) (t_links T)) \<and>
     distinct (map lk_variant (filter lk_primary (t_links T)))"

lemma variant_of_row:
  assumes "variant_of T k = Some i"
  obtains v where "v \<in> set (t_variants T)" "vr_key v = Some k" "vr_id v = i"
proof -
  obtain v where v: "List.find (\<lambda>v. vr_key v = Some k) (t_variants T) = Some v" "vr_id v = i"
    using assms by (auto simp: variant_of_def)
  then show ?thesis
    using find_SomeD[OF v(1)] that[of v] by simp
qed

lemma variant_of_inj:
  assumes "distinct (map vr_id (t_variants T))" "variant_of T k = Some i" "variant_of T k' = Some i"
  shows "k = k'"
proof -
  obtain v w where vw: "v \<in> set (t_variants T)" "vr_key v = Some k" "vr_id v = i"
    "w \<in> set (t_variants T)" "vr_key w = Some k'" "vr_id w = i"
    using assms(2,3) by (elim variant_of_row)
  then have "v = w"
    using assms(1) inj_onD[of vr_id "set (t_variants T)" v w] by (simp add: distinct_map)
  then show ?thesis using vw by simp
qed

lemma find_append: "List.find P (xs @ ys) = (case List.find P xs of Some x \<Rightarrow> Some x | None \<Rightarrow> List.find P ys)"
  by (induction xs) auto

lemma map_filter_keys: "k \<in> set (List.map_filter f xs) \<longleftrightarrow> (\<exists>x \<in> set xs. f x = Some k)"
  by (force simp: List.map_filter_def)

lemma map_filter_snoc: "f x = Some y \<Longrightarrow> List.map_filter f (xs @ [x]) = List.map_filter f xs @ [y]"
  by (simp add: List.map_filter_def)

lemma map_filter_map_same: "(\<And>x. f (g x) = f x) \<Longrightarrow> List.map_filter f (map g xs) = List.map_filter f xs"
  by (induction xs) (auto simp: List.map_filter_def)

text \<open>The two outcomes of the variant's upsert.\<close>

lemma upsert_variant_cases:
  assumes "upsert_variant I model r T = Inr (T', v)"
  obtains (inserted) "v = fresh_variant I model r T" "variant_valid v" "vr_slug v \<notin> vr_slug ` set (t_variants T)"
      "\<forall>w \<in> set (t_variants T). vr_key w \<noteq> Some (source_record_key r)"
      "T' = T \<lparr> t_variants := t_variants T @ [v] \<rparr>"
  | (merged) old where "List.find (\<lambda>v. vr_key v = Some (source_record_key r)) (t_variants T) = Some old"
      "v = merge_variant (fresh_variant I model r T) old" "variant_valid (fresh_variant I model r T)" "variant_valid v"
      "T' = T \<lparr> t_variants := map (\<lambda>v. if vr_key v = Some (source_record_key r)
         then merge_variant (fresh_variant I model r T) v else v) (t_variants T) \<rparr>"
  using assms
  by (auto simp: upsert_variant_def Let_def and_then_Inr_iff variant_checks_iff find_None_iff split: option.splits)

lemma upsert_variant_ok:
  assumes up: "upsert_variant I model r T = Inr (T', v)" and ok: "identity_ok T"
  shows "identity_ok T'" "t_links T' = t_links T" "variant_of T' (source_record_key r) = Some (vr_id v)"
    "variant_of T k = Some i \<Longrightarrow> variant_of T' k = Some i"
proof -
  have fresh_key: "vr_key (fresh_variant I model r T) = Some (source_record_key r)"
    by (simp add: fresh_variant_def)
  from up have "identity_ok T' \<and> t_links T' = t_links T \<and> variant_of T' (source_record_key r) = Some (vr_id v) \<and>
    (variant_of T k = Some i \<longrightarrow> variant_of T' k = Some i)"
  proof (cases rule: upsert_variant_cases)
    case inserted
    have "vr_id v \<notin> vr_id ` set (t_variants T)"
      using next_key_fresh[of _ "map vr_id (t_variants T)"] by (auto simp: inserted(1) fresh_variant_def)
    moreover have "List.find (\<lambda>v. vr_key v = Some (source_record_key r)) (t_variants T) = None"
      using inserted(4) by (auto simp: find_None_iff)
    ultimately show ?thesis
      using ok inserted fresh_key
      by (auto simp: identity_ok_def variant_of_def find_append map_filter_keys map_filter_snoc
          split: option.splits)
  next
    case (merged old)
    define m where "m = (\<lambda>v. if vr_key v = Some (source_record_key r) then merge_variant (fresh_variant I model r T) v else v)"
    have T': "T' = T \<lparr> t_variants := map m (t_variants T) \<rparr>"
      unfolding m_def by (rule merged(5))
    have keys: "vr_id (m w) = vr_id w" "vr_slug (m w) = vr_slug w" "vr_key (m w) = vr_key w" for w
      by (simp_all add: m_def)
    have find: "List.find (\<lambda>v. vr_key v = Some k) (map m (t_variants T)) =
        map_option m (List.find (\<lambda>v. vr_key v = Some k) (t_variants T))" for k
      by (rule find_map_key) (simp add: keys)
    have "variant_valid (m w)" if "w \<in> set (t_variants T)" for w
      using that ok merged(3) merge_valid by (auto simp: identity_ok_def m_def)
    then have "identity_ok T'"
      using ok by (simp add: T' identity_ok_def comp_def keys map_filter_map_same)
    moreover have "variant_of T' l = variant_of T l" for l
      by (simp add: T' variant_of_def find option.map_comp comp_def keys)
    moreover have "variant_of T (source_record_key r) = Some (vr_id v)"
      using merged(1,2) by (simp add: variant_of_def)
    ultimately show ?thesis by (simp add: T')
  qed
  then show "identity_ok T'" "t_links T' = t_links T" "variant_of T' (source_record_key r) = Some (vr_id v)"
    "variant_of T k = Some i \<Longrightarrow> variant_of T' k = Some i"
    by blast+
qed

subsection \<open>Manufacturers\<close>

definition primary_makers :: "identity_tables \<Rightarrow> int \<Rightarrow> int list" where
  "primary_makers T i = map lk_org (filter (\<lambda>l. lk_variant l = i \<and> lk_primary l) (t_links T))"

text \<open>An update of the rows with a unique key changes one row.\<close>

lemma map_unique_key:
  assumes "distinct (map f xs)" "x \<in> set xs"
  obtains as bs where "xs = as @ x # bs" "map (\<lambda>y. if f y = f x then g y else y) xs = as @ g x # bs"
proof -
  obtain as bs where split: "xs = as @ x # bs"
    using assms(2) by (meson split_list)
  have same: "map (\<lambda>y. if f y = f x then g y else y) ys = ys" if "f x \<notin> f ` set ys" for ys
    using that by (induction ys) auto
  have "f x \<notin> f ` set as" "f x \<notin> f ` set bs"
    using assms(1) by (auto simp: split)
  then show ?thesis
    using that[of as bs] split same[of as] same[of bs] by simp
qed

lemma link_primary_ok:
  assumes link: "link_primary_manufacturer I variant org T = Inr T'" and ok: "identity_ok T"
  shows "identity_ok T'" "t_variants T' = t_variants T"
    "primary_makers T' j = (if j = variant \<and> primary_makers T j = [] then [org] else primary_makers T j)"
proof -
  let ?same = "\<lambda>l. lk_variant l = variant \<and> lk_org l = org"
  let ?new = "\<lparr> lk_variant = variant, lk_org = org, lk_role = ''MANUFACTURER'', lk_primary = True \<rparr>"
  have none_iff: "primary_makers T variant = [] \<longleftrightarrow> \<not> list_ex (\<lambda>l. lk_variant l = variant \<and> lk_primary l) (t_links T)"
    by (auto simp: primary_makers_def filter_empty_conv list_ex_iff)
  have "identity_ok T' \<and> t_variants T' = t_variants T \<and>
    primary_makers T' j = (if j = variant \<and> primary_makers T j = [] then [org] else primary_makers T j)"
  proof (cases "primary_makers T variant = []")
    case False
    then show ?thesis
      using link ok none_iff by (auto simp: link_primary_manufacturer_def)
  next
    case none: True
    then have T': "T' = T \<lparr> t_links := fst (upsert ?same (\<lambda>l. l \<lparr> lk_primary := True \<rparr>) ?new (t_links T)) \<rparr>"
      using link none_iff by (simp add: link_primary_manufacturer_def)
    have absent: "\<not> (lk_variant l = variant \<and> lk_primary l)" if "l \<in> set (t_links T)" for l
      using that none none_iff by (auto simp: list_ex_iff)
    show ?thesis
    proof (cases "List.find ?same (t_links T)")
      case None
      then have "T' = T \<lparr> t_links := t_links T @ [?new] \<rparr>" and "\<not> (\<exists>l \<in> set (t_links T). ?same l)"
        using None[unfolded find_None_iff] by (simp_all add: T' upsert_def None)
      then show ?thesis
        using ok none absent by (auto simp: identity_ok_def primary_makers_def)
    next
      case (Some l)
      then have l: "l \<in> set (t_links T)" "?same l"
        using find_SomeD by fast+
      obtain as bs where split: "t_links T = as @ l # bs"
        "map (\<lambda>q. if (lk_variant q, lk_org q) = (lk_variant l, lk_org l) then q \<lparr> lk_primary := True \<rparr> else q) (t_links T)
           = as @ l \<lparr> lk_primary := True \<rparr> # bs"
        using map_unique_key[of "\<lambda>l. (lk_variant l, lk_org l)" "t_links T" l] ok l(1)
        unfolding identity_ok_def by blast
      have "T' = T \<lparr> t_links := map (\<lambda>q. if ?same q then q \<lparr> lk_primary := True \<rparr> else q) (t_links T) \<rparr>"
        by (simp add: T' upsert_def Some)
      then have "T' = T \<lparr> t_links := as @ l \<lparr> lk_primary := True \<rparr> # bs \<rparr>"
        using l(2) split(2) by simp
      moreover have "filter (\<lambda>q. lk_variant q = variant \<and> lk_primary q) as = []"
        "filter (\<lambda>q. lk_variant q = variant \<and> lk_primary q) bs = []" "\<not> lk_primary l"
        using absent l by (auto simp: filter_empty_conv split(1))
      moreover have "variant \<notin> lk_variant ` set (filter lk_primary (as @ bs))"
        using absent by (auto simp: split(1))
      ultimately show ?thesis
        using ok l(2) none by (auto simp: identity_ok_def primary_makers_def split(1))
    qed
  qed
  then show "identity_ok T'" "t_variants T' = t_variants T"
    "primary_makers T' j = (if j = variant \<and> primary_makers T j = [] then [org] else primary_makers T j)"
    by blast+
qed

subsection \<open>What the other steps leave\<close>

text \<open>The part of the tables that the promotion of variants and manufacturers is about.\<close>

definition variants_and_links :: "identity_tables \<Rightarrow> variant_row list \<times> link_row list" where
  "variants_and_links T = (t_variants T, t_links T)"

lemma variants_and_links_frame:
  "promote_organization I name T = Inr (T', org) \<Longrightarrow> variants_and_links T' = variants_and_links T"
  "promote_family I manufacturer o' T = Inr (T', family) \<Longrightarrow> variants_and_links T' = variants_and_links T"
  "promote_model I manufacturer aircraft f T = Inr (T', model) \<Longrightarrow> variants_and_links T' = variants_and_links T"
  "flag_slug_collision I variant slug T = Inr T' \<Longrightarrow> variants_and_links T' = variants_and_links T"
  "upsert_source I T = Inr (T', source) \<Longrightarrow> variants_and_links T' = variants_and_links T"
  "insert_document I r variant source T = Inr (T', document) \<Longrightarrow> variants_and_links T' = variants_and_links T"
  "link_powerplant I variant engine count document T = Inr T' \<Longrightarrow> variants_and_links T' = variants_and_links T"
  "stage I r T = Inr (T', staged) \<Longrightarrow> variants_and_links T' = variants_and_links T"
  "finish_staged I staged variant status T = Inr T' \<Longrightarrow> variants_and_links T' = variants_and_links T"
  "finish_document I document T = Inr T' \<Longrightarrow> variants_and_links T' = variants_and_links T"
  unfolding variants_and_links_def promote_organization_def promote_family_def promote_model_def
    flag_slug_collision_def upsert_source_def insert_document_def link_powerplant_def stage_def
    finish_staged_def finish_document_def Let_def
  by (auto simp: and_then_Inr_iff split: prod.splits if_splits)

lemma promote_engine_frame:
  "promote_engine I P r variant document T = Inr T' \<Longrightarrow> variants_and_links T' = variants_and_links T"
  unfolding promote_engine_def Let_def
  by (auto simp: and_then_Inr_iff variants_and_links_def split: prod.splits option.splits
      dest!: variants_and_links_frame(7))

lemma promote_document_frame:
  "promote_document I P r variant s = Inr ((T', st), document) \<Longrightarrow> variants_and_links T' = variants_and_links (fst s)"
  unfolding promote_document_def
  by (auto simp: and_then_Inr_iff dest!: variants_and_links_frame)

subsection \<open>One record, many records\<close>

lemma frame_ok:
  assumes "variants_and_links T' = variants_and_links T"
  shows "identity_ok T' = identity_ok T" "variant_of T' k = variant_of T k" "primary_makers T' i = primary_makers T i"
  using assms by (simp_all add: variants_and_links_def identity_ok_def variant_of_def primary_makers_def)

text \<open>What a promotion gives for the record's key, and what it keeps for every other.\<close>

definition identity_step :: "identity_tables \<Rightarrow> PreparedAircraftRecord \<Rightarrow> int \<Rightarrow> identity_tables \<Rightarrow> bool" where
  "identity_step T r i T' \<longleftrightarrow>
     variant_of T' (source_record_key r) = Some i \<and>
     (\<forall>k j. variant_of T k = Some j \<longrightarrow> variant_of T' k = Some j) \<and>
     (\<exists>org. primary_makers T' i = (if primary_makers T i = [] then [org] else primary_makers T i)) \<and>
     (\<forall>j. j \<noteq> i \<longrightarrow> primary_makers T' j = primary_makers T j)"

lemma promote_variant_step:
  assumes run: "promote_variant I model org r T = Inr (T', i)" and ok: "identity_ok T"
  shows "identity_ok T'" "identity_step T r i T'"
proof -
  have "\<exists>T1 v T2. upsert_variant I model r T = Inr (T1, v) \<and> link_primary_manufacturer I (vr_id v) org T1 = Inr T2 \<and>
      i = vr_id v \<and> variants_and_links T' = variants_and_links T2"
    using run by (auto simp: promote_variant_def and_then_Inr_iff split: if_splits dest!: variants_and_links_frame(4))
  then obtain T1 v T2 where steps: "upsert_variant I model r T = Inr (T1, v)"
      "link_primary_manufacturer I (vr_id v) org T1 = Inr T2" "i = vr_id v"
      and last: "variants_and_links T' = variants_and_links T2"
    by blast
  note up = upsert_variant_ok[OF steps(1) ok]
  note link = link_primary_ok[OF steps(2) up(1)]
  show "identity_ok T'"
    using link(1) frame_ok(1)[OF last] by simp
  have makers: "primary_makers T1 j = primary_makers T j" for j
    using up(2) by (simp add: primary_makers_def)
  have variants: "variant_of T' k = variant_of T1 k" for k
    using frame_ok(2)[OF last] link(2) by (simp add: variant_of_def)
  show "identity_step T r i T'"
    using up(3,4) link(3) frame_ok(3)[OF last] makers variants steps(3) by (auto simp: identity_step_def)
qed

lemma identity_step_frame:
  assumes "variants_and_links A' = variants_and_links A" "variants_and_links B' = variants_and_links B"
  shows "identity_step A' r i B' = identity_step A r i B"
  using frame_ok[OF assms(1)] frame_ok[OF assms(2)] by (simp add: identity_step_def)

lemma promote_identity_step:
  assumes run: "promote_identity I r T = Inr (T', i)" and ok: "identity_ok T"
  shows "identity_ok T' \<and> identity_step T r i T'"
proof -
  have "\<exists>org T1 model. promote_variant I model org r T1 = Inr (T', i) \<and> variants_and_links T1 = variants_and_links T"
    using run unfolding promote_identity_def Let_def
    by (auto simp: and_then_Inr_iff dest!: variants_and_links_frame(1,2,3)) blast
  then obtain org T1 model where identity: "promote_variant I model org r T1 = Inr (T', i)"
      "variants_and_links T1 = variants_and_links T"
    by blast
  then have "identity_ok T1"
    using ok frame_ok(1)[OF identity(2)] by simp
  then show ?thesis
    using promote_variant_step[OF identity(1)] identity_step_frame[OF identity(2) refl] by simp
qed

text \<open>The parts of a successful promotion that the identity tables depend on.\<close>

lemma stage_and_promote_parts:
  assumes "stage_and_promote_rows I P r s = Inr (s', out)"
  obtains T1 staged T2 i T3 st3 document T4 status T5 where "stage I r (fst s) = Inr (T1, staged)"
      "promote_identity I r T1 = Inr (T2, i)"
      "promote_document I P r i (T2, snd s) = Inr ((T3, st3), document)"
      "promote_engine I P r i document T3 = Inr T4"
      "finish_staged I staged i status T4 = Inr T5" "finish_document I document T5 = Inr (fst s')"
proof -
  have "\<exists>T1 staged T2 i T3 st3 document T4 status T5. stage I r (fst s) = Inr (T1, staged) \<and>
      promote_identity I r T1 = Inr (T2, i) \<and> promote_document I P r i (T2, snd s) = Inr ((T3, st3), document) \<and>
      promote_engine I P r i document T3 = Inr T4 \<and> finish_staged I staged i status T4 = Inr T5 \<and>
      finish_document I document T5 = Inr (fst s')"
    using assms unfolding stage_and_promote_rows_def by (auto simp: and_then_Inr_iff) metis
  then show ?thesis using that by blast
qed

lemma stage_and_promote_step:
  assumes run: "stage_and_promote_rows I P r s = Inr (s', out)" and ok: "identity_ok (fst s)"
  shows "\<exists>i. identity_ok (fst s') \<and> identity_step (fst s) r i (fst s')"
proof -
  obtain T1 staged T2 i T3 st3 document T4 status T5 where steps:
      "stage I r (fst s) = Inr (T1, staged)" "promote_identity I r T1 = Inr (T2, i)"
      "promote_document I P r i (T2, snd s) = Inr ((T3, st3), document)"
      "promote_engine I P r i document T3 = Inr T4"
      "finish_staged I staged i status T4 = Inr T5" "finish_document I document T5 = Inr (fst s')"
    using run by (rule stage_and_promote_parts)
  note before = variants_and_links_frame(8)[OF steps(1)]
  have after: "variants_and_links (fst s') = variants_and_links T2"
    using variants_and_links_frame(9)[OF steps(5)] variants_and_links_frame(10)[OF steps(6)]
      promote_engine_frame[OF steps(4)] promote_document_frame[OF steps(3)] by simp
  have "identity_ok T2 \<and> identity_step T1 r i T2"
    using promote_identity_step[OF steps(2)] ok frame_ok(1)[OF before] by simp
  then show ?thesis
    using identity_step_frame[OF before[symmetric] after] frame_ok(1)[OF after] by blast
qed

lemma primary_makers_le1:
  assumes "identity_ok T"
  shows "length (primary_makers T i) \<le> 1"
proof -
  have one: "length (filter (\<lambda>l. lk_variant l = i \<and> lk_primary l) ls) \<le> 1"
    if "distinct (map lk_variant (filter lk_primary ls))" for ls
    using that
  proof (induction ls)
    case (Cons l ls)
    have "filter (\<lambda>q. lk_variant q = i \<and> lk_primary q) ls = []" if "lk_primary l" "lk_variant l = i"
      using that Cons.prems by (auto simp: filter_empty_conv image_iff)
    then show ?case using Cons by (auto split: if_splits)
  qed simp
  then show ?thesis
    using one[of "t_links T"] assms by (simp add: primary_makers_def identity_ok_def)
qed

lemma identity_step_makers:
  assumes "identity_step T r i T'" "identity_ok T'"
  shows "length (primary_makers T' i) = 1" "primary_makers T j \<noteq> [] \<Longrightarrow> primary_makers T' j = primary_makers T j"
proof -
  obtain org where org: "primary_makers T' i = (if primary_makers T i = [] then [org] else primary_makers T i)"
    using assms(1) unfolding identity_step_def by blast
  then have "primary_makers T' i \<noteq> []" by auto
  then show "length (primary_makers T' i) = 1"
    using primary_makers_le1[OF assms(2), of i] by (cases "primary_makers T' i") auto
  show "primary_makers T j \<noteq> [] \<Longrightarrow> primary_makers T' j = primary_makers T j"
    using org assms(1) unfolding identity_step_def by (cases "j = i") simp_all
qed

lemma promote_all_rows_Cons:
  assumes "promote_all_rows I P (r # rs) s = Inr s'" "identity_ok (fst s)"
  obtains i s1 where "identity_ok (fst s1)" "identity_step (fst s) r i (fst s1)" "promote_all_rows I P rs s1 = Inr s'"
proof -
  have "\<exists>s1 out. stage_and_promote_rows I P r s = Inr (s1, out) \<and> promote_all_rows I P rs s1 = Inr s'"
    using assms(1) by (auto simp: promote_all_rows_def and_then_Inr_iff)
  then show ?thesis
    using stage_and_promote_step[OF _ assms(2)] that by blast
qed

lemma promote_all_rows_keeps:
  assumes "promote_all_rows I P rs s = Inr s'" "identity_ok (fst s)"
  shows "identity_ok (fst s') \<and> (\<forall>k i. variant_of (fst s) k = Some i \<longrightarrow> variant_of (fst s') k = Some i) \<and>
    (\<forall>i. primary_makers (fst s) i \<noteq> [] \<longrightarrow> primary_makers (fst s') i = primary_makers (fst s) i)"
  using assms
proof (induction rs arbitrary: s)
  case Nil
  then show ?case by (simp add: promote_all_rows_def)
next
  case (Cons r rs)
  obtain i s1 where first: "identity_ok (fst s1)" "identity_step (fst s) r i (fst s1)"
      and rest: "promote_all_rows I P rs s1 = Inr s'"
    using Cons.prems by (rule promote_all_rows_Cons)
  then show ?case
    using Cons.IH[OF rest first(1)] identity_step_makers(2)[OF first(2,1)]
    unfolding identity_step_def by metis
qed

lemma promote_all_rows_ok: "promote_all_rows I P rs s = Inr s' \<Longrightarrow> identity_ok (fst s) \<Longrightarrow> identity_ok (fst s')"
  by (rule promote_all_rows_keeps[THEN conjunct1])

lemma promote_all_rows_variant:
  "promote_all_rows I P rs s = Inr s' \<Longrightarrow> identity_ok (fst s) \<Longrightarrow> variant_of (fst s) k = Some i \<Longrightarrow>
    variant_of (fst s') k = Some i"
  by (rule promote_all_rows_keeps[THEN conjunct2, THEN conjunct1, rule_format])

lemma promote_all_rows_makers:
  "promote_all_rows I P rs s = Inr s' \<Longrightarrow> identity_ok (fst s) \<Longrightarrow> primary_makers (fst s) i \<noteq> [] \<Longrightarrow>
    primary_makers (fst s') i = primary_makers (fst s) i"
  by (rule promote_all_rows_keeps[THEN conjunct2, THEN conjunct2, rule_format])

lemma promote_all_rows_records:
  assumes "promote_all_rows I P rs s = Inr s'" "identity_ok (fst s)" "r \<in> set rs"
  shows "\<exists>i. variant_of (fst s') (source_record_key r) = Some i \<and> length (primary_makers (fst s') i) = 1"
  using assms
proof (induction rs arbitrary: s)
  case (Cons q rs)
  obtain i s1 where first: "identity_ok (fst s1)" "identity_step (fst s) q i (fst s1)"
      and rest: "promote_all_rows I P rs s1 = Inr s'"
    using Cons.prems(1,2) by (rule promote_all_rows_Cons)
  show ?case
  proof (cases "r = q")
    case True
    have "variant_of (fst s1) (source_record_key r) = Some i" "length (primary_makers (fst s1) i) = 1"
      using first(2) identity_step_makers(1)[OF first(2,1)] True by (simp_all add: identity_step_def)
    moreover from this(2) have "primary_makers (fst s1) i \<noteq> []" by auto
    ultimately show ?thesis
      using promote_all_rows_variant[OF rest first(1)] promote_all_rows_makers[OF rest first(1)] by simp
  next
    case False
    then show ?thesis
      using Cons.IH[OF rest first(1)] Cons.prems(3) by simp
  qed
qed simp

subsection \<open>Engines\<close>

definition plants_and_engines :: "identity_tables \<Rightarrow> powerplant_row list \<times> engine_row list" where
  "plants_and_engines T = (t_plants T, t_engines T)"

lemma plants_and_engines_frame:
  "promote_organization I name T = Inr (T', org) \<Longrightarrow> plants_and_engines T' = plants_and_engines T"
  "promote_family I manufacturer o' T = Inr (T', family) \<Longrightarrow> plants_and_engines T' = plants_and_engines T"
  "promote_model I manufacturer aircraft f T = Inr (T', model) \<Longrightarrow> plants_and_engines T' = plants_and_engines T"
  "upsert_variant I mid r T = Inr (T', v) \<Longrightarrow> plants_and_engines T' = plants_and_engines T"
  "link_primary_manufacturer I variant org T = Inr T' \<Longrightarrow> plants_and_engines T' = plants_and_engines T"
  "flag_slug_collision I variant slug T = Inr T' \<Longrightarrow> plants_and_engines T' = plants_and_engines T"
  "upsert_source I T = Inr (T', source) \<Longrightarrow> plants_and_engines T' = plants_and_engines T"
  "insert_document I r variant source T = Inr (T', document) \<Longrightarrow> plants_and_engines T' = plants_and_engines T"
  "stage I r T = Inr (T', staged) \<Longrightarrow> plants_and_engines T' = plants_and_engines T"
  unfolding plants_and_engines_def promote_organization_def promote_family_def promote_model_def upsert_variant_def
    link_primary_manufacturer_def flag_slug_collision_def upsert_source_def insert_document_def stage_def Let_def
  by (auto simp: and_then_Inr_iff split: prod.splits if_splits option.splits)

lemma promote_identity_plants:
  "promote_identity I r T = Inr (T', i) \<Longrightarrow> plants_and_engines T' = plants_and_engines T"
  unfolding promote_identity_def promote_variant_def Let_def
  by (auto simp: and_then_Inr_iff split: if_splits dest!: plants_and_engines_frame)

lemma promote_document_plants:
  "promote_document I P r variant s = Inr ((T', st), document) \<Longrightarrow> plants_and_engines T' = plants_and_engines (fst s)"
  unfolding promote_document_def
  by (auto simp: and_then_Inr_iff dest!: plants_and_engines_frame)

text \<open>A variant that has an engine takes no other.\<close>

lemma second_engine_refused:
  assumes model: "pr_model (rec_propulsion r) = Some model"
    and plant: "p \<in> set (t_plants T)" "pp_variant p = variant" "pp_primary p"
    and other: "\<And>q e. q \<in> set (t_plants T) \<Longrightarrow> pp_variant q = variant \<Longrightarrow> e \<in> set (t_engines T) \<Longrightarrow> eg_id e = pp_engine q \<Longrightarrow>
        eg_slug e \<noteq> eg_slug (engine_row_of I P (rec_propulsion r) model T)"
    and known: "\<And>q. q \<in> set (t_plants T) \<Longrightarrow> pp_engine q \<in> eg_id ` set (t_engines T)"
    and ids: "distinct (map eg_id (t_engines T))"
  shows "promote_engine I P r variant document T \<noteq> Inr T'"
proof
  let ?new = "engine_row_of I P (rec_propulsion r) model T"
  assume "promote_engine I P r variant document T = Inr T'"
  then obtain rows e where up: "upsert (\<lambda>e. eg_slug e = eg_slug ?new) (merge_engine ?new) ?new (t_engines T) = (rows, e)"
      and link: "link_powerplant I variant (eg_id e) (pr_engine_count (rec_propulsion r)) document (T \<lparr> t_engines := rows \<rparr>) = Inr T'"
    using model by (auto simp: promote_engine_def Let_def and_then_Inr_iff split: prod.splits)
  have "list_ex (\<lambda>p. pp_variant p = variant \<and> pp_primary p) (t_plants T)"
    using plant by (auto simp: list_ex_iff)
  then obtain q where q: "q \<in> set (t_plants T)" "pp_variant q = variant" "pp_engine q = eg_id e"
    using link by (auto simp: link_powerplant_def Let_def and_then_Inr_iff list_ex_iff)
  show False
  proof (cases "List.find (\<lambda>e. eg_slug e = eg_slug ?new) (t_engines T)")
    case None
    then have "eg_id e = next_key (map eg_id (t_engines T))"
      using up by (auto simp: upsert_def engine_row_of_def Let_def)
    then show False
      using known[OF q(1)] q(3) next_key_fresh[of _ "map eg_id (t_engines T)"] by auto
  next
    case (Some old)
    then have "eg_id e = eg_id old" "old \<in> set (t_engines T)" "eg_slug old = eg_slug ?new"
      using up find_SomeD[OF Some] by (auto simp: upsert_def merge_engine_def)
    then show False
      using other[OF q(1,2), of old] q(3) by simp
  qed
qed

end
