(* ===== verification/Identity_Guarantees.thy ===== *)
theory Identity_Guarantees
  imports Identity_Facts Curation_Imports
begin

text \<open>
  What an import promises of the rows it promotes records to: variants follow their keys, keep one primary
  manufacturer and the schema's checks; and where the statements refuse records the preflight accepts.
\<close>

subsection \<open>A sample\<close>

definition sample_identity :: identity_env where
  "sample_identity = \<lparr> id_fault = (\<lambda>_. None), id_lower = (\<lambda>s. s), id_upper = (\<lambda>s. s),
     id_initcap = (\<lambda>s. s), id_md5 = (\<lambda>_. ''0123456789''), id_pick = hd,
     id_source = \<lparr> src_slug = ''planephd'', src_name = ''PlanePHD'', src_base_url = None, src_parser_name = ''planephd'', src_parser_version = ''1'' \<rparr>, id_run = 1, id_label = ''planephd'' \<rparr>"

definition no_rows :: identity_tables where
  "no_rows = \<lparr> t_orgs = [], t_families = [], t_models = [], t_variants = [], t_links = [], t_collisions = [],
     t_sources = [], t_documents = [], t_engines = [], t_plants = [], t_staged = [] \<rparr>"

definition bare_record :: PreparedAircraftRecord where
  "bare_record = sample_record \<lparr> rec_identity := \<lparr> manufacturer_name = ''a'', aircraft_name = ''b'', id_source_link = None,
       id_page_url = None, id_title = None, id_description = None \<rparr>,
      rec_performance := \<lparr> performance_measurements = [] \<rparr>,
     rec_operating_costs := \<lparr> cost_line_items = [] \<rparr> \<rparr>"

lemmas identity_evals = Let_def stage_and_promote_rows_def stage_def promote_identity_def promote_organization_def
  promote_family_def promote_model_def promote_variant_def upsert_variant_def fresh_variant_def candidate_slug_def
  base_slug_def slugify_def slug_char_def variant_checks_def link_primary_manufacturer_def promote_document_def
  upsert_source_def insert_document_def assert_value_def promote_engine_def finish_staged_def finish_document_def
  upsert_def id_run_statement_def require_def coalesce_def at_least_def schema_year_def years_ordered_def
  names_organization_def sample_identity_def no_rows_def bare_record_def slug_check_def byte_class_defs trim_bytes_def

lemmas sample_evals = promote_all_rows_def identity_evals promote_evals served_costs_def LifecycleInput_default_def
  PropulsionInput_default_def

lemma no_rows_ok: "identity_ok no_rows"
  by (simp add: identity_ok_def no_rows_def List.map_filter_def)

definition next_run :: identity_env where
  "next_run = sample_identity \<lparr> id_run := 2 \<rparr>"

lemma sample_reimported:
  obtains s' s'' where "promote_all_rows sample_identity sample_promotion [bare_record] (no_rows, served_costs) = Inr s'"
    "promote_all_rows next_run sample_promotion [bare_record] s' = Inr s''"
proof -
  have "\<not> isl (and_then (promote_all_rows sample_identity sample_promotion [bare_record] (no_rows, served_costs))
      (promote_all_rows next_run sample_promotion [bare_record]))"
    by (simp add: next_run_def merge_variant_def sample_evals)
  then show ?thesis
    using that
    by (cases "and_then (promote_all_rows sample_identity sample_promotion [bare_record] (no_rows, served_costs))
      (promote_all_rows next_run sample_promotion [bare_record])") (auto simp: and_then_Inr_iff)
qed

subsection \<open>Identity\<close>

text \<open>
  C11: after any sequence of imported records, two of them are about the same variant exactly when their source
  record keys are equal, whatever their names, slugs or collisions.
\<close>

theorem same_variant_iff_same_key:
  assumes "identity_ok (fst s)" "promote_all_rows I P rs s = Inr s'" "r \<in> set rs" "q \<in> set rs"
  shows "(\<exists>i. variant_of (fst s') (source_record_key r) = Some i \<and> variant_of (fst s') (source_record_key q) = Some i) \<longleftrightarrow>
    source_record_key r = source_record_key q"
proof -
  have "distinct (map vr_id (t_variants (fst s')))"
    using promote_all_rows_ok[OF assms(2,1)] by (simp add: identity_ok_def)
  moreover obtain i where "variant_of (fst s') (source_record_key r) = Some i"
    using promote_all_rows_records[OF assms(2,1,3)] by blast
  ultimately show ?thesis
    using variant_of_inj by metis
qed

theorem same_variant_iff_same_key_witness:
  "\<exists>s'. promote_all_rows sample_identity sample_promotion [bare_record] (no_rows, served_costs) = Inr s' \<and>
     (\<exists>i. variant_of (fst s') (source_record_key bare_record) = Some i)"
proof -
  obtain s' where s': "promote_all_rows sample_identity sample_promotion [bare_record] (no_rows, served_costs) = Inr s'"
    by (rule sample_reimported)
  have "(\<exists>i. variant_of (fst s') (source_record_key bare_record) = Some i \<and>
      variant_of (fst s') (source_record_key bare_record) = Some i) \<longleftrightarrow> source_record_key bare_record = source_record_key bare_record"
    by (rule same_variant_iff_same_key[OF _ s']) (simp_all add: no_rows_ok)
  then show ?thesis using s' by simp
qed

text \<open>
  a variant keeps its id through every later import, so what refers to it stays about the same record.
\<close>

theorem reimport_keeps_variant:
  assumes "identity_ok (fst s)" "promote_all_rows I P rs s = Inr s'" "r \<in> set rs" "promote_all_rows I' P' rs' s' = Inr s''"
  shows "variant_of (fst s'') (source_record_key r) = variant_of (fst s') (source_record_key r)"
proof -
  obtain i where i: "variant_of (fst s') (source_record_key r) = Some i"
    using promote_all_rows_records[OF assms(2,1,3)] by blast
  have "variant_of (fst s'') (source_record_key r) = Some i"
    using promote_all_rows_variant[OF assms(4) promote_all_rows_ok[OF assms(2,1)] i] .
  then show ?thesis using i by simp
qed

theorem reimport_keeps_variant_witness:
  "\<exists>s' s''. promote_all_rows sample_identity sample_promotion [bare_record] (no_rows, served_costs) = Inr s' \<and>
     promote_all_rows next_run sample_promotion [bare_record] s' = Inr s'' \<and>
     variant_of (fst s'') (source_record_key bare_record) = variant_of (fst s') (source_record_key bare_record)"
proof -
  obtain s' s'' where runs: "promote_all_rows sample_identity sample_promotion [bare_record] (no_rows, served_costs) = Inr s'"
      "promote_all_rows next_run sample_promotion [bare_record] s' = Inr s''"
    by (rule sample_reimported)
  have "variant_of (fst s'') (source_record_key bare_record) = variant_of (fst s') (source_record_key bare_record)"
    by (rule reimport_keeps_variant[OF _ runs(1) _ runs(2)]) (simp_all add: no_rows_ok)
  then show ?thesis using runs by blast
qed

text \<open>
  C12: every record of a committed import has a variant with exactly one primary manufacturer, and a variant that
  had one before the import still has the same.
\<close>

theorem one_primary_manufacturer:
  assumes "identity_ok (fst s)" "promote_all_rows I P rs s = Inr s'" "r \<in> set rs"
    "variant_of (fst s') (source_record_key r) = Some i"
  shows "\<exists>org. primary_makers (fst s') i = [org] \<and> primary_makers (fst s) i \<in> {[], [org]}"
proof -
  have "length (primary_makers (fst s') i) = 1"
    using promote_all_rows_records[OF assms(2,1,3)] assms(4) by auto
  then obtain org where "primary_makers (fst s') i = [org]"
    by (cases "primary_makers (fst s') i") auto
  then show ?thesis
    using promote_all_rows_makers[OF assms(2,1), of i] by (cases "primary_makers (fst s) i = []") auto
qed

theorem one_primary_manufacturer_witness:
  "\<exists>s' i org. promote_all_rows sample_identity sample_promotion [bare_record] (no_rows, served_costs) = Inr s' \<and>
     variant_of (fst s') (source_record_key bare_record) = Some i \<and> primary_makers (fst s') i = [org]"
proof -
  obtain s' where s': "promote_all_rows sample_identity sample_promotion [bare_record] (no_rows, served_costs) = Inr s'"
    by (rule sample_reimported)
  obtain i where i: "variant_of (fst s') (source_record_key bare_record) = Some i"
    using promote_all_rows_records[OF s', of bare_record] no_rows_ok by auto
  have "\<exists>org. primary_makers (fst s') i = [org] \<and> primary_makers (fst (no_rows, served_costs)) i \<in> {[], [org]}"
    by (rule one_primary_manufacturer[OF _ s' _ i]) (simp_all add: no_rows_ok)
  then show ?thesis using s' i by blast
qed

subsection \<open>Merging\<close>

text \<open>
  a record that could be inserted can be merged into the variant its key names: the merged row satisfies every
  check of the table, its production years ordered though the row may take each from a different artifact.
\<close>

theorem merge_never_refused:
  assumes "identity_ok T" "variant_checks (fresh_variant I model r T) = Inr ()"
    "variant_of T (source_record_key r) = Some i" "id_fault I InsertVariant = None"
  shows "\<exists>T' v. upsert_variant I model r T = Inr (T', v) \<and> vr_id v = i"
proof -
  obtain old where old: "List.find (\<lambda>v. vr_key v = Some (source_record_key r)) (t_variants T) = Some old" "vr_id old = i"
    using assms(3) by (auto simp: variant_of_def)
  have "variant_valid old"
    using assms(1) find_SomeD[OF old(1)] by (simp add: identity_ok_def)
  moreover have "variant_valid (fresh_variant I model r T)"
    using assms(2) variant_checks_iff by blast
  ultimately have "variant_checks (merge_variant (fresh_variant I model r T) old) = Inr ()"
    using merge_valid variant_checks_iff by blast
  then show ?thesis
    using old assms(2,4) by (simp add: upsert_variant_def Let_def id_run_statement_def)
qed

definition one_variant :: identity_tables where
  "one_variant = no_rows \<lparr> t_variants := [(fresh_variant sample_identity 1 bare_record no_rows) \<lparr> vr_start := Some 1946, vr_end := Some 1950 \<rparr>] \<rparr>"

theorem merge_never_refused_witness:
  "\<exists>T' v. upsert_variant sample_identity 1 (bare_record \<lparr> rec_lifecycle := LifecycleInput_default \<lparr> production_start_year := Some 1980 \<rparr> \<rparr>)
      one_variant = Inr (T', v) \<and> vr_id v = 1"
  by (rule merge_never_refused)
    (simp_all add: one_variant_def sample_evals identity_ok_def variant_valid_def variant_of_def List.map_filter_def next_key_def)

subsection \<open>Accepted records that cannot be promoted\<close>

text \<open>
  a later artifact that names another engine for a variant cannot be promoted: the powerplant row is inserted
  as primary, and the unique index refuses a second one. The manufacturer's link has a guard against this; the
  powerplant's has none, so the whole import is refused.
\<close>

theorem engine_change_aborts_import:
  assumes "identity_ok (fst s)" "variant_of (fst s) (source_record_key r) = Some i"
    "p \<in> set (t_plants (fst s))" "pp_variant p = i" "pp_primary p"
    "\<And>q. q \<in> set (t_plants (fst s)) \<Longrightarrow> pp_engine q \<in> eg_id ` set (t_engines (fst s))"
    "distinct (map eg_id (t_engines (fst s)))"
    "pr_model (rec_propulsion r) = Some model"
    "\<And>q e. q \<in> set (t_plants (fst s)) \<Longrightarrow> pp_variant q = i \<Longrightarrow> e \<in> set (t_engines (fst s)) \<Longrightarrow> eg_id e = pp_engine q \<Longrightarrow>
       eg_slug e \<noteq> eg_slug (engine_row_of I P (rec_propulsion r) model (fst s))"
  shows "stage_and_promote_rows I P r s \<noteq> Inr (s', out)"
proof
  assume run: "stage_and_promote_rows I P r s = Inr (s', out)"
  obtain T1 staged T2 j T3 st3 document T4 status T5 where steps: "stage I r (fst s) = Inr (T1, staged)"
      "promote_identity I r T1 = Inr (T2, j)" "promote_document I P r j (T2, snd s) = Inr ((T3, st3), document)"
      "promote_engine I P r j document T3 = Inr T4"
    using run by (rule stage_and_promote_parts)
  have "plants_and_engines T3 = plants_and_engines (fst s)"
    using plants_and_engines_frame(9)[OF steps(1)] promote_identity_plants[OF steps(2)]
      promote_document_plants[OF steps(3)] by simp
  then have plants: "t_plants T3 = t_plants (fst s)" "t_engines T3 = t_engines (fst s)"
    by (simp_all add: plants_and_engines_def)
  have "j = i"
    using promote_identity_step[OF steps(2)] frame_ok[OF variants_and_links_frame(8)[OF steps(1)]] assms(1,2)
    by (auto simp: identity_step_def)
  have "promote_engine I P r i document T3 \<noteq> Inr T4"
    by (rule second_engine_refused[of r model p]) (use assms plants in \<open>auto simp: engine_row_of_def Let_def\<close>)
  then show False using steps(4) \<open>j = i\<close> by simp
qed

definition one_engine :: identity_tables where
  "one_engine = one_variant \<lparr>
     t_engines := [\<lparr> eg_id = 1, eg_slug = ''x-o'', eg_maker = ''x'', eg_model = ''o'', eg_hp = None, eg_thrust = None,
       eg_thrust_lbf = None, eg_tbo_hours = None, eg_tbo_years = None \<rparr>],
     t_plants := [\<lparr> pp_variant = 1, pp_engine = 1, pp_count = Some 1, pp_standard = True, pp_primary = True, pp_document = 1 \<rparr>] \<rparr>"

definition other_engine_record :: PreparedAircraftRecord where
  "other_engine_record = bare_record \<lparr> rec_propulsion := PropulsionInput_default \<lparr> pr_manufacturer := Some ''x'', pr_model := Some ''p'' \<rparr> \<rparr>"

theorem engine_change_aborts_import_witness:
  "\<forall>s' out. stage_and_promote_rows sample_identity sample_promotion other_engine_record (one_engine, served_costs) \<noteq> Inr (s', out)"
proof (intro allI)
  fix s' out
  show "stage_and_promote_rows sample_identity sample_promotion other_engine_record (one_engine, served_costs) \<noteq> Inr (s', out)"
    by (rule engine_change_aborts_import[where i = 1 and p = "hd (t_plants one_engine)" and model = "''p''"])
      (simp_all add: one_engine_def other_engine_record_def one_variant_def sample_evals identity_ok_def
        variant_valid_def variant_of_def List.map_filter_def engine_row_of_def)
qed

text \<open>
  the domain accepts production years from 1800, the schema from 1900: a record with an earlier year passes
  the preflight and cannot be promoted.
\<close>

theorem early_year_aborts_import:
  assumes "production_start_year (rec_lifecycle r) = Some y" "1800 \<le> y" "y < 1900"
  shows "(\<exists>years. ProductionYears_new (Some y) None = Inr years) \<and> (\<forall>s' out. stage_and_promote_rows I P r s \<noteq> Inr (s', out))"
proof -
  have "\<not> variant_valid (fresh_variant I model r T)" for model T
    using assms by (simp add: variant_valid_def fresh_variant_def schema_year_def)
  then have "upsert_variant I model r T \<noteq> Inr x" for model T x
    using variant_checks_iff by (auto simp: upsert_variant_def Let_def and_then_Inr_iff)
  then have "promote_identity I r T \<noteq> Inr x" for T x
    by (auto simp: promote_identity_def promote_variant_def Let_def and_then_Inr_iff)
  then have "stage_and_promote_rows I P r s \<noteq> Inr x" for x
    by (auto simp: stage_and_promote_rows_def and_then_Inr_iff)
  moreover have "\<exists>years. ProductionYears_new (Some y) None = Inr years"
    using assms(2,3) by (simp add: ProductionYears_new_Inr_iff year_ok_def years_ordered_def)
  ultimately show ?thesis by blast
qed

theorem early_year_aborts_import_witness:
  "\<forall>s' out. stage_and_promote_rows sample_identity sample_promotion
     (bare_record \<lparr> rec_lifecycle := LifecycleInput_default \<lparr> production_start_year := Some 1899 \<rparr> \<rparr>) (no_rows, served_costs)
     \<noteq> Inr (s', out)"
  using early_year_aborts_import[of "bare_record \<lparr> rec_lifecycle := LifecycleInput_default \<lparr> production_start_year := Some 1899 \<rparr> \<rparr>" 1899]
  by simp

text \<open>
  a name gives a slug the schema takes exactly when its lower-case form has an ASCII letter or digit.
\<close>

theorem slug_accepted_iff_ascii: "slug_check (slugify I name) = list_ex slug_char (id_lower I name)"
  using slugify_valid_iff by (auto simp: list_ex_iff)

text \<open>
  A record that states another engine count: the variant's row keeps the count it has, the powerplant's takes the
  new one.
\<close>

lemma engine_counts_diverge:
  assumes "upsert_variant I model r T = Inr (T1, v)" "w \<in> set (t_variants T)"
    "List.find (\<lambda>v. vr_key v = Some (source_record_key r)) (t_variants T) = Some w" "vr_engine_count w = Some a"
    "link_powerplant I (vr_id v) engine (Some c) document T2 = Inr T3"
    "p \<in> set (t_plants T2)" "pp_variant p = vr_id v" "pp_engine p = engine"
  shows "vr_engine_count v = Some a \<and> (\<exists>q \<in> set (t_plants T3). pp_variant q = vr_id v \<and> pp_engine q = engine \<and> pp_count q = Some c)"
proof
  show "vr_engine_count v = Some a"
    using assms(1,3,4) by (auto simp: upsert_variant_def Let_def and_then_Inr_iff merge_variant_def coalesce_def)
  let ?same = "\<lambda>p. pp_variant p = vr_id v \<and> pp_engine p = engine"
  let ?set = "\<lambda>p. p \<lparr> pp_count := coalesce (Some c) (pp_count p) \<rparr>"
  obtain q0 where found: "List.find ?same (t_plants T2) = Some q0"
    using assms(6-8) by (cases "List.find ?same (t_plants T2)") (auto simp: find_None_iff)
  then have "t_plants T3 = map (\<lambda>q. if ?same q then ?set q else q) (t_plants T2)"
    using assms(5) by (auto simp: link_powerplant_def Let_def and_then_Inr_iff upsert_def)
  then show "\<exists>q \<in> set (t_plants T3). pp_variant q = vr_id v \<and> pp_engine q = engine \<and> pp_count q = Some c"
    using assms(6-8) by (intro bexI[of _ "?set p"]) (auto simp: coalesce_def image_iff intro!: bexI[of _ p])
qed

end
