(* ===== verification/Operator_Reads.thy ===== *)
theory Operator_Reads
  imports Import_Protocol Curation
begin

text \<open>
  What an operator reads: \<open>SqlxIngestionStore::status\<close> over the run and attempt rows, and
  \<open>SqlxCurationStore::pending\<close> over the assertions. Start times, collation and the columns that only
  describe an assertion are parameters; timestamps are not part of the answers.
\<close>

subsection \<open>Runs\<close>

datatype status_read = ReadRuns | ReadAttempts

record StatusFilter =
  sf_run_id :: "int option"
  sf_content_sha256 :: "string option"
  sf_limit :: nat

record AttemptStatus =
  at_attempt_id :: int
  at_attempt_number :: int
  at_status :: ImportStatus
  at_staged_records :: nat
  at_promoted_records :: nat
  at_flagged_records :: nat
  at_warning_count :: nat
  at_failure :: "(string \<times> string) option"

record RunStatus =
  rs_run_id :: int
  rs_attempt_id :: "int option"
  rs_source_slug :: string
  rs_parser_name :: string
  rs_parser_version :: string
  rs_content_sha256 :: string
  rs_status :: ImportStatus
  rs_input_locator :: string
  rs_staged_records :: nat
  rs_promoted_records :: nat
  rs_flagged_records :: nat
  rs_warning_count :: nat
  rs_attempts :: "AttemptStatus list"
  rs_failure :: "(string \<times> string) option"

text \<open>The column holds the status by name.\<close>

fun status_name :: "ImportStatus \<Rightarrow> string" where
  "status_name Received = ''RECEIVED''"
| "status_name Importing = ''IMPORTING''"
| "status_name Succeeded = ''SUCCEEDED''"
| "status_name ValidationFailed = ''VALIDATION_FAILED''"
| "status_name Failed = ''FAILED''"

definition parse_status :: "string \<Rightarrow> PersistenceError + ImportStatus" where
  "parse_status s =
     (if s = ''RECEIVED'' then Inr Received
      else if s = ''IMPORTING'' then Inr Importing
      else if s = ''SUCCEEDED'' then Inr Succeeded
      else if s = ''VALIDATION_FAILED'' then Inr ValidationFailed
      else if s = ''FAILED'' then Inr Failed
      else Inl (Invariant (''unknown run status '' @ s)))"

definition decoded_count :: "int option \<Rightarrow> nat" where
  "decoded_count v = nonnegative v"

definition count_columns :: "attempt_row \<Rightarrow> int option \<times> int option \<times> int option \<times> int option" where
  "count_columns a = (case attempt_counts a of None \<Rightarrow> (None, None, None, None)
     | Some (s, p, f, w) \<Rightarrow> (Some s, Some p, Some f, Some w))"

definition u32_of :: "string \<Rightarrow> int \<Rightarrow> PersistenceError + int" where
  "u32_of what n = (if 0 \<le> n \<and> n \<le> u32_max then Inr n else Inl (Invariant what))"

definition row_to_attempt_status :: "attempt_row \<Rightarrow> PersistenceError + AttemptStatus" where
  "row_to_attempt_status a =
     (case count_columns a of (staged, promoted, flagged, warnings) \<Rightarrow>
      and_then (u32_of ''attempt number must be positive'' (attempt_number a)) (\<lambda>n.
      and_then (parse_status (status_name (attempt_status a))) (\<lambda>status.
      Inr \<lparr> at_attempt_id = attempt_id a, at_attempt_number = n, at_status = status,
            at_staged_records = decoded_count staged, at_promoted_records = decoded_count promoted,
            at_flagged_records = decoded_count flagged, at_warning_count = decoded_count warnings,
            at_failure = attempt_failure a \<rparr>)))"

text \<open>The lateral join: the attempt of the run with the highest id.\<close>

definition latest_attempt :: "import_store \<Rightarrow> int \<Rightarrow> attempt_row option" where
  "latest_attempt st run = last_by_id (filter (\<lambda>a. attempt_run a = run) (attempts st))"

definition row_to_status :: "import_store \<Rightarrow> run_row \<Rightarrow> PersistenceError + RunStatus" where
  "row_to_status st r =
     (case run_key r of (slug, sha, name, version) \<Rightarrow>
      and_then (parse_status (status_name (run_status r))) (\<lambda>status.
      Inr \<lparr> rs_run_id = run_id r, rs_attempt_id = map_option attempt_id (latest_attempt st (run_id r)),
            rs_source_slug = slug, rs_parser_name = name, rs_parser_version = version, rs_content_sha256 = sha,
            rs_status = status, rs_input_locator = run_locator r,
            rs_staged_records = decoded_count (run_staged r), rs_promoted_records = decoded_count (run_promoted r),
            rs_flagged_records = decoded_count (run_flagged r), rs_warning_count = decoded_count (run_warnings r),
            rs_attempts = [],
            rs_failure = (case Option.bind (latest_attempt st (run_id r)) attempt_failure of
               Some f \<Rightarrow> Some f | None \<Rightarrow> run_failure r) \<rparr>))"

definition wanted_run :: "StatusFilter \<Rightarrow> run_row \<Rightarrow> bool" where
  "wanted_run flt r \<longleftrightarrow>
     (case sf_run_id flt of None \<Rightarrow> True | Some i \<Rightarrow> run_id r = i) \<and>
     (case sf_content_sha256 flt of None \<Rightarrow> True | Some h \<Rightarrow> fst (snd (run_key r)) = h)"

definition status_limit :: "StatusFilter \<Rightarrow> nat" where
  "status_limit flt = (if sf_limit flt = 0 then 20 else min (sf_limit flt) 200)"

text \<open>\<open>ORDER BY started_at DESC LIMIT\<close>.\<close>

definition select_runs :: "(int \<Rightarrow> int) \<Rightarrow> StatusFilter \<Rightarrow> import_store \<Rightarrow> run_row list" where
  "select_runs started flt st =
     take (status_limit flt) (sort_key (\<lambda>r. - started (run_id r)) (filter (wanted_run flt) (runs st)))"

text \<open>\<open>ORDER BY ingest_run_id, attempt_number DESC\<close>.\<close>

definition select_attempts :: "int list \<Rightarrow> import_store \<Rightarrow> attempt_row list" where
  "select_attempts ids st =
     sort_key attempt_run (sort_key (\<lambda>a. - attempt_number a) (filter (\<lambda>a. attempt_run a \<in> set ids) (attempts st)))"

definition add_attempt :: "int \<Rightarrow> AttemptStatus \<Rightarrow> RunStatus list \<Rightarrow> RunStatus list" where
  "add_attempt run a statuses =
     map (\<lambda>s. if rs_run_id s = run then s \<lparr> rs_attempts := rs_attempts s @ [a] \<rparr> else s) statuses"

fun attach_attempts :: "attempt_row list \<Rightarrow> RunStatus list \<Rightarrow> PersistenceError + RunStatus list" where
  "attach_attempts [] statuses = Inr statuses"
| "attach_attempts (a # as) statuses =
     (if attempt_run a \<notin> rs_run_id ` set statuses
      then Inl (Invariant ''attempt query returned an unknown ingestion run'')
      else and_then (row_to_attempt_status a) (\<lambda>x. attach_attempts as (add_attempt (attempt_run a) x statuses)))"

text \<open>The two statements are no transaction: \<open>later\<close> is what the second one sees.\<close>

definition import_status ::
  "(status_read \<Rightarrow> PersistenceError option) \<Rightarrow> (int \<Rightarrow> int) \<Rightarrow> StatusFilter \<Rightarrow> import_store \<Rightarrow> import_store \<Rightarrow>
     PersistenceError + RunStatus list" where
  "import_status failing started flt st later =
     (case failing ReadRuns of Some e \<Rightarrow> Inl e | None \<Rightarrow>
      and_then (collect_results (map (row_to_status st) (select_runs started flt st))) (\<lambda>statuses.
      if statuses = [] then Inr statuses
      else (case failing ReadAttempts of Some e \<Rightarrow> Inl e | None \<Rightarrow>
            attach_attempts (select_attempts (map rs_run_id statuses) later) statuses)))"

subsection \<open>Pending assertions\<close>

record PendingFilter =
  pf_entity_id :: "int option"
  pf_field_name :: "string option"
  pf_limit :: nat

record PendingAssertion =
  pa_assertion_id :: int
  pa_entity_type_code :: string
  pa_entity_id :: int
  pa_entity_label :: "string option"
  pa_field_name :: string
  pa_raw_value :: "string option"
  pa_raw_unit :: "string option"
  pa_asserted_numeric :: "string option"
  pa_source_slug :: "string option"

text \<open>The columns of an assertion, its document and its variant that a decision never reads.\<close>

record descriptive =
  ds_label :: "string option"
  ds_raw_value :: "string option"
  ds_raw_unit :: "string option"
  ds_source :: "string option"

definition pending_row :: "(assertion \<Rightarrow> descriptive) \<Rightarrow> assertion \<Rightarrow> PendingAssertion" where
  "pending_row describe a =
     \<lparr> pa_assertion_id = as_id a, pa_entity_type_code = as_entity_type a, pa_entity_id = as_entity_id a,
       pa_entity_label = (if as_entity_type a = ''AIRCRAFT_VARIANT'' then ds_label (describe a) else None),
       pa_field_name = as_field a, pa_raw_value = ds_raw_value (describe a), pa_raw_unit = ds_raw_unit (describe a),
       pa_asserted_numeric = map_option snd (as_numeric a), pa_source_slug = ds_source (describe a) \<rparr>"

definition wanted_assertion :: "PendingFilter \<Rightarrow> assertion \<Rightarrow> bool" where
  "wanted_assertion flt a \<longleftrightarrow> as_status a = ''PENDING'' \<and>
     (case pf_entity_id flt of None \<Rightarrow> True | Some i \<Rightarrow> as_entity_id a = i) \<and>
     (case pf_field_name flt of None \<Rightarrow> True | Some f \<Rightarrow> as_field a = f)"

text \<open>\<open>ORDER BY entity_id, field_name, id\<close>; \<open>rank\<close> is the collation's order of field names.\<close>

definition pending ::
  "curation_env \<Rightarrow> (string \<Rightarrow> nat) \<Rightarrow> (assertion \<Rightarrow> descriptive) \<Rightarrow> PendingFilter \<Rightarrow> curation_state \<Rightarrow>
     PersistenceError + PendingAssertion list" where
  "pending E rank describe flt st =
     (case statement_error E ReadPending of Some e \<Rightarrow> Inl e | None \<Rightarrow>
      Inr (map (pending_row describe) (take (max (pf_limit flt) 1)
        (sort_key as_entity_id (sort_key (\<lambda>a. rank (as_field a)) (sort_key as_id
          (filter (wanted_assertion flt) (assertions st))))))))"

subsection \<open>What the answers say\<close>

lemma parse_status_name [simp]: "parse_status (status_name s) = Inr s"
  by (cases s) (simp_all add: parse_status_def)

lemma row_to_status_Inr:
  "row_to_status st r = Inr s \<Longrightarrow> rs_run_id s = run_id r \<and> rs_status s = run_status r \<and> rs_attempts s = []"
  by (auto simp: row_to_status_def split: prod.splits)

lemma add_attempt_keeps [simp]:
  "map (\<lambda>s. (rs_run_id s, rs_status s)) (add_attempt run a statuses) = map (\<lambda>s. (rs_run_id s, rs_status s)) statuses"
  by (simp add: add_attempt_def)

lemma attach_attempts_keeps:
  "attach_attempts as statuses = Inr statuses' \<Longrightarrow>
     map (\<lambda>s. (rs_run_id s, rs_status s)) statuses' = map (\<lambda>s. (rs_run_id s, rs_status s)) statuses"
  by (induction as arbitrary: statuses) (auto simp: and_then_Inr_iff split: if_splits)

lemma status_rows:
  assumes "map (row_to_status st) rs = map Inr raw"
  shows "map (\<lambda>s. (rs_run_id s, rs_status s)) raw = map (\<lambda>r. (run_id r, run_status r)) rs \<and> (\<forall>s \<in> set raw. rs_attempts s = [])"
  using assms
proof (induction rs arbitrary: raw)
  case (Cons r rs)
  then show ?case using row_to_status_Inr by (cases raw) auto
qed simp

lemma import_status_rows:
  assumes "import_status failing started flt st later = Inr statuses"
  shows "map (\<lambda>s. (rs_run_id s, rs_status s)) statuses = map (\<lambda>r. (run_id r, run_status r)) (select_runs started flt st)"
proof -
  obtain raw where raw: "collect_results (map (row_to_status st) (select_runs started flt st)) = Inr raw"
      "map (\<lambda>s. (rs_run_id s, rs_status s)) statuses = map (\<lambda>s. (rs_run_id s, rs_status s)) raw"
    using assms attach_attempts_keeps
    by (auto simp: import_status_def and_then_Inr_iff split: option.splits if_splits)
  then show ?thesis
    using status_rows by (simp add: collect_results_Inr_iff)
qed

end
