(* ===== verification/Config.thy ===== *)
theory Config
  imports Rust_Str
begin

text \<open>
  \<open>aircraft_config\<close>: the layered sources, the loaders and their validation. The \<open>config\<close> crate (reading the
  files, merging the layers, decoding a value) and the \<open>url\<close> parser are parameters.
\<close>

subsection \<open>Sources\<close>

datatype config_value = Text string | Number nat | Other string

datatype ConfigError = ConfigMessage string | ConfigSource string

text \<open>What \<open>url::Url::parse\<close> says of a text.\<close>

record parsed_url =
  pu_scheme :: string
  pu_host :: "string option"
  pu_path :: string
  pu_query :: "string option"
  pu_fragment :: "string option"
  pu_username :: string
  pu_password :: "string option"
  pu_text :: string

type_synonym layer = "string \<rightharpoonup> config_value"

record config_libs =
  cl_file :: "string \<Rightarrow> ConfigError + layer"
  cl_merge :: "layer list \<Rightarrow> layer"
  cl_text :: "config_value \<Rightarrow> ConfigError + string"
  cl_unsigned :: "nat \<Rightarrow> config_value \<Rightarrow> ConfigError + nat"
  cl_missing :: "string \<Rightarrow> ConfigError"
  cl_url :: "string \<Rightarrow> parsed_url option"

text \<open>
  What the code relies on: a later layer overrides an earlier one key by key, and a number is decoded within
  the bound of its type.
\<close>

definition layers_override :: "config_libs \<Rightarrow> bool" where
  "layers_override L \<longleftrightarrow>
     (\<forall>k. cl_merge L [] k = None) \<and>
     (\<forall>ms m k. cl_merge L (ms @ [m]) k = (case m k of Some v \<Rightarrow> Some v | None \<Rightarrow> cl_merge L ms k))"

definition unsigned_bounded :: "config_libs \<Rightarrow> bool" where
  "unsigned_bounded L \<longleftrightarrow> (\<forall>bound v n. cl_unsigned L bound v = Inr n \<longrightarrow> n \<le> bound)"

definition CONFIG_DIR :: string where "CONFIG_DIR = ''config''"

text \<open>
  Fields are decoded in the order of the struct; which of several undecodable ones is reported is the crate's choice.
  \<open>base_config\<close> and \<open>build\<close>: the built-in defaults, both files, the environment.
\<close>

definition base_config :: "config_libs \<Rightarrow> string \<Rightarrow> layer \<Rightarrow> (string \<times> config_value) list \<Rightarrow> ConfigError + layer" where
  "base_config L directory environment defaults =
     and_then (cl_file L (directory @ ''/defaults'')) (\<lambda>low.
     and_then (cl_file L (directory @ ''/config'')) (\<lambda>high.
     Inr (cl_merge L [map_of defaults, low, high, environment])))"

definition required_field :: "config_libs \<Rightarrow> layer \<Rightarrow> string \<Rightarrow> (config_value \<Rightarrow> ConfigError + 'a) \<Rightarrow> ConfigError + 'a" where
  "required_field L merged key decode =
     (case merged key of None \<Rightarrow> Inl (cl_missing L key) | Some v \<Rightarrow> decode v)"

definition optional_field :: "layer \<Rightarrow> string \<Rightarrow> (config_value \<Rightarrow> ConfigError + 'a) \<Rightarrow> ConfigError + 'a option" where
  "optional_field merged key decode =
     (case merged key of None \<Rightarrow> Inr None | Some v \<Rightarrow> and_then (decode v) (\<lambda>x. Inr (Some x)))"

definition comma_separated :: "string \<Rightarrow> string list" where
  "comma_separated raw = (if trim raw = [] then [] else map trim (split_char (CHR '','') raw))"

definition comma_list :: "config_libs \<Rightarrow> config_value \<Rightarrow> ConfigError + string list" where
  "comma_list L v = and_then (cl_text L v) (\<lambda>raw. Inr (comma_separated raw))"

subsection \<open>Settings\<close>

record HttpSettings =
  http_host :: string
  http_port :: nat
  shutdown_grace_seconds :: nat
  max_request_body_bytes :: nat
  request_timeout_seconds :: nat
  max_concurrent_requests :: nat
  rate_limit_capacity :: nat
  rate_limit_refill_per_second :: nat
  rate_limit_max_buckets :: nat
  rate_limit_tiers :: "string list"
  cors_allowed_origins :: "string list"

record DatabaseSettings =
  db_url :: string
  db_max_connections :: nat
  db_acquire_timeout_seconds :: nat
  db_statement_timeout_seconds :: nat

record IngestSettings =
  in_database_url :: string
  in_max_input_bytes :: nat
  in_lock_timeout_seconds :: nat
  in_statement_timeout_seconds :: nat
  in_temp_dir :: "string option"
  in_max_connections :: nat

record IngestArtifactSettings =
  ar_max_input_bytes :: nat
  ar_temp_dir :: "string option"

definition u16_bound :: nat where "u16_bound = 65535"
definition u32_bound :: nat where "u32_bound = 4294967295"
definition u64_bound :: nat where "u64_bound = 18446744073709551615"

text \<open>\<open>usize::MAX >> 3\<close>, the most permits the semaphore takes.\<close>

definition MAX_CONCURRENT_REQUESTS :: nat where
  "MAX_CONCURRENT_REQUESTS = u64_bound div 8"

definition refuse_when :: "bool \<Rightarrow> string \<Rightarrow> ConfigError + unit" where
  "refuse_when bad message = (if bad then Inl (ConfigMessage message) else Inr ())"

subsection \<open>Validation\<close>

definition WILDCARD_ORIGIN :: string where "WILDCARD_ORIGIN = ''*''"

definition no_host :: "parsed_url \<Rightarrow> bool" where
  "no_host u \<longleftrightarrow> (case pu_host u of None \<Rightarrow> True | Some h \<Rightarrow> h = [])"

text \<open>The parsed text without the one slash of an empty path.\<close>

definition canonical_origin :: "parsed_url \<Rightarrow> string" where
  "canonical_origin u = (case strip_suffix ''/'' (pu_text u) of Some t \<Rightarrow> t | None \<Rightarrow> pu_text u)"

definition more_than_origin :: "parsed_url \<Rightarrow> bool" where
  "more_than_origin u \<longleftrightarrow> pu_path u \<noteq> ''/'' \<or> pu_query u \<noteq> None \<or> pu_fragment u \<noteq> None \<or>
     pu_username u \<noteq> [] \<or> pu_password u \<noteq> None"

text \<open>The debug rendering \<open>{:?}\<close> of a text, for the printable ASCII that a parsed URL's text is.\<close>

definition debug_text :: "string \<Rightarrow> string" where
  "debug_text s =
     [CHR 0x22] @ concat (map (\<lambda>c. if c = CHR 0x22 \<or> c = CHR 0x5C then [CHR 0x5C, c] else [c]) s) @ [CHR 0x22]"

definition validate_cors_origin :: "config_libs \<Rightarrow> string \<Rightarrow> ConfigError + unit" where
  "validate_cors_origin L origin =
     and_then (refuse_when (origin = WILDCARD_ORIGIN)
       ''http.cors_allowed_origins must not contain the wildcard `*`; name each allowed origin'') (\<lambda>_.
     and_then (refuse_when (origin = []) ''http.cors_allowed_origins must not contain a blank entry'') (\<lambda>_.
     case cl_url L origin of
       None \<Rightarrow> Inl (ConfigMessage ''http.cors_allowed_origins contains an entry that is not a valid absolute URL'')
     | Some u \<Rightarrow>
         and_then (refuse_when (no_host u) ''http.cors_allowed_origins contains an entry that names no host'') (\<lambda>_.
         and_then (refuse_when (more_than_origin u)
           ''http.cors_allowed_origins entries must contain only a scheme, host, and optional port'') (\<lambda>_.
         refuse_when (canonical_origin u \<noteq> origin)
           (''http.cors_allowed_origins contains an entry that is not the spelling a browser sends; write ''
              @ debug_text (canonical_origin u))))))"

text \<open>\<open>try_for_each\<close>.\<close>

fun each :: "('a \<Rightarrow> 'e + unit) \<Rightarrow> 'a list \<Rightarrow> 'e + unit" where
  "each f [] = Inr ()"
| "each f (x # xs) = and_then (f x) (\<lambda>_. each f xs)"

definition validate_perimeter_limits ::
  "config_libs \<Rightarrow> HttpSettings \<Rightarrow> ConfigError + unit" where
  "validate_perimeter_limits L s =
     and_then (refuse_when (max_request_body_bytes s = 0) ''http.max_request_body_bytes must be greater than zero'') (\<lambda>_.
     and_then (refuse_when (request_timeout_seconds s = 0) ''http.request_timeout_seconds must be greater than zero'') (\<lambda>_.
     and_then (refuse_when (max_concurrent_requests s = 0) ''http.max_concurrent_requests must be greater than zero'') (\<lambda>_.
     and_then (refuse_when (rate_limit_capacity s = 0) ''http.rate_limit_capacity must be greater than zero'') (\<lambda>_.
     and_then (refuse_when (rate_limit_refill_per_second s = 0)
       ''http.rate_limit_refill_per_second must be greater than zero'') (\<lambda>_.
     and_then (refuse_when (rate_limit_max_buckets s = 0) ''http.rate_limit_max_buckets must be greater than zero'') (\<lambda>_.
     and_then (refuse_when (max_concurrent_requests s > MAX_CONCURRENT_REQUESTS)
       (''http.max_concurrent_requests must be at most '' @ show_nat MAX_CONCURRENT_REQUESTS)) (\<lambda>_.
     each (validate_cors_origin L) (cors_allowed_origins s))))))))"

definition POSTGRES_SCHEMES :: "string list" where
  "POSTGRES_SCHEMES = [''postgres'', ''postgresql'']"

definition validate_database_settings :: "config_libs \<Rightarrow> DatabaseSettings \<Rightarrow> ConfigError + unit" where
  "validate_database_settings L s =
     and_then (refuse_when (trim (db_url s) = []) ''database.url must be set to a PostgreSQL connection URL'') (\<lambda>_.
     case cl_url L (db_url s) of
       None \<Rightarrow> Inl (ConfigMessage ''database.url is not a valid URL'')
     | Some u \<Rightarrow>
         and_then (refuse_when (pu_scheme u \<notin> set POSTGRES_SCHEMES)
           ''database.url must use a postgres:// or postgresql:// scheme'') (\<lambda>_.
         and_then (refuse_when (no_host u \<and> trim_bytes (\<lambda>c. c = CHR ''/'') (pu_path u) = [])
           ''database.url must name a host or a database'') (\<lambda>_.
         and_then (refuse_when (db_max_connections s = 0) ''database.max_connections must be greater than zero'') (\<lambda>_.
         and_then (refuse_when (db_acquire_timeout_seconds s = 0)
           ''database.acquire_timeout_seconds must be greater than zero'') (\<lambda>_.
         refuse_when (db_statement_timeout_seconds s = 0)
           ''database.statement_timeout_seconds must be greater than zero'')))))"

definition validate_ingest_settings :: "IngestSettings \<Rightarrow> ConfigError + unit" where
  "validate_ingest_settings s =
     and_then (refuse_when (in_max_input_bytes s = 0) ''ingest.max_input_bytes must be greater than zero'') (\<lambda>_.
     and_then (refuse_when (in_lock_timeout_seconds s = 0) ''ingest.lock_timeout_seconds must be greater than zero'') (\<lambda>_.
     and_then (refuse_when (in_statement_timeout_seconds s = 0)
       ''ingest.statement_timeout_seconds must be greater than zero'') (\<lambda>_.
     refuse_when (in_max_connections s < 2) ''ingest.max_connections must be at least two'')))"

subsection \<open>Loading\<close>

definition http_defaults :: "(string \<times> config_value) list" where
  "http_defaults =
     [(''http.host'', Text ''127.0.0.1''), (''http.port'', Number 8080),
      (''http.shutdown_grace_seconds'', Number 30), (''http.max_request_body_bytes'', Number 1048576),
      (''http.request_timeout_seconds'', Number 30), (''http.max_concurrent_requests'', Number 256),
      (''http.rate_limit_capacity'', Number 60), (''http.rate_limit_refill_per_second'', Number 10),
      (''http.rate_limit_max_buckets'', Number 10000), (''http.rate_limit_tiers'', Text []),
      (''http.cors_allowed_origins'', Text [])]"

definition http_fields :: "config_libs \<Rightarrow> layer \<Rightarrow> ConfigError + HttpSettings" where
  "http_fields L m =
     and_then (required_field L m ''http.host'' (cl_text L)) (\<lambda>host.
     and_then (required_field L m ''http.port'' (cl_unsigned L u16_bound)) (\<lambda>port.
     and_then (required_field L m ''http.shutdown_grace_seconds'' (cl_unsigned L u64_bound)) (\<lambda>grace.
     and_then (required_field L m ''http.max_request_body_bytes'' (cl_unsigned L u64_bound)) (\<lambda>body.
     and_then (required_field L m ''http.request_timeout_seconds'' (cl_unsigned L u64_bound)) (\<lambda>deadline.
     and_then (required_field L m ''http.max_concurrent_requests'' (cl_unsigned L u64_bound)) (\<lambda>concurrent.
     and_then (required_field L m ''http.rate_limit_capacity'' (cl_unsigned L u32_bound)) (\<lambda>cap.
     and_then (required_field L m ''http.rate_limit_refill_per_second'' (cl_unsigned L u32_bound)) (\<lambda>rate.
     and_then (required_field L m ''http.rate_limit_max_buckets'' (cl_unsigned L u64_bound)) (\<lambda>buckets.
     and_then (required_field L m ''http.rate_limit_tiers'' (comma_list L)) (\<lambda>tiers.
     and_then (required_field L m ''http.cors_allowed_origins'' (comma_list L)) (\<lambda>origins.
     Inr \<lparr> http_host = host, http_port = port, shutdown_grace_seconds = grace, max_request_body_bytes = body,
           request_timeout_seconds = deadline, max_concurrent_requests = concurrent, rate_limit_capacity = cap,
           rate_limit_refill_per_second = rate, rate_limit_max_buckets = buckets, rate_limit_tiers = tiers,
           cors_allowed_origins = origins \<rparr>)))))))))))"

definition load_settings ::
  "config_libs \<Rightarrow> string \<Rightarrow> layer \<Rightarrow> ConfigError + HttpSettings" where
  "load_settings L directory environment =
     and_then (base_config L directory environment http_defaults) (\<lambda>m.
     and_then (http_fields L m) (\<lambda>s.
     and_then (refuse_when (trim (http_host s) = []) ''http.host must not be empty'') (\<lambda>_.
     and_then (refuse_when (http_port s = 0)
       ''http.port must be between 1 and 65535; zero requests an arbitrary OS-assigned port'') (\<lambda>_.
     and_then (validate_perimeter_limits L s) (\<lambda>_.
     Inr s)))))"

definition bind_address :: "HttpSettings \<Rightarrow> string" where
  "bind_address s = http_host s @ '':'' @ show_nat (http_port s)"

definition database_defaults :: "(string \<times> config_value) list" where
  "database_defaults =
     [(''database.url'', Text []), (''database.max_connections'', Number 10),
      (''database.acquire_timeout_seconds'', Number 5), (''database.statement_timeout_seconds'', Number 30)]"

definition load_database_settings :: "config_libs \<Rightarrow> string \<Rightarrow> layer \<Rightarrow> ConfigError + DatabaseSettings" where
  "load_database_settings L directory environment =
     and_then (base_config L directory environment database_defaults) (\<lambda>m.
     and_then (required_field L m ''database.url'' (cl_text L)) (\<lambda>url.
     and_then (required_field L m ''database.max_connections'' (cl_unsigned L u32_bound)) (\<lambda>connections.
     and_then (required_field L m ''database.acquire_timeout_seconds'' (cl_unsigned L u64_bound)) (\<lambda>acquire.
     and_then (required_field L m ''database.statement_timeout_seconds'' (cl_unsigned L u64_bound)) (\<lambda>statement.
     (let s = \<lparr> db_url = url, db_max_connections = connections, db_acquire_timeout_seconds = acquire,
                db_statement_timeout_seconds = statement \<rparr>
      in and_then (validate_database_settings L s) (\<lambda>_. Inr s)))))))"

definition artifact_defaults :: "(string \<times> config_value) list" where
  "artifact_defaults = [(''ingest.max_input_bytes'', Number (512 * 1024 * 1024))]"

definition load_artifact_settings :: "config_libs \<Rightarrow> layer \<Rightarrow> ConfigError + IngestArtifactSettings" where
  "load_artifact_settings L environment =
     and_then (base_config L CONFIG_DIR environment artifact_defaults) (\<lambda>m.
     and_then (required_field L m ''ingest.max_input_bytes'' (cl_unsigned L u64_bound)) (\<lambda>bytes.
     and_then (optional_field m ''ingest.temp_dir'' (cl_text L)) (\<lambda>dir.
     and_then (refuse_when (bytes = 0) ''ingest.max_input_bytes must be greater than zero'') (\<lambda>_.
     Inr \<lparr> ar_max_input_bytes = bytes, ar_temp_dir = dir \<rparr>))))"

definition ingest_defaults :: "(string \<times> config_value) list" where
  "ingest_defaults =
     [(''ingest.max_input_bytes'', Number (512 * 1024 * 1024)), (''ingest.lock_timeout_seconds'', Number 5),
      (''ingest.statement_timeout_seconds'', Number 1800), (''ingest.max_connections'', Number 5)]"

definition load_ingest_settings :: "config_libs \<Rightarrow> layer \<Rightarrow> ConfigError + IngestSettings" where
  "load_ingest_settings L environment =
     and_then (base_config L CONFIG_DIR environment ingest_defaults) (\<lambda>m.
     and_then (required_field L m ''ingest.database_url'' (cl_text L)) (\<lambda>url.
     and_then (required_field L m ''ingest.max_input_bytes'' (cl_unsigned L u64_bound)) (\<lambda>bytes.
     and_then (required_field L m ''ingest.lock_timeout_seconds'' (cl_unsigned L u64_bound)) (\<lambda>wait.
     and_then (required_field L m ''ingest.statement_timeout_seconds'' (cl_unsigned L u64_bound)) (\<lambda>statement.
     and_then (optional_field m ''ingest.temp_dir'' (cl_text L)) (\<lambda>dir.
     and_then (required_field L m ''ingest.max_connections'' (cl_unsigned L u32_bound)) (\<lambda>connections.
     (let s = \<lparr> in_database_url = url, in_max_input_bytes = bytes, in_lock_timeout_seconds = wait,
                in_statement_timeout_seconds = statement, in_temp_dir = dir, in_max_connections = connections \<rparr>
      in and_then (validate_ingest_settings s) (\<lambda>_. Inr s)))))))))"

end
