(* ===== verification/Pools.thy ===== *)
theory Pools
  imports Config Credential_Store
begin

text \<open>
  The connection pools of \<open>aircraft_db\<close>: the server's (\<open>pool::connect\<close>) and the ingestion store's
  (\<open>SqlxIngestionStore::connect\<close>). Opening a connection is the driver's, a parameter.
\<close>

text \<open>Why a pool was not opened: the driver's \<open>Configuration\<close> error, with its rendering, or another.\<close>

datatype connect_failure = Configuration string | Unreachable driver_error

definition connection_error :: "connect_failure \<Rightarrow> PersistenceError" where
  "connection_error e =
     (case e of
        Configuration _ \<Rightarrow>
          Database ''DATABASE_CONFIGURATION'' ''database.url could not be used as a PostgreSQL connection string''
      | Unreachable other \<Rightarrow> database_error other)"

definition plain_connection_error :: "connect_failure \<Rightarrow> PersistenceError" where
  "plain_connection_error e = (case e of Configuration text \<Rightarrow> database_error (None, text) | Unreachable other \<Rightarrow> database_error other)"

record pool_options =
  po_url :: string
  po_max_connections :: nat
  po_acquire_seconds :: "nat option"
  po_session :: "(string \<times> string) list"

type_synonym driver = "pool_options \<Rightarrow> connect_failure option"

definition milliseconds :: "nat \<Rightarrow> string" where
  "milliseconds seconds = show_nat (min u64_bound (seconds * 1000)) @ ''ms''"

text \<open>\<open>pool::connect\<close>, the server's.\<close>

definition pool_connect :: "driver \<Rightarrow> string \<Rightarrow> nat \<Rightarrow> nat \<Rightarrow> nat \<Rightarrow> PersistenceError + pool_options" where
  "pool_connect driver url connections acquire statement =
     (let po = \<lparr> po_url = url, po_max_connections = connections, po_acquire_seconds = Some acquire,
                 po_session = [(''statement_timeout'', milliseconds statement), (''search_path'', [])] \<rparr>
      in case driver po of Some e \<Rightarrow> Inl (connection_error e) | None \<Rightarrow> Inr po)"

text \<open>\<open>SqlxIngestionStore::connect\<close> and \<open>from_pool\<close>: the store's pool and its import permits.\<close>

record ingestion_pool =
  ip_pool :: pool_options
  ip_permits :: nat

definition from_pool :: "pool_options \<Rightarrow> ingestion_pool" where
  "from_pool po = \<lparr> ip_pool = po, ip_permits = max (po_max_connections po div 2) 1 \<rparr>"

definition ingestion_connect :: "driver \<Rightarrow> string \<Rightarrow> nat \<Rightarrow> nat \<Rightarrow> nat \<Rightarrow> PersistenceError + ingestion_pool" where
  "ingestion_connect driver url connections wait statement =
     (let po = \<lparr> po_url = url, po_max_connections = max connections 2, po_acquire_seconds = None,
                 po_session = [(''lock_timeout'', milliseconds wait), (''statement_timeout'', milliseconds statement)] \<rparr>
      in case driver po of Some e \<Rightarrow> Inl (plain_connection_error e) | None \<Rightarrow> Inr (from_pool po))"

end
