(* ===== verification/Server.thy ===== *)
theory Server
  imports Pools Perimeter Rate_Limit Shutdown
begin

text \<open>
  \<open>aircraft-server\<close>: what the composition root builds from the settings, in its order, and the shutdown lifecycle
  of \<open>serve\<close> as a step relation. Sockets, signals and the driver are parameters.
\<close>

subsection \<open>Start\<close>

datatype StartupError =
    LoadingHttp ConfigError
  | LoadingDatabase ConfigError
  | ConnectingPool PersistenceError
  | BuildingLimits InvalidOrigin
  | BuildingQuota InvalidQuota
  | BuildingPolicy InvalidPolicy
  | Binding string
  | ReadingAddress
  | InstallingHandler string

record 'h startup_env =
  su_config :: config_libs
  su_variables :: layer
  su_driver :: driver
  su_header :: "string \<Rightarrow> 'h option"
  su_bind :: "string \<Rightarrow> bool"
  su_local :: bool
  su_handler :: "string \<Rightarrow> bool"

record 'h started =
  st_pool :: pool_options
  st_limits :: "'h PerimeterLimits"
  st_policy :: RateLimitPolicy
  st_address :: string
  st_grace :: nat

definition check_that :: "bool \<Rightarrow> 'e \<Rightarrow> 'e + unit" where
  "check_that b e = (if b then Inr () else Inl e)"

text \<open>\<open>main\<close> up to \<open>serve\<close>; a deadline is passed on in milliseconds, the grace in seconds.\<close>

definition start_server :: "'h startup_env \<Rightarrow> StartupError + 'h started" where
  "start_server E =
     and_then (map_err LoadingHttp (load_settings (su_config E) CONFIG_DIR (su_variables E))) (\<lambda>s.
     and_then (map_err LoadingDatabase (load_database_settings (su_config E) CONFIG_DIR (su_variables E))) (\<lambda>d.
     and_then (map_err ConnectingPool (pool_connect (su_driver E) (db_url d) (db_max_connections d)
         (db_acquire_timeout_seconds d) (db_statement_timeout_seconds d))) (\<lambda>pool.
     and_then (map_err BuildingLimits (PerimeterLimits_new (su_header E) (max_request_body_bytes s)
         (request_timeout_seconds s * 1000) (max_concurrent_requests s) (cors_allowed_origins s))) (\<lambda>limits.
     and_then (map_err BuildingQuota (Quota_new (rate_limit_capacity s) (rate_limit_refill_per_second s))) (\<lambda>quota.
     and_then (map_err BuildingPolicy (RateLimitPolicy_new quota (rate_limit_max_buckets s) (rate_limit_tiers s))) (\<lambda>policy.
     and_then (check_that (su_bind E (bind_address s)) (Binding (bind_address s))) (\<lambda>_.
     and_then (check_that (su_local E) ReadingAddress) (\<lambda>_.
     and_then (check_that (su_handler E ''SIGTERM'') (InstallingHandler ''SIGTERM'')) (\<lambda>_.
     and_then (check_that (su_handler E ''SIGINT'') (InstallingHandler ''SIGINT'')) (\<lambda>_.
     Inr \<lparr> st_pool = pool, st_limits = limits, st_policy = policy, st_address = bind_address s,
           st_grace = shutdown_grace_seconds s \<rparr>))))))))))"

subsection \<open>Serving\<close>

text \<open>
  \<open>serve\<close> waits for the server or the drain, then for the server or the grace, then for the server or the flush.
  \<open>sv_stage\<close> is where it waits, \<open>sv_since\<close> when that wait began (milliseconds), \<open>sv_accepting\<close> whether \<open>axum\<close> still accepts.
\<close>

datatype serve_stage = AwaitDrain | AwaitGrace | AwaitFlush | Returned "string + unit"

datatype serve_log = DrainingInFlight "64 word" | GraceExpired "64 word" | FlushExpired | Drained

record server =
  sv_shutdown :: ShutdownState
  sv_stage :: serve_stage
  sv_accepting :: bool
  sv_now :: nat
  sv_since :: nat
  sv_log :: "serve_log list"

definition CANCELLED_FLUSH :: nat where "CANCELLED_FLUSH = 1000"

definition serve_start :: server where
  "serve_start = \<lparr> sv_shutdown = ShutdownState_new, sv_stage = AwaitDrain, sv_accepting = True, sv_now = 0, sv_since = 0,
     sv_log = [] \<rparr>"

definition deadline_of :: "nat \<Rightarrow> server \<Rightarrow> nat option" where
  "deadline_of grace s = (case sv_stage s of AwaitGrace \<Rightarrow> Some (sv_since s + grace)
     | AwaitFlush \<Rightarrow> Some (sv_since s + CANCELLED_FLUSH) | _ \<Rightarrow> None)"

definition stopped_with :: "string + unit \<Rightarrow> string + unit" where
  "stopped_with r = map_err (\<lambda>e. ''the HTTP server stopped: '' @ e) r"

text \<open>The signal's future ends after \<open>begin_draining\<close>; only then does \<open>axum\<close> stop accepting.\<close>

inductive serve_step :: "nat \<Rightarrow> server \<Rightarrow> server \<Rightarrow> bool" for grace where
  Signal: "sv_stage s = AwaitDrain \<Longrightarrow> sv_accepting s \<Longrightarrow>
     serve_step grace s (s \<lparr> sv_shutdown := begin_draining (sv_shutdown s) \<rparr>)"
| StopAccepting: "is_draining (sv_shutdown s) \<Longrightarrow> serve_step grace s (s \<lparr> sv_accepting := False \<rparr>)"
| ServerEnds: "sv_stage s = AwaitDrain \<Longrightarrow> serve_step grace s (s \<lparr> sv_stage := Returned (stopped_with r) \<rparr>)"
| DrainSeen: "sv_stage s = AwaitDrain \<Longrightarrow> reaches Draining (sv_shutdown s) \<Longrightarrow>
     serve_step grace s (s \<lparr> sv_stage := AwaitGrace, sv_since := sv_now s,
       sv_log := sv_log s @ [DrainingInFlight (in_flight (sv_shutdown s))] \<rparr>)"
| DrainedInTime: "sv_stage s = AwaitGrace \<Longrightarrow>
     serve_step grace s (s \<lparr> sv_stage := Returned (stopped_with r), sv_log := sv_log s @ [Drained] \<rparr>)"
| GraceOver: "sv_stage s = AwaitGrace \<Longrightarrow> sv_now s = sv_since s + grace \<Longrightarrow>
     serve_step grace s (s \<lparr> sv_shutdown := cancel (sv_shutdown s), sv_stage := AwaitFlush, sv_since := sv_now s,
       sv_log := sv_log s @ [GraceExpired (in_flight (sv_shutdown s))] \<rparr>)"
| Flushed: "sv_stage s = AwaitFlush \<Longrightarrow> serve_step grace s (s \<lparr> sv_stage := Returned (Inr ()) \<rparr>)"
| FlushOver: "sv_stage s = AwaitFlush \<Longrightarrow> sv_now s = sv_since s + CANCELLED_FLUSH \<Longrightarrow>
     serve_step grace s (s \<lparr> sv_stage := Returned (Inr ()), sv_log := sv_log s @ [FlushExpired] \<rparr>)"
| Tick: "\<forall>d. deadline_of grace s = Some d \<longrightarrow> sv_now s < d \<Longrightarrow>
     serve_step grace s (s \<lparr> sv_now := Suc (sv_now s) \<rparr>)"
| Requests: "serve_step grace s (s \<lparr> sv_shutdown := (sv_shutdown s) \<lparr> in_flight := n \<rparr> \<rparr>)"

inductive_cases serve_stepE: "serve_step grace s s'"

inductive serve_run :: "nat \<Rightarrow> server \<Rightarrow> bool" for grace where
  start: "serve_run grace serve_start"
| move: "serve_run grace s \<Longrightarrow> serve_step grace s s' \<Longrightarrow> serve_run grace s'"

end
