(* ===== verification/Server_Guarantees.thy ===== *)
theory Server_Guarantees
  imports Server
begin

text \<open>
  What the settings promise the server that starts from them, what their errors may say, and what the shutdown
  lifecycle promises its clients.
\<close>

subsection \<open>Accepted settings\<close>

lemma refuse_when_Inr [simp]: "refuse_when b m = Inr u \<longleftrightarrow> \<not> b"
  by (simp add: refuse_when_def)

lemma refuse_when_Inl [simp]: "refuse_when b m = Inl e \<longleftrightarrow> b \<and> e = ConfigMessage m"
  by (auto simp: refuse_when_def)

lemma each_Inr [simp]: "each f xs = Inr u \<longleftrightarrow> (\<forall>x \<in> set xs. f x = Inr ())"
  by (induction xs) (auto simp: and_then_Inr_iff)

lemma check_that_iff [simp]: "check_that b e = Inr u \<longleftrightarrow> b" "check_that b e = Inl d \<longleftrightarrow> \<not> b \<and> d = e"
  by (auto simp: check_that_def)

lemma map_err_Inl_iff: "map_err g r = Inl e \<longleftrightarrow> (\<exists>d. r = Inl d \<and> e = g d)"
  by (cases r) auto

lemma validate_cors_origin_Inr:
  "validate_cors_origin L origin = Inr u \<longleftrightarrow>
     origin \<noteq> WILDCARD_ORIGIN \<and> origin \<noteq> [] \<and>
     (\<exists>url. cl_url L origin = Some url \<and> \<not> no_host url \<and> \<not> more_than_origin url \<and> canonical_origin url = origin)"
  by (auto simp: validate_cors_origin_def and_then_Inr_iff split: option.splits)

lemma validate_perimeter_Inr:
  "validate_perimeter_limits L s = Inr u \<longleftrightarrow>
     0 < max_request_body_bytes s \<and> 0 < request_timeout_seconds s \<and> 0 < max_concurrent_requests s \<and>
     max_concurrent_requests s \<le> MAX_CONCURRENT_REQUESTS \<and> 0 < rate_limit_capacity s \<and>
     0 < rate_limit_refill_per_second s \<and> 0 < rate_limit_max_buckets s \<and>
     (\<forall>origin \<in> set (cors_allowed_origins s). validate_cors_origin L origin = Inr ())"
  by (auto simp: validate_perimeter_limits_def and_then_Inr_iff)

lemma loaded_valid:
  "load_settings L d env = Inr s \<Longrightarrow> validate_perimeter_limits L s = Inr () \<and> 0 < http_port s \<and> trim (http_host s) \<noteq> []"
  by (auto simp: load_settings_def and_then_Inr_iff)

text \<open>A parsed URL's text is printable ASCII, which a header value may hold.\<close>

definition header_takes_origins :: "config_libs \<Rightarrow> (string \<Rightarrow> 'h option) \<Rightarrow> bool" where
  "header_takes_origins L header \<longleftrightarrow> (\<forall>t url. cl_url L t = Some url \<longrightarrow> header (canonical_origin url) \<noteq> None)"

lemma limits_built:
  assumes "validate_perimeter_limits L s = Inr ()" "header_takes_origins L header"
  shows "PerimeterLimits_new header b t c (cors_allowed_origins s) \<noteq> Inl e"
proof -
  have "\<exists>h. origin_check header origin = Inr h" if "origin \<in> set (cors_allowed_origins s)" for origin
  proof -
    have "validate_cors_origin L origin = Inr ()"
      using that assms(1) by (simp add: validate_perimeter_Inr)
    then obtain url where url: "cl_url L origin = Some url" "canonical_origin url = origin" "origin \<noteq> ''*''"
      by (auto simp: validate_cors_origin_Inr WILDCARD_ORIGIN_def)
    then obtain h where "header origin = Some h"
      using assms(2) unfolding header_takes_origins_def by (metis option.exhaust)
    then show ?thesis using url(3) by (simp add: origin_check_def)
  qed
  then have "map (origin_check header) (cors_allowed_origins s) =
      map Inr (map (projr \<circ> origin_check header) (cors_allowed_origins s))"
    by fastforce
  then have "collect_results (map (origin_check header) (cors_allowed_origins s)) =
      Inr (map (projr \<circ> origin_check header) (cors_allowed_origins s))"
    by (simp add: collect_results_Inr_iff)
  then show ?thesis by (simp add: PerimeterLimits_new_def)
qed

lemma read_overrides_error: "read_overrides i entries m = Inl e \<Longrightarrow> e \<noteq> BucketCeiling"
  by (induction entries arbitrary: i m) (auto split: option.splits if_splits)

text \<open>
  C28: once the settings have loaded, nothing the server builds from them can fail but a tier override: no origin is
  refused as a header value, no quota or ceiling is zero.
\<close>

theorem loaded_settings_build:
  assumes "start_server E = Inl e" "header_takes_origins (su_config E) (su_header E)"
  shows "e \<notin> range BuildingLimits \<union> range BuildingQuota \<union> {BuildingPolicy BucketCeiling}"
proof -
  have quota: "Quota_new c r = Inl q \<longleftrightarrow> (c = 0 \<or> r = 0) \<and> q = InvalidQuota" for c r q
    by (cases q) (auto simp: Quota_new_def)
  have policy: "RateLimitPolicy_new q n ts = Inl BucketCeiling \<longleftrightarrow> n = 0" for q n ts
    using read_overrides_error by (auto simp: RateLimitPolicy_new_def split: sum.splits)
  have limits: "e \<noteq> BuildingLimits o'" for o'
    using assms(1) limits_built[OF _ assms(2)] loaded_valid[of "su_config E" CONFIG_DIR "su_variables E"]
    by (auto simp: start_server_def and_then_Inl_iff map_err_Inl_iff)
  have "e \<noteq> BuildingQuota q" "e \<noteq> BuildingPolicy BucketCeiling" for q
    using assms(1) loaded_valid[of "su_config E" CONFIG_DIR "su_variables E"]
    by (auto simp: start_server_def and_then_Inl_iff map_err_Inl_iff quota policy validate_perimeter_Inr)
  then show ?thesis using limits by auto
qed

definition plain_libs :: config_libs where
  "plain_libs = \<lparr> cl_file = (\<lambda>_. Inr Map.empty),
     cl_merge = (\<lambda>ms k. fold (\<lambda>m acc. case m k of Some v \<Rightarrow> Some v | None \<Rightarrow> acc) ms None),
     cl_text = (\<lambda>v. case v of Text s \<Rightarrow> Inr s | _ \<Rightarrow> Inl (ConfigSource ''invalid type'')),
     cl_unsigned = (\<lambda>bound v. case v of Number n \<Rightarrow> if n \<le> bound then Inr n else Inl (ConfigSource ''out of range'')
       | _ \<Rightarrow> Inl (ConfigSource ''invalid type'')),
     cl_missing = ConfigSource,
     cl_url = (\<lambda>s. if s = ''postgres://db'' then Some \<lparr> pu_scheme = ''postgres'', pu_host = Some ''db'', pu_path = [],
         pu_query = None, pu_fragment = None, pu_username = [], pu_password = None, pu_text = s \<rparr>
       else if s = ''https://a.example'' then Some \<lparr> pu_scheme = ''https'', pu_host = Some ''a.example'', pu_path = ''/'',
         pu_query = None, pu_fragment = None, pu_username = [], pu_password = None, pu_text = s @ ''/'' \<rparr>
       else None) \<rparr>"

lemma plain_libs_ok: "layers_override plain_libs" "unsigned_bounded plain_libs"
  by (auto simp: layers_override_def unsigned_bounded_def plain_libs_def split: config_value.splits if_splits option.splits)

definition sample_variables :: layer where
  "sample_variables = [''database.url'' \<mapsto> Text ''postgres://db'', ''http.cors_allowed_origins'' \<mapsto> Text ''https://a.example'']"

definition sample_layer :: "(string \<times> config_value) list \<Rightarrow> layer" where
  "sample_layer defaults k = (case sample_variables k of Some v \<Rightarrow> Some v | None \<Rightarrow> map_of defaults k)"

lemma sample_base: "base_config plain_libs CONFIG_DIR sample_variables defaults = Inr (sample_layer defaults)"
  by (auto simp: base_config_def plain_libs_def sample_layer_def fun_eq_iff split: option.splits)

lemma sample_http_layer:
  "sample_layer http_defaults ''http.host'' = Some (Text ''127.0.0.1'')"
  "sample_layer http_defaults ''http.port'' = Some (Number 8080)"
  "sample_layer http_defaults ''http.shutdown_grace_seconds'' = Some (Number 30)"
  "sample_layer http_defaults ''http.max_request_body_bytes'' = Some (Number 1048576)"
  "sample_layer http_defaults ''http.request_timeout_seconds'' = Some (Number 30)"
  "sample_layer http_defaults ''http.max_concurrent_requests'' = Some (Number 256)"
  "sample_layer http_defaults ''http.rate_limit_capacity'' = Some (Number 60)"
  "sample_layer http_defaults ''http.rate_limit_refill_per_second'' = Some (Number 10)"
  "sample_layer http_defaults ''http.rate_limit_max_buckets'' = Some (Number 10000)"
  "sample_layer http_defaults ''http.rate_limit_tiers'' = Some (Text [])"
  "sample_layer http_defaults ''http.cors_allowed_origins'' = Some (Text ''https://a.example'')"
  "sample_layer database_defaults ''database.url'' = Some (Text ''postgres://db'')"
  "sample_layer database_defaults ''database.max_connections'' = Some (Number 10)"
  "sample_layer database_defaults ''database.acquire_timeout_seconds'' = Some (Number 5)"
  "sample_layer database_defaults ''database.statement_timeout_seconds'' = Some (Number 30)"
  by (simp_all add: sample_layer_def sample_variables_def http_defaults_def database_defaults_def)

lemma plain_decoders:
  "cl_text plain_libs (Text s) = Inr s" "n \<le> bound \<Longrightarrow> cl_unsigned plain_libs bound (Number n) = Inr n"
  by (simp_all add: plain_libs_def)

lemma sample_texts: "trim [] = []" "trim ''127.0.0.1'' = ''127.0.0.1''" "trim ''postgres://db'' = ''postgres://db''"
  "comma_separated [] = []" "comma_separated ''https://a.example'' = [''https://a.example'']"
  by code_simp+

lemma sample_origin: "validate_cors_origin plain_libs ''https://a.example'' = Inr ()"
  by code_simp

definition sample_http :: HttpSettings where
  "sample_http = \<lparr> http_host = ''127.0.0.1'', http_port = 8080, shutdown_grace_seconds = 30, max_request_body_bytes = 1048576,
     request_timeout_seconds = 30, max_concurrent_requests = 256, rate_limit_capacity = 60, rate_limit_refill_per_second = 10,
     rate_limit_max_buckets = 10000, rate_limit_tiers = [], cors_allowed_origins = [''https://a.example''] \<rparr>"

lemma sample_settings: "load_settings plain_libs CONFIG_DIR sample_variables = Inr sample_http"
  by (simp add: load_settings_def sample_base http_fields_def required_field_def sample_http_layer plain_decoders comma_list_def
      sample_texts sample_http_def validate_perimeter_limits_def sample_origin refuse_when_def u16_bound_def u32_bound_def
      u64_bound_def MAX_CONCURRENT_REQUESTS_def)

definition sample_database :: DatabaseSettings where
  "sample_database = \<lparr> db_url = ''postgres://db'', db_max_connections = 10, db_acquire_timeout_seconds = 5,
     db_statement_timeout_seconds = 30 \<rparr>"

lemma sample_database_settings: "load_database_settings plain_libs CONFIG_DIR sample_variables = Inr sample_database"
proof -
  have "validate_database_settings plain_libs sample_database = Inr ()"
    by code_simp
  then show ?thesis
    by (simp add: load_database_settings_def sample_base required_field_def sample_http_layer plain_decoders u32_bound_def u64_bound_def
        sample_database_def)
qed

definition sample_start :: "bool \<Rightarrow> string startup_env" where
  "sample_start bound = \<lparr> su_config = plain_libs, su_variables = sample_variables,
     su_driver = (\<lambda>_. None), su_header = Some, su_bind = (\<lambda>_. bound), su_local = True, su_handler = (\<lambda>_. True) \<rparr>"

lemma sample_started:
  "\<exists>st. start_server (sample_start bound) = (if bound then Inr st else Inl (Binding (bind_address sample_http)))"
  by (simp add: start_server_def sample_start_def sample_settings sample_database_settings pool_connect_def
      PerimeterLimits_new_def origin_check_def Quota_new_def RateLimitPolicy_new_def sample_http_def check_that_def)

theorem loaded_settings_build_witness:
  "\<exists>e. start_server (sample_start False) = Inl e \<and> e \<notin> range BuildingLimits \<union> range BuildingQuota \<union> {BuildingPolicy BucketCeiling}"
proof -
  have failed: "start_server (sample_start False) = Inl (Binding (bind_address sample_http))"
    using sample_started[of False] by simp
  then have "Binding (bind_address sample_http) \<notin> range BuildingLimits \<union> range BuildingQuota \<union> {BuildingPolicy BucketCeiling}"
    by (rule loaded_settings_build) (simp add: header_takes_origins_def sample_start_def)
  then show ?thesis using failed by blast
qed

text \<open>
  a server that has started shed nothing by construction: its semaphore can be built and admits someone, its
  body limit, deadline, quota and bucket ceiling are positive and its pool holds a connection.
\<close>

definition sound_start :: "'h started \<Rightarrow> bool" where
  "sound_start st \<longleftrightarrow>
     0 < max_concurrent (st_limits st) \<and> max_concurrent (st_limits st) \<le> MAX_CONCURRENT_REQUESTS \<and>
     0 < body_bytes (st_limits st) \<and> 0 < deadline_ms (st_limits st) \<and>
     0 < capacity (default_quota (st_policy st)) \<and> 0 < refill_per_second (default_quota (st_policy st)) \<and>
     0 < max_buckets (st_policy st) \<and> 0 < po_max_connections (st_pool st)"

theorem started_server_sound:
  assumes "start_server E = Inr st"
  shows "sound_start st"
proof -
  have policy: "RateLimitPolicy_new q n ts = Inr P \<Longrightarrow> default_quota P = q \<and> max_buckets P = n \<and> 0 < n" for q n ts P
    by (auto simp: RateLimitPolicy_new_def split: if_splits sum.splits)
  have quota: "Quota_new c r = Inr q \<Longrightarrow> q = \<lparr> capacity = c, refill_per_second = r \<rparr> \<and> 0 < c \<and> 0 < r" for c r q
    by (auto simp: Quota_new_def split: if_splits)
  have limits: "PerimeterLimits_new h b t c os = Inr l \<Longrightarrow> body_bytes l = b \<and> deadline_ms l = t \<and> max_concurrent l = c" for h b t c os l
    by (auto simp: PerimeterLimits_new_def and_then_Inr_iff)
  have database: "load_database_settings L dir env = Inr d \<Longrightarrow> 0 < db_max_connections d" for L dir env d
    by (auto simp: load_database_settings_def validate_database_settings_def Let_def and_then_Inr_iff split: option.splits)
  have pool: "pool_connect D u c a t = Inr po \<Longrightarrow> po_max_connections po = c" for D u c a t po
    by (auto simp: pool_connect_def Let_def split: option.splits)
  obtain s d quota where built: "load_settings (su_config E) CONFIG_DIR (su_variables E) = Inr s"
      "load_database_settings (su_config E) CONFIG_DIR (su_variables E) = Inr d"
      "pool_connect (su_driver E) (db_url d) (db_max_connections d) (db_acquire_timeout_seconds d)
         (db_statement_timeout_seconds d) = Inr (st_pool st)"
      "PerimeterLimits_new (su_header E) (max_request_body_bytes s) (request_timeout_seconds s * 1000)
         (max_concurrent_requests s) (cors_allowed_origins s) = Inr (st_limits st)"
      "Quota_new (rate_limit_capacity s) (rate_limit_refill_per_second s) = Inr quota"
      "RateLimitPolicy_new quota (rate_limit_max_buckets s) (rate_limit_tiers s) = Inr (st_policy st)"
    using assms by (auto simp: start_server_def and_then_Inr_iff)
  have "validate_perimeter_limits (su_config E) s = Inr ()"
    using loaded_valid[OF built(1)] by simp
  then show ?thesis
    using database[OF built(2)] pool[OF built(3)] limits[OF built(4)] quota[OF built(5)] policy[OF built(6)]
    by (simp add: sound_start_def validate_perimeter_Inr)
qed

theorem started_server_sound_witness: "\<exists>st. start_server (sample_start True) = Inr st \<and> sound_start st"
  using sample_started[of True] started_server_sound[of "sample_start True"] by auto

subsection \<open>Precedence\<close>

fun first_set :: "'a option list \<Rightarrow> 'a option" where
  "first_set [] = None"
| "first_set (v # vs) = (case v of Some x \<Rightarrow> Some x | None \<Rightarrow> first_set vs)"

text \<open>
  a setting is the environment's, else the override file's, else the defaults file's, else the built-in one,
  key by key.
\<close>

theorem setting_precedence:
  assumes "layers_override L" "base_config L directory environment defaults = Inr merged"
    "cl_file L (directory @ ''/defaults'') = Inr low" "cl_file L (directory @ ''/config'') = Inr high"
  shows "merged key = first_set [environment key, high key, low key, map_of defaults key]"
proof -
  have merge: "cl_merge L (ms @ [m]) k = (case m k of Some v \<Rightarrow> Some v | None \<Rightarrow> cl_merge L ms k)" "cl_merge L [] k = None" for ms m k
    using assms(1) by (simp_all add: layers_override_def)
  have "merged = cl_merge L ((([] @ [map_of defaults]) @ [low]) @ [high] @ [environment])"
    using assms(2-4) by (simp add: base_config_def)
  then have "merged = cl_merge L (((([] @ [map_of defaults]) @ [low]) @ [high]) @ [environment])"
    by simp
  then show ?thesis
    by (simp only: merge) (simp split: option.splits)
qed

theorem setting_precedence_witness:
  "sample_layer http_defaults ''http.port'' =
     first_set [sample_variables ''http.port'', None, None, map_of http_defaults ''http.port'']"
  using setting_precedence[OF plain_libs_ok(1) sample_base, of Map.empty Map.empty] by (simp add: plain_libs_def)

subsection \<open>Secrets\<close>

definition database_refusals :: "string list" where
  "database_refusals =
     [''database.url must be set to a PostgreSQL connection URL'', ''database.url is not a valid URL'',
      ''database.url must use a postgres:// or postgresql:// scheme'', ''database.url must name a host or a database'',
      ''database.max_connections must be greater than zero'', ''database.acquire_timeout_seconds must be greater than zero'',
      ''database.statement_timeout_seconds must be greater than zero'']"

text \<open>
  C29: whatever the connection URL is, a refusal of the database settings is one of seven fixed texts, so no part
  of the URL, its password included, can reach a diagnostic.
\<close>

theorem database_refusals_fixed:
  assumes "validate_database_settings L s = Inl e"
  shows "e \<in> ConfigMessage ` set database_refusals"
  using assms
  by (auto simp: validate_database_settings_def database_refusals_def and_then_Inl_iff split: option.splits)

theorem database_refusals_fixed_witness:
  "\<exists>e. validate_database_settings plain_libs (sample_database \<lparr> db_url := ''mysql://u:secret@db'' \<rparr>) = Inl e \<and>
     e \<in> ConfigMessage ` set database_refusals"
proof -
  have "validate_database_settings plain_libs (sample_database \<lparr> db_url := ''mysql://u:secret@db'' \<rparr>) =
      Inl (ConfigMessage ''database.url is not a valid URL'')"
    by code_simp
  then show ?thesis using database_refusals_fixed by blast
qed

text \<open>
  the server's pool reports a configuration error of the driver by a fixed text, whatever the driver rendered.
\<close>

theorem pool_configuration_scrubbed:
  assumes "driver \<lparr> po_url = url, po_max_connections = n, po_acquire_seconds = Some a,
      po_session = [(''statement_timeout'', milliseconds t), (''search_path'', [])] \<rparr> = Some (Configuration rendered)"
  shows "pool_connect driver url n a t =
    Inl (Database ''DATABASE_CONFIGURATION'' ''database.url could not be used as a PostgreSQL connection string'')"
  using assms by (simp add: pool_connect_def connection_error_def)

theorem pool_configuration_scrubbed_witness:
  "pool_connect (\<lambda>po. Some (Configuration (po_url po))) ''postgres://u:secret@db'' 1 1 1 =
     Inl (Database ''DATABASE_CONFIGURATION'' ''database.url could not be used as a PostgreSQL connection string'')"
  by (rule pool_configuration_scrubbed[where rendered = "''postgres://u:secret@db''"]) simp

text \<open>
  The ingestion store's pool has no such case: a driver that renders the connection string hands it on.
\<close>

lemma ingestion_connect_quotes_url:
  assumes "bounded_printable 1000 url = url"
  shows "ingestion_connect (\<lambda>po. Some (Configuration (po_url po))) url n w t = Inl (Database ''DATABASE_ERROR'' url)"
  using assms
  by (simp add: ingestion_connect_def plain_connection_error_def database_error_def database_code_def
      sanitize_database_message_def)

subsection \<open>Permits\<close>

text \<open>
  an import needs a connection for its transaction and one for its audit rows; the store admits at least one
  import and never more than half its connections, so admitted imports cannot exhaust the pool.
\<close>

theorem import_permits_fit_pool:
  assumes "ingestion_connect driver url n w t = Inr ip"
  shows "0 < ip_permits ip \<and> 2 * ip_permits ip \<le> po_max_connections (ip_pool ip)"
  using assms by (auto simp: ingestion_connect_def from_pool_def Let_def split: option.splits)

theorem import_permits_fit_pool_witness:
  "\<exists>ip. ingestion_connect (\<lambda>_. None) ''postgres://db'' 1 5 5 = Inr ip \<and>
     0 < ip_permits ip \<and> 2 * ip_permits ip \<le> po_max_connections (ip_pool ip)"
proof -
  have "ingestion_connect (\<lambda>_. None) ''postgres://db'' 1 5 5 = Inr (from_pool \<lparr> po_url = ''postgres://db'',
      po_max_connections = 2, po_acquire_seconds = None,
      po_session = [(''lock_timeout'', milliseconds 5), (''statement_timeout'', milliseconds 5)] \<rparr>)"
    by (simp add: ingestion_connect_def numeral_2_eq_2)
  then show ?thesis using import_permits_fit_pool by blast
qed

subsection \<open>The shutdown lifecycle\<close>

definition serve_ok :: "nat \<Rightarrow> server \<Rightarrow> bool" where
  "serve_ok grace s \<longleftrightarrow>
     (sv_accepting s \<or> is_draining (sv_shutdown s)) \<and>
     (sv_stage s = AwaitGrace \<longrightarrow> sv_since s \<le> sv_now s \<and> sv_now s \<le> sv_since s + grace \<and>
        \<not> (\<exists>n. GraceExpired n \<in> set (sv_log s))) \<and>
     (sv_stage s = AwaitFlush \<longrightarrow> sv_since s \<le> sv_now s \<and> sv_now s \<le> sv_since s + CANCELLED_FLUSH) \<and>
     (sv_stage s = AwaitDrain \<longrightarrow> sv_log s = []) \<and>
     (\<forall>e. sv_stage s = Returned (Inl e) \<longrightarrow> \<not> (\<exists>n. GraceExpired n \<in> set (sv_log s)))"

lemma draining_advance [simp]: "is_draining (begin_draining st)" "is_draining st \<Longrightarrow> is_draining (cancel st)"
  by (auto simp: is_draining_def begin_draining_def cancel_def advance_to_def)

lemma draining_requests [simp]: "is_draining (st \<lparr> in_flight := n \<rparr>) = is_draining st"
  by (simp add: is_draining_def)

lemma serve_ok_step: "serve_step grace s s' \<Longrightarrow> serve_ok grace s \<Longrightarrow> serve_ok grace s'"
  by (erule serve_stepE) (auto simp: serve_ok_def deadline_of_def split: serve_stage.splits)

lemma serve_run_ok: "serve_run grace s \<Longrightarrow> serve_ok grace s"
proof (induction rule: serve_run.induct)
  case start
  then show ?case by (simp add: serve_ok_def serve_start_def)
next
  case (move s s')
  then show ?case using serve_ok_step by blast
qed

text \<open>
  the server stops accepting only after readiness reports that it drains: a load balancer that polls is refused
  by a process that still answers.
\<close>

theorem drains_before_refusing:
  assumes "serve_run grace s" "\<not> sv_accepting s"
  shows "is_draining (sv_shutdown s)"
  using serve_run_ok[OF assms(1)] assms(2) by (simp add: serve_ok_def)

definition stopped_accepting :: server where
  "stopped_accepting = serve_start \<lparr> sv_shutdown := begin_draining ShutdownState_new, sv_accepting := False \<rparr>"

lemma stopped_accepting_runs: "serve_run 30000 stopped_accepting"
proof -
  have "serve_run 30000 (serve_start \<lparr> sv_shutdown := begin_draining (sv_shutdown serve_start) \<rparr>)"
    by (rule serve_run.move[OF serve_run.start]) (rule serve_step.Signal; simp add: serve_start_def)
  then have "serve_run 30000 (serve_start \<lparr> sv_shutdown := begin_draining (sv_shutdown serve_start), sv_accepting := False \<rparr>)"
    by (rule serve_run.move) (use serve_step.StopAccepting[of "serve_start \<lparr> sv_shutdown := begin_draining (sv_shutdown serve_start) \<rparr>"]
      in simp)
  then show ?thesis by (simp add: stopped_accepting_def serve_start_def)
qed

theorem drains_before_refusing_witness:
  "serve_run 30000 stopped_accepting \<and> \<not> sv_accepting stopped_accepting \<and> is_draining (sv_shutdown stopped_accepting)"
  using drains_before_refusing[OF stopped_accepting_runs] stopped_accepting_runs
  by (simp add: stopped_accepting_def)

text \<open>
  an expired drain window is a completed shutdown: \<open>serve\<close> fails only when the server itself did, before the
  window was over.
\<close>

theorem expired_window_is_no_failure:
  assumes "serve_run grace s" "GraceExpired n \<in> set (sv_log s)"
  shows "sv_stage s \<noteq> Returned (Inl e)"
  using serve_run_ok[OF assms(1)] assms(2) by (auto simp: serve_ok_def)

lemma draining_in_flight [simp]: "in_flight (begin_draining st) = in_flight st" "in_flight ShutdownState_new = 0"
  by (simp_all add: begin_draining_def ShutdownState_new_def)

definition seen_drain :: server where
  "seen_drain = serve_start \<lparr> sv_shutdown := begin_draining ShutdownState_new, sv_stage := AwaitGrace,
     sv_log := [DrainingInFlight 0] \<rparr>"

definition out_of_grace :: server where
  "out_of_grace = seen_drain \<lparr> sv_shutdown := cancel (begin_draining ShutdownState_new), sv_stage := AwaitFlush,
     sv_log := [DrainingInFlight 0, GraceExpired 0] \<rparr>"

lemma seen_drain_runs: "serve_run 0 seen_drain"
proof -
  let ?s = "serve_start \<lparr> sv_shutdown := begin_draining (sv_shutdown serve_start) \<rparr>"
  have "serve_run 0 ?s"
    by (rule serve_run.move[OF serve_run.start]) (rule serve_step.Signal; simp add: serve_start_def)
  then have "serve_run 0 (?s \<lparr> sv_stage := AwaitGrace, sv_since := sv_now ?s,
      sv_log := sv_log ?s @ [DrainingInFlight (in_flight (sv_shutdown ?s))] \<rparr>)"
    by (rule serve_run.move) (rule serve_step.DrainSeen; simp add: serve_start_def begin_draining_def advance_to_def
        reaches_def ShutdownState_new_def less_Phase_def less_eq_Phase_def)
  then show ?thesis
    by (simp add: seen_drain_def serve_start_def)
qed

lemma out_of_grace_step: "serve_step 0 seen_drain out_of_grace"
  using serve_step.GraceOver[of seen_drain 0]
  by (simp add: seen_drain_def out_of_grace_def serve_start_def)

theorem expired_window_is_no_failure_witness:
  "serve_run 0 out_of_grace \<and> GraceExpired 0 \<in> set (sv_log out_of_grace) \<and> sv_stage out_of_grace \<noteq> Returned (Inl ''x'')"
proof -
  have "serve_run 0 out_of_grace" "GraceExpired 0 \<in> set (sv_log out_of_grace)"
    using serve_run.move[OF seen_drain_runs out_of_grace_step] by (simp_all add: out_of_grace_def)
  then show ?thesis using expired_window_is_no_failure by blast
qed

text \<open>The time by which \<open>serve\<close> has returned, once it has seen the drain.\<close>

definition return_by :: "nat \<Rightarrow> server \<Rightarrow> nat option" where
  "return_by grace s = (case sv_stage s of AwaitGrace \<Rightarrow> Some (sv_since s + grace + CANCELLED_FLUSH)
     | AwaitFlush \<Rightarrow> Some (sv_since s + CANCELLED_FLUSH) | _ \<Rightarrow> None)"

lemma return_by_step:
  assumes "serve_step grace s s'" "serve_ok grace s" "return_by grace s = Some t" "t \<le> limit"
  shows "(\<exists>r. sv_stage s' = Returned r) \<or> (\<exists>t'. return_by grace s' = Some t' \<and> t' \<le> limit)"
  using assms by (cases rule: serve_stepE) (auto simp: return_by_def serve_ok_def split: serve_stage.splits)

lemma returned_step: "serve_step grace s s' \<Longrightarrow> sv_stage s = Returned r \<Longrightarrow> sv_stage s' = Returned r"
  by (erule serve_stepE) auto

lemma return_by_path:
  assumes "(serve_step grace)\<^sup>*\<^sup>* s s'" "serve_run grace s" "return_by grace s = Some t"
  shows "serve_run grace s' \<and> ((\<exists>r. sv_stage s' = Returned r) \<or> (\<exists>t'. return_by grace s' = Some t' \<and> t' \<le> t))"
  using assms(1)
proof (induction rule: rtranclp_induct)
  case base
  then show ?case using assms(2,3) by simp
next
  case (step a b)
  then have "serve_run grace b" using serve_run.move by blast
  then show ?case
    using step return_by_step[OF step(2) serve_run_ok] returned_step[OF step(2)] by blast
qed

text \<open>
  C26: once the drain is seen, \<open>serve\<close> has returned within the grace and one second, whatever its clients do.
\<close>

theorem shutdown_window_bounded:
  assumes "serve_run grace s" "sv_stage s = AwaitGrace" "(serve_step grace)\<^sup>*\<^sup>* s s'"
    "sv_now s' > sv_since s + grace + CANCELLED_FLUSH"
  shows "\<exists>r. sv_stage s' = Returned r"
proof -
  have path: "serve_run grace s'"
      "(\<exists>r. sv_stage s' = Returned r) \<or> (\<exists>t'. return_by grace s' = Some t' \<and> t' \<le> sv_since s + grace + CANCELLED_FLUSH)"
    using return_by_path[OF assms(3,1)] assms(2) by (simp_all add: return_by_def)
  then show ?thesis
    using serve_run_ok[OF path(1)] assms(4) by (auto simp: return_by_def serve_ok_def split: serve_stage.splits)
qed

lemma returned_ticks:
  "sv_stage s = Returned r \<Longrightarrow> (serve_step grace)\<^sup>*\<^sup>* s (s \<lparr> sv_now := sv_now s + n \<rparr>)"
proof (induction n)
  case (Suc n)
  have "serve_step grace (s \<lparr> sv_now := sv_now s + n \<rparr>) (s \<lparr> sv_now := sv_now s + n, sv_now := Suc (sv_now s + n) \<rparr>)"
    using serve_step.Tick[of grace "s \<lparr> sv_now := sv_now s + n \<rparr>"] Suc.prems by (simp add: deadline_of_def)
  then show ?case using Suc by (simp add: rtranclp.rtrancl_into_rtrancl)
qed simp

theorem shutdown_window_bounded_witness:
  "\<exists>s'. (serve_step 0)\<^sup>*\<^sup>* seen_drain s' \<and> sv_now s' > sv_since seen_drain + 0 + CANCELLED_FLUSH \<and>
     (\<exists>r. sv_stage s' = Returned r)"
proof -
  let ?r = "out_of_grace \<lparr> sv_stage := Returned (Inr ()) \<rparr>"
  let ?s = "?r \<lparr> sv_now := sv_now ?r + 1001 \<rparr>"
  have "serve_step 0 out_of_grace ?r"
    using serve_step.Flushed[of out_of_grace] by (simp add: out_of_grace_def)
  then have "(serve_step 0)\<^sup>*\<^sup>* seen_drain ?r"
    using out_of_grace_step by auto
  then have path: "(serve_step 0)\<^sup>*\<^sup>* seen_drain ?s"
    using returned_ticks[of ?r "Inr ()" 0 1001] by (simp add: rtranclp_trans)
  have late: "sv_now ?s > sv_since seen_drain + 0 + CANCELLED_FLUSH"
    by (simp add: out_of_grace_def seen_drain_def serve_start_def CANCELLED_FLUSH_def)
  have "\<exists>r. sv_stage ?s = Returned r"
    by (rule shutdown_window_bounded[OF seen_drain_runs _ path late]) (simp add: seen_drain_def)
  then show ?thesis using path late by blast
qed

end
