(* ===== verification/Ingest_Cli.thy ===== *)
theory Ingest_Cli
  imports Pools Operator_Reads
begin

text \<open>
  \<open>apps/ingest\<close>: the command line that composes configuration, capture, adapter, store and curation, renders
  what they answer and turns every failure into an exit code. Argument parsing (\<open>clap\<close>), JSON text (\<open>serde_json\<close>)
  and the operating system's files are parameters; the world is the database and what the process writes.
\<close>

subsection \<open>Commands\<close>

datatype OutputFormat = Human | JsonFormat

datatype CurateCommand =
    CurateList "int option" "string option" nat OutputFormat
  | CurateAccept int bool OutputFormat
  | CurateReject int OutputFormat
  | CurateRefresh OutputFormat

datatype Command =
    ValidateInput string OutputFormat
  | ImportInput string OutputFormat "string option"
  | StatusOf "int option" "string option" nat OutputFormat
  | Curate CurateCommand

definition parse_sha256 :: "string \<Rightarrow> string + string" where
  "parse_sha256 value =
     (if length value = 64 \<and> list_all is_ascii_hexdigit value then Inr (to_ascii_lowercase value)
      else Inl ''SHA-256 must contain exactly 64 hexadecimal characters'')"

subsection \<open>World\<close>

record cli_world =
  cw_store :: import_store
  cw_tables :: curation_state
  cw_files :: "string \<rightharpoonup> string"
  cw_out :: "string list"
  cw_err :: "string list"

record CliFailure =
  exit_code :: nat
  failure_text :: string

text \<open>What can be rendered as JSON.\<close>

datatype cli_document =
    ValidationDocument SourceDescriptor ArtifactDescriptor nat nat
  | ReportDocument ImportReport
  | RunsDocument "RunStatus list"
  | PendingDocument "PendingAssertion list"
  | CurationDocument CurationOutcome
  | RefreshDocument RefreshOutcome

datatype report_stage = CreateReport | WriteNewline | PersistReport

record 'u cli_env =
  ce_config :: config_libs
  ce_variables :: layer
  ce_driver :: driver
  ce_db :: db_env
  ce_curation :: curation_env
  ce_reads :: "status_read \<Rightarrow> PersistenceError option"
  ce_started :: "int \<Rightarrow> int"
  ce_rank :: "string \<Rightarrow> nat"
  ce_describe :: "assertion \<Rightarrow> descriptive"
  ce_libs :: "'u libs"
  ce_custom :: "SourceError \<Rightarrow> string"
  ce_parse :: "string \<Rightarrow> planephd_document"
  ce_reopen :: "nat \<Rightarrow> ArtifactError option"
  ce_spawn :: "string option"
  ce_stdin :: "read_result list"
  ce_opened :: "string \<Rightarrow> string + read_result list"
  ce_file_name :: "string \<Rightarrow> string option"
  ce_create :: "string option \<Rightarrow> string option"
  ce_write :: "nat \<Rightarrow> string option"
  ce_flush :: "string option"
  ce_now :: int
  ce_lock_timeout :: PersistenceError
  ce_json :: "cli_document \<Rightarrow> string + string"
  ce_report_fault :: "report_stage \<Rightarrow> string option"

type_synonym 'a cli = "cli_world \<Rightarrow> cli_world \<times> (CliFailure + 'a)"

definition cli_return :: "'a \<Rightarrow> 'a cli" where
  "cli_return x w = (w, Inr x)"

definition cli_fail :: "nat \<Rightarrow> string \<Rightarrow> 'a cli" where
  "cli_fail code msg w = (w, Inl \<lparr> exit_code = code, failure_text = msg \<rparr>)"

definition cli_bind :: "'a cli \<Rightarrow> ('a \<Rightarrow> 'b cli) \<Rightarrow> 'b cli" where
  "cli_bind m f w = (case m w of (w', Inl e) \<Rightarrow> (w', Inl e) | (w', Inr x) \<Rightarrow> f x w')"

definition cli_print :: "string \<Rightarrow> unit cli" where
  "cli_print line w = (w \<lparr> cw_out := cw_out w @ [line] \<rparr>, Inr ())"

definition cli_eprint :: "string \<Rightarrow> unit cli" where
  "cli_eprint line w = (w \<lparr> cw_err := cw_err w @ [line] \<rparr>, Inr ())"

fun cli_each :: "('a \<Rightarrow> unit cli) \<Rightarrow> 'a list \<Rightarrow> unit cli" where
  "cli_each f [] = cli_return ()"
| "cli_each f (x # xs) = cli_bind (f x) (\<lambda>_. cli_each f xs)"

definition cli_lift :: "('e \<Rightarrow> 'b cli) \<Rightarrow> 'e + 'b \<Rightarrow> 'b cli" where
  "cli_lift failed r = (case r of Inl e \<Rightarrow> failed e | Inr x \<Rightarrow> cli_return x)"

subsection \<open>Failures\<close>

fun artifact_error_text :: "ArtifactError \<Rightarrow> string" where
  "artifact_error_text (OpenFailed locator e) = ''could not open input '' @ locator @ '': '' @ e"
| "artifact_error_text (ReadFailed e) = ''could not read input: '' @ e"
| "artifact_error_text (TemporaryFile e) = ''could not create or write the secure temporary artifact: '' @ e"
| "artifact_error_text (InputTooLarge n) = ''input exceeds configured limit of '' @ show_nat n @ '' bytes''"

fun source_error_text :: "SourceError \<Rightarrow> string" where
  "source_error_text (Artifact e) = artifact_error_text e"
| "source_error_text (Json e) = ''invalid PlanePHD JSON: '' @ e"
| "source_error_text EmptyDocument = ''PlanePHD document contains no aircraft records''"
| "source_error_text (Validation _) = ''PlanePHD validation failed''"
| "source_error_text (ParserThread e) = ''could not start parser thread: '' @ e"
| "source_error_text ConsumerClosed = ''record consumer closed''"

fun curation_error_text :: "CurationError \<Rightarrow> string" where
  "curation_error_text (UnknownAssertion i) = ''assertion '' @ show_int i @ '' does not exist''"
| "curation_error_text (AlreadyDecided i status) = ''assertion '' @ show_int i @ '' is already '' @ status"
| "curation_error_text (CurationConflict field i) =
     ''field '' @ field @ '' already has an accepted assertion ('' @ show_int i @ '')''"
| "curation_error_text (SnapshotConflict ty i) =
     ''variant already has a canonical '' @ ty @ '' snapshot ('' @ show_int i @ ''); withdraw it before accepting this one''"
| "curation_error_text (ValueMismatch i field asserted stored) =
     ''assertion '' @ show_int i @ '' asserts '' @ asserted @ '' but '' @ field @ '' stores '' @ stored
       @ ''; accepting it would publish a different value''"
| "curation_error_text (CurationPersistence e) = persistence_text e"

fun source_exit_code :: "SourceError \<Rightarrow> nat" where
  "source_exit_code (Artifact _) = 3"
| "source_exit_code (Json _) = 4"
| "source_exit_code EmptyDocument = 4"
| "source_exit_code (Validation _) = 4"
| "source_exit_code (ParserThread _) = 7"
| "source_exit_code ConsumerClosed = 7"

text \<open>\<open>source_failure\<close>: the errors of a refused document go to standard error, one line each.\<close>

definition source_failure :: "SourceError \<Rightarrow> 'a cli" where
  "source_failure e =
     cli_bind (case e of
         Validation issues \<Rightarrow> cli_each (\<lambda>i. cli_eprint (issue_code i @ '' at '' @ issue_field_path i @ '': '' @ issue_message i))
           (filter is_error issues)
       | _ \<Rightarrow> cli_return ()) (\<lambda>_. cli_fail (source_exit_code e) (source_error_text e))"

fun import_exit_code :: "ImportError \<Rightarrow> nat" where
  "import_exit_code AlreadyRunning = 5"
| "import_exit_code (Input _) = 4"
| "import_exit_code (Persistence _) = 6"
| "import_exit_code (ParserConsistency _ _) = 7"
| "import_exit_code (WarningCountMismatch _ _) = 7"
| "import_exit_code ParserRecordKeysMismatch = 7"

definition import_failure :: "ImportError \<Rightarrow> 'a cli" where
  "import_failure e = cli_fail (import_exit_code e) (import_error_text e)"

fun curation_exit_code :: "CurationError \<Rightarrow> nat" where
  "curation_exit_code (CurationPersistence _) = 6"
| "curation_exit_code _ = 8"

definition curation_failure :: "CurationError \<Rightarrow> 'a cli" where
  "curation_failure e = cli_fail (curation_exit_code e) (curation_error_text e)"

definition persistence_failure :: "PersistenceError \<Rightarrow> 'a cli" where
  "persistence_failure e = cli_fail 6 (persistence_text e)"

text \<open>A failure with a context is displayed as the context.\<close>

definition config_failure :: "ConfigError \<Rightarrow> 'a cli" where
  "config_failure e = cli_fail 2 ''invalid ingestion configuration''"

subsection \<open>Rendering\<close>

definition render_json :: "'u cli_env \<Rightarrow> cli_document \<Rightarrow> unit cli" where
  "render_json E d = (case ce_json E d of Inl e \<Rightarrow> cli_fail 7 e | Inr t \<Rightarrow> cli_print t)"

fun decision_name :: "Decision \<Rightarrow> string" where
  "decision_name DecAccepted = ''Accepted''"
| "decision_name DecRejected = ''Rejected''"

fun status_debug :: "ImportStatus \<Rightarrow> string" where
  "status_debug Received = ''Received''"
| "status_debug Importing = ''Importing''"
| "status_debug Succeeded = ''Succeeded''"
| "status_debug ValidationFailed = ''ValidationFailed''"
| "status_debug Failed = ''Failed''"

definition or_else :: "string option \<Rightarrow> string \<Rightarrow> string" where
  "or_else v d = (case v of Some s \<Rightarrow> s | None \<Rightarrow> d)"

definition pending_line :: "PendingAssertion \<Rightarrow> string" where
  "pending_line a =
     show_int (pa_assertion_id a) @ '' '' @ or_else (pa_entity_label a) (pa_entity_type_code a) @ '' '' @ pa_field_name a
       @ '' = '' @ or_else (pa_raw_value a) ''-'' @ '' '' @ or_else (pa_raw_unit a) [] @ '' (''
       @ or_else (pa_source_slug a) ''unknown source'' @ '')''"

definition render_pending :: "'u cli_env \<Rightarrow> OutputFormat \<Rightarrow> PendingAssertion list \<Rightarrow> unit cli" where
  "render_pending E fmt ps =
     (case fmt of
        JsonFormat \<Rightarrow> render_json E (PendingDocument ps)
      | Human \<Rightarrow> cli_bind (if ps = [] then cli_print ''No assertions are awaiting curation.'' else cli_return ())
          (\<lambda>_. cli_each (cli_print \<circ> pending_line) ps))"

definition render_curation :: "'u cli_env \<Rightarrow> OutputFormat \<Rightarrow> CurationOutcome \<Rightarrow> unit cli" where
  "render_curation E fmt co =
     (case fmt of
        JsonFormat \<Rightarrow> render_json E (CurationDocument co)
      | Human \<Rightarrow> cli_print (''assertion '' @ show_int (co_assertion_id co) @ '' '' @ decision_name (co_decision co)
          @ '': measurement canonical '' @ bool_text (measurement_canonicalized co) @ '', ''
          @ show_nat (flags_resolved co) @ '' flag(s) resolved, read model ''
          @ (if read_model_refreshed co then ''refreshed''
             else if read_model_refresh_pending co then ''stale, refresh queued'' else ''unchanged'')))"

definition render_refresh :: "'u cli_env \<Rightarrow> OutputFormat \<Rightarrow> RefreshOutcome \<Rightarrow> unit cli" where
  "render_refresh E fmt ro =
     (case fmt of
        JsonFormat \<Rightarrow> render_json E (RefreshDocument ro)
      | Human \<Rightarrow> cli_print (if ro_refreshed ro
          then ''read model refreshed, '' @ show_nat (requests_completed ro) @ '' outstanding request(s) closed''
          else ''read model is current; no refresh was outstanding''))"

definition render_validate :: "'u cli_env \<Rightarrow> OutputFormat \<Rightarrow> ArtifactDescriptor \<Rightarrow> PreflightSummary \<Rightarrow> unit cli" where
  "render_validate E fmt artifact pre =
     (case fmt of
        JsonFormat \<Rightarrow> render_json E (ValidationDocument planephd_descriptor artifact (pf_record_count pre) (pf_warning_count pre))
      | Human \<Rightarrow> cli_print (''valid: '' @ show_nat (pf_record_count pre) @ '' records, '' @ show_nat (pf_warning_count pre)
          @ '' warnings, sha256 '' @ content_sha256 artifact))"

definition render_import :: "'u cli_env \<Rightarrow> OutputFormat \<Rightarrow> ImportReport \<Rightarrow> unit cli" where
  "render_import E fmt rep =
     (case fmt of
        JsonFormat \<Rightarrow> render_json E (ReportDocument rep)
      | Human \<Rightarrow> cli_print (if already_imported rep
          then ''already imported: run '' @ show_int (rep_run_id rep) @ '', '' @ show_nat (rep_promoted_records rep)
            @ '' promoted, '' @ show_nat (rep_flagged_records rep) @ '' flagged, sha256 '' @ rep_content_sha256 rep
          else ''imported: run '' @ show_int (rep_run_id rep) @ '', attempt '' @ show_int (rep_attempt_id rep) @ '', ''
            @ show_nat (rep_promoted_records rep) @ '' promoted, '' @ show_nat (rep_flagged_records rep) @ '' flagged, ''
            @ show_nat (rep_warning_count rep) @ '' warnings''))"

definition failure_line :: "string \<Rightarrow> (string \<times> string) option \<Rightarrow> unit cli" where
  "failure_line indent f = (case f of None \<Rightarrow> cli_return ()
     | Some (code, msg) \<Rightarrow> cli_print (indent @ ''failure '' @ code @ '': '' @ msg))"

definition render_attempt :: "AttemptStatus \<Rightarrow> unit cli" where
  "render_attempt a =
     cli_bind (cli_print (''  attempt '' @ show_int (at_attempt_number a) @ '' ('' @ show_int (at_attempt_id a) @ '') ''
       @ status_debug (at_status a) @ '': '' @ show_nat (at_promoted_records a) @ '' promoted, ''
       @ show_nat (at_flagged_records a) @ '' flagged, '' @ show_nat (at_warning_count a) @ '' warnings''))
       (\<lambda>_. failure_line ''    '' (at_failure a))"

definition render_run :: "RunStatus \<Rightarrow> unit cli" where
  "render_run s =
     cli_bind (cli_print (''run '' @ show_int (rs_run_id s) @ '' '' @ status_debug (rs_status s) @ '': ''
       @ show_nat (rs_promoted_records s) @ '' promoted, '' @ show_nat (rs_flagged_records s) @ '' flagged, ''
       @ show_nat (rs_warning_count s) @ '' warnings ('' @ rs_content_sha256 s @ '')''))
     (\<lambda>_. cli_bind (failure_line ''  '' (rs_failure s)) (\<lambda>_. cli_each render_attempt (rs_attempts s)))"

definition render_status :: "'u cli_env \<Rightarrow> OutputFormat \<Rightarrow> RunStatus list \<Rightarrow> unit cli" where
  "render_status E fmt statuses =
     (case fmt of
        JsonFormat \<Rightarrow> render_json E (RunsDocument statuses)
      | Human \<Rightarrow> cli_bind (if statuses = [] then cli_print ''No ingestion runs found.'' else cli_return ())
          (\<lambda>_. cli_each render_run statuses))"

subsection \<open>Commands at work\<close>

text \<open>\<open>capture\<close>: a dash is standard input.\<close>

definition cli_capture :: "'u cli_env \<Rightarrow> string \<Rightarrow> nat \<Rightarrow> string option \<Rightarrow> ArtifactError + InputArtifact" where
  "cli_capture E input max_bytes temp_dir =
     (if input = ''-''
      then capture_stdin (sha256 (ce_libs E)) (ce_create E temp_dir) (ce_write E) (ce_flush E) (ce_now E) (ce_stdin E) max_bytes
      else capture_path (sha256 (ce_libs E)) (ce_create E temp_dir) (ce_write E) (ce_flush E) (ce_now E) (ce_file_name E input)
        (ce_opened E input) max_bytes)"

definition artifact_failure :: "ArtifactError \<Rightarrow> 'a cli" where
  "artifact_failure e = cli_fail 3 (artifact_error_text e)"

text \<open>The artifact is opened for the preflight (0) and for the records (1).\<close>

definition reopened :: "'u cli_env \<Rightarrow> nat \<Rightarrow> InputArtifact \<Rightarrow> ArtifactError + planephd_document" where
  "reopened E n art = (case ce_reopen E n of Some e \<Rightarrow> Inl e | None \<Rightarrow> Inr (ce_parse E (art_file art)))"

definition cli_preflight :: "'u cli_env \<Rightarrow> InputArtifact \<Rightarrow> SourceError + PreflightSummary" where
  "cli_preflight E art = preflight (ce_libs E) (ce_custom E) (reopened E 0 art)"

definition cli_validate :: "'u cli_env \<Rightarrow> string \<Rightarrow> OutputFormat \<Rightarrow> unit cli" where
  "cli_validate E input fmt =
     cli_bind (cli_lift config_failure (load_artifact_settings (ce_config E) (ce_variables E))) (\<lambda>s.
     cli_bind (cli_lift artifact_failure (cli_capture E input (ar_max_input_bytes s) (ar_temp_dir s))) (\<lambda>art.
     cli_bind (cli_lift source_failure (cli_preflight E art)) (\<lambda>pre.
     render_validate E fmt (art_descriptor art) pre)))"

definition connect_store :: "'u cli_env \<Rightarrow> IngestSettings \<Rightarrow> PersistenceError + ingestion_pool" where
  "connect_store E s =
     ingestion_connect (ce_driver E) (in_database_url s) (in_max_connections s) (in_lock_timeout_seconds s)
       (in_statement_timeout_seconds s)"

text \<open>A refused document is recorded as such when the store can be reached; a failure to do so is only printed.\<close>

definition audit_refusal :: "'u cli_env \<Rightarrow> IngestSettings \<Rightarrow> InputArtifact \<Rightarrow> SourceError \<Rightarrow> unit cli" where
  "audit_refusal E s art e w =
     (case connect_store E s of
        Inl p \<Rightarrow> cli_eprint (''failed to connect for validation audit: '' @ persistence_text p) w
      | Inr _ \<Rightarrow>
          (case record_validation_failure (ce_db E) (cw_store w) planephd_descriptor (art_descriptor art)
              (source_error_code e) (source_error_text e) (ce_lock_timeout E) of
             (st, Inl p) \<Rightarrow> cli_eprint (''failed to persist validation audit: '' @ persistence_text p) (w \<lparr> cw_store := st \<rparr>)
           | (st, Inr _) \<Rightarrow> (w \<lparr> cw_store := st \<rparr>, Inr ())))"

definition import_step_of :: "'u cli_env \<Rightarrow> ImportRequest \<Rightarrow> message list \<Rightarrow> ImportReport cli" where
  "import_step_of E req reader w =
     (case import_records (sha256 (ce_libs E)) (sqlx_store (ce_db E)) (cw_store w) req reader of
        (st, Inl e) \<Rightarrow> import_failure e (w \<lparr> cw_store := st \<rparr>)
      | (st, Inr rep) \<Rightarrow> (w \<lparr> cw_store := st \<rparr>, Inr rep))"

text \<open>\<open>write_report\<close>: a temporary file beside the target, renamed over it.\<close>

definition write_report :: "'u cli_env \<Rightarrow> string \<Rightarrow> ImportReport \<Rightarrow> unit cli" where
  "write_report E path rep w =
     (case ce_report_fault E CreateReport of
        Some e \<Rightarrow> cli_fail 3 ''could not create temporary report'' w
      | None \<Rightarrow>
          (case ce_json E (ReportDocument rep) of
             Inl e \<Rightarrow> cli_fail 7 e w
           | Inr t \<Rightarrow>
               (case ce_report_fault E WriteNewline of
                  Some e \<Rightarrow> cli_fail 3 e w
                | None \<Rightarrow>
                    (case ce_report_fault E PersistReport of
                       Some e \<Rightarrow> cli_fail 3 ''could not atomically persist report'' w
                     | None \<Rightarrow> (w \<lparr> cw_files := (cw_files w)(path \<mapsto> t @ [CHR 0x0A]) \<rparr>, Inr ())))))"

definition cli_request :: "InputArtifact \<Rightarrow> PreflightSummary \<Rightarrow> ImportRequest" where
  "cli_request art pre = \<lparr> req_source = planephd_descriptor, req_artifact = art_descriptor art, req_preflight = pre \<rparr>"

definition import_accepted ::
  "'u cli_env \<Rightarrow> IngestSettings \<Rightarrow> InputArtifact \<Rightarrow> PreflightSummary \<Rightarrow> ImportReport cli" where
  "import_accepted E s art pre =
     cli_bind (cli_lift persistence_failure (connect_store E s)) (\<lambda>_.
     cli_bind (cli_lift source_failure (open_records (ce_libs E) (ce_custom E) source_error_text None (reopened E 1 art) (ce_spawn E)))
       (import_step_of E (cli_request art pre)))"

definition cli_import :: "'u cli_env \<Rightarrow> string \<Rightarrow> OutputFormat \<Rightarrow> string option \<Rightarrow> unit cli" where
  "cli_import E input fmt report =
     cli_bind (cli_lift config_failure (load_ingest_settings (ce_config E) (ce_variables E))) (\<lambda>s.
     cli_bind (cli_lift artifact_failure (cli_capture E input (in_max_input_bytes s) (in_temp_dir s))) (\<lambda>art.
     cli_bind (case cli_preflight E art of
         Inl e \<Rightarrow> cli_bind (audit_refusal E s art e) (\<lambda>_. source_failure e)
       | Inr pre \<Rightarrow> import_accepted E s art pre) (\<lambda>rep.
     cli_bind (case report of Some path \<Rightarrow> write_report E path rep | None \<Rightarrow> cli_return ()) (\<lambda>_.
     render_import E fmt rep))))"

definition cli_status :: "'u cli_env \<Rightarrow> int option \<Rightarrow> string option \<Rightarrow> nat \<Rightarrow> OutputFormat \<Rightarrow> unit cli" where
  "cli_status E run hash n fmt =
     cli_bind (cli_lift config_failure (load_ingest_settings (ce_config E) (ce_variables E))) (\<lambda>s.
     cli_bind (cli_lift persistence_failure (connect_store E s)) (\<lambda>_.
     (\<lambda>w. cli_bind (cli_lift persistence_failure (import_status (ce_reads E) (ce_started E)
         \<lparr> sf_run_id = run, sf_content_sha256 = hash, sf_limit = n \<rparr> (cw_store w) (cw_store w))) (render_status E fmt) w)))"

text \<open>A curation call answers from and changes the curated tables.\<close>

definition curation_step ::
  "(curation_state \<Rightarrow> curation_state \<times> ('e + 'a)) \<Rightarrow> ('e \<Rightarrow> 'a cli) \<Rightarrow> 'a cli" where
  "curation_step f failed w = (case f (cw_tables w) of (st, r) \<Rightarrow> cli_lift failed r (w \<lparr> cw_tables := st \<rparr>))"

fun curate_command :: "'u cli_env \<Rightarrow> CurateCommand \<Rightarrow> unit cli" where
  "curate_command E (CurateList entity name n fmt) =
     cli_bind (curation_step (\<lambda>st. (st, pending (ce_curation E) (ce_rank E) (ce_describe E)
         \<lparr> pf_entity_id = entity, pf_field_name = name, pf_limit = n \<rparr> st)) persistence_failure) (render_pending E fmt)"
| "curate_command E (CurateAccept i deferred fmt) =
     cli_bind (curation_step (\<lambda>st. if deferred then accept_deferring_refresh (ce_curation E) st i else accept (ce_curation E) st i)
       curation_failure) (render_curation E fmt)"
| "curate_command E (CurateReject i fmt) =
     cli_bind (curation_step (\<lambda>st. reject (ce_curation E) st i) curation_failure) (render_curation E fmt)"
| "curate_command E (CurateRefresh fmt) =
     cli_bind (curation_step (refresh_and_settle (ce_curation E)) persistence_failure) (render_refresh E fmt)"

definition run_curate :: "'u cli_env \<Rightarrow> CurateCommand \<Rightarrow> unit cli" where
  "run_curate E cmd =
     cli_bind (cli_lift config_failure (load_ingest_settings (ce_config E) (ce_variables E))) (\<lambda>s.
     cli_bind (cli_lift persistence_failure (connect_store E s)) (\<lambda>_. curate_command E cmd))"

fun run_command :: "'u cli_env \<Rightarrow> Command \<Rightarrow> unit cli" where
  "run_command E (ValidateInput input fmt) = cli_validate E input fmt"
| "run_command E (ImportInput input fmt report) = cli_import E input fmt report"
| "run_command E (StatusOf run hash n fmt) = cli_status E run hash n fmt"
| "run_command E (Curate cmd) = run_curate E cmd"

text \<open>\<open>main\<close>: the exit code, and the failure's text on standard error.\<close>

definition ingest_main :: "'u cli_env \<Rightarrow> Command \<Rightarrow> cli_world \<Rightarrow> cli_world \<times> nat" where
  "ingest_main E cmd w =
     (case run_command E cmd w of
        (w', Inr _) \<Rightarrow> (w', 0)
      | (w', Inl f) \<Rightarrow> (w' \<lparr> cw_err := cw_err w' @ [failure_text f] \<rparr>, exit_code f))"

end
