(* ===== verification/Ingest_Cli_Guarantees.thy ===== *)
theory Ingest_Cli_Guarantees
  imports Ingest_Cli Import_Guarantees Server_Guarantees
begin

text \<open>
  What a script may rely on: the exit codes of every command, what each of them says of the data, and the whole
  path of an import from the Artifact.delivered bytes to the committed records.
\<close>

subsection \<open>Reasoning about commands\<close>

named_theorems cli_intros

text \<open>Every failure of a command has a code of the set, and every outcome relates the worlds.\<close>

definition fails_in :: "nat set \<Rightarrow> 'a cli \<Rightarrow> bool" where
  "fails_in S m \<longleftrightarrow> (\<forall>w w' f. m w = (w', Inl f) \<longrightarrow> exit_code f \<in> S)"

definition keeps :: "(cli_world \<Rightarrow> 'b) \<Rightarrow> 'a cli \<Rightarrow> bool" where
  "keeps part m \<longleftrightarrow> (\<forall>w. part (fst (m w)) = part w)"

definition quiet_part :: "(cli_world \<Rightarrow> 'b) \<Rightarrow> bool" where
  "quiet_part part \<longleftrightarrow> (\<forall>w xs. part (w \<lparr> cw_out := xs \<rparr>) = part w \<and> part (w \<lparr> cw_err := xs \<rparr>) = part w)"

lemma quiet_parts [simp]: "quiet_part cw_store" "quiet_part cw_tables" "quiet_part cw_files"
  by (simp_all add: quiet_part_def)

lemma cli_bind_Inr: "cli_bind m f w = (w', Inr y) \<longleftrightarrow> (\<exists>w1 x. m w = (w1, Inr x) \<and> f x w1 = (w', Inr y))"
  by (auto simp: cli_bind_def split: prod.splits sum.splits)

lemma cli_bind_Inl:
  "cli_bind m f w = (w', Inl e) \<longleftrightarrow> m w = (w', Inl e) \<or> (\<exists>w1 x. m w = (w1, Inr x) \<and> f x w1 = (w', Inl e))"
  by (auto simp: cli_bind_def split: prod.splits sum.splits)

lemma cli_bind_InlE:
  assumes "cli_bind m f w = (w', Inl e)"
    "m w = (w', Inl e) \<Longrightarrow> P" "\<And>w1 x. m w = (w1, Inr x) \<Longrightarrow> f x w1 = (w', Inl e) \<Longrightarrow> P"
  shows P
  using assms by (auto simp: cli_bind_Inl)

lemma fails_in_bind [cli_intros]: "fails_in S m \<Longrightarrow> (\<And>x. fails_in S (f x)) \<Longrightarrow> fails_in S (cli_bind m f)"
  by (auto simp: fails_in_def cli_bind_Inl)

lemma fails_in_basic [cli_intros]:
  "fails_in S (cli_return x)" "fails_in S (cli_print t)" "fails_in S (cli_eprint t)"
  by (simp_all add: fails_in_def cli_return_def cli_print_def cli_eprint_def)

lemma fails_in_fail [cli_intros]: "n \<in> S \<Longrightarrow> fails_in S (cli_fail n t)"
  by (auto simp: fails_in_def cli_fail_def)

lemma fails_in_lift [cli_intros]: "(\<And>e. fails_in S (failed e)) \<Longrightarrow> fails_in S (cli_lift failed r)"
  by (cases r) (auto simp: cli_lift_def intro: cli_intros)

lemma fails_in_each [cli_intros]: "(\<And>x. fails_in S (f x)) \<Longrightarrow> fails_in S (cli_each f xs)"
  by (induction xs) (auto intro: cli_intros)

lemma keeps_bind [cli_intros]: "keeps part m \<Longrightarrow> (\<And>x. keeps part (f x)) \<Longrightarrow> keeps part (cli_bind m f)"
  by (auto simp: keeps_def cli_bind_def split: prod.splits sum.splits) (metis fst_conv)+

lemma keeps_basic [cli_intros]:
  "keeps part (cli_return x)" "keeps part (cli_fail n t)"
  "quiet_part part \<Longrightarrow> keeps part (cli_print t)" "quiet_part part \<Longrightarrow> keeps part (cli_eprint t)"
  by (simp_all add: keeps_def cli_return_def cli_fail_def cli_print_def cli_eprint_def quiet_part_def)

lemma keeps_lift [cli_intros]: "(\<And>e. keeps part (failed e)) \<Longrightarrow> keeps part (cli_lift failed r)"
  by (cases r) (auto simp: cli_lift_def intro: cli_intros)

lemma keeps_each [cli_intros]: "(\<And>x. keeps part (f x)) \<Longrightarrow> keeps part (cli_each f xs)"
  by (induction xs) (auto intro: cli_intros)

subsection \<open>Rendering and failures\<close>

lemmas failure_defs = source_failure_def import_failure_def curation_failure_def persistence_failure_def
  config_failure_def artifact_failure_def

lemmas render_defs = render_pending_def render_curation_def render_refresh_def render_validate_def render_import_def
  render_status_def render_run_def render_attempt_def failure_line_def render_json_def

lemma renders_fail_in:
  "7 \<in> S \<Longrightarrow> fails_in S (render_json E d)"
  "7 \<in> S \<Longrightarrow> fails_in S (render_pending E fmt ps)" "7 \<in> S \<Longrightarrow> fails_in S (render_curation E fmt co)"
  "7 \<in> S \<Longrightarrow> fails_in S (render_refresh E fmt ro)" "7 \<in> S \<Longrightarrow> fails_in S (render_validate E fmt art pre)"
  "7 \<in> S \<Longrightarrow> fails_in S (render_import E fmt rep)" "7 \<in> S \<Longrightarrow> fails_in S (render_status E fmt rs)"
  unfolding render_defs
  by (auto split: OutputFormat.splits option.splits sum.splits intro!: cli_intros)

lemma renders_keep:
  "quiet_part part \<Longrightarrow> keeps part (render_json E d)"
  "quiet_part part \<Longrightarrow> keeps part (render_pending E fmt ps)" "quiet_part part \<Longrightarrow> keeps part (render_curation E fmt co)"
  "quiet_part part \<Longrightarrow> keeps part (render_refresh E fmt ro)" "quiet_part part \<Longrightarrow> keeps part (render_validate E fmt art pre)"
  "quiet_part part \<Longrightarrow> keeps part (render_import E fmt rep)" "quiet_part part \<Longrightarrow> keeps part (render_status E fmt rs)"
  unfolding render_defs
  by (auto split: OutputFormat.splits option.splits sum.splits intro!: cli_intros)

subsection \<open>Exit codes\<close>

text \<open>The codes of \<open>docs/architecture/rust_ingestion_adapter.md\<close>, by command.\<close>

fun documented_codes :: "Command \<Rightarrow> nat set" where
  "documented_codes (ValidateInput _ _) = {0, 2, 3, 4, 7}"
| "documented_codes (ImportInput _ _ _) = {0, 2, 3, 4, 5, 6, 7}"
| "documented_codes (StatusOf _ _ _ _) = {0, 2, 6, 7}"
| "documented_codes (Curate _) = {0, 2, 6, 7, 8}"

lemma source_exit_codes: "source_exit_code e \<in> {3, 4, 7}"
  by (cases e) simp_all

lemma import_exit_codes: "{4, 5, 6, 7} \<subseteq> S \<Longrightarrow> import_exit_code e \<in> S"
  by (cases e) simp_all

lemma curation_exit_codes: "curation_exit_code e \<in> {6, 8}"
  by (cases e) simp_all

lemma failures_fail_in:
  "{3, 4, 7} \<subseteq> S \<Longrightarrow> fails_in S (source_failure e)"
  "{6, 8} \<subseteq> S \<Longrightarrow> fails_in S (curation_failure c)" "6 \<in> S \<Longrightarrow> fails_in S (persistence_failure p)"
  "2 \<in> S \<Longrightarrow> fails_in S (config_failure cfg)" "3 \<in> S \<Longrightarrow> fails_in S (artifact_failure a)"
  using source_exit_codes[of e] curation_exit_codes[of c]
  by (auto simp: failure_defs split: SourceError.splits intro!: cli_intros)

lemma import_step_fails_in: "{4, 5, 6, 7} \<subseteq> S \<Longrightarrow> fails_in S (import_step_of E req reader)"
  using import_exit_codes
  by (auto simp: fails_in_def import_step_of_def import_failure_def cli_fail_def split: prod.splits sum.splits)

lemma write_report_fails_in: "{3, 7} \<subseteq> S \<Longrightarrow> fails_in S (write_report E path rep)"
  by (auto simp: fails_in_def write_report_def cli_fail_def split: option.splits sum.splits)

lemma audit_fails_in: "fails_in S (audit_refusal E s art e)"
  by (auto simp: fails_in_def audit_refusal_def cli_eprint_def split: prod.splits sum.splits)

lemma import_accepted_fails_in: "{3, 4, 5, 6, 7} \<subseteq> S \<Longrightarrow> fails_in S (import_accepted E s art pre)"
  unfolding import_accepted_def
  by (intro cli_intros import_step_fails_in failures_fail_in) auto

lemma curation_step_fails_in: "(\<And>e. fails_in S (failed e)) \<Longrightarrow> fails_in S (curation_step f failed)"
  using fails_in_lift[of S failed] by (auto simp: fails_in_def curation_step_def split: prod.splits)

lemma curate_fails_in: "{6, 7, 8} \<subseteq> S \<Longrightarrow> fails_in S (curate_command E cmd)"
  by (cases cmd) (auto intro!: cli_intros curation_step_fails_in failures_fail_in renders_fail_in)

lemma import_fails_in: "fails_in {2, 3, 4, 5, 6, 7} (cli_import E input fmt report)"
proof -
  have tail: "fails_in {2, 3, 4, 5, 6, 7} (case report of Some path \<Rightarrow> write_report E path rep | None \<Rightarrow> cli_return ())" for rep
    by (cases report) (auto intro: cli_intros write_report_fails_in)
  have head: "fails_in {2, 3, 4, 5, 6, 7} (case r of
         Inl e \<Rightarrow> cli_bind (audit_refusal E s art e) (\<lambda>_. source_failure e)
       | Inr pre \<Rightarrow> import_accepted E s art pre)" for r s art
    by (cases r) (auto intro!: cli_intros failures_fail_in audit_fails_in import_accepted_fails_in)
  show ?thesis
    unfolding cli_import_def by (intro cli_intros failures_fail_in renders_fail_in tail head) auto
qed

text \<open>every command ends with one of its documented exit codes.\<close>

theorem exit_codes_documented: "snd (ingest_main E cmd w) \<in> documented_codes cmd"
proof -
  have status: "fails_in {2, 6, 7} (\<lambda>w. cli_bind (cli_lift persistence_failure (import_status (ce_reads E) (ce_started E)
         flt (cw_store w) (cw_store w))) (render_status E fmt) w)" for flt fmt
  proof -
    have "fails_in {2, 6, 7} (cli_bind (cli_lift persistence_failure r) (render_status E fmt))" for r
      by (auto intro!: cli_intros failures_fail_in renders_fail_in)
    then show ?thesis by (auto simp: fails_in_def)
  qed
  have "fails_in (documented_codes cmd - {0}) (run_command E cmd)"
  proof (cases cmd)
    case (ValidateInput input fmt)
    then show ?thesis
      by (auto simp: cli_validate_def intro!: cli_intros failures_fail_in renders_fail_in)
  next
    case (ImportInput input fmt report)
    have "documented_codes cmd - {0} = {2, 3, 4, 5, 6, 7}" using ImportInput by auto
    then show ?thesis using ImportInput import_fails_in by simp
  next
    case (StatusOf run hash n fmt)
    have "fails_in {2, 6, 7} (cli_status E run hash n fmt)"
      unfolding cli_status_def by (intro cli_intros failures_fail_in status) auto
    moreover have "documented_codes cmd - {0} = {2, 6, 7}" using StatusOf by auto
    ultimately show ?thesis using StatusOf by simp
  next
    case (Curate c)
    have "fails_in {2, 6, 7, 8} (run_curate E c)"
      unfolding run_curate_def by (intro cli_intros failures_fail_in curate_fails_in) auto
    moreover have "documented_codes cmd - {0} = {2, 6, 7, 8}" using Curate by auto
    ultimately show ?thesis using Curate by simp
  qed
  then have "exit_code f \<in> documented_codes cmd" if "run_command E cmd w = (w', Inl f)" for w' f
    using that unfolding fails_in_def by blast
  moreover have "0 \<in> documented_codes cmd" by (cases cmd) auto
  ultimately show ?thesis
    by (cases "run_command E cmd w"; cases "snd (run_command E cmd w)") (auto simp: ingest_main_def)
qed

subsection \<open>What a command leaves alone\<close>

definition data_of :: "cli_world \<Rightarrow> import_store \<times> curation_state \<times> (string \<rightharpoonup> string)" where
  "data_of w = (cw_store w, cw_tables w, cw_files w)"

lemma quiet_data [simp]: "quiet_part data_of"
  by (simp add: quiet_part_def data_of_def)

lemma failures_keep:
  "quiet_part part \<Longrightarrow> keeps part (source_failure e)" "keeps part (curation_failure c)"
  "keeps part (persistence_failure p)" "keeps part (config_failure cfg)" "keeps part (artifact_failure a)"
  "keeps part (import_failure ie)"
  by (auto simp: failure_defs split: SourceError.splits intro!: cli_intros)

lemma main_keeps: "keeps part (run_command E cmd) \<Longrightarrow> quiet_part part \<Longrightarrow> part (fst (ingest_main E cmd w)) = part w"
  unfolding ingest_main_def keeps_def quiet_part_def
  by (cases "run_command E cmd w"; cases "snd (run_command E cmd w)") (auto dest!: spec[of _ w])

text \<open>
  validating a document writes nothing: neither the database nor a file differs afterwards, whatever the
  document and whatever fails.
\<close>

theorem validate_writes_nothing: "data_of (fst (ingest_main E (ValidateInput input fmt) w)) = data_of w"
proof -
  have "keeps data_of (cli_validate E input fmt)"
    unfolding cli_validate_def by (intro cli_intros failures_keep renders_keep) simp_all
  then show ?thesis by (intro main_keeps) simp_all
qed

subsection \<open>The path of an import\<close>

lemma captured_bytes:
  assumes "capture sha create_fault write_fault flush_fault now input locator max_bytes = Inr art"
  shows "art_file art = Artifact.delivered input"
proof -
  let ?st0 = "\<lparr> cap_hashed = [], cap_file = [], cap_length = 0 \<rparr>"
  obtain st u where run: "capture_loop write_fault max_bytes input ?st0 = (st, Inr u)" "art_file art = cap_file st"
    using assms by (auto simp: capture_def split: option.splits prod.splits sum.splits)
  have "capture_inv max_bytes ?st0" by (simp add: capture_inv_def)
  from capture_loop_ok[OF this run(1)] run(2) show ?thesis by simp
qed

text \<open>The bytes the named input delivers.\<close>

definition input_bytes :: "'u cli_env \<Rightarrow> string \<Rightarrow> string" where
  "input_bytes E input =
     (if input = ''-'' then Artifact.delivered (ce_stdin E)
      else (case ce_opened E input of Inr chunks \<Rightarrow> Artifact.delivered chunks | Inl _ \<Rightarrow> []))"

lemma cli_capture_bytes: "cli_capture E input n dir = Inr art \<Longrightarrow> art_file art = input_bytes E input"
  by (auto simp: cli_capture_def capture_stdin_def capture_path_def input_bytes_def Let_def split: if_splits sum.splits
      dest: captured_bytes)

lemma cli_preflight_document: "cli_preflight E art = Inr pre \<Longrightarrow> well_formed (ce_parse E (art_file art))"
  by (auto simp: cli_preflight_def reopened_def split: option.splits dest: preflight_accepted)
    (simp add: preflight_def)

lemma import_accepted_batch:
  assumes run: "import_accepted E s art pre w = (w', Inr rep)" and doc: "well_formed (ce_parse E (art_file art))"
  shows "if already_imported rep then promoted_batches (cw_store w') = promoted_batches (cw_store w)
     else \<exists>run. promoted_batches (cw_store w') = promoted_batches (cw_store w) @
        [(run, document_records (ce_libs E) (ce_parse E (art_file art)))]"
proof -
  let ?rs = "document_records (ce_libs E) (ce_parse E (art_file art))"
  obtain reader st where steps:
      "open_records (ce_libs E) (ce_custom E) source_error_text None (reopened E 1 art) (ce_spawn E) = Inr reader"
      "import_records (sha256 (ce_libs E)) (sqlx_store (ce_db E)) (cw_store w) (cli_request art pre) reader = (st, Inr rep)"
      "cw_store w' = st"
    using run
    by (auto simp: import_accepted_def cli_bind_Inr cli_lift_def import_step_of_def failure_defs cli_return_def cli_fail_def
        cli_bind_def split: sum.splits prod.splits SourceError.splits)
  have "ce_reopen E 1 = None" "ce_spawn E = None"
    using steps(1) by (auto simp: reopened_def open_records_def split: option.splits)
  then have "reader = map Inr ?rs"
    using steps(1) open_records_well_formed[OF doc, of "ce_libs E" "ce_custom E" source_error_text]
    by (simp add: reopened_def)
  then show ?thesis
    using pg.import_all_or_nothing[OF steps(2)] steps(3) by (auto split: if_splits)
qed

lemma source_failure_never: "source_failure e w \<noteq> (w', Inr x)"
  by (auto simp: source_failure_def cli_bind_Inr cli_fail_def)

text \<open>Whatever part of the world only the store's imports change is as \<open>import_accepted\<close> left it.\<close>

lemma write_report_keeps: "keeps cw_store (write_report E path rep)"
  by (auto simp: keeps_def write_report_def cli_fail_def split: option.splits sum.splits)

lemma report_keeps: "keeps cw_store (case report of Some path \<Rightarrow> write_report E path rep | None \<Rightarrow> cli_return ())"
  by (cases report) (auto intro: cli_intros write_report_keeps)


lemma validation_batches:
  "promoted_batches (fst (record_validation_failure D st source artifact code msg timeout)) = promoted_batches st"
proof -
  have fresh: "promoted_batches st2 = promoted_batches st"
    if "upsert_run st key row update = (st1, run)" "insert_attempt st1 run status failure = (st2, att)"
    for key row update st1 run status failure st2 att
  proof -
    have "promoted_batches st1 = promoted_batches st"
      using that(1) by (auto simp: upsert_run_def split: option.splits)
    then show ?thesis
      using that(2) by (auto simp: insert_attempt_def Let_def)
  qed
  show ?thesis
    unfolding record_validation_failure_def Let_def
    by (auto simp: guarded_def committed_def split: option.splits sum.splits prod.splits dest: fresh)
qed

lemma audit_batches:
  "audit_refusal E s art e w = (w', r) \<Longrightarrow> promoted_batches (cw_store w') = promoted_batches (cw_store w)"
  using validation_batches[of "ce_db E" "cw_store w" planephd_descriptor "art_descriptor art" "source_error_code e"
      "source_error_text e" "ce_lock_timeout E"]
  by (auto simp: audit_refusal_def cli_eprint_def split: prod.splits sum.splits)

lemma import_step_failed:
  assumes "import_step_of E req reader w = (w', Inl f)" "exit_code f \<noteq> 6"
  shows "promoted_batches (cw_store w') = promoted_batches (cw_store w)"
proof -
  obtain e st where run: "import_records (sha256 (ce_libs E)) (sqlx_store (ce_db E)) (cw_store w) req reader = (st, Inl e)"
      "cw_store w' = st" "exit_code f = import_exit_code e"
    using assms(1) by (auto simp: import_step_of_def import_failure_def cli_fail_def split: prod.splits sum.splits)
  then show ?thesis
    using pg.import_all_or_nothing[OF run(1)] assms(2) by auto
qed

lemma keepsD: "keeps part m \<Longrightarrow> m w = (w', r) \<Longrightarrow> part w' = part w"
  unfolding keeps_def by (metis fst_conv)

text \<open>A failure with one of the codes leaves the part alone, though a later failure may not.\<close>

definition leaves :: "nat set \<Rightarrow> (cli_world \<Rightarrow> 'b) \<Rightarrow> 'a cli \<Rightarrow> bool" where
  "leaves S part m \<longleftrightarrow> (\<forall>w w' f. m w = (w', Inl f) \<longrightarrow> exit_code f \<in> S \<longrightarrow> part w' = part w)"

lemma leaves_bind: "keeps part m \<Longrightarrow> (\<And>x. leaves S part (f x)) \<Longrightarrow> leaves S part (cli_bind m f)"
  unfolding leaves_def by (auto elim!: cli_bind_InlE dest: keepsD)

lemma leaves_bind_late:
  "leaves S part m \<Longrightarrow> (\<And>x. fails_in T (f x)) \<Longrightarrow> T \<inter> S = {} \<Longrightarrow> leaves S part (cli_bind m f)"
  unfolding leaves_def fails_in_def by (intro allI impI, erule cli_bind_InlE) blast+

lemma keeps_leaves: "keeps part m \<Longrightarrow> leaves S part m"
  unfolding leaves_def by (auto dest: keepsD)

definition batches_of_world :: "cli_world \<Rightarrow> (int \<times> PreparedAircraftRecord list) list" where
  "batches_of_world w = promoted_batches (cw_store w)"

lemma quiet_batches [simp]: "quiet_part batches_of_world"
  by (simp add: quiet_part_def batches_of_world_def)

lemma import_accepted_leaves: "6 \<notin> S \<Longrightarrow> leaves S batches_of_world (import_accepted E s art pre)"
  unfolding import_accepted_def
  by (intro leaves_bind cli_intros failures_keep)
    (auto simp: leaves_def batches_of_world_def dest: import_step_failed)

lemma audit_keeps: "keeps batches_of_world (audit_refusal E s art e)"
  unfolding keeps_def batches_of_world_def by (metis audit_batches prod.collapse)

text \<open>
  an import that exits with 2, 4 or 5 has left the committed data alone: a configuration it could not read, a
  document it refused, an identical import under way.
\<close>

theorem refused_import_adds_nothing:
  assumes "ingest_main E (ImportInput input fmt report) w = (w', code)" "code \<in> {2, 4, 5}"
  shows "promoted_batches (cw_store w') = promoted_batches (cw_store w)"
proof -
  have tail: "fails_in {3, 7} (cli_bind (case report of Some path \<Rightarrow> write_report E path rep | None \<Rightarrow> cli_return ())
      (\<lambda>_. render_import E fmt rep))" for rep
    by (cases report) (auto intro!: cli_intros write_report_fails_in renders_fail_in)
  have work: "leaves {2, 4, 5} batches_of_world (case cli_preflight E art of
         Inl e \<Rightarrow> cli_bind (audit_refusal E s art e) (\<lambda>_. source_failure e)
       | Inr pre \<Rightarrow> import_accepted E s art pre)" for s art
    by (auto split: sum.splits intro!: keeps_leaves cli_intros audit_keeps failures_keep import_accepted_leaves)
  have "leaves {2, 4, 5} batches_of_world (cli_import E input fmt report)"
    unfolding cli_import_def
    by (intro leaves_bind cli_intros failures_keep leaves_bind_late[OF work tail]) auto
  then show ?thesis
    using assms
    by (auto simp: ingest_main_def leaves_def batches_of_world_def split: prod.splits sum.splits)
qed

subsection \<open>Reports\<close>

definition changes_within :: "('b \<Rightarrow> 'b set) \<Rightarrow> (cli_world \<Rightarrow> 'b) \<Rightarrow> 'a cli \<Rightarrow> bool" where
  "changes_within A part m \<longleftrightarrow> (\<forall>w. part (fst (m w)) \<in> A (part w))"

lemma changes_within_bind_left:
  "(\<And>x. x \<in> A x) \<Longrightarrow> keeps part m \<Longrightarrow> (\<And>x. changes_within A part (f x)) \<Longrightarrow> changes_within A part (cli_bind m f)"
  unfolding changes_within_def keeps_def cli_bind_def by (auto split: prod.splits sum.splits) (metis fst_conv)+

lemma changes_within_bind_right: "changes_within A part m \<Longrightarrow> (\<And>x. keeps part (f x)) \<Longrightarrow> changes_within A part (cli_bind m f)"
  unfolding changes_within_def keeps_def cli_bind_def by (auto split: prod.splits sum.splits) (metis fst_conv)+

text \<open>
  a report file is replaced whole or not at all: after any import it holds what it held, or the JSON text of the
  import's report and a newline; no other file differs.
\<close>

theorem report_atomic:
  "cw_files (fst (ingest_main E (ImportInput input fmt (Some path)) w)) \<in>
     {cw_files w} \<union> {(cw_files w)(path \<mapsto> t @ [CHR 0x0A]) | t rep. ce_json E (ReportDocument rep) = Inr t}"
proof -
  have work: "keeps cw_files (case cli_preflight E art of
         Inl e \<Rightarrow> cli_bind (audit_refusal E s art e) (\<lambda>_. source_failure e)
       | Inr pre \<Rightarrow> import_accepted E s art pre)" for s art
  proof -
    have "keeps cw_files (import_step_of E req reader)" for req reader
      by (auto simp: keeps_def import_step_of_def import_failure_def cli_fail_def split: prod.splits sum.splits)
    moreover have "keeps cw_files (audit_refusal E s art e)" for e
      by (auto simp: keeps_def audit_refusal_def cli_eprint_def split: prod.splits sum.splits)
    ultimately show ?thesis
      by (auto simp: import_accepted_def split: sum.splits intro!: cli_intros failures_keep)
  qed
  have report: "changes_within (\<lambda>files. {files} \<union> {files(path \<mapsto> t @ [CHR 0x0A]) | t rep. ce_json E (ReportDocument rep) = Inr t}) cw_files
      (write_report E path rep)" for rep
    by (auto simp: changes_within_def write_report_def cli_fail_def split: option.splits sum.splits)
  have "changes_within (\<lambda>files. {files} \<union> {files(path \<mapsto> t @ [CHR 0x0A]) | t rep. ce_json E (ReportDocument rep) = Inr t}) cw_files
      (cli_import E input fmt (Some path))"
    unfolding cli_import_def option.case
    by (intro changes_within_bind_left changes_within_bind_right[OF report] work cli_intros failures_keep renders_keep) auto
  then show ?thesis
    unfolding changes_within_def ingest_main_def
    by (auto split: prod.splits sum.splits dest!: spec[of _ w])
qed

subsection \<open>An import that works\<close>

text \<open>Nothing on the way fails: the settings load, the store answers, the artifact is readable twice.\<close>

definition calm_cli :: "'u cli_env \<Rightarrow> IngestSettings \<Rightarrow> bool" where
  "calm_cli E s \<longleftrightarrow> load_ingest_settings (ce_config E) (ce_variables E) = Inr s \<and> (\<forall>po. ce_driver E po = None) \<and>
     ce_reopen E 0 = None \<and> ce_reopen E 1 = None \<and> ce_spawn E = None \<and> no_faults (ce_db E)"

definition fresh_key :: "db_env \<Rightarrow> import_store \<Rightarrow> ImportRequest \<Rightarrow> bool" where
  "fresh_key D st req \<longleftrightarrow> lock_hash D (lock_key (request_key req)) \<notin> locks st \<and>
     (\<forall>r \<in> set (runs st). run_key r = request_key req \<longrightarrow> run_status r \<noteq> Succeeded)"

lemma calm_import:
  assumes "calm_cli E s" "cli_capture E input (in_max_input_bytes s) (in_temp_dir s) = Inr art" "cli_preflight E art = Inr pre"
    "request_fits (cli_request art pre)" "fresh_key (ce_db E) (cw_store w) (cli_request art pre)"
  shows "\<exists>st' run att. import_accepted E s art pre w = (w \<lparr> cw_store := st' \<rparr>,
       Inr (report_for (cli_request art pre) run att (document_records (ce_libs E) (ce_parse E (art_file art))))) \<and>
     promoted_batches st' = promoted_batches (cw_store w) @ [(run, document_records (ce_libs E) (ce_parse E (art_file art)))]"
proof -
  let ?doc = "ce_parse E (art_file art)"
  have pre: "preflight (ce_libs E) (ce_custom E) (Inr ?doc) = Inr (req_preflight (cli_request art pre))"
    using assms(1,3) by (simp add: cli_preflight_def reopened_def calm_cli_def cli_request_def)
  note stream = open_records_well_formed[OF preflight_accepted[OF pre], of "ce_libs E" "ce_custom E" source_error_text]
  obtain st' run att where "import_records (sha256 (ce_libs E)) (sqlx_store (ce_db E)) (cw_store w) (cli_request art pre)
        (map Inr (document_records (ce_libs E) ?doc)) =
      (st', Inr (report_for (cli_request art pre) run att (document_records (ce_libs E) ?doc)))"
      "promoted_batches st' = promoted_batches (cw_store w) @ [(run, document_records (ce_libs E) ?doc)]"
    using accepted_import[OF pre stream] assms(1,4,5) unfolding calm_cli_def fresh_key_def by blast
  then show ?thesis
    using assms(1) stream
    by (intro exI[of _ st'] exI[of _ run] exI[of _ att])
      (simp add: import_accepted_def calm_cli_def connect_store_def ingestion_connect_def cli_bind_def cli_lift_def
        cli_return_def reopened_def import_step_of_def)
qed

lemma calm_import_exits_0:
  assumes "calm_cli E s" "cli_capture E input (in_max_input_bytes s) (in_temp_dir s) = Inr art" "cli_preflight E art = Inr pre"
    "request_fits (cli_request art pre)" "fresh_key (ce_db E) (cw_store w) (cli_request art pre)"
  shows "\<exists>w' run. ingest_main E (ImportInput input Human None) w = (w', 0) \<and>
     promoted_batches (cw_store w') = promoted_batches (cw_store w) @
       [(run, document_records (ce_libs E) (ce_parse E (art_file art)))]"
proof -
  obtain st' run att where step: "import_accepted E s art pre w = (w \<lparr> cw_store := st' \<rparr>,
       Inr (report_for (cli_request art pre) run att (document_records (ce_libs E) (ce_parse E (art_file art)))))"
     "promoted_batches st' = promoted_batches (cw_store w) @ [(run, document_records (ce_libs E) (ce_parse E (art_file art)))]"
    using calm_import[OF assms] by blast
  then show ?thesis
    using assms(1-3)
    by (simp add: ingest_main_def cli_import_def calm_cli_def cli_bind_def cli_lift_def cli_return_def render_import_def
        cli_print_def)
qed


definition sample_cli :: "string cli_env" where
  "sample_cli = \<lparr> ce_config = plain_libs, ce_variables = [''ingest.database_url'' \<mapsto> Text ''postgres://db''],
     ce_driver = (\<lambda>_. None), ce_db = sample_env, ce_curation = \<lparr> cu_fault = (\<lambda>_. None), cu_applied = False,
       cu_unique_text = [], cu_meanwhile = (\<lambda>st. st) \<rparr>, ce_reads = (\<lambda>_. None), ce_started = (\<lambda>_. 0), ce_rank = (\<lambda>_. 0),
     ce_describe = (\<lambda>_. \<lparr> ds_label = None, ds_raw_value = None, ds_raw_unit = None, ds_source = None \<rparr>),
     ce_libs = sample_libs, ce_custom = (\<lambda>_. []), ce_parse = (\<lambda>_. sample_accepted), ce_reopen = (\<lambda>_. None), ce_spawn = None,
     ce_stdin = [Chunk ''{\"CESSNA\":{}}''], ce_opened = (\<lambda>_. Inl ''no such file''), ce_file_name = (\<lambda>_. None),
     ce_create = (\<lambda>_. None), ce_write = (\<lambda>_. None), ce_flush = None, ce_now = 0, ce_lock_timeout = Invariant ''timeout'',
     ce_json = (\<lambda>_. Inr ''{}''), ce_report_fault = (\<lambda>_. None) \<rparr>"

definition empty_world :: cli_world where
  "empty_world = \<lparr> cw_store = empty_store, cw_tables = \<lparr> assertions = [], metrics = [], snapshots = [], flags = [],
     requests = [], read_model = ([], []) \<rparr>, cw_files = Map.empty, cw_out = [], cw_err = [] \<rparr>"

definition sample_ingest :: IngestSettings where
  "sample_ingest = \<lparr> in_database_url = ''postgres://db'', in_max_input_bytes = 536870912, in_lock_timeout_seconds = 5,
     in_statement_timeout_seconds = 1800, in_temp_dir = None, in_max_connections = 5 \<rparr>"

definition sample_artifact :: InputArtifact where
  "sample_artifact = \<lparr> art_descriptor = \<lparr> content_sha256 = hex_digest ''{\"CESSNA\":{}}'', byte_length = 13,
     display_locator = ''<stdin>'', captured_at = 0 \<rparr>, art_file = ''{\"CESSNA\":{}}'' \<rparr>"

lemma sample_ingest_layer:
  "base_config plain_libs CONFIG_DIR (ce_variables sample_cli) ingest_defaults = Inr (\<lambda>k. case ce_variables sample_cli k of
     Some v \<Rightarrow> Some v | None \<Rightarrow> map_of ingest_defaults k)"
  by (auto simp: base_config_def plain_libs_def fun_eq_iff split: option.splits)

lemma sample_calm: "calm_cli sample_cli sample_ingest"
proof -
  have "load_ingest_settings plain_libs (ce_variables sample_cli) = Inr sample_ingest"
    by (simp add: load_ingest_settings_def sample_ingest_layer)
      (simp add: sample_cli_def ingest_defaults_def required_field_def optional_field_def plain_decoders u64_bound_def
        u32_bound_def validate_ingest_settings_def refuse_when_def sample_ingest_def)
  then show ?thesis
    by (simp add: calm_cli_def no_faults_def sample_env_def) (simp add: sample_cli_def sample_env_def)
qed

lemma sample_capture: "cli_capture sample_cli ''-'' (in_max_input_bytes sample_ingest) (in_temp_dir sample_ingest) = Inr sample_artifact"
  by (simp add: cli_capture_def capture_stdin_def capture_def sample_cli_def sample_ingest_def sample_artifact_def u64_max_def
      sample_libs_def sanitize_locator_def bounded_printable_def is_control_def)

lemma sample_cli_preflight: "cli_preflight sample_cli sample_artifact = Inr (req_preflight sample_request)"
  using sample_accepted_preflight by (simp add: cli_preflight_def reopened_def sample_cli_def)

lemma sample_fits: "request_fits (cli_request sample_artifact (req_preflight sample_request))"
proof -
  have "prefix16 (hex_digest ''{\"CESSNA\":{}}'') \<noteq> None"
    by code_simp
  then show ?thesis
    using sample_warnings
    by (simp add: request_fits_def cli_request_def sample_artifact_def sample_request_def i64_max_def i32_max_def)
qed

lemma sample_fresh_run: "fresh_key (ce_db sample_cli) (cw_store empty_world) (cli_request sample_artifact (req_preflight sample_request))"
  by (simp add: fresh_key_def empty_world_def empty_store_def)



definition empty_input :: "string cli_env" where
  "empty_input = sample_cli \<lparr> ce_parse := (\<lambda>_. \<lparr> doc_entries = [], doc_error = None \<rparr>) \<rparr>"

theorem refused_import_adds_nothing_witness:
  "\<exists>w'. ingest_main empty_input (ImportInput ''-'' Human None) empty_world = (w', 4) \<and>
     promoted_batches (cw_store w') = promoted_batches (cw_store empty_world)"
proof -
  have parts: "ce_config empty_input = ce_config sample_cli" "ce_variables empty_input = ce_variables sample_cli"
    "cli_capture empty_input = cli_capture sample_cli"
    by (auto simp: empty_input_def cli_capture_def fun_eq_iff)
  have "cli_preflight empty_input sample_artifact = Inl EmptyDocument"
    by (simp add: cli_preflight_def reopened_def empty_input_def sample_cli_def preflight_def parse_records_def)
  then have "snd (ingest_main empty_input (ImportInput ''-'' Human None) empty_world) = 4"
    using sample_calm sample_capture
    by (auto simp: ingest_main_def cli_import_def calm_cli_def parts cli_bind_def cli_lift_def cli_return_def
        audit_refusal_def cli_eprint_def source_failure_def cli_fail_def split: sum.splits prod.splits)
  then obtain w' where "ingest_main empty_input (ImportInput ''-'' Human None) empty_world = (w', 4)"
    by (metis prod.collapse)
  then show ?thesis
    using refused_import_adds_nothing by blast
qed

subsection \<open>Two exits that say less than the data\<close>

text \<open>
  A report that cannot be written ends an import whose records are committed with the code of an input failure.
\<close>

lemma report_failure_after_commit:
  assumes "calm_cli E s" "cli_capture E input (in_max_input_bytes s) (in_temp_dir s) = Inr art" "cli_preflight E art = Inr pre"
    "request_fits (cli_request art pre)" "fresh_key (ce_db E) (cw_store w) (cli_request art pre)"
    "ce_report_fault E CreateReport = Some e"
  shows "\<exists>w' run. ingest_main E (ImportInput input fmt (Some path)) w = (w', 3) \<and>
     promoted_batches (cw_store w') = promoted_batches (cw_store w) @
       [(run, document_records (ce_libs E) (ce_parse E (art_file art)))]"
  using calm_import[OF assms(1-5)] assms(1-3,6)
  by (auto simp: ingest_main_def cli_import_def calm_cli_def cli_bind_def cli_lift_def cli_return_def write_report_def
      cli_fail_def)

text \<open>What is wrong with the settings is not printed: every refusal has the same text.\<close>

lemma configuration_failure_unnamed:
  assumes "load_ingest_settings (ce_config E) (ce_variables E) = Inl e"
  shows "ingest_main E (ImportInput input fmt report) w = (w \<lparr> cw_err := cw_err w @ [''invalid ingestion configuration''] \<rparr>, 2)"
  using assms by (simp add: ingest_main_def cli_import_def cli_bind_def cli_lift_def config_failure_def cli_fail_def)

end
