(* ===== verification/Contract.thy ===== *)
theory Contract
  imports Api_App
begin

text \<open>
  The published HTTP contract: the responses every \<open>#[utoipa::path]\<close> declares, the perimeter's refusals and the
  problem components of \<open>aircraft_api::problem\<close>, put into the document the writers of \<open>Publication\<close> complete; and what
  the assembled router answers against it.
\<close>

subsection \<open>Declared responses\<close>

record response_doc =
  rd_description :: string
  rd_media :: "string option"
  rd_headers :: "string list"

definition X_REQUEST_ID :: string where "X_REQUEST_ID = ''X-Request-Id''"

definition problem_openapi_response :: "string \<Rightarrow> response_doc" where
  "problem_openapi_response description =
     \<lparr> rd_description = description, rd_media = Some PROBLEM_MEDIA_TYPE, rd_headers = [X_REQUEST_ID] \<rparr>"

definition REFUSALS :: "(string \<times> string) list" where
  "REFUSALS =
     [(''400'', ''The request body could not be read''),
      (''413'', ''The request body is larger than the perimeter accepts''),
      (''503'', ''The service is at capacity, or is shutting down''),
      (''504'', ''The handler did not answer within the perimeter deadline'')]"

definition PerimeterResponses :: "(string \<times> response_doc) list" where
  "PerimeterResponses = map (\<lambda>(status, description). (status, problem_openapi_response description)) REFUSALS"

definition json_doc :: "string \<Rightarrow> string list \<Rightarrow> response_doc" where
  "json_doc description headers =
     \<lparr> rd_description = description, rd_media = Some ''application/json'', rd_headers = headers @ [X_REQUEST_ID] \<rparr>"

text \<open>The declarations of an operation in their order; utoipa keeps the last one of a status.\<close>

definition health_responses :: "(string \<times> response_doc) list" where
  "health_responses = [(''200'', json_doc ''Service is running'' [])] @ PerimeterResponses"

definition ready_responses :: "(string \<times> response_doc) list" where
  "ready_responses =
     [(''200'', json_doc ''The database answered'' [])] @ PerimeterResponses @
     [(''503'', problem_openapi_response
        ''The service is draining, is at capacity, or could not reach the database within the probe deadline'')]"

definition version_responses :: "(string \<times> response_doc) list" where
  "version_responses = [(''200'', json_doc ''The running build'' [])] @ PerimeterResponses"

definition catalog_responses :: "(string \<times> response_doc) list" where
  "catalog_responses =
     [(''200'', json_doc ''The catalog's active rows, in its stable order'' [''ETag'', ''Cache-Control'']),
      (''304'', \<lparr> rd_description = ''The client's validator matches; no body is sent'', rd_media = None,
         rd_headers = [''ETag'', ''Cache-Control'', X_REQUEST_ID] \<rparr>),
      (''404'', problem_openapi_response ''No catalog has that name'')] @ PerimeterResponses @
     [(''503'', problem_openapi_response ''The service is draining, is at capacity, or could not read the catalog'')]"

definition list_models_responses :: "(string \<times> response_doc) list" where
  "list_models_responses =
     [(''200'', json_doc ''One page of models, in slug order, with a null next_cursor on the final page'' []),
      (''400'', problem_openapi_response
         ''An unsupported sort, a family filter that is not a slug, or a cursor that is malformed, of another version, for another sort, or for different filters''),
      (''404'', problem_openapi_response ''The family filter names no family'')] @ PerimeterResponses @
     [(''503'', problem_openapi_response ''The service is draining, is at capacity, or could not read the models'')]"

definition model_responses :: "(string \<times> response_doc) list" where
  "model_responses =
     [(''200'', json_doc ''The model'' []), (''404'', problem_openapi_response ''No model has that slug'')] @ PerimeterResponses @
     [(''503'', problem_openapi_response ''The service is draining, is at capacity, or could not read the model'')]"

definition documented_responses :: "(string \<times> response_doc) list \<Rightarrow> (string \<rightharpoonup> response_doc)" where
  "documented_responses declarations = map_of (rev declarations)"

subsection \<open>The document\<close>

definition plain_parameter :: "string \<Rightarrow> parameter" where
  "plain_parameter name = \<lparr> pm_name = name, pm_schema = Some OtherSchema \<rparr>"

definition request_id_parameter :: parameter where
  "request_id_parameter = plain_parameter X_REQUEST_ID"

definition operation_of :: "(string \<times> response_doc) list \<Rightarrow> parameter list \<Rightarrow> operation" where
  "operation_of declarations parameters =
     \<lparr> op_security = None, op_responses = map_option rd_description \<circ> documented_responses declarations,
       op_parameters = Some (parameters @ [request_id_parameter]) \<rparr>"

definition catalog_parameters :: "parameter list" where
  "catalog_parameters =
     [\<lparr> pm_name = ''catalog'', pm_schema = Some (ObjectSchema None) \<rparr>, plain_parameter ''If-None-Match'']"

definition list_models_parameters :: "parameter list" where
  "list_models_parameters = map plain_parameter [''family'', ''sort'', ''limit'', ''cursor'']"

definition model_parameters :: "parameter list" where "model_parameters = [plain_parameter ''model'']"

definition declared_operations :: "(string \<times> operation) list" where
  "declared_operations =
     [(''/health'', operation_of health_responses []),
      (''/ready'', operation_of ready_responses []),
      (''/version'', operation_of version_responses []),
      (CATALOG_PATH, operation_of catalog_responses catalog_parameters),
      (MODELS_PATH, operation_of list_models_responses list_models_parameters),
      (MODEL_PATH, operation_of model_responses model_parameters)]"

definition ApiDoc :: document where
  "ApiDoc = \<lparr> security_schemes = [], doc_paths = map_option (\<lambda>op m. if m = Get then Some op else None) \<circ> map_of declared_operations \<rparr>"

text \<open>The description published for a status of an operation, or the component it refers to.\<close>

definition published_response :: "string \<Rightarrow> string \<Rightarrow> string option" where
  "published_response path status =
     Option.bind (published (openapi ApiDoc) path Get) (\<lambda>op. op_responses op status)"

definition documented :: "string \<Rightarrow> string \<Rightarrow> bool" where
  "documented path status \<longleftrightarrow> published_response path status \<noteq> None"

subsection \<open>Problem components\<close>

record component_doc =
  cd_kind :: ProblemKind
  cd_description :: string
  cd_headers :: "string list"
  cd_required :: "string list"

definition problem_component :: "ProblemKind \<Rightarrow> string \<Rightarrow> component_doc" where
  "problem_component kind description =
     \<lparr> cd_kind = kind, cd_description = description, cd_headers = [X_REQUEST_ID], cd_required = [] \<rparr>"

definition with_header :: "string \<Rightarrow> component_doc \<Rightarrow> component_doc" where
  "with_header name c = c \<lparr> cd_headers := cd_headers c @ [name] \<rparr>"

definition problem_components :: "(string \<times> component_doc) list" where
  "problem_components =
     [(''MalformedInputProblem'', problem_component MalformedInput ''The request body could not be read''),
      (''ValidationFailedProblem'', problem_component ValidationFailedProblem ''The request violates the API contract''),
      (''AuthenticationRequiredProblem'',
         with_header ''WWW-Authenticate'' (problem_component AuthenticationRequired ''Authentication is required'')),
      (''InsufficientScopeProblem'',
         (problem_component (InsufficientScope RsCatalogRead) ''The credential lacks the required scope'') \<lparr> cd_required := [''required_scope''] \<rparr>),
      (''NotFoundProblem'', problem_component NotFound ''The requested resource was not found''),
      (''MethodNotAllowedProblem'', with_header ''Allow'' (problem_component MethodNotAllowed ''The request method is not allowed'')),
      (''ConflictProblem'', problem_component Conflict ''The request conflicts with current resource state''),
      (''PayloadTooLargeProblem'', problem_component PayloadTooLarge ''The request body is too large''),
      (''RateLimitedProblem'', with_header ''Retry-After'' (problem_component (RateLimited 60) ''The request rate limit was exceeded'')),
      (''DatabaseUnavailableProblem'', problem_component DatabaseUnavailable ''The database is unavailable''),
      (''ShuttingDownProblem'', problem_component ShuttingDown ''The service is shutting down''),
      (''OverloadedProblem'', problem_component Overloaded ''The service is at capacity''),
      (''InternalErrorProblem'', problem_component Internal ''The service encountered an unexpected error''),
      (''DeadlineExceededProblem'', problem_component DeadlineExceeded ''The request deadline expired'')]"

definition component_example :: "uri_parser \<Rightarrow> component_doc \<Rightarrow> (string \<times> json) list" where
  "component_example parse c = problem_json (details (ApiProblem_new parse (cd_kind c) ''/example''))"

text \<open>The responses \<open>ApiDoc\<close> lists; what the writers refer to is among them, with the status it is referred to for.\<close>

definition declared_responses :: "string list" where
  "declared_responses =
     [''MalformedInputProblem'', ''ValidationFailedProblem'', ''AuthenticationRequiredProblem'', ''InsufficientScopeProblem'',
      ''NotFoundProblem'', ''MethodNotAllowedProblem'', ''ConflictProblem'', ''PayloadTooLargeProblem'', ''RateLimitedProblem'',
      ''DatabaseUnavailableProblem'', ''ShuttingDownProblem'', ''OverloadedProblem'', ''InternalErrorProblem'',
      ''DeadlineExceededProblem'']"

lemma declared_components: "declared_responses = map fst problem_components"
  by (simp add: declared_responses_def problem_components_def)

lemma references_resolve:
  assumes "path \<in> {CATALOG_PATH, MODELS_PATH, MODEL_PATH}" and "(status, code) \<in> {(''401'', 401), (''403'', 403), (''429'', 429)}"
  shows "\<exists>name c. published_response path status = Some name \<and> map_of problem_components name = Some c \<and>
    name \<in> set declared_responses \<and> pc_status (contract (cd_kind c)) = code"
proof -
  have resolved: "list_all (\<lambda>path. list_all (\<lambda>(status, code). case published_response path status of None \<Rightarrow> False
      | Some name \<Rightarrow> (case map_of problem_components name of None \<Rightarrow> False
          | Some c \<Rightarrow> name \<in> set declared_responses \<and> pc_status (contract (cd_kind c)) = code))
      [(''401'', 401), (''403'', 403), (''429'', 429)]) [CATALOG_PATH, MODELS_PATH, MODEL_PATH]"
    by code_simp
  show ?thesis using assms resolved by (auto simp: list_all_iff split: option.splits)
qed

subsection \<open>What each layer can answer\<close>

definition perimeter_statuses :: "nat list" where "perimeter_statuses = [400, 413, 503, 504]"
definition policy_statuses :: "nat list" where "policy_statuses = [401, 403, 429, 503, 500]"

lemma problem_status [simp]: "resp_status (problem_response (ApiProblem_new parse kind inst)) = pc_status (contract kind)"
  by (simp add: status_of_problem ApiProblem_new_def)

lemma refused_status [simp]: "resp_status (refused parse kind inst) = pc_status (contract kind)"
  by (simp add: refused_def)

lemma refuse_status: "resp_status (refuse parse kind rq) = pc_status (contract kind)"
  by (simp add: refuse_def)

lemma json_status [simp]: "resp_status (json_response b) = 200"
  by (simp add: json_response_def)

lemma read_failure_status: "resp_status (read_failure parse e inst) \<in> {503, 500}"
  by (simp add: read_failure_def contract_of_def split: PersistenceError.splits)

lemma catalog_statuses: "resp_status (snd (catalog_handler L G X rq s)) \<in> {200, 304, 404, 503, 500}"
  by (simp add: catalog_handler_def catalog_route_def Let_def contract_of_def split: sum.splits PersistenceError.splits)

lemma model_statuses: "resp_status (snd (model_handler G X rq s)) \<in> {200, 404, 503, 500}"
  using read_failure_status [of "g_parse G"]
  by (simp add: model_handler_def model_route_def contract_of_def split: sum.splits option.splits)

lemma resolve_family_statuses: "resolve_family parse fid family inst = Inl r \<Longrightarrow> resp_status r \<in> {400, 404, 503, 500}"
  using read_failure_status [of parse]
  by (auto simp: resolve_family_def contract_of_def split: sum.splits option.splits)

lemma resume_slug_statuses: "resume_slug parse order resume inst = Inl r \<Longrightarrow> resp_status r = 400"
  by (auto simp: resume_slug_def contract_of_def split: sum.splits option.splits if_splits)

lemma models_statuses: "resp_status (snd (models_handler L G X rq s)) \<in> {200, 400, 404, 503, 500}"
proof -
  have page: "into_page_request L parse q filters inst = Inl p \<Longrightarrow> resp_status (problem_response p) = 400" for parse q filters inst p
    by (auto simp: into_page_request_def contract_of_def split: sum.splits)
  have query: "ApiQuery_from_request parse inst extracted = Inl p \<Longrightarrow> resp_status (problem_response p) = 400"
    for parse inst p and extracted :: "unit + ModelListQuery"
    by (cases extracted) (auto simp: ApiQuery_from_request_def contract_of_def)
  show ?thesis
    unfolding models_handler_def list_models_route_def Let_def
    using read_failure_status [of "g_parse G"] resolve_family_statuses page query resume_slug_statuses
    by (auto split: sum.splits prod.splits dest: resolve_family_statuses page query resume_slug_statuses)
qed

lemma ready_statuses: "resp_status (snd (ready parse rq s)) \<in> {200, 503}"
  by (simp add: ready_def contract_of_def split: sum.splits)

lemma authenticate_statuses:
  "authenticate G rq inst = (rq', Inl p) \<Longrightarrow> resp_status (problem_response p) \<in> {401, 503, 500}"
  by (auto simp: authenticate_def Let_def contract_of_def
      split: option.splits sum.splits AuthenticationError.splits PersistenceError.splits)

lemma run_handler_status: "resp_status (snd (run_handler h rq st)) = resp_status (snd (h rq (world st)))"
  by (simp add: run_handler_def split: prod.splits)

lemma policed_statuses:
  assumes "\<And>rq s. resp_status (snd (h rq s)) \<in> A"
  shows "resp_status (snd (policed G CatalogReadPolicy h rq st)) \<in> A \<union> set policy_statuses"
proof -
  obtain rq' res where auth: "authenticate G rq (instance_of rq) = (rq', res)" by fastforce
  show ?thesis
  proof (cases res)
    case (Inl p)
    then show ?thesis using auth authenticate_statuses [of G rq "instance_of rq" rq' p] by (auto simp: policed_def Let_def policy_statuses_def)
  next
    case (Inr who)
    obtain Lm a where "admit (limiter st) (ap_principal_id who) (ap_tier who) (g_now G) = (Lm, a)" by fastforce
    then show ?thesis
      using auth Inr assms by (cases a) (auto simp: policed_def Let_def run_handler_status problem_at_def policy_statuses_def contract_of_def)
  qed
qed

text \<open>Outside the routes only the perimeter's own refusals are added.\<close>

lemma buffer_body_kind: "buffer_body m b chunks = Inl k \<Longrightarrow> k = MalformedInput \<or> k = PayloadTooLarge"
  by (induction m b chunks rule: buffer_body.induct) (auto split: if_splits)

lemma perimeter_answers:
  assumes cors: "\<And>svc s. resp_status (snd (cors svc rq s)) = resp_status (snd (svc rq s))"
    and inner: "\<And>body s. resp_status (snd (routes (rq \<lparr> rq_body := body \<rparr>) s)) \<in> A"
  shows "resp_status (snd (perimeter parse header_text fresh cors max_bytes f routes rq st)) \<in> A \<union> set perimeter_statuses"
proof -
  have body: "resp_status (snd (refuse_oversized_body parse header_text max_bytes routes rq s)) \<in> A \<union> set perimeter_statuses" for s
    using inner
    by (auto simp: refuse_oversized_body_def refuse_status perimeter_statuses_def contract_of_def
        split: sum.splits dest!: buffer_body_kind)
  have status: "resp_status (snd (correlate fresh svc rq s)) = resp_status (snd (svc rq s))" for svc s
    unfolding snd_correlate by (simp add: set_header_def)
  show ?thesis
    unfolding perimeter_def status
    using body cors
    by (auto simp: refuse_oversized_preflight_def shed_when_saturated_def track_in_flight_def enforce_deadline_def
        refuse_status perimeter_statuses_def contract_of_def)
qed

subsection \<open>Answers and documentation\<close>

definition documented_statuses :: "(string \<times> nat list) list" where
  "documented_statuses =
     [(''/health'', [200, 400, 413, 503, 504]), (''/ready'', [200, 400, 413, 503, 504]), (''/version'', [200, 400, 413, 503, 504]),
      (CATALOG_PATH, [200, 304, 400, 401, 403, 404, 413, 429, 503, 504]),
      (MODELS_PATH, [200, 400, 401, 403, 404, 413, 429, 503, 504]),
      (MODEL_PATH, [200, 400, 401, 403, 404, 413, 429, 503, 504])]"

lemma statuses_documented: "\<forall>(path, statuses) \<in> set documented_statuses. \<forall>n \<in> set statuses. documented path (show_nat n)"
  by code_simp

text \<open>The statuses of each declared route, then under the perimeter.\<close>

lemma public_statuses:
  assumes "\<And>rq s. resp_status (snd (h rq s)) \<in> A"
  shows "resp_status (snd (policed G Public h rq st)) \<in> A"
  using assms by (simp add: policed_def run_handler_status)

lemma route_answers:
  assumes "i < length documented_statuses"
  shows "resp_status (snd (snd (snd (router (declared_routes L G X) ! i)) rq st)) \<in> set (snd (documented_statuses ! i)) \<union> {500}"
proof -
  have answer: "resp_status (snd (snd (snd (router (declared_routes L G X) ! i)) rq st)) \<in> B"
    if "resp_status (snd (snd (snd (router (declared_routes L G X) ! i)) rq st)) \<in> A" "A \<subseteq> B" for A B
    using that by blast
  have "i \<in> {0, 1, 2, 3, 4, 5}" using assms by (auto simp: documented_statuses_def)
  then consider "i = 0" | "i = 1" | "i = 2" | "i = 3" | "i = 4" | "i = 5" by blast
  then show ?thesis
  proof cases
    case 1
    show ?thesis
      by (rule answer [of "{200}"]; simp only: 1 declared_router documented_statuses_def nth_Cons_0 snd_conv)
        (rule public_statuses, simp add: health_def, simp)
  next
    case 2
    show ?thesis
      by (rule answer [of "{200, 503}"]) (simp_all add: 2 declared_router documented_statuses_def policed_def run_handler_status
          ready_statuses [simplified])
  next
    case 3
    show ?thesis
      by (rule answer [of "{200}"]) (simp_all add: 3 declared_router documented_statuses_def policed_def run_handler_status version_route_def)
  next
    case 4
    show ?thesis
    proof (rule answer)
      show "resp_status (snd (snd (snd (router (declared_routes L G X) ! i)) rq st)) \<in> {200, 304, 404, 503, 500} \<union> set policy_statuses"
        using policed_statuses [of "catalog_handler L G X", OF catalog_statuses] by (simp only: 4 declared_router) simp
    qed (simp add: 4 documented_statuses_def policy_statuses_def)
  next
    case 5
    show ?thesis
    proof (rule answer)
      show "resp_status (snd (snd (snd (router (declared_routes L G X) ! i)) rq st)) \<in> {200, 400, 404, 503, 500} \<union> set policy_statuses"
        using policed_statuses [of "models_handler L G X", OF models_statuses] by (simp only: 5 declared_router) simp
    qed (simp add: 5 documented_statuses_def policy_statuses_def)
  next
    case 6
    show ?thesis
    proof (rule answer)
      show "resp_status (snd (snd (snd (router (declared_routes L G X) ! i)) rq st)) \<in> {200, 404, 503, 500} \<union> set policy_statuses"
        using policed_statuses [of "model_handler G X", OF model_statuses] by (simp only: 6 declared_router) simp
    qed (simp add: 6 documented_statuses_def policy_statuses_def)
  qed
qed

lemma served_matched:
  assumes "pick (map (\<lambda>(m, path, _). (m, path)) (router R)) (rq \<lparr> rq_original := Some (rq_path rq) \<rparr>) = Matched i"
    and "i < length (router R)"
  shows "served parse pick R rq st = snd (snd (router R ! i)) (rq \<lparr> rq_original := Some (rq_path rq) \<rparr>) st"
  unfolding served_def Let_def assms(1) using assms(2) by simp

lemma declared_answers:
  fixes st :: "'o::linorder api_state api"
  assumes "\<And>svc s. resp_status (snd (cors svc rq s)) = resp_status (snd (svc rq s))"
    and "\<And>body. pick (map (\<lambda>(m, path, _). (m, path)) (router (declared_routes L G X :: 'o api_state Routes)))
      (rq \<lparr> rq_body := body, rq_original := Some (rq_path rq) \<rparr>) = Matched i"
    and "i < length documented_statuses"
  shows "resp_status (snd (router_with_routes L G X fresh cors max_bytes f pick Routes_new rq st)) \<in>
    set (snd (documented_statuses ! i)) \<union> {500}"
proof -
  have merged: "Routes_merge Routes_new (declared_routes L G X) = declared_routes L G X"
    by (simp add: Routes_merge_def Routes_new_def)
  have "i < length (router (declared_routes L G X :: 'o api_state Routes))" using assms(3) by (simp add: declared_router documented_statuses_def)
  moreover have "(rq \<lparr> rq_body := body \<rparr>) \<lparr> rq_original := Some (rq_path (rq \<lparr> rq_body := body \<rparr>)) \<rparr> =
      rq \<lparr> rq_body := body, rq_original := Some (rq_path rq) \<rparr>" for body by simp
  ultimately have picked: "served (g_parse G) pick (declared_routes L G X :: 'o api_state Routes) (rq \<lparr> rq_body := body \<rparr>) s =
      snd (snd (router (declared_routes L G X :: 'o api_state Routes) ! i)) (rq \<lparr> rq_body := body, rq_original := Some (rq_path rq) \<rparr>) s" for body s
    using served_matched [of pick "declared_routes L G X :: 'o api_state Routes" "rq \<lparr> rq_body := body \<rparr>" i "g_parse G" s] assms(2) [of body] by simp
  have "resp_status (snd (served (g_parse G) pick (declared_routes L G X :: 'o api_state Routes) (rq \<lparr> rq_body := body \<rparr>) s)) \<in>
      set (snd (documented_statuses ! i)) \<union> {500}" for body s
    unfolding picked by (rule route_answers [OF assms(3)])
  from perimeter_answers [where cors = cors and rq = rq and routes = "served (g_parse G) pick (declared_routes L G X :: 'o api_state Routes)", OF assms(1) this]
  have "resp_status (snd (router_with_routes L G X fresh cors max_bytes f pick Routes_new rq st)) \<in>
      set (snd (documented_statuses ! i)) \<union> {500} \<union> set perimeter_statuses"
    by (simp only: router_with_routes_def merged)
  moreover have "list_all (\<lambda>(_, statuses). set perimeter_statuses \<subseteq> set statuses) documented_statuses"
    by (simp add: perimeter_statuses_def documented_statuses_def)
  then have "set perimeter_statuses \<subseteq> set (snd (documented_statuses ! i))"
    using assms(3) by (metis (mono_tags, lifting) case_prod_unfold list_all_length)
  ultimately show ?thesis by blast
qed

text \<open>
  C20: Whatever the assembled router answers on a declared route, through authentication, the limiter, the handler and
  the perimeter, the generated document lists that status for the operation; the one exception is 500.
\<close>

theorem answers_documented:
  fixes st :: "'o::linorder api_state api"
  assumes "\<And>svc s. resp_status (snd (cors svc rq s)) = resp_status (snd (svc rq s))"
    and "\<And>body. pick (map (\<lambda>(m, path, _). (m, path)) (router (declared_routes L G X :: 'o api_state Routes)))
      (rq \<lparr> rq_body := body, rq_original := Some (rq_path rq) \<rparr>) = Matched i"
    and "i < length (router (declared_routes L G X :: 'o api_state Routes))"
    and "resp_status (snd (router_with_routes L G X fresh cors max_bytes f pick Routes_new rq st)) = status" and "status \<noteq> 500"
  shows "documented (fst (snd (router (declared_routes L G X :: 'o api_state Routes) ! i))) (show_nat status)"
proof -
  have i: "i < length documented_statuses" using assms(3) by (simp add: declared_router documented_statuses_def)
  then have path: "fst (snd (router (declared_routes L G X :: 'o api_state Routes) ! i)) = fst (documented_statuses ! i)"
    by (auto simp: declared_router documented_statuses_def less_Suc_eq numeral_nat)
  have "status \<in> set (snd (documented_statuses ! i))"
    using declared_answers [where cors = cors and pick = pick and rq = rq, OF assms(1,2) i, of fresh max_bytes f st] assms(4,5)
    by blast
  then show ?thesis using statuses_documented nth_mem [OF i] unfolding path by (cases "documented_statuses ! i") fastforce
qed

definition calm :: "'s fate" where
  "calm = \<lparr> permit_free = True, was_cancelled = False, was_late = False, abandoned = (\<lambda>_ s. s) \<rparr>"

definition anonymous_read :: http_request where
  "anonymous_read = \<lparr> rq_method = GET, rq_path = ''/v1/reference/fuel-types'', rq_original = None, rq_headers = [],
     rq_body = [], rq_principal = None \<rparr>"

lemma anonymous_refused:
  "resp_status (snd (router_with_routes L (sample_gate store) X fresh (\<lambda>svc. svc) 10 calm (\<lambda>_ _. Matched 3) Routes_new
     anonymous_read (sample_state one_row))) = 401"
proof -
  have "resp_status (snd (policed (sample_gate store) CatalogReadPolicy h (anonymous_read \<lparr> rq_original := p, rq_body := b \<rparr>) s)) = 401"
    for h :: "nat api_state service" and p b s
    by (simp add: policed_def authenticate_def Let_def presented_def bearer_token_def header_values_def anonymous_read_def sample_gate_def
        remove_header_def contract_of_def)
  then show ?thesis
    by (simp add: router_with_routes_def perimeter_def snd_correlate set_header_def refuse_oversized_preflight_def
        shed_when_saturated_def track_in_flight_def enforce_deadline_def refuse_oversized_body_def declares_more_than_def
        header_values_def calm_def served_def Let_def Routes_merge_def Routes_new_def declared_router anonymous_read_def)
qed

lemma answers_documented_witness: "documented CATALOG_PATH (show_nat 401)"
proof -
  have refused: "resp_status (snd (router_with_routes sample_cursor_libs (sample_gate store) sample_extractors [] (\<lambda>svc. svc) 10 calm
      (\<lambda>_ _. Matched 3) Routes_new anonymous_read (sample_state one_row))) = 401" for store by (rule anonymous_refused)
  then show ?thesis
    using answers_documented [of "\<lambda>svc. svc" anonymous_read "\<lambda>_ _. Matched 3" sample_cursor_libs "sample_gate store" sample_extractors 3
        "[]" 10 calm "sample_state one_row" 401 for store]
    by (simp add: declared_router)
qed

text \<open>What the document loses or leaves out.\<close>

lemma list_models_400_lost: "published_response MODELS_PATH ''400'' = Some ''The request body could not be read''"
  by code_simp

lemma internal_error_undocumented:
  "resp_status (read_failure parse (Invariant m) inst) = 500 \<and>
   (\<forall>(path, _) \<in> set documented_statuses. \<not> documented path (show_nat 500))"
proof
  show "resp_status (read_failure parse (Invariant m) inst) = 500" by (simp add: read_failure_def contract_of_def)
  show "\<forall>(path, _) \<in> set documented_statuses. \<not> documented path (show_nat 500)" by code_simp
qed

end
