(* ===== verification/Migrations.thy ===== *)
theory Migrations
  imports Source_Text "HOL-Library.Char_ord" "HOL-Library.List_Lexorder"
begin

text \<open>
  \<open>xtask::migrations\<close>: the policy over \<open>database/\<close> that keeps the migration history immutable and the lock,
  the installer, the ledger and the lint baseline in step with it. The files are a parameter: reading one may
  fail, the lock is parsed by \<open>serde_json\<close>, SHA-256 is the crate's. A violation is a value, its wording left out.
\<close>

subsection \<open>Files\<close>

text \<open>
  \<open>ws_names\<close> lists a directory (an unreadable entry or a name outside UTF-8 is \<open>None\<close>), \<open>ws_bytes\<close> reads a file,
  \<open>ws_text\<close> one that must be UTF-8. Paths are relative to the workspace.
\<close>

record workspace =
  ws_names :: "string \<Rightarrow> string option list option"
  ws_bytes :: "string \<Rightarrow> string option"
  ws_text :: "string \<Rightarrow> string option"
  ws_lock :: "string \<Rightarrow> (nat \<times> (string \<times> string) list) option"
  ws_sha :: "string \<Rightarrow> string"

record Migration =
  mg_file :: string
  mg_version :: nat

datatype violation =
    InvalidName string
  | DuplicateVersion nat string string
  | MissingFromLock string
  | StaleLockEntry string
  | InvalidLockedDigest string
  | ChecksumChanged string string string
  | NoTransaction string
  | InstallerCount string nat
  | InstallerOrder string
  | InstallerUnknown string
  | LedgerRecords "string list" "string list"
  | NoCompanion string string
  | LedgerUndeclared
  | LedgerExpects "string list" "string list"
  | SquawkBaseline "string list" "string list"

datatype policy_failure =
    Unreadable string
  | NameNotUtf8 string
  | LockNotJson
  | UnsupportedLock nat
  | PolicyFailed "violation list"

definition LOCK_SCHEMA_VERSION :: nat where "LOCK_SCHEMA_VERSION = 1"
definition SQUAWK_BASELINE_LAST_VERSION :: nat where "SQUAWK_BASELINE_LAST_VERSION = 16"
definition VALIDATION_REQUIRED_FROM_VERSION :: nat where "VALIDATION_REQUIRED_FROM_VERSION = 17"

definition MIGRATIONS_DIR :: string where "MIGRATIONS_DIR = ''database/migrations''"
definition VALIDATION_DIR :: string where "VALIDATION_DIR = ''database/validation''"
definition HISTORY_LEDGER_FILE :: string where "HISTORY_LEDGER_FILE = ''000_migration_history_validation.sql''"

definition LEDGER_INSERT_PREFIX :: string where
  "LEDGER_INSERT_PREFIX = ''INSERT INTO public.aircraft_schema_migrations(version) VALUES ('' @ [CHR 0x27]"

definition LEDGER_DECLARATION_PREFIX :: string where
  "LEDGER_DECLARATION_PREFIX = ''expected_versions CONSTANT TEXT[] := ARRAY[''"

definition INSTALL_DIRECTIVE :: string where
  "INSTALL_DIRECTIVE = CHR 0x5C # ''ir migrations/''"

definition join_path :: "string \<Rightarrow> string \<Rightarrow> string" where
  "join_path d f = d @ ''/'' @ f"

definition read_from :: "(string \<Rightarrow> string option) \<Rightarrow> string \<Rightarrow> policy_failure + string" where
  "read_from files path = ok_or (Unreadable path) (files path)"

definition list_names :: "workspace \<Rightarrow> string \<Rightarrow> policy_failure + string list" where
  "list_names W d =
     and_then (ok_or (Unreadable d) (ws_names W d)) (\<lambda>entries.
     collect_results (map (ok_or (NameNotUtf8 d)) entries))"

text \<open>\<open>str::lines\<close>: the pieces ended by a line feed, a carriage return before it dropped; no empty last line.\<close>

definition chomp :: "string \<Rightarrow> string" where
  "chomp p = (case strip_suffix [CHR 0x0D] p of Some q \<Rightarrow> q | None \<Rightarrow> p)"

definition str_lines :: "string \<Rightarrow> string list" where
  "str_lines s =
     (let ps = split_char (CHR 0x0A) s in map chomp (butlast ps) @ (if last ps = [] then [] else [last ps]))"

text \<open>\<open>{:03}\<close>.\<close>

definition pad3 :: "nat \<Rightarrow> string" where
  "pad3 n = replicate (3 - length (show_nat n)) (CHR ''0'') @ show_nat n"

text \<open>A \<open>BTreeSet\<close> in its order.\<close>

definition btree_set :: "string list \<Rightarrow> string list" where
  "btree_set xs = sort (remdups xs)"

definition btree_difference :: "string list \<Rightarrow> string list \<Rightarrow> string list" where
  "btree_difference xs ys = filter (\<lambda>x. x \<notin> set ys) (btree_set xs)"

subsection \<open>Names and versions\<close>

text \<open>\<open>Path::extension\<close> of the name of a directory entry (no slash): what follows a last dot that is not the first byte.\<close>

definition has_sql_extension :: "string \<Rightarrow> bool" where
  "has_sql_extension name = (case strip_suffix ''.sql'' name of Some stem \<Rightarrow> stem \<noteq> [] | None \<Rightarrow> False)"

definition migration_version :: "string \<Rightarrow> nat option" where
  "migration_version file =
     (case split_once (CHR ''_'') file of
        None \<Rightarrow> None
      | Some (number, description) \<Rightarrow>
          if length number \<noteq> 3 \<or> description = ''.sql'' \<or> \<not> has_sql_extension description then None
          else map_option nat (parse_unsigned u16_max number))"

definition read_migrations :: "workspace \<Rightarrow> policy_failure + Migration list" where
  "read_migrations W =
     and_then (list_names W MIGRATIONS_DIR) (\<lambda>names.
     Inr (map (\<lambda>f. \<lparr> mg_file = f, mg_version = (case migration_version f of Some v \<Rightarrow> v | None \<Rightarrow> 0) \<rparr>)
       (sort (filter has_sql_extension names))))"

definition read_lock :: "workspace \<Rightarrow> policy_failure + (string \<times> string) list" where
  "read_lock W =
     and_then (read_from (ws_bytes W) ''database/migrations.lock.json'') (\<lambda>bytes.
     and_then (ok_or LockNotJson (ws_lock W bytes)) (\<lambda>(version, entries).
     if version \<noteq> LOCK_SCHEMA_VERSION then Inl (UnsupportedLock version) else Inr entries))"

definition name_byte :: "char \<Rightarrow> bool" where
  "name_byte c \<longleftrightarrow> is_ascii_lowercase c \<or> is_ascii_digit c \<or> c \<in> set ''_.''"

definition valid_name :: "string \<Rightarrow> bool" where
  "valid_name file \<longleftrightarrow> migration_version file \<noteq> None \<and> list_all name_byte file"

text \<open>\<open>seen\<close> is the map from a version to the last file that had it.\<close>

fun name_violations :: "(nat \<rightharpoonup> string) \<Rightarrow> Migration list \<Rightarrow> violation list" where
  "name_violations seen [] = []"
| "name_violations seen (m # ms) =
     (if \<not> valid_name (mg_file m) then InvalidName (mg_file m) # name_violations seen ms
      else (case seen (mg_version m) of None \<Rightarrow> [] | Some previous \<Rightarrow> [DuplicateVersion (mg_version m) previous (mg_file m)])
        @ name_violations (seen(mg_version m \<mapsto> mg_file m)) ms)"

definition check_names_and_versions :: "Migration list \<Rightarrow> violation list" where
  "check_names_and_versions ms = name_violations (\<lambda>_. None) ms"

subsection \<open>Lock\<close>

text \<open>The map of the lock's entries: the last entry for a file counts.\<close>

definition locked_by_file :: "(string \<times> string) list \<Rightarrow> (string \<rightharpoonup> string)" where
  "locked_by_file entries = map_of (rev entries)"

definition digest_shape :: "string \<Rightarrow> bool" where
  "digest_shape expected \<longleftrightarrow> length expected = 64 \<and> list_all is_ascii_hexdigit expected"

fun check_digests :: "workspace \<Rightarrow> (string \<rightharpoonup> string) \<Rightarrow> Migration list \<Rightarrow> policy_failure + violation list" where
  "check_digests W locked [] = Inr []"
| "check_digests W locked (m # ms) =
     (case locked (mg_file m) of
        None \<Rightarrow> check_digests W locked ms
      | Some expected \<Rightarrow>
          if \<not> digest_shape expected
          then and_then (check_digests W locked ms) (\<lambda>vs. Inr (InvalidLockedDigest (mg_file m) # vs))
          else and_then (read_from (ws_bytes W) (join_path MIGRATIONS_DIR (mg_file m))) (\<lambda>bytes.
            let actual = hex_digest (ws_sha W bytes) in
            and_then (check_digests W locked ms) (\<lambda>vs.
            Inr (if actual \<noteq> expected then ChecksumChanged (mg_file m) expected actual # vs else vs))))"

definition check_lock :: "workspace \<Rightarrow> Migration list \<Rightarrow> (string \<times> string) list \<Rightarrow> policy_failure + violation list" where
  "check_lock W ms entries =
     (let files = map mg_file ms; locked_files = map fst entries in
      and_then (check_digests W (locked_by_file entries) ms) (\<lambda>vs.
      Inr (map MissingFromLock (btree_difference files locked_files) @
           map StaleLockEntry (btree_difference locked_files files) @ vs)))"

fun check_transactions :: "workspace \<Rightarrow> Migration list \<Rightarrow> policy_failure + violation list" where
  "check_transactions W [] = Inr []"
| "check_transactions W (m # ms) =
     and_then (read_from (ws_text W) (join_path MIGRATIONS_DIR (mg_file m))) (\<lambda>sql.
     let statements = map trim (str_lines sql) in
     and_then (check_transactions W ms) (\<lambda>vs.
     Inr (if ''BEGIN;'' \<notin> set statements \<or> ''COMMIT;'' \<notin> set statements then NoTransaction (mg_file m) # vs else vs)))"

subsection \<open>Installer\<close>

definition directive :: "nat \<times> string \<Rightarrow> (nat \<times> string) option" where
  "directive = (\<lambda>(n, line). if starts_with ''--'' (trim line) then None
     else map_option (Pair n) (strip_prefix INSTALL_DIRECTIVE (trim line)))"

definition directives :: "string \<Rightarrow> (nat \<times> string) list" where
  "directives installer = List.map_filter directive (enumerate 0 (str_lines installer))"

fun order_violations :: "(nat \<times> string) list \<Rightarrow> nat option \<Rightarrow> Migration list \<Rightarrow> violation list" where
  "order_violations ds previous [] = []"
| "order_violations ds previous (m # ms) =
     (case map fst (filter (\<lambda>d. snd d = mg_file m) ds) of
        [position] \<Rightarrow>
          (case previous of Some p \<Rightarrow> if position \<le> p then [InstallerOrder (mg_file m)] else [] | None \<Rightarrow> [])
            @ order_violations ds (Some position) ms
      | positions \<Rightarrow> InstallerCount (mg_file m) (length positions) # order_violations ds previous ms)"

definition recorded_version :: "string \<Rightarrow> string option" where
  "recorded_version line =
     (if starts_with ''--'' line then None
      else Option.bind (strip_prefix LEDGER_INSERT_PREFIX line) (\<lambda>rest. map_option fst (split_once (CHR 0x27) rest)))"

definition recorded_versions :: "string \<Rightarrow> string list" where
  "recorded_versions installer = List.map_filter recorded_version (map trim (str_lines installer))"

definition shipped_versions :: "Migration list \<Rightarrow> string list" where
  "shipped_versions ms = map (\<lambda>m. pad3 (mg_version m)) ms"

definition installer_violations :: "Migration list \<Rightarrow> string \<Rightarrow> violation list" where
  "installer_violations ms installer =
     (let ds = directives installer; recorded = recorded_versions installer; versions = shipped_versions ms in
      order_violations ds None ms @
      map (\<lambda>d. InstallerUnknown (snd d)) (filter (\<lambda>d. snd d \<notin> mg_file ` set ms) ds) @
      (if recorded \<noteq> versions then [LedgerRecords recorded versions] else []))"

definition check_installer :: "workspace \<Rightarrow> Migration list \<Rightarrow> policy_failure + violation list" where
  "check_installer W ms =
     and_then (read_from (ws_text W) ''database/install.sql'') (\<lambda>installer. Inr (installer_violations ms installer))"

definition has_companion :: "string list \<Rightarrow> Migration \<Rightarrow> bool" where
  "has_companion names m \<longleftrightarrow> list_ex (\<lambda>f. starts_with (pad3 (mg_version m) @ ''_'') f \<and> has_sql_extension f) names"

definition check_validations :: "workspace \<Rightarrow> Migration list \<Rightarrow> policy_failure + violation list" where
  "check_validations W ms =
     and_then (list_names W VALIDATION_DIR) (\<lambda>names.
     Inr (map (\<lambda>m. NoCompanion (mg_file m) (pad3 (mg_version m) @ ''_''))
       (filter (\<lambda>m. mg_version m \<ge> VALIDATION_REQUIRED_FROM_VERSION \<and> \<not> has_companion names m) ms)))"

subsection \<open>Ledger\<close>

text \<open>
  \<open>without_sql_comments\<close>: outside a comment, in a line comment, in a block comment. Every character it tests is
  one byte, so the bytes may be read one by one.
\<close>

fun active_sql :: "string \<Rightarrow> string option"
  and line_comment :: "string \<Rightarrow> string option"
  and block_comment :: "string \<Rightarrow> string option" where
  "active_sql [] = Some []"
| "active_sql (c # cs) =
     (if c = CHR ''-'' \<and> starts_with ''-'' cs then line_comment (drop 1 cs)
      else if c = CHR ''/'' \<and> starts_with ''*'' cs then block_comment (drop 1 cs)
      else map_option ((#) c) (active_sql cs))"
| "line_comment [] = Some []"
| "line_comment (c # cs) = (if c = CHR 0x0A then map_option ((#) c) (active_sql cs) else line_comment cs)"
| "block_comment [] = None"
| "block_comment (c # cs) =
     (if c = CHR 0x0A then map_option ((#) c) (block_comment cs)
      else if c = CHR ''*'' \<and> starts_with ''/'' cs then active_sql (drop 1 cs)
      else block_comment cs)"

definition without_sql_comments :: "string \<Rightarrow> string option" where
  "without_sql_comments sql = active_sql sql"

fun find_declaration :: "string list \<Rightarrow> (string \<times> string list) option" where
  "find_declaration [] = None"
| "find_declaration (l # ls) =
     (case strip_prefix LEDGER_DECLARATION_PREFIX l of Some t \<Rightarrow> Some (t, ls) | None \<Rightarrow> find_declaration ls)"

fun whole_literal :: "string \<Rightarrow> string list \<Rightarrow> string option" where
  "whole_literal literal [] = (if CHR '']'' \<in> set literal then Some literal else None)"
| "whole_literal literal (l # ls) = (if CHR '']'' \<in> set literal then Some literal else whole_literal (literal @ l) ls)"

definition ledger_entry :: "string \<Rightarrow> string option" where
  "ledger_entry entry =
     Option.bind (strip_prefix [CHR 0x27] (trim entry)) (\<lambda>t.
     Option.bind (strip_suffix [CHR 0x27] t) (\<lambda>version.
     if length version = 3 \<and> list_all is_ascii_digit version then Some version else None))"

fun collect_options :: "'a option list \<Rightarrow> 'a list option" where
  "collect_options [] = Some []"
| "collect_options (v # vs) = Option.bind v (\<lambda>x. map_option ((#) x) (collect_options vs))"

definition ledger_versions :: "string \<Rightarrow> string list option" where
  "ledger_versions sql =
     Option.bind (without_sql_comments sql) (\<lambda>active.
     Option.bind (find_declaration (map trim (str_lines active))) (\<lambda>(head, rest).
     Option.bind (whole_literal head rest) (\<lambda>literal.
     Option.bind (split_once (CHR '']'') literal) (\<lambda>(entries, suffix).
     if \<not> starts_with '';'' (trim_start suffix) then None
     else collect_options (map ledger_entry (split_char (CHR '','') entries))))))"

definition check_history_ledger :: "workspace \<Rightarrow> Migration list \<Rightarrow> policy_failure + violation list" where
  "check_history_ledger W ms =
     and_then (read_from (ws_text W) (join_path VALIDATION_DIR HISTORY_LEDGER_FILE)) (\<lambda>sql.
     Inr (case ledger_versions sql of
            None \<Rightarrow> [LedgerUndeclared]
          | Some declared \<Rightarrow>
              if declared \<noteq> shipped_versions ms then [LedgerExpects declared (shipped_versions ms)] else []))"

subsection \<open>Lint baseline\<close>

definition squawk_exclusion :: "string \<Rightarrow> string option" where
  "squawk_exclusion line =
     Option.bind (strip_prefix (CHR 0x22 # ''**/'') (trim line)) (\<lambda>t. strip_suffix [CHR 0x22, CHR '',''] t)"

definition squawk_violations :: "Migration list \<Rightarrow> string \<Rightarrow> violation list" where
  "squawk_violations ms squawk =
     (let actual = List.map_filter squawk_exclusion (str_lines squawk);
          expected = map mg_file (filter (\<lambda>m. mg_version m \<le> SQUAWK_BASELINE_LAST_VERSION) ms)
      in if set actual \<noteq> set expected
         then [SquawkBaseline (btree_difference actual expected) (btree_difference expected actual)] else [])"

definition check_squawk_exclusions :: "workspace \<Rightarrow> Migration list \<Rightarrow> policy_failure + violation list" where
  "check_squawk_exclusions W ms =
     and_then (read_from (ws_text W) ''.squawk.toml'') (\<lambda>squawk. Inr (squawk_violations ms squawk))"

subsection \<open>The policy\<close>

definition policy_violations ::
  "workspace \<Rightarrow> Migration list \<Rightarrow> (string \<times> string) list \<Rightarrow> policy_failure + violation list" where
  "policy_violations W ms entries =
     and_then (check_lock W ms entries) (\<lambda>locks.
     and_then (check_transactions W ms) (\<lambda>transactions.
     and_then (check_installer W ms) (\<lambda>installer.
     and_then (check_validations W ms) (\<lambda>companions.
     and_then (check_history_ledger W ms) (\<lambda>ledger.
     and_then (check_squawk_exclusions W ms) (\<lambda>squawk.
     Inr (check_names_and_versions ms @ locks @ transactions @ installer @ companions @ ledger @ squawk)))))))"

definition check_migrations :: "workspace \<Rightarrow> policy_failure + unit" where
  "check_migrations W =
     and_then (read_migrations W) (\<lambda>ms.
     and_then (read_lock W) (\<lambda>entries.
     and_then (policy_violations W ms entries) (\<lambda>vs.
     if vs \<noteq> [] then Inl (PolicyFailed vs) else Inr ())))"

end
