(* ===== verification/Migrations_Guarantees.thy ===== *)
theory Migrations_Guarantees
  imports Migrations Source_Text_Facts
begin

text \<open>
  What a passing migration policy says: the versions strictly increase, every file has the bytes its lock entry
  names, the installer applies exactly the shipped files in their order, and the ledger records their versions.
\<close>

subsection \<open>Names\<close>

lemma valid_name_split:
  assumes "valid_name f" and "migration_version f = Some v"
  obtains a b c rest where "f = a # b # c # CHR ''_'' # rest" "list_all is_ascii_digit [a, b, c]"
    "v = nat (digits_value [a, b, c])"
proof -
  obtain number description where f: "split_once (CHR ''_'') f = Some (number, description)"
      "length number = 3" "parse_unsigned u16_max number = Some (int v)"
    using assms(2) parse_unsigned_range
    by (fastforce simp: migration_version_def split: option.splits prod.splits if_splits)
  then obtain a b c where abc: "number = [a, b, c]"
    by (auto simp: numeral_3_eq_3 length_Suc_conv)
  have eq: "f = a # b # c # CHR ''_'' # description"
    using f(1) abc by (simp add: split_once_Some_iff)
  then have "name_byte a" using assms(1) by (simp add: valid_name_def)
  then have "a \<noteq> CHR ''+''" by (auto simp: name_byte_def byte_class_defs)
  then have "(case number of CHR ''+'' # t \<Rightarrow> t | _ \<Rightarrow> number) = number"
    by (auto simp: abc split: char.splits bool.splits)
  then have "parse_digits number = Some (int v)"
    using f(3) by (auto simp: parse_unsigned_def bind_eq_Some_conv in_range_Some_iff)
  then show ?thesis using that eq by (auto simp: parse_digits_def abc split: if_splits)
qed

lemma digits_value_3: "digits_value [a, b, c] = 100 * digit_value a + 10 * digit_value b + digit_value c"
  by (simp add: digits_value_def)

lemma digit_value_bounds: "is_ascii_digit c \<Longrightarrow> 0 \<le> digit_value c \<and> digit_value c \<le> 9"
  by (simp add: digit_value_def is_ascii_digit_def)

lemma name_order:
  assumes "valid_name f" "valid_name g" "migration_version f = Some v" "migration_version g = Some w" "f \<le> g"
  shows "v \<le> w"
proof -
  obtain a b c r where f: "f = a # b # c # CHR ''_'' # r" "list_all is_ascii_digit [a, b, c]" "v = nat (digits_value [a, b, c])"
    using valid_name_split [OF assms(1,3)] .
  obtain a' b' c' r' where g: "g = a' # b' # c' # CHR ''_'' # r'" "list_all is_ascii_digit [a', b', c']"
      "w = nat (digits_value [a', b', c'])"
    using valid_name_split [OF assms(2,4)] .
  note bounds = digit_value_bounds [of a] digit_value_bounds [of b] digit_value_bounds [of c]
    digit_value_bounds [of a'] digit_value_bounds [of b'] digit_value_bounds [of c']
  have less: "digit_value x < digit_value y" if "x < y" for x y :: char
    using that by (simp add: digit_value_def less_char_def)
  have "a < a' \<or> a = a' \<and> (b < b' \<or> b = b' \<and> (c < c' \<or> c = c'))"
    using assms(5) f(1) g(1) by auto
  then have "digits_value [a, b, c] \<le> digits_value [a', b', c']"
    using bounds f(2) g(2) less [of a a'] less [of b b'] less [of c c'] by (auto simp: digits_value_3)
  then show ?thesis using f(3) g(3) by simp
qed

lemma no_name_violations:
  "name_violations seen ms = [] \<Longrightarrow>
     (\<forall>m \<in> set ms. valid_name (mg_file m) \<and> seen (mg_version m) = None) \<and> distinct (map mg_version ms)"
proof (induction seen ms rule: name_violations.induct)
  case (2 seen m ms)
  have m: "valid_name (mg_file m)" "seen (mg_version m) = None" "name_violations (seen(mg_version m \<mapsto> mg_file m)) ms = []"
    using 2(3) by (auto split: if_splits option.splits)
  then have tail: "valid_name (mg_file n) \<and> (seen(mg_version m \<mapsto> mg_file m)) (mg_version n) = None" if "n \<in> set ms" for n
    using 2(2) m that by blast
  then have other: "mg_version n \<noteq> mg_version m \<and> seen (mg_version n) = None" if "n \<in> set ms" for n
    using that by (metis fun_upd_apply option.distinct(1))
  then have "mg_version m \<notin> mg_version ` set ms" by (metis imageE)
  moreover have "distinct (map mg_version ms)" using 2(2) m by blast
  moreover have "\<forall>n \<in> set ms. valid_name (mg_file n) \<and> seen (mg_version n) = None" using tail other by blast
  ultimately show ?case using m(1,2) by simp
qed simp

subsection \<open>What acceptance says of each check\<close>

lemma accepted_checks:
  assumes "check_migrations W = Inr ()" and "read_migrations W = Inr ms" and "read_lock W = Inr entries"
  shows "check_names_and_versions ms = []" and "check_lock W ms entries = Inr []" and "check_installer W ms = Inr []"
    and "check_history_ledger W ms = Inr []"
  using assms by (auto simp: check_migrations_def policy_violations_def and_then_Inr_iff split: if_splits)

lemma accepted_lock_readable: "check_migrations W = Inr () \<Longrightarrow> \<exists>entries. read_lock W = Inr entries"
  by (auto simp: check_migrations_def and_then_Inr_iff)

lemma migrations_sorted:
  assumes "read_migrations W = Inr ms"
  shows "sorted (map mg_file ms)"
    and "m \<in> set ms \<Longrightarrow> mg_version m = (case migration_version (mg_file m) of Some v \<Rightarrow> v | None \<Rightarrow> 0)"
  using assms by (auto simp: read_migrations_def and_then_Inr_iff comp_def)

lemma accepted_versions:
  assumes "check_migrations W = Inr ()" and "read_migrations W = Inr ms"
  shows "sorted_wrt (<) (map mg_version ms)"
proof -
  have names: "\<forall>m \<in> set ms. valid_name (mg_file m)" "distinct (map mg_version ms)"
    using accepted_checks(1) [OF assms] accepted_lock_readable [OF assms(1)] no_name_violations
    by (fastforce simp: check_names_and_versions_def)+
  have le: "mg_version m \<le> mg_version n" if "m \<in> set ms" "n \<in> set ms" "mg_file m \<le> mg_file n" for m n
  proof -
    note mn = that
    obtain v w where vw: "migration_version (mg_file m) = Some v" "migration_version (mg_file n) = Some w"
      using mn(1,2) names(1) by (meson not_None_eq valid_name_def)
    then have "v \<le> w" using name_order names(1) mn by blast
    then show ?thesis using vw mn migrations_sorted(2) [OF assms(2)] by simp
  qed
  have "sorted_wrt (\<lambda>m n. mg_file m \<le> mg_file n) ms"
    using migrations_sorted(1) [OF assms(2)] by (simp add: sorted_wrt_map)
  then have "sorted_wrt (\<lambda>m n. mg_version m \<le> mg_version n) ms"
    by (rule sorted_wrt_mono_rel [rotated]) (use le in blast)
  then have "sorted (map mg_version ms)" by (simp add: sorted_wrt_map)
  then show ?thesis using names(2) by (simp only: strict_sorted_iff)
qed

lemma accepted_files_distinct:
  assumes "check_migrations W = Inr ()" and "read_migrations W = Inr ms"
  shows "distinct (map mg_file ms)"
proof -
  have "distinct ms" "inj_on mg_version (set ms)"
    using accepted_versions [OF assms] by (simp_all add: strict_sorted_iff distinct_map)
  moreover have "mg_version m = mg_version n" if "m \<in> set ms" "n \<in> set ms" "mg_file m = mg_file n" for m n
    using that migrations_sorted(2) [OF assms(2)] by simp
  ultimately show ?thesis by (auto simp: distinct_map intro!: inj_onI dest: inj_onD)
qed

subsection \<open>Lock\<close>

lemma set_btree_difference [simp]: "set (btree_difference xs ys) = set xs - set ys"
  by (auto simp: btree_difference_def btree_set_def)

lemma btree_difference_empty: "btree_difference xs ys = [] \<longleftrightarrow> set xs \<subseteq> set ys"
  by (metis Diff_eq_empty_iff set_btree_difference set_empty)

lemma check_digests_clean:
  "check_digests W locked ms = Inr [] \<Longrightarrow> m \<in> set ms \<Longrightarrow> locked (mg_file m) = Some d \<Longrightarrow>
     map_option (hex_digest \<circ> ws_sha W) (ws_bytes W (join_path MIGRATIONS_DIR (mg_file m))) = Some d"
  by (induction ms) (auto simp: and_then_Inr_iff read_from_def Let_def split: option.splits if_splits)

lemma accepted_lock:
  assumes "check_migrations W = Inr ()" and "read_migrations W = Inr ms" and "read_lock W = Inr entries"
  shows "set (map mg_file ms) = set (map fst entries)"
    and "m \<in> set ms \<Longrightarrow>
      map_option (hex_digest \<circ> ws_sha W) (ws_bytes W (join_path MIGRATIONS_DIR (mg_file m))) =
      locked_by_file entries (mg_file m)"
proof -
  have clean: "btree_difference (map mg_file ms) (map fst entries) = []" "btree_difference (map fst entries) (map mg_file ms) = []"
      "check_digests W (locked_by_file entries) ms = Inr []"
    using accepted_checks(2) [OF assms] by (auto simp: check_lock_def and_then_Inr_iff Let_def)
  show files: "set (map mg_file ms) = set (map fst entries)"
    using clean(1,2) by (simp only: btree_difference_empty)
  show "map_option (hex_digest \<circ> ws_sha W) (ws_bytes W (join_path MIGRATIONS_DIR (mg_file m))) = locked_by_file entries (mg_file m)"
    if "m \<in> set ms"
  proof -
    have "mg_file m \<in> fst ` set (rev entries)" using that files by force
    then obtain d where "locked_by_file entries (mg_file m) = Some d"
      unfolding locked_by_file_def by (metis map_of_eq_None_iff not_None_eq)
    then show ?thesis using check_digests_clean [OF clean(3) that] by simp
  qed
qed

subsection \<open>Installer\<close>

lemma directives_sorted: "sorted_wrt (\<lambda>x y. fst x < fst y) (directives installer)"
proof -
  have keeps: "directive x = Some y \<Longrightarrow> fst y = fst x" for x y
    by (auto simp: directive_def split: prod.splits if_splits)
  have "sorted_wrt (\<lambda>x y. fst x < fst y) (List.map_filter directive (enumerate n ls))" for n ls
  proof (induction ls arbitrary: n)
    case (Cons l ls)
    have "n < fst y" if "y \<in> set (List.map_filter directive (enumerate (Suc n) ls))" for y
      using that keeps by (fastforce simp: List.map_filter_def in_set_enumerate_eq)
    then show ?case
      using Cons.IH [of "Suc n"] keeps [of "(n, l)"] by (auto simp: List.map_filter_def split: option.splits)
  qed (simp add: List.map_filter_def)
  then show ?thesis by (simp add: directives_def)
qed

text \<open>Where a clean installer has each migration.\<close>

lemma order_clean:
  assumes "order_violations ds previous ms = []"
  shows "\<exists>ps. length ps = length ms \<and> sorted_wrt (<) (case previous of Some p \<Rightarrow> p # ps | None \<Rightarrow> ps) \<and>
    (\<forall>(p, m) \<in> set (zip ps ms). filter (\<lambda>d. snd d = mg_file m) ds = [(p, mg_file m)])"
  using assms
proof (induction ms arbitrary: previous)
  case Nil
  then show ?case by (intro exI [of _ "[]"]) (auto split: option.splits)
next
  case (Cons m ms)
  obtain position where pos: "map fst (filter (\<lambda>d. snd d = mg_file m) ds) = [position]"
      "\<And>p. previous = Some p \<Longrightarrow> p < position" "order_violations ds (Some position) ms = []"
    using Cons.prems by (auto split: list.splits option.splits if_splits)
  obtain ps where ps: "length ps = length ms" "sorted_wrt (<) (position # ps)"
      "\<forall>(p, m) \<in> set (zip ps ms). filter (\<lambda>d. snd d = mg_file m) ds = [(p, mg_file m)]"
    using Cons.IH [OF pos(3)] by auto
  have "filter (\<lambda>d. snd d = mg_file m) ds = [(position, mg_file m)]"
  proof -
    obtain d where d: "filter (\<lambda>d. snd d = mg_file m) ds = [d]" "fst d = position" using pos(1) by auto
    then have "snd d = mg_file m" by (metis (mono_tags, lifting) filter_eq_ConsD)
    then show ?thesis using d by (cases d) simp
  qed
  then show ?case
    using ps pos(2) by (intro exI [of _ "position # ps"]) (fastforce split: option.splits)
qed

lemma sorted_pairs_unique:
  assumes "sorted_wrt (\<lambda>x y. fst x < fst y) xs" "sorted_wrt (\<lambda>x y. fst x < fst y) ys" "set xs = set ys"
  shows "xs = (ys :: (nat \<times> 'a) list)"
proof -
  have strict: "sorted_wrt (<) (map fst xs)" "sorted_wrt (<) (map fst ys)" using assms(1,2) by (simp_all add: sorted_wrt_map)
  then have "map fst xs = map fst ys" using assms(3) by (metis list.set_map strict_sorted_equal)
  moreover have "inj_on fst (set xs \<union> set ys)"
    using strict(1) assms(3) by (simp add: strict_sorted_iff distinct_map)
  ultimately show ?thesis using map_inj_on by blast
qed

lemma installer_clean:
  assumes "installer_violations ms installer = []"
  shows "map snd (directives installer) = map mg_file ms"
proof -
  define ds where "ds = directives installer"
  have known: "\<forall>d \<in> set ds. snd d \<in> mg_file ` set ms" and clean: "order_violations ds None ms = []"
    using assms by (auto simp: installer_violations_def ds_def Let_def filter_empty_conv)
  obtain ps where ps: "length ps = length ms" "sorted_wrt (<) ps"
      "\<forall>(p, m) \<in> set (zip ps ms). filter (\<lambda>d. snd d = mg_file m) ds = [(p, mg_file m)]"
    using order_clean [OF clean] by auto
  define es where "es = zip ps (map mg_file ms)"
  have "set es \<subseteq> set ds"
  proof
    fix e assume "e \<in> set es"
    then obtain p m where "(p, m) \<in> set (zip ps ms)" "e = (p, mg_file m)" by (auto simp: es_def zip_map2)
    then have "filter (\<lambda>d. snd d = mg_file m) ds = [e]" using ps(3) by fastforce
    then show "e \<in> set ds" by (metis filter_is_subset list.set_intros(1) subsetD)
  qed
  moreover have "set ds \<subseteq> set es"
  proof
    fix d assume d: "d \<in> set ds"
    then obtain m where m: "m \<in> set ms" "snd d = mg_file m" using known by blast
    then obtain p where p: "(p, m) \<in> set (zip ps ms)"
      using ps(1) by (metis in_set_impl_in_set_zip2)
    then have "filter (\<lambda>d. snd d = mg_file m) ds = [(p, mg_file m)]" using ps(3) by fastforce
    moreover have "d \<in> set (filter (\<lambda>d. snd d = mg_file m) ds)" using d m(2) by simp
    ultimately have "d = (p, mg_file m)" by simp
    then show "d \<in> set es" using p by (auto simp: es_def zip_map2)
  qed
  moreover have "sorted_wrt (\<lambda>x y. fst x < fst y) es"
    using ps(1,2) by (simp add: es_def flip: sorted_wrt_map)
  ultimately have "ds = es"
    using sorted_pairs_unique directives_sorted unfolding ds_def by blast
  then show ?thesis using ps(1) by (simp add: ds_def es_def)
qed

subsection \<open>Guarantees\<close>

text \<open>A workspace with two migrations that the policy accepts.\<close>

definition sample_digest :: string where
  "sample_digest = replicate 32 (CHR ''a'')"

definition sample_sql :: string where
  "sample_sql = ''BEGIN;'' @ [CHR 0x0A] @ ''COMMIT;''"

definition sample_installer :: string where
  "sample_installer = join_with [CHR 0x0A]
     [INSTALL_DIRECTIVE @ ''001_a.sql'', LEDGER_INSERT_PREFIX @ ''001'' @ [CHR 0x27] @ '');'',
      INSTALL_DIRECTIVE @ ''017_b.sql'', LEDGER_INSERT_PREFIX @ ''017'' @ [CHR 0x27] @ '');'']"

definition sample_ledger :: string where
  "sample_ledger = LEDGER_DECLARATION_PREFIX @ [CHR 0x27] @ ''001'' @ [CHR 0x27] @ '', '' @ [CHR 0x27] @ ''017'' @ [CHR 0x27] @ ''];''"

definition sample_texts :: "(string \<times> string) list" where
  "sample_texts =
     [(''database/migrations/001_a.sql'', sample_sql), (''database/migrations/017_b.sql'', sample_sql),
      (''database/install.sql'', sample_installer),
      (''database/validation/000_migration_history_validation.sql'', sample_ledger),
      (''.squawk.toml'', [CHR 0x22] @ ''**/001_a.sql'' @ [CHR 0x22] @ '',''),
      (''database/migrations.lock.json'', [])]"

definition sample_workspace :: workspace where
  "sample_workspace =
     \<lparr> ws_names = (\<lambda>d. if d = MIGRATIONS_DIR then Some [Some ''017_b.sql'', Some ''README.md'', Some ''001_a.sql'']
         else Some [Some ''017_b_validation.sql'']),
       ws_bytes = map_of sample_texts, ws_text = map_of sample_texts,
       ws_lock = (\<lambda>_. Some (1, [(''001_a.sql'', hex_digest sample_digest), (''017_b.sql'', hex_digest sample_digest)])),
       ws_sha = (\<lambda>_. sample_digest) \<rparr>"

definition sample_migrations :: "Migration list" where
  "sample_migrations = [\<lparr> mg_file = ''001_a.sql'', mg_version = 1 \<rparr>, \<lparr> mg_file = ''017_b.sql'', mg_version = 17 \<rparr>]"

lemma sample_read: "read_migrations sample_workspace = Inr sample_migrations"
  by code_simp

lemma sample_lock:
  "read_lock sample_workspace = Inr [(''001_a.sql'', hex_digest sample_digest), (''017_b.sql'', hex_digest sample_digest)]"
  by (simp add: read_lock_def read_from_def sample_workspace_def sample_texts_def LOCK_SCHEMA_VERSION_def)

lemma trim_plain:
  assumes "list_all is_ascii s" "s \<noteq> []" "is_ascii_graphic (hd s)" "is_ascii_graphic (last s)"
  shows "trim s = s"
proof -
  have "dropWhile is_whitespace (map (\<lambda>c. [c]) s) = map (\<lambda>c. [c]) s"
    using assms(2,3) graphic_not_whitespace by (cases s) auto
  moreover have "dropWhile is_whitespace (rev (map (\<lambda>c. [c]) s)) = rev (map (\<lambda>c. [c]) s)"
    using assms(2,4) graphic_not_whitespace by (cases s rule: rev_cases) auto
  ultimately have "utf8_chars (trim s) = utf8_chars s"
    using assms(1) by (simp add: utf8_chars_trim utf8_chars_ascii)
  then show ?thesis by (metis concat_utf8_chars)
qed

lemma sample_lines:
  "str_lines sample_installer =
     [INSTALL_DIRECTIVE @ ''001_a.sql'', LEDGER_INSERT_PREFIX @ ''001'' @ [CHR 0x27] @ '');'',
      INSTALL_DIRECTIVE @ ''017_b.sql'', LEDGER_INSERT_PREFIX @ ''017'' @ [CHR 0x27] @ '');'']"
  by code_simp

lemma sample_trimmed: "map trim (str_lines sample_installer) = str_lines sample_installer"
  unfolding sample_lines list.map
  by (simp add: trim_plain INSTALL_DIRECTIVE_def LEDGER_INSERT_PREFIX_def is_ascii_def is_ascii_graphic_def)

lemma sample_installed: "check_installer sample_workspace sample_migrations = Inr []"
proof -
  have "\<forall>l \<in> set (str_lines sample_installer). trim l = l" using sample_trimmed by (metis map_idI map_eq_conv id_apply map_ident)
  then have "directives sample_installer = [(0, ''001_a.sql''), (2, ''017_b.sql'')]"
    unfolding sample_lines directives_def
    by (simp add: directive_def List.map_filter_def starts_with_def strip_prefix_def INSTALL_DIRECTIVE_def LEDGER_INSERT_PREFIX_def)
  moreover have "recorded_versions sample_installer = [''001'', ''017'']"
  proof -
    have "recorded_version (INSTALL_DIRECTIVE @ f) = None" for f
      by (simp add: recorded_version_def INSTALL_DIRECTIVE_def LEDGER_INSERT_PREFIX_def starts_with_def strip_prefix_def)
    moreover have "\<not> starts_with ''--'' (LEDGER_INSERT_PREFIX @ t)" "strip_prefix LEDGER_INSERT_PREFIX (LEDGER_INSERT_PREFIX @ t) = Some t" for t
      by (simp_all add: LEDGER_INSERT_PREFIX_def starts_with_def strip_prefix_Some_iff)
    ultimately show ?thesis
      unfolding recorded_versions_def sample_trimmed unfolding sample_lines
      by (simp add: recorded_version_def [of "LEDGER_INSERT_PREFIX @ t" for t] List.map_filter_def)
  qed
  moreover have "shipped_versions sample_migrations = [''001'', ''017'']" by code_simp
  ultimately show ?thesis
    by (simp add: check_installer_def read_from_def sample_workspace_def sample_texts_def installer_violations_def
        sample_migrations_def)
qed

lemma sample_names:
  "check_names_and_versions sample_migrations = []"
  by code_simp

lemma sample_locked:
  "check_lock sample_workspace sample_migrations
     [(''001_a.sql'', hex_digest sample_digest), (''017_b.sql'', hex_digest sample_digest)] = Inr []"
  by code_simp

lemma sample_transactions:
  "check_transactions sample_workspace sample_migrations = Inr []"
  by code_simp

lemma sample_companions:
  "check_validations sample_workspace sample_migrations = Inr []"
  by code_simp

lemma sample_declared:
  "check_history_ledger sample_workspace sample_migrations = Inr []"
  by code_simp

lemma sample_baseline:
  "check_squawk_exclusions sample_workspace sample_migrations = Inr []"
  by code_simp

lemma sample_accepted: "check_migrations sample_workspace = Inr ()"
  by (simp add: check_migrations_def sample_read sample_lock policy_violations_def sample_names sample_locked
      sample_transactions sample_companions sample_declared sample_baseline sample_installed)

text \<open>A migration history the policy accepts has strictly increasing versions in the order the files are applied.\<close>

theorem versions_increase:
  assumes "check_migrations W = Inr ()" and "read_migrations W = Inr ms"
  shows "sorted_wrt (<) (map mg_version ms)"
  using accepted_versions [OF assms] .

theorem versions_increase_witness: "sorted_wrt (<) (map mg_version sample_migrations)"
  by (rule versions_increase [OF sample_accepted sample_read])

text \<open>
  C24: A migration that has been locked cannot change: two workspaces the policy accepts under the same lock have
  the same files, in the same order, with the same digests.
\<close>

theorem locked_history_immutable:
  assumes "check_migrations W = Inr ()" and "check_migrations W' = Inr ()"
    and "read_migrations W = Inr ms" and "read_migrations W' = Inr ms'"
    and "read_lock W = Inr entries" and "read_lock W' = Inr entries"
  shows "map (\<lambda>m. (mg_file m, map_option (ws_sha W) (ws_bytes W (join_path MIGRATIONS_DIR (mg_file m))))) ms =
    map (\<lambda>m. (mg_file m, map_option (ws_sha W') (ws_bytes W' (join_path MIGRATIONS_DIR (mg_file m))))) ms'"
proof -
  have "set (map mg_file ms) = set (map mg_file ms')"
    using accepted_lock(1) [OF assms(1,3,5)] accepted_lock(1) [OF assms(2,4,6)] by simp
  then have files: "map mg_file ms = map mg_file ms'"
    using migrations_sorted(1) assms(3,4) accepted_files_distinct [OF assms(1,3)] accepted_files_distinct [OF assms(2,4)]
    by (intro sorted_distinct_set_unique) blast+
  define content where "content V f = map_option (ws_sha V) (ws_bytes V (join_path MIGRATIONS_DIR f))" for V :: workspace and f
  have hex: "inj (map_option hex_digest)" by (intro option.inj_map injI) (simp add: hex_digest_inj)
  have digests: "map_option hex_digest (content W (mg_file m)) = locked_by_file entries (mg_file m)" if "m \<in> set ms" for m
    using accepted_lock(2) [OF assms(1,3,5) that] by (simp add: content_def option.map_comp)
  have digests': "map_option hex_digest (content W' (mg_file m)) = locked_by_file entries (mg_file m)" if "m \<in> set ms'" for m
    using accepted_lock(2) [OF assms(2,4,6) that] by (simp add: content_def option.map_comp)
  have "content W f = content W' f" if "f \<in> set (map mg_file ms)" for f
    using that digests digests' files injD [OF hex] by (metis (no_types, lifting) imageE list.set_map)
  then have "map (\<lambda>f. (f, content W f)) (map mg_file ms) = map (\<lambda>f. (f, content W' f)) (map mg_file ms')"
    using files by (metis (mono_tags, lifting) map_eq_conv)
  then show ?thesis by (simp add: content_def comp_def)
qed

theorem locked_history_immutable_witness:
  "map (\<lambda>m. (mg_file m, map_option (ws_sha sample_workspace) (ws_bytes sample_workspace (join_path MIGRATIONS_DIR (mg_file m)))))
     sample_migrations = map (\<lambda>m. (mg_file m, map_option (ws_sha sample_workspace)
       (ws_bytes sample_workspace (join_path MIGRATIONS_DIR (mg_file m))))) sample_migrations"
  using locked_history_immutable [OF sample_accepted sample_accepted sample_read sample_read sample_lock sample_lock] .

text \<open>
  C33: An accepted installer applies exactly the shipped migrations, each once, in the order of their versions.
\<close>

theorem installer_applies_history:
  assumes "check_migrations W = Inr ()" and "read_migrations W = Inr ms"
    and "ws_text W ''database/install.sql'' = Some installer"
  shows "map snd (directives installer) = map mg_file ms"
proof -
  obtain entries where "read_lock W = Inr entries" using accepted_lock_readable [OF assms(1)] by blast
  then have "installer_violations ms installer = []"
    using accepted_checks(3) [OF assms(1,2)] assms(3) by (simp add: check_installer_def read_from_def)
  then show ?thesis by (rule installer_clean)
qed

theorem installer_applies_history_witness: "map snd (directives sample_installer) = [''001_a.sql'', ''017_b.sql'']"
  using installer_applies_history [OF sample_accepted sample_read, of sample_installer]
  by (simp add: sample_workspace_def sample_texts_def sample_migrations_def)

text \<open>The versions the installer records are the ones the ledger's validation expects.\<close>

theorem ledger_expects_recorded:
  assumes "check_migrations W = Inr ()" and "read_migrations W = Inr ms"
    and "ws_text W ''database/install.sql'' = Some installer"
    and "ws_text W (join_path VALIDATION_DIR HISTORY_LEDGER_FILE) = Some sql"
  shows "ledger_versions sql = Some (recorded_versions installer)"
proof -
  obtain entries where "read_lock W = Inr entries" using accepted_lock_readable [OF assms(1)] by blast
  then have "installer_violations ms installer = []" "check_history_ledger W ms = Inr []"
    using accepted_checks(3,4) [OF assms(1,2)] assms(3) by (simp_all add: check_installer_def read_from_def)
  then show ?thesis
    using assms(4) by (auto simp: installer_violations_def check_history_ledger_def read_from_def Let_def
        split: option.splits if_splits)
qed

theorem ledger_expects_recorded_witness: "ledger_versions sample_ledger = Some (recorded_versions sample_installer)"
  using ledger_expects_recorded [OF sample_accepted sample_read, of sample_installer sample_ledger]
  by (simp add: sample_workspace_def sample_texts_def join_path_def VALIDATION_DIR_def HISTORY_LEDGER_FILE_def)

text \<open>
  PostgreSQL nests block comments; this one is read as ended by the first closing mark, so that what the database
  takes for a comment counts as SQL here.
\<close>

lemma nested_comment_leaks: "without_sql_comments ''/* a /* b */ c */ d'' = Some '' c */ d''"
  by (simp add: without_sql_comments_def starts_with_def)

end
