(* ===== verification/Boundaries.thy ===== *)
theory Boundaries
  imports Migrations
begin

text \<open>
  \<open>xtask::boundaries\<close>: which workspace package may depend on which, over what \<open>cargo metadata\<close> reports (a
  parameter). The rules are transitively closed, so that acceptance speaks of every path of dependencies.
\<close>

record Dependency =
  dp_name :: string
  dp_kind :: "string option"
  dp_path :: "string option"

record Package =
  pk_name :: string
  pk_dependencies :: "Dependency list"

definition INTERNAL_RULES :: "(string \<times> string list) list" where
  "INTERNAL_RULES =
     [(''aircraft_domain'', []),
      (''aircraft_app'', [''aircraft_domain'']),
      (''aircraft_api'', [''aircraft_app'', ''aircraft_domain'']),
      (''aircraft_db'', [''aircraft_app'', ''aircraft_domain'']),
      (''aircraft_ingest'', [''aircraft_app'', ''aircraft_domain'']),
      (''aircraft_config'', []),
      (''aircraft_observability'', []),
      (''aircraft_testsupport'', [''aircraft_app''])]"

definition EXTERNAL_RULES :: "(string \<times> string list) list" where
  "EXTERNAL_RULES =
     [(''aircraft_domain'', [''axum'', ''config'', ''sqlx-core'', ''sqlx-postgres'', ''tokio'', ''tower'', ''tracing'']),
      (''aircraft_app'', [''axum'', ''config'', ''sqlx-core'', ''sqlx-postgres'', ''tower'']),
      (''aircraft_api'', [''sqlx-core'', ''sqlx-postgres'']),
      (''aircraft_ingest'', [''sqlx-core'', ''sqlx-postgres''])]"

definition TESTSUPPORT :: string where "TESTSUPPORT = ''aircraft_testsupport''"

definition must_not_depend :: "string \<Rightarrow> string \<Rightarrow> string" where
  "must_not_depend p d = p @ '' must not depend on '' @ d"

definition check_internal_dependency :: "Package \<Rightarrow> Dependency \<Rightarrow> string list" where
  "check_internal_dependency p d =
     (case map_of INTERNAL_RULES (pk_name p) of
        None \<Rightarrow> []
      | Some allowed \<Rightarrow> if dp_name d \<notin> set allowed then [must_not_depend (pk_name p) (dp_name d)] else [])"

definition check_external_dependency :: "Package \<Rightarrow> Dependency \<Rightarrow> string list" where
  "check_external_dependency p d =
     (case map_of EXTERNAL_RULES (pk_name p) of
        None \<Rightarrow> []
      | Some forbidden \<Rightarrow> if dp_name d \<in> set forbidden then [must_not_depend (pk_name p) (dp_name d)] else [])"

definition checked_dependency :: "Dependency \<Rightarrow> bool" where
  "checked_dependency d \<longleftrightarrow> dp_kind d \<noteq> Some ''dev''"

definition dependency_violations :: "string set \<Rightarrow> Package \<Rightarrow> Dependency \<Rightarrow> string list" where
  "dependency_violations workspace_packages p d =
     (if dp_name d = TESTSUPPORT \<and> pk_name p \<noteq> TESTSUPPORT
      then [pk_name p @ '' must use aircraft_testsupport only as a dev-dependency'']
      else if dp_path d \<noteq> None \<and> dp_name d \<in> workspace_packages then check_internal_dependency p d
      else check_external_dependency p d)"

definition find_violations :: "Package list \<Rightarrow> string list" where
  "find_violations packages =
     remdups_adj (sort (concat (map (\<lambda>p. concat (map (dependency_violations (pk_name ` set packages) p)
       (filter checked_dependency (pk_dependencies p)))) packages)))"

datatype boundary_failure = CargoFailed string | MetadataNotJson | BoundariesFailed "string list"

text \<open>\<open>cargo\<close> is what running \<open>cargo metadata\<close> and decoding its output gave.\<close>

definition check_boundaries :: "boundary_failure + Package list \<Rightarrow> boundary_failure + unit" where
  "check_boundaries cargo =
     and_then cargo (\<lambda>packages.
     let violations = find_violations packages in if violations \<noteq> [] then Inl (BoundariesFailed violations) else Inr ())"

subsection \<open>Paths of dependencies\<close>

text \<open>A dependency of one workspace package on another that ends up in what is shipped.\<close>

inductive depends :: "Package list \<Rightarrow> string \<Rightarrow> string \<Rightarrow> bool" for packages where
  "p \<in> set packages \<Longrightarrow> d \<in> set (pk_dependencies p) \<Longrightarrow> checked_dependency d \<Longrightarrow> dp_path d \<noteq> None \<Longrightarrow>
   dp_name d \<in> pk_name ` set packages \<Longrightarrow> depends packages (pk_name p) (dp_name d)"

definition layered :: "string \<Rightarrow> bool" where
  "layered p \<longleftrightarrow> p \<in> fst ` set INTERNAL_RULES \<and> p \<noteq> TESTSUPPORT"

lemma find_violations_empty:
  "find_violations packages = [] \<longleftrightarrow>
     (\<forall>p \<in> set packages. \<forall>d \<in> set (pk_dependencies p). checked_dependency d \<longrightarrow>
        dependency_violations (pk_name ` set packages) p d = [])"
proof -
  have empty: "remdups_adj (sort xs) = [] \<longleftrightarrow> xs = []" for xs :: "string list"
    by (metis remdups_adj_Nil_iff set_empty set_sort)
  have "find_violations packages = [] \<longleftrightarrow> concat (map (\<lambda>p. concat (map (dependency_violations (pk_name ` set packages) p)
      (filter checked_dependency (pk_dependencies p)))) packages) = []"
    unfolding find_violations_def by (rule empty)
  then show ?thesis by (auto simp: concat_eq_Nil_conv)
qed

lemma rules_table_closed:
  "\<forall>(r, allowed) \<in> set INTERNAL_RULES. r \<noteq> TESTSUPPORT \<longrightarrow> (\<forall>q \<in> set allowed. layered q \<and>
     (case map_of INTERNAL_RULES q of None \<Rightarrow> False | Some further \<Rightarrow> set further \<subseteq> set allowed))"
  by code_simp

lemma rules_closed:
  "map_of INTERNAL_RULES p = Some allowed \<Longrightarrow> p \<noteq> TESTSUPPORT \<Longrightarrow> q \<in> set allowed \<Longrightarrow>
     layered q \<and> (\<exists>further. map_of INTERNAL_RULES q = Some further \<and> set further \<subseteq> set allowed)"
  using rules_table_closed by (fastforce dest!: map_of_SomeD split: option.splits)

lemma depends_allowed:
  assumes "find_violations packages = []" "depends packages p q" "map_of INTERNAL_RULES p = Some allowed" "p \<noteq> TESTSUPPORT"
  shows "q \<in> set allowed"
  using assms(2)
proof cases
  case (1 pk d)
  then have "dependency_violations (pk_name ` set packages) pk d = []" using assms(1) find_violations_empty by blast
  then show ?thesis
    using 1 assms(3,4) by (auto simp: dependency_violations_def check_internal_dependency_def split: if_splits)
qed

text \<open>
  C32: In an accepted workspace everything a package of the architecture reaches, through any number of
  dependencies that are not for tests only, is in its own list of allowed packages.
\<close>

theorem layers_hold:
  assumes "check_boundaries (Inr packages) = Inr ()" and "(depends packages)\<^sup>+\<^sup>+ p q" and "layered p"
  shows "\<exists>allowed. map_of INTERNAL_RULES p = Some allowed \<and> q \<in> set allowed"
proof -
  have clean: "find_violations packages = []"
    using assms(1) by (auto simp: check_boundaries_def Let_def split: if_splits)
  obtain allowed where allowed: "map_of INTERNAL_RULES p = Some allowed"
    using assms(3) by (metis layered_def map_of_eq_None_iff not_None_eq)
  have "q \<in> set allowed"
    using assms(2)
  proof (induction rule: tranclp_induct)
    case (base y)
    then show ?case using depends_allowed [OF clean] allowed assms(3) by (simp add: layered_def)
  next
    case (step y z)
    then obtain further where "map_of INTERNAL_RULES y = Some further" "set further \<subseteq> set allowed" "y \<noteq> TESTSUPPORT"
      using rules_closed [OF allowed] assms(3) unfolding layered_def by blast
    then show ?case using depends_allowed [OF clean step.hyps(2)] by blast
  qed
  then show ?thesis using allowed by blast
qed

definition sample_packages :: "Package list" where
  "sample_packages =
     [\<lparr> pk_name = ''aircraft_domain'', pk_dependencies = [\<lparr> dp_name = ''serde'', dp_kind = None, dp_path = None \<rparr>] \<rparr>,
      \<lparr> pk_name = ''aircraft_app'', pk_dependencies = [\<lparr> dp_name = ''aircraft_domain'', dp_kind = None, dp_path = Some ''d'' \<rparr>] \<rparr>,
      \<lparr> pk_name = ''aircraft_db'', pk_dependencies =
          [\<lparr> dp_name = ''aircraft_app'', dp_kind = None, dp_path = Some ''a'' \<rparr>,
           \<lparr> dp_name = ''aircraft_testsupport'', dp_kind = Some ''dev'', dp_path = Some ''t'' \<rparr>] \<rparr>]"

theorem layers_hold_witness: "\<exists>allowed. map_of INTERNAL_RULES ''aircraft_db'' = Some allowed \<and> ''aircraft_domain'' \<in> set allowed"
proof (rule layers_hold [of sample_packages])
  show "check_boundaries (Inr sample_packages) = Inr ()" by code_simp
  have "depends sample_packages (pk_name (sample_packages ! 2)) (dp_name (hd (pk_dependencies (sample_packages ! 2))))"
    by (rule depends.intros) (simp_all add: sample_packages_def checked_dependency_def)
  moreover have "depends sample_packages (pk_name (sample_packages ! 1)) (dp_name (hd (pk_dependencies (sample_packages ! 1))))"
    by (rule depends.intros) (simp_all add: sample_packages_def checked_dependency_def)
  ultimately show "(depends sample_packages)\<^sup>+\<^sup>+ ''aircraft_db'' ''aircraft_domain''"
    by (simp add: sample_packages_def)
  show "layered ''aircraft_db''" by code_simp
qed

end
