(* ===== verification/Deny_Pins.thy ===== *)
theory Deny_Pins
  imports Migrations Source_Text_Facts "HOL-Library.Product_Lexorder" "HOL-Library.Option_ord"
begin

text \<open>
  \<open>xtask::deny_pins\<close>: reconciling the allowlist of build scripts in \<open>deny.toml\<close> with what \<open>cargo deny\<close> rejects. What
  that program printed, how a line of it decodes and the two files are parameters.
\<close>

definition LIST_OPENING :: string where "LIST_OPENING = ''allow-build-scripts = [''"
definition LIST_CLOSING :: string where "LIST_CLOSING = '']''"
definition OFFENDING_CODE :: string where "OFFENDING_CODE = ''build-script-not-allowed''"
definition ENTRY_INDENT :: string where "ENTRY_INDENT = ''    ''"
definition closing_line :: string where "closing_line = CHR 0x0A # LIST_CLOSING"

abbreviation dquote :: char where "dquote \<equiv> CHR 0x22"

record Diagnostic =
  dg_code :: string
  dg_graphs :: "(string \<times> string) list"
  dg_notes :: "string list"

text \<open>Name, version and checksum, ordered as the derived \<open>Ord\<close> does.\<close>

type_synonym Offender = "string \<times> string \<times> string option"

definition pin :: "Offender \<Rightarrow> string" where
  "pin o' = (case o' of (name, version, _) \<Rightarrow> name @ ''@'' @ version)"

text \<open>\<open>split_once\<close> at a text, its first occurrence; \<open>split_once('@')\<close> is the one at a character.\<close>

definition split_at_text :: "string \<Rightarrow> string \<Rightarrow> (string \<times> string) option" where
  "split_at_text p s = map_option (\<lambda>i. (take i s, drop (i + length p) s)) (str_find p s)"

definition btree :: "'a::linorder list \<Rightarrow> 'a list" where
  "btree xs = sort (remdups xs)"

text \<open>\<open>Iterator::find_map\<close>.\<close>

definition find_map :: "('a \<Rightarrow> 'b option) \<Rightarrow> 'a list \<Rightarrow> 'b option" where
  "find_map f xs = (case List.map_filter f xs of [] \<Rightarrow> None | x # _ \<Rightarrow> Some x)"

definition note_checksum :: "string list \<Rightarrow> string option" where
  "note_checksum notes =
     Option.bind (find_map (strip_prefix (''checksum = '' @ [CHR 0x27])) notes) (strip_suffix [CHR 0x27])"

definition offender_of :: "Diagnostic \<Rightarrow> Offender option" where
  "offender_of d = (case dg_graphs d of [] \<Rightarrow> None | (name, version) # _ \<Rightarrow> Some (name, version, note_checksum (dg_notes d)))"

definition parse_diagnostics :: "(string \<Rightarrow> Diagnostic option) \<Rightarrow> string \<Rightarrow> Offender list" where
  "parse_diagnostics decode out =
     btree (List.map_filter offender_of (filter (\<lambda>d. dg_code d = OFFENDING_CODE)
       (List.map_filter (decode \<circ> trim) (str_lines out))))"

definition displaced :: "string list \<Rightarrow> Offender list \<Rightarrow> string list \<Rightarrow> string list" where
  "displaced pinned offenders resolved =
     filter (\<lambda>p. (case split_once (CHR ''@'') p of None \<Rightarrow> False | Some (name, _) \<Rightarrow> name \<in> fst ` set offenders)
       \<and> p \<notin> set resolved) pinned"

text \<open>The package last named and the versions found so far.\<close>

definition lock_line :: "string \<Rightarrow> string option \<times> string list \<Rightarrow> string option \<times> string list" where
  "lock_line line st =
     (case (strip_prefix ''name = '' line, strip_prefix ''version = '' line) of
        (Some package, _) \<Rightarrow> (Some (trim_bytes ((=) dquote) package), snd st)
      | (None, Some version) \<Rightarrow>
          (case fst st of
             None \<Rightarrow> st
           | Some package \<Rightarrow> (None, (package @ ''@'' @ trim_bytes ((=) dquote) version) # snd st))
      | (None, None) \<Rightarrow> st)"

definition resolved_versions :: "string \<Rightarrow> string list" where
  "resolved_versions lockfile = btree (snd (fold lock_line (str_lines lockfile) (None, [])))"

definition apply_pins :: "string list \<Rightarrow> Offender list \<Rightarrow> string list \<Rightarrow> string list" where
  "apply_pins pinned offenders superseded = btree (filter (\<lambda>p. p \<notin> set superseded) pinned @ map pin offenders)"

datatype pins_failure =
    NoList | UnterminatedList | PinsUnreadable string | DenyNotStarted | PinsUnwritable string | PinsOutOfDate string

definition list_body :: "string \<Rightarrow> pins_failure + string \<times> string \<times> string" where
  "list_body manifest =
     and_then (ok_or NoList (split_at_text LIST_OPENING manifest)) (\<lambda>(head, body).
     and_then (ok_or UnterminatedList (split_at_text closing_line body)) (\<lambda>(entries, tail).
     Inr (head, entries, tail)))"

definition pin_entry :: "string \<Rightarrow> string option" where
  "pin_entry line =
     (let l = trim line in if l = [] \<or> starts_with ''#'' l then None
      else Some (trim_bytes ((=) dquote) (rev (dropWhile ((=) (CHR '','')) (rev l)))))"

definition parse_pins :: "string \<Rightarrow> pins_failure + string list" where
  "parse_pins manifest =
     and_then (list_body manifest) (\<lambda>(_, entries, _). Inr (btree (List.map_filter pin_entry (str_lines entries))))"

definition entry_line :: "string \<Rightarrow> string" where
  "entry_line p = ENTRY_INDENT @ [dquote] @ p @ [dquote, CHR '','']"

definition rewrite_pins :: "string \<Rightarrow> string list \<Rightarrow> pins_failure + string" where
  "rewrite_pins manifest updated =
     and_then (list_body manifest) (\<lambda>(head, _, tail).
     Inr (head @ LIST_OPENING @ [CHR 0x0A] @ join_with [CHR 0x0A] (map entry_line updated) @ closing_line @ tail))"

definition offender_lines :: "string list \<Rightarrow> Offender \<Rightarrow> string list" where
  "offender_lines superseded o' =
     (case List.find (\<lambda>p. map_option fst (split_once (CHR ''@'') p) = Some (fst o')) superseded of
        Some previous \<Rightarrow> [''  '' @ previous @ '' -> '' @ pin o']
      | None \<Rightarrow> [''  + '' @ pin o' @ '' (not previously pinned)'']) @
     (case snd (snd o') of None \<Rightarrow> [] | Some checksum \<Rightarrow> [''      build script checksum '' @ checksum])"

definition render_pins :: "string list \<Rightarrow> Offender list \<Rightarrow> string" where
  "render_pins superseded offenders =
     join_with [CHR 0x0A] (''build-script pins are out of date:'' # concat (map (offender_lines superseded) offenders))"

record pins_env =
  pe_manifest :: "string option"
  pe_lockfile :: "string option"
  pe_deny :: "string option"
  pe_decode :: "string \<Rightarrow> Diagnostic option"
  pe_writable :: bool

text \<open>The manifest afterwards, if it was written, and the outcome.\<close>

definition check_pins :: "pins_env \<Rightarrow> bool \<Rightarrow> string option \<times> (pins_failure + unit)" where
  "check_pins E fix' =
     (case and_then (ok_or (PinsUnreadable ''deny.toml'') (pe_manifest E)) (\<lambda>manifest.
           and_then (parse_pins manifest) (\<lambda>pinned.
           and_then (ok_or DenyNotStarted (pe_deny E)) (\<lambda>out.
           Inr (manifest, pinned, parse_diagnostics (pe_decode E) out)))) of
        Inl e \<Rightarrow> (None, Inl e)
      | Inr (manifest, pinned, offenders) \<Rightarrow>
          if offenders = [] then (None, Inr ())
          else
            (case pe_lockfile E of
               None \<Rightarrow> (None, Inl (PinsUnreadable ''Cargo.lock''))
             | Some lockfile \<Rightarrow>
                 (let superseded = displaced pinned offenders (resolved_versions lockfile);
                      updated = apply_pins pinned offenders superseded in
                  if fix' then
                    (case rewrite_pins manifest updated of
                       Inl e \<Rightarrow> (None, Inl e)
                     | Inr rewritten \<Rightarrow>
                         if pe_writable E then (Some rewritten, Inr ()) else (None, Inl (PinsUnwritable ''deny.toml'')))
                  else (None, Inl (PinsOutOfDate (render_pins superseded offenders))))))"

subsection \<open>Reading back a written list\<close>

text \<open>What survives being quoted on a line of its own.\<close>

definition plain_pin :: "string \<Rightarrow> bool" where
  "plain_pin p \<longleftrightarrow> CHR 0x0A \<notin> set p \<and> trim_bytes ((=) dquote) p = p"

lemma set_btree [simp]: "set (btree xs) = set xs"
  by (simp add: btree_def)

lemma btree_idem: "sorted xs \<Longrightarrow> distinct xs \<Longrightarrow> btree xs = xs"
  by (simp add: btree_def distinct_remdups_id sorted_sort_id)

lemma sorted_btree: "sorted (btree xs)" and distinct_btree: "distinct (btree xs)"
  by (simp_all add: btree_def)

lemma trim_bytes_ends:
  "trim_bytes P s = s \<longleftrightarrow> s = [] \<or> (\<not> P (hd s) \<and> \<not> P (last s))"
proof (cases s rule: rev_cases)
  case (snoc t c)
  show ?thesis
  proof
    assume same: "trim_bytes P s = s"
    have "dropWhile P s = s"
    proof -
      have "length (trim_bytes P s) \<le> length (dropWhile P s)"
        unfolding trim_bytes_def by (metis length_dropWhile_le length_rev)
      then have "length (dropWhile P s) = length s" using same by (simp add: le_antisym length_dropWhile_le)
      then show ?thesis by (metis append_Nil append_eq_append_conv dropWhile_eq_drop suffix_dropWhile suffix_def)
    qed
    moreover from this have "dropWhile P (rev s) = rev s" using same by (metis rev_rev_ident trim_bytes_def)
    ultimately show "s = [] \<or> (\<not> P (hd s) \<and> \<not> P (last s))"
      using snoc by (metis hd_dropWhile hd_rev rev_is_Nil_conv)
  next
    assume ends: "s = [] \<or> (\<not> P (hd s) \<and> \<not> P (last s))"
    then have "dropWhile P s = s" using snoc by (metis append_is_Nil_conv dropWhile.simps(2) list.collapse not_Cons_self2)
    moreover have "dropWhile P (rev s) = rev s" using ends snoc by simp
    ultimately show "trim_bytes P s = s" by (simp add: trim_bytes_def)
  qed
qed (simp add: trim_bytes_def)

lemma trim_quoted: "trim_bytes ((=) dquote) p = p \<Longrightarrow> trim_bytes ((=) dquote) ([dquote] @ p @ [dquote]) = p"
proof (cases "p = []")
  case False
  assume "trim_bytes ((=) dquote) p = p"
  then have ends: "dquote \<noteq> hd p" "dquote \<noteq> last p" using False by (simp_all add: trim_bytes_ends)
  then have "dropWhile ((=) dquote) (p @ [dquote]) = p @ [dquote]" "dropWhile ((=) dquote) (rev p) = rev p"
    using False by (simp_all add: dropWhile_eq_self_iff hd_rev)
  then show ?thesis by (simp add: trim_bytes_def)
qed (simp add: trim_bytes_def)

lemma utf8_chars_ascii_Cons:
  "\<not> is_continuation (hd s) \<or> s = [] \<Longrightarrow> utf8_chars (c # s) = [c] # utf8_chars s"
  by (cases s) auto

lemma utf8_chars_snoc: "\<not> is_continuation c \<Longrightarrow> s = [] \<or> \<not> is_continuation (hd s) \<Longrightarrow> utf8_chars (s @ [c]) = utf8_chars s @ [[c]]"
proof (induction s rule: utf8_chars.induct)
  case (2 d s)
  have "dropWhile is_continuation s = [] \<or> \<not> is_continuation (hd (dropWhile is_continuation s))"
    using hd_dropWhile by blast
  then have "utf8_chars (dropWhile is_continuation s @ [c]) = utf8_chars (dropWhile is_continuation s) @ [[c]]"
    using 2 by blast
  moreover have "takeWhile is_continuation (s @ [c]) = takeWhile is_continuation s"
    "dropWhile is_continuation (s @ [c]) = dropWhile is_continuation s @ [c]"
    using 2(2) by (induction s) auto
  ultimately show ?case by simp
qed simp

lemma trim_entry: "trim (entry_line p) = [dquote] @ p @ [dquote, CHR '','']"
proof -
  define q where "q = [dquote] @ p @ [dquote]"
  have cont: "\<not> is_continuation (CHR '' '')" "\<not> is_continuation dquote" "\<not> is_continuation (CHR '','')"
    by (simp_all add: is_continuation_def)
  have white: "is_whitespace [CHR '' '']" "\<not> is_whitespace [CHR '','']" by (simp_all add: is_whitespace_def)
  have "utf8_chars (entry_line p) = [[CHR '' ''], [CHR '' ''], [CHR '' ''], [CHR '' '']] @ utf8_chars (q @ [CHR '',''])"
    using cont by (simp add: entry_line_def ENTRY_INDENT_def q_def del: utf8_chars.simps(2) add: utf8_chars_ascii_Cons)
  then have chars: "utf8_chars (entry_line p) = [[CHR '' ''], [CHR '' ''], [CHR '' ''], [CHR '' '']] @ utf8_chars q @ [[CHR '','']]"
    using cont utf8_chars_snoc [of "CHR '',''" q] by (simp add: q_def)
  have quote_chunk: "\<not> is_whitespace (dquote # cs)" for cs
    by (cases cs; cases "tl cs"; cases "tl (tl cs)") (auto simp: is_whitespace_def split: list.splits)
  then have "dropWhile is_whitespace (utf8_chars q @ [[CHR '','']]) = utf8_chars q @ [[CHR '','']]"
    by (simp add: q_def)
  then have "utf8_chars (trim (entry_line p)) = utf8_chars q @ [[CHR '','']]"
    unfolding utf8_chars_trim chars using white by simp
  then have "concat (utf8_chars (trim (entry_line p))) = concat (utf8_chars q @ [[CHR '','']])" by simp
  then show ?thesis by (simp add: q_def del: utf8_chars.simps)
qed

lemma pin_entry_line: "trim_bytes ((=) dquote) p = p \<Longrightarrow> pin_entry (entry_line p) = Some p"
  using trim_quoted by (simp add: pin_entry_def trim_entry starts_with_def Let_def)

text \<open>Where a text that begins with a line feed is first found.\<close>

lemma str_find_skip: "CHR 0x0A \<notin> set u \<Longrightarrow> str_find closing_line (u @ s) = map_option (\<lambda>i. length u + i) (str_find closing_line s)"
proof (induction u)
  case (Cons c u)
  then have "\<not> starts_with closing_line (c # u @ s)" by (auto simp: closing_line_def starts_with_def)
  then show ?case using Cons by (simp add: option.map_comp comp_def)
next
  case Nil
  then show ?case by (cases "str_find closing_line s") simp_all
qed

lemma str_find_here: "str_find p (p @ s) = Some 0"
  by (cases "p @ s") (auto, metis append_Cons starts_with_append append_eq_Cons_conv)

lemma str_find_entries:
  "\<forall>p \<in> set ps. CHR 0x0A \<notin> set p \<Longrightarrow>
     str_find closing_line (join_with [CHR 0x0A] (map entry_line ps) @ closing_line @ tail) =
     Some (length (join_with [CHR 0x0A] (map entry_line ps)))"
proof (induction ps rule: induct_list012)
  case 1
  then show ?case using str_find_here by simp
next
  case (2 p)
  then have "CHR 0x0A \<notin> set (entry_line p)" by (simp add: entry_line_def ENTRY_INDENT_def)
  then show ?case using str_find_skip str_find_here by simp
next
  case (3 p q ps)
  let ?rest = "join_with [CHR 0x0A] (map entry_line (q # ps))"
  have "CHR 0x0A \<notin> set (entry_line p)" using 3 by (simp add: entry_line_def ENTRY_INDENT_def)
  moreover obtain t where "?rest = CHR '' '' # t" by (cases ps) (auto simp: entry_line_def ENTRY_INDENT_def)
  then have "\<not> starts_with closing_line (CHR 0x0A # ?rest @ closing_line @ tail)"
    by (simp add: closing_line_def LIST_CLOSING_def starts_with_def)
  then have "str_find closing_line (CHR 0x0A # ?rest @ closing_line @ tail) = Some (Suc (length ?rest))"
    using 3 by simp
  ultimately show ?case using str_find_skip [of "entry_line p" "CHR 0x0A # ?rest @ closing_line @ tail"] by simp
qed

lemma str_find_prefix: "str_find p (a @ p @ b) = Some (length a) \<Longrightarrow> str_find p (a @ p @ b') = Some (length a)"
proof (induction a)
  case Nil
  then show ?case using str_find_here by simp
next
  case (Cons c a)
  then have "\<not> starts_with p (c # a @ p @ b)" "str_find p (a @ p @ b) = Some (length a)"
    by (auto split: if_splits)
  moreover have "starts_with p (c # a @ p @ b) = starts_with p (c # a @ p @ b')"
    by (simp add: starts_with_def take_Cons' )
  ultimately show ?case using Cons.IH by simp
qed

lemma list_body_rewritten:
  assumes "list_body manifest = Inr (head, entries, tail)" and "\<forall>p \<in> set ps. CHR 0x0A \<notin> set p"
  shows "list_body (head @ LIST_OPENING @ [CHR 0x0A] @ join_with [CHR 0x0A] (map entry_line ps) @ closing_line @ tail) =
    Inr (head, CHR 0x0A # join_with [CHR 0x0A] (map entry_line ps), tail)"
proof -
  let ?join = "join_with [CHR 0x0A] (map entry_line ps)"
  obtain i body where i: "str_find LIST_OPENING manifest = Some i" "head = take i manifest"
      "body = drop (i + length LIST_OPENING) manifest"
    using assms(1) by (auto simp: list_body_def and_then_Inr_iff split_at_text_def)
  obtain a b where ab: "manifest = a @ LIST_OPENING @ b" "length a = i" using str_find_Some [OF i(1)] by blast
  have "str_find LIST_OPENING (head @ LIST_OPENING @ b') = Some (length head)" for b'
    using str_find_prefix [of LIST_OPENING a b b'] i(1,2) ab by simp
  then have at_list: "split_at_text LIST_OPENING (head @ LIST_OPENING @ b') = Some (head, b')" for b'
    by (simp add: split_at_text_def)
  have "\<not> starts_with closing_line (CHR 0x0A # ?join @ closing_line @ tail)"
    by (cases ps rule: list.exhaust [case_product list.exhaust, of _ "tl ps"])
      (auto simp: closing_line_def LIST_CLOSING_def starts_with_def entry_line_def ENTRY_INDENT_def)
  then have "str_find closing_line (CHR 0x0A # ?join @ closing_line @ tail) = Some (Suc (length ?join))"
    using str_find_entries [OF assms(2)] by simp
  then have "split_at_text closing_line (CHR 0x0A # ?join @ closing_line @ tail) = Some (CHR 0x0A # ?join, tail)"
    by (simp add: split_at_text_def)
  then show ?thesis using at_list by (simp add: list_body_def)
qed

lemma split_joined:
  "\<forall>l \<in> set ls. d \<notin> set l \<Longrightarrow> split_char d (join_with [d] ls) = (if ls = [] then [[]] else ls)"
  by (induction ls rule: induct_list012) (simp_all add: split_char_none split_char_append)

lemma str_lines_entries:
  assumes "\<forall>p \<in> set ps. CHR 0x0A \<notin> set p"
  shows "str_lines (CHR 0x0A # join_with [CHR 0x0A] (map entry_line ps)) = [] # map entry_line ps"
proof -
  have lines: "\<forall>l \<in> set (map entry_line ps). CHR 0x0A \<notin> set l" using assms by (simp add: entry_line_def ENTRY_INDENT_def)
  have chomped: "chomp (entry_line p) = entry_line p" for p
    by (auto simp: chomp_def entry_line_def strip_suffix_Some_iff split: option.splits dest: arg_cong [of _ _ last])
  have "chomp [] = []" by (simp add: chomp_def strip_suffix_def ends_with_def starts_with_def)
  moreover have "entry_line p \<noteq> []" for p by (simp add: entry_line_def)
  moreover have "map chomp (butlast (map entry_line ps)) = butlast (map entry_line ps)"
    using chomped by (simp add: map_butlast [symmetric] comp_def)
  moreover have "butlast (map entry_line ps) @ [last (map entry_line ps)] = map entry_line ps" if "ps \<noteq> []"
    using that by (simp only: append_butlast_last_id list.map_disc_iff not_False_eq_True)
  ultimately show ?thesis
    using split_joined [OF lines] by (cases "ps = []") (simp_all add: str_lines_def Let_def last_map)
qed

text \<open>A written list reads back as the pins written.\<close>

lemma parse_rewritten:
  assumes "rewrite_pins manifest ps = Inr written" and "\<forall>p \<in> set ps. plain_pin p" and "sorted ps" "distinct ps"
  shows "parse_pins written = Inr ps"
proof -
  obtain head entries tail where body: "list_body manifest = Inr (head, entries, tail)"
      and written: "written = head @ LIST_OPENING @ [CHR 0x0A] @ join_with [CHR 0x0A] (map entry_line ps) @ closing_line @ tail"
    using assms(1) by (auto simp: rewrite_pins_def and_then_Inr_iff)
  have plain: "\<forall>p \<in> set ps. CHR 0x0A \<notin> set p" using assms(2) by (simp add: plain_pin_def)
  have "List.map_filter pin_entry ([] # map entry_line ps) = ps"
  proof -
    have "pin_entry [] = None" by (simp add: pin_entry_def trim_def trim_start_def trim_end_def)
    moreover have "List.map_filter pin_entry (map entry_line qs) = qs" if "\<forall>p \<in> set qs. plain_pin p" for qs
      using that by (induction qs) (simp_all add: List.map_filter_def pin_entry_line plain_pin_def)
    ultimately show ?thesis using assms(2) by (simp add: List.map_filter_def)
  qed
  then show ?thesis
    using list_body_rewritten [OF body plain] btree_idem assms(3,4)
    by (simp add: parse_pins_def written str_lines_entries [OF plain] del: map_filter_simps)
qed

subsection \<open>What a fix leaves\<close>

lemma set_trim_subset: "set (trim s) \<subseteq> set s"
proof -
  have "set (utf8_chars (trim s)) \<subseteq> set (utf8_chars s)"
    unfolding utf8_chars_trim by (auto dest!: set_dropWhileD)
  then have "set (concat (utf8_chars (trim s))) \<subseteq> set (concat (utf8_chars s))"
    unfolding set_concat by (rule UN_mono) simp
  then show ?thesis unfolding concat_utf8_chars .
qed

lemma str_lines_plain: "l \<in> set (str_lines s) \<Longrightarrow> CHR 0x0A \<notin> set l"
proof -
  assume "l \<in> set (str_lines s)"
  then have "l \<in> chomp ` set (butlast (split_char (CHR 0x0A) s)) \<or> l = last (split_char (CHR 0x0A) s)"
    by (auto simp: str_lines_def Let_def split: if_splits)
  then obtain q where "q \<in> set (split_char (CHR 0x0A) s)" "l = q \<or> l = chomp q"
    using last_in_set [OF split_char_nonempty] by (metis imageE in_set_butlastD)
  moreover have "set (chomp q) \<subseteq> set q"
    by (auto simp: chomp_def strip_suffix_Some_iff split: option.splits)
  ultimately show ?thesis using split_char_parts by blast
qed

lemma set_trim_bytes_subset: "set (trim_bytes P s) \<subseteq> set s"
  unfolding trim_bytes_def by (auto dest!: set_dropWhileD)

lemma trim_bytes_idem: "trim_bytes P (trim_bytes P s) = trim_bytes P s"
proof (cases "trim_bytes P s = []")
  case False
  define d where "d = dropWhile P s"
  have t: "trim_bytes P s = rev (dropWhile P (rev d))" by (simp add: trim_bytes_def d_def)
  then have "\<not> P (last (trim_bytes P s))" using False hd_dropWhile by (metis last_rev rev_is_Nil_conv)
  moreover have "hd (trim_bytes P s) = hd d"
    using t False by (metis hd_append2 prefixE prefix_rev_dropWhile)
  then have "\<not> P (hd (trim_bytes P s))"
    using False by (metis d_def hd_dropWhile trim_bytes_def dropWhile.simps(1) rev.simps(1))
  ultimately show ?thesis by (simp add: trim_bytes_ends)
next
  case True
  then show ?thesis by (simp only: trim_bytes_ends) simp
qed

lemma parsed_pins_plain:
  assumes "parse_pins manifest = Inr pinned" and "p \<in> set pinned"
  shows "plain_pin p"
proof -
  obtain entries l where l: "l \<in> set (str_lines entries)" "pin_entry l = Some p"
    using assms by (auto simp: parse_pins_def and_then_Inr_iff List.map_filter_def)
  obtain q where q: "p = trim_bytes ((=) dquote) q" "set q \<subseteq> set (trim l)"
  proof (rule that [of "rev (dropWhile ((=) (CHR '','')) (rev (trim l)))"])
    show "p = trim_bytes ((=) dquote) (rev (dropWhile ((=) (CHR '','')) (rev (trim l))))"
      using l(2) by (auto simp: pin_entry_def Let_def split: if_splits)
  qed (auto dest!: set_dropWhileD)
  then have "CHR 0x0A \<notin> set p" using str_lines_plain [OF l(1)] set_trim_subset set_trim_bytes_subset by blast
  then show ?thesis using q(1) trim_bytes_idem by (simp add: plain_pin_def)
qed

definition names_offender :: "Offender list \<Rightarrow> string \<Rightarrow> bool" where
  "names_offender offenders p \<longleftrightarrow>
     (case split_once (CHR ''@'') p of None \<Rightarrow> False | Some (name, _) \<Rightarrow> name \<in> fst ` set offenders)"

lemma set_apply_pins:
  "set (apply_pins pinned offenders (displaced pinned offenders resolved)) =
     pin ` set offenders \<union> {p \<in> set pinned. p \<in> set resolved \<or> \<not> names_offender offenders p}"
  by (auto simp: apply_pins_def displaced_def names_offender_def)

text \<open>
  C35: After \<open>deny-pins --fix\<close> the list reads back as every rejected crate's pin and every earlier pin that the lockfile
  still resolves or that names no rejected crate: no live pin is lost and nothing else is added.
\<close>

theorem fix_keeps_live_pins:
  assumes "pe_manifest E = Some manifest" and "parse_pins manifest = Inr pinned"
    and "pe_deny E = Some out" and "pe_lockfile E = Some lockfile"
    and "check_pins E True = (Some written, Inr ())"
    and "\<forall>o' \<in> set (parse_diagnostics (pe_decode E) out). plain_pin (pin o')"
  shows "map_sum id set (parse_pins written) =
    Inr (pin ` set (parse_diagnostics (pe_decode E) out) \<union>
      {p \<in> set pinned. p \<in> set (resolved_versions lockfile) \<or> \<not> names_offender (parse_diagnostics (pe_decode E) out) p})"
proof -
  let ?offenders = "parse_diagnostics (pe_decode E) out"
  let ?updated = "apply_pins pinned ?offenders (displaced pinned ?offenders (resolved_versions lockfile))"
  have rewritten: "rewrite_pins manifest ?updated = Inr written"
    using assms(1-5) by (auto simp: check_pins_def Let_def split: if_splits sum.splits)
  have "\<forall>p \<in> set ?updated. plain_pin p"
    unfolding set_apply_pins using assms(6) parsed_pins_plain [OF assms(2)] by blast
  then have "parse_pins written = Inr ?updated"
    by (intro parse_rewritten [OF rewritten]) (simp_all add: apply_pins_def sorted_btree distinct_btree)
  then show ?thesis by (simp add: set_apply_pins)
qed

definition sample_manifest :: string where
  "sample_manifest = ''a'' @ LIST_OPENING @ [CHR 0x0A] @ entry_line ''g@3'' @ [CHR 0x0A] @ entry_line ''g@4'' @ closing_line @ ''z''"

definition sample_pins_env :: pins_env where
  "sample_pins_env =
     \<lparr> pe_manifest = Some sample_manifest,
       pe_lockfile = Some (join_with [CHR 0x0A] [''name = '' @ [dquote] @ ''g'' @ [dquote], ''version = '' @ [dquote] @ ''3'' @ [dquote]]),
       pe_deny = Some ''d'', pe_decode = (\<lambda>_. Some \<lparr> dg_code = OFFENDING_CODE, dg_graphs = [(''g'', ''5'')], dg_notes = [] \<rparr>),
       pe_writable = True \<rparr>"

definition sample_written :: string where
  "sample_written = ''a'' @ LIST_OPENING @ [CHR 0x0A] @ entry_line ''g@3'' @ [CHR 0x0A] @ entry_line ''g@5'' @ closing_line @ ''z''"

lemma sample_fixed: "check_pins sample_pins_env True = (Some sample_written, Inr ())"
  by code_simp

theorem fix_keeps_live_pins_witness: "map_sum id set (parse_pins sample_written) = Inr {''g@3'', ''g@5''}"
proof -
  have parts: "parse_pins sample_manifest = Inr [''g@3'', ''g@4'']" by code_simp
  have out: "parse_diagnostics (pe_decode sample_pins_env) ''d'' = [(''g'', ''5'', None)]" by code_simp
  have lock: "resolved_versions (the (pe_lockfile sample_pins_env)) = [''g@3'']" by code_simp
  have "plain_pin ''g@5''" by code_simp
  then have "map_sum id set (parse_pins sample_written) =
      Inr (pin ` set [(''g'', ''5'', None)] \<union> {p \<in> set [''g@3'', ''g@4'']. p \<in> set [''g@3''] \<or> \<not> names_offender [(''g'', ''5'', None)] p})"
    using fix_keeps_live_pins [of sample_pins_env sample_manifest, OF _ parts _ _ sample_fixed] out lock
    by (simp add: sample_pins_env_def pin_def)
  moreover have "names_offender [(''g'', ''5'', None)] ''g@4''" by code_simp
  ultimately show ?thesis by (auto simp: pin_def)
qed

end
