(* ===== verification/Tooling.thy ===== *)
theory Tooling
  imports Migrations Source_Text_Facts
begin

text \<open>
  The rest of \<open>xtask\<close>: installing the development tools, publishing the OpenAPI document and the snapshot gate.
  Processes, Docker and the files are parameters; probing a tool changes nothing.
\<close>

subsection \<open>Labels\<close>

text \<open>\<open>path_label\<close>; \<open>name\<close> is the path's file name, decoded lossily.\<close>

definition path_label :: "string \<Rightarrow> string option \<Rightarrow> string" where
  "path_label path name =
     (if path = ''-'' then ''<stdin>''
      else case map_option (bounded_printable 255) name of
             None \<Rightarrow> ''<file>''
           | Some label \<Rightarrow> if label = [] then ''<file>'' else label)"

subsection \<open>Development tools\<close>

record CommandSpec =
  cs_program :: string
  cs_args :: "string list"
  cs_directory :: "string option"

definition CommandSpec_new :: "string \<Rightarrow> string list \<Rightarrow> CommandSpec" where
  "CommandSpec_new program args = \<lparr> cs_program = program, cs_args = args, cs_directory = None \<rparr>"

definition in_dir :: "CommandSpec \<Rightarrow> string \<Rightarrow> CommandSpec" where
  "in_dir c directory = c \<lparr> cs_directory := Some directory \<rparr>"

definition display_command :: "CommandSpec \<Rightarrow> string" where
  "display_command c = join_with '' '' (cs_program c # cs_args c)"

record 's Runner =
  rn_succeeds :: "CommandSpec \<Rightarrow> 's \<Rightarrow> bool"
  rn_run :: "CommandSpec \<Rightarrow> 's \<Rightarrow> 's \<times> (string + unit)"

record ManagedTool =
  mt_name :: string
  mt_probe :: CommandSpec
  mt_install :: CommandSpec

datatype tooling_failure =
    MissingPrerequisites "string list"
  | MissingTools "string list"
  | CommandFailed string
  | StillUnavailable string

definition cargo_tool :: "string \<Rightarrow> string list \<Rightarrow> string \<Rightarrow> string list \<Rightarrow> ManagedTool" where
  "cargo_tool name probe package extra =
     \<lparr> mt_name = name, mt_probe = CommandSpec_new (hd probe) (tl probe),
       mt_install = CommandSpec_new ''cargo'' ([''install'', ''--locked'', package] @ extra) \<rparr>"

definition managed_tools :: "ManagedTool list" where
  "managed_tools =
     [\<lparr> mt_name = ''rustfmt'', mt_probe = CommandSpec_new ''cargo'' [''fmt'', ''--version''],
        mt_install = CommandSpec_new ''rustup'' [''component'', ''add'', ''rustfmt''] \<rparr>,
      \<lparr> mt_name = ''clippy'', mt_probe = CommandSpec_new ''cargo'' [''clippy'', ''--version''],
        mt_install = CommandSpec_new ''rustup'' [''component'', ''add'', ''clippy''] \<rparr>,
      cargo_tool ''just'' [''just'', ''--version''] ''just'' [],
      cargo_tool ''cargo-nextest'' [''cargo'', ''nextest'', ''--version''] ''cargo-nextest'' [],
      cargo_tool ''cargo-audit'' [''cargo'', ''audit'', ''--version''] ''cargo-audit'' [],
      cargo_tool ''cargo-deny'' [''cargo'', ''deny'', ''--version''] ''cargo-deny'' [],
      cargo_tool ''sqlx-cli'' [''cargo'', ''sqlx'', ''--version''] ''sqlx-cli''
        [''--no-default-features'', ''--features'', ''rustls,postgres'']]"

definition prerequisites :: "(string \<times> CommandSpec) list" where
  "prerequisites =
     [(''cargo'', CommandSpec_new ''cargo'' [''--version'']),
      (''rustup'', CommandSpec_new ''rustup'' [''--version'']),
      (''Docker Compose'', CommandSpec_new ''docker'' [''compose'', ''version'']),
      (''PostgreSQL client'', CommandSpec_new ''psql'' [''--version'']),
      (''npm'', CommandSpec_new ''npm'' [''--version''])]"

fun install_missing :: "'s Runner \<Rightarrow> ManagedTool list \<Rightarrow> 's \<Rightarrow> 's \<times> (tooling_failure + unit)" where
  "install_missing R [] s = (s, Inr ())"
| "install_missing R (t # ts) s =
     (case rn_run R (mt_install t) s of
        (s', Inl e) \<Rightarrow> (s', Inl (CommandFailed e))
      | (s', Inr _) \<Rightarrow>
          if rn_succeeds R (mt_probe t) s' then install_missing R ts s' else (s', Inl (StillUnavailable (mt_name t))))"

definition install_deps :: "'s Runner \<Rightarrow> bool \<Rightarrow> 's \<Rightarrow> 's \<times> (tooling_failure + unit)" where
  "install_deps R check_only s =
     (let absent = filter (\<lambda>p. \<not> rn_succeeds R (snd p) s) prerequisites;
          missing = filter (\<lambda>t. \<not> rn_succeeds R (mt_probe t) s) managed_tools
      in if absent \<noteq> [] then (s, Inl (MissingPrerequisites (map fst absent)))
         else if missing = [] then (s, Inr ())
         else if check_only then (s, Inl (MissingTools (map mt_name missing)))
         else install_missing R missing s)"

definition deny :: "'s Runner \<Rightarrow> string \<Rightarrow> 's \<Rightarrow> 's \<times> (string + unit)" where
  "deny R workspace_root s = rn_run R (in_dir (CommandSpec_new ''cargo'' [''deny'', ''--locked'', ''check'']) workspace_root) s"

subsection \<open>OpenAPI document\<close>

datatype docs_failure = DocsMissing string | DocsStale string | DocsDirectory string | DocsUnwritable string

text \<open>\<open>pretty\<close> is the document rendered by \<open>serde_json\<close>; \<open>parent_ok\<close> and \<open>write_ok\<close> say what the file system allows.\<close>

definition generate_docs ::
  "bool \<Rightarrow> bool \<Rightarrow> string \<Rightarrow> string \<Rightarrow> string \<Rightarrow> bool \<Rightarrow> (string \<rightharpoonup> string) \<Rightarrow> (string \<rightharpoonup> string) \<times> (docs_failure + unit)" where
  "generate_docs parent_ok write_ok pretty label out check_only files =
     (let rendered = pretty @ [CHR 0x0A] in
      if check_only then
        (files, (case files out of None \<Rightarrow> Inl (DocsMissing label)
                 | Some existing \<Rightarrow> if existing \<noteq> rendered then Inl (DocsStale label) else Inr ()))
      else if \<not> parent_ok then (files, Inl (DocsDirectory label))
      else if \<not> write_ok then (files, Inl (DocsUnwritable label))
      else (files(out \<mapsto> rendered), Inr ()))"

subsection \<open>Snapshots\<close>

datatype snapshot_failure =
    FixtureMissing
  | SnapshotsUnreadable string
  | NoSnapshotQueries
  | DatabaseFailed string
  | SnapshotQueryFailed string
  | GoldenUnwritable string
  | GoldenMissing string
  | SnapshotsDiffer nat

text \<open>
  \<open>sx_step\<close> is the failure of starting the container, waiting for it, installing the schema or importing the fixture;
  \<open>sx_query\<close> is what a query printed.
\<close>

record snapshot_env =
  sx_fixture :: bool
  sx_names :: "string list option"
  sx_sql :: "string \<Rightarrow> string option"
  sx_step :: "string option"
  sx_query :: "string \<Rightarrow> string + string"
  sx_stem :: "string option"
  sx_writable :: "string \<Rightarrow> bool"

definition file_extension :: "string \<Rightarrow> string option" where
  "file_extension name = (case rfind_char (CHR ''.'') name of None \<Rightarrow> None | Some i \<Rightarrow> if i = 0 then None else Some (drop (Suc i) name))"

definition is_query :: "string \<Rightarrow> bool" where
  "is_query name = (case file_extension name of None \<Rightarrow> False | Some e \<Rightarrow> eq_ignore_ascii_case e ''sql'')"

definition snapshot_queries :: "snapshot_env \<Rightarrow> snapshot_failure + (string \<times> string) list" where
  "snapshot_queries E =
     and_then (ok_or (SnapshotsUnreadable ''snapshots'') (sx_names E)) (\<lambda>names.
     let files = sort (filter is_query names) in
     if files = [] then Inl NoSnapshotQueries
     else collect_results (map (\<lambda>f. map_err SnapshotsUnreadable (and_then (ok_or f (sx_sql E f)) (\<lambda>sql. Inr (f, sql)))) files))"

definition golden_path :: "string option \<Rightarrow> string \<Rightarrow> string" where
  "golden_path stem query =
     ''database/snapshots/golden/'' @ (case stem of Some s \<Rightarrow> s | None \<Rightarrow> ''unknown'') @ ''/''
       @ (case strip_suffix ''.sql'' query of Some q \<Rightarrow> q | None \<Rightarrow> query) @ ''.txt''"

definition snapshot :: "snapshot_env \<Rightarrow> string \<Rightarrow> snapshot_failure + string" where
  "snapshot E sql = and_then (map_err SnapshotQueryFailed (sx_query E sql)) (\<lambda>out. Inr (trim_end out))"

definition difference_lines :: "string \<Rightarrow> string \<Rightarrow> string list" where
  "difference_lines expected actual =
     map (\<lambda>row. ''  missing: '' @ row) (filter (\<lambda>row. row \<notin> set (str_lines actual)) (str_lines expected)) @
     map (\<lambda>row. ''  added:   '' @ row) (filter (\<lambda>row. row \<notin> set (str_lines expected)) (str_lines actual))"

definition describe_difference :: "string \<Rightarrow> string \<Rightarrow> string" where
  "describe_difference expected actual =
     (let ls = difference_lines expected actual in
      concat (map (\<lambda>l. l @ [CHR 0x0A])
        (if ls = [] then [''  same rows in a different order ('' @ show_nat (length (str_lines expected)) @ '' expected, ''
           @ show_nat (length (str_lines actual)) @ '' actual)''] else ls)))"

type_synonym golden = "string \<rightharpoonup> string"

text \<open>The loop over the queries: the golden files and the differences found so far.\<close>

fun compare_snapshots ::
  "snapshot_env \<Rightarrow> bool \<Rightarrow> (string \<times> string) list \<Rightarrow> golden \<Rightarrow> (string \<times> string \<times> string) list \<Rightarrow>
     golden \<times> (snapshot_failure + (string \<times> string \<times> string) list)" where
  "compare_snapshots E update [] files differences = (files, Inr differences)"
| "compare_snapshots E update ((name, sql) # qs) files differences =
     (case snapshot E sql of
        Inl e \<Rightarrow> (files, Inl e)
      | Inr actual \<Rightarrow>
          let path = golden_path (sx_stem E) name in
          if update then
            (if sx_writable E path then compare_snapshots E update qs (files(path \<mapsto> actual @ [CHR 0x0A])) differences
             else (files, Inl (GoldenUnwritable path)))
          else
            (case files path of
               None \<Rightarrow> (files, Inl (GoldenMissing path))
             | Some expected \<Rightarrow>
                 compare_snapshots E update qs files
                   (if trim_end expected = trim_end actual then differences else differences @ [(name, expected, actual)])))"

definition snapshots :: "snapshot_env \<Rightarrow> bool \<Rightarrow> golden \<Rightarrow> golden \<times> (snapshot_failure + unit)" where
  "snapshots E update files =
     (if \<not> sx_fixture E then (files, Inl FixtureMissing)
      else case snapshot_queries E of
        Inl e \<Rightarrow> (files, Inl e)
      | Inr queries \<Rightarrow>
          (case sx_step E of
             Some e \<Rightarrow> (files, Inl (DatabaseFailed e))
           | None \<Rightarrow>
               (case compare_snapshots E update queries files [] of
                  (files', Inl e) \<Rightarrow> (files', Inl e)
                | (files', Inr differences) \<Rightarrow>
                    (files', if update \<or> differences = [] then Inr () else Inl (SnapshotsDiffer (length differences))))))"

subsection \<open>What they ensure\<close>

lemma check_only_installs_nothing: "fst (install_deps R True s) = s"
  by (simp add: install_deps_def Let_def)

lemma install_missing_ready:
  assumes keeps: "\<And>c d s. rn_succeeds R d s \<Longrightarrow> rn_succeeds R d (fst (rn_run R c s))"
    and "install_missing R ts s = (s', Inr ())"
  shows "(\<forall>t \<in> set ts. rn_succeeds R (mt_probe t) s') \<and> (\<forall>d. rn_succeeds R d s \<longrightarrow> rn_succeeds R d s')"
  using assms(2)
proof (induction ts arbitrary: s)
  case (Cons t ts)
  obtain s1 where s1: "rn_run R (mt_install t) s = (s1, Inr ())" "rn_succeeds R (mt_probe t) s1"
      "install_missing R ts s1 = (s', Inr ())"
    using Cons.prems by (auto split: prod.splits sum.splits if_splits)
  have "rn_succeeds R d s1" if "rn_succeeds R d s" for d using keeps [OF that, of "mt_install t"] s1(1) by simp
  then show ?case using Cons.IH [OF s1(3)] s1(2) by simp
qed simp

text \<open>
  When installing succeeds every managed tool answers its probe, provided that running an installer never breaks
  a command that worked.
\<close>

theorem installed_tools_answer:
  assumes "\<And>c d s. rn_succeeds R d s \<Longrightarrow> rn_succeeds R d (fst (rn_run R c s))"
    and "install_deps R check_only s = (s', Inr ())"
  shows "list_all (\<lambda>t. rn_succeeds R (mt_probe t) s') managed_tools"
proof -
  define missing where "missing = filter (\<lambda>t. \<not> rn_succeeds R (mt_probe t) s) managed_tools"
  have "missing = [] \<and> s' = s \<or> install_missing R missing s = (s', Inr ())"
    using assms(2) by (auto simp: install_deps_def missing_def Let_def split: if_splits)
  then show ?thesis
    using install_missing_ready [where R = R and ts = missing and s = s and s' = s'] assms(1)
    unfolding missing_def by (auto simp: list_all_iff filter_empty_conv)
qed

lemma utf8_chars_newline: "utf8_chars (s @ [CHR 0x0A]) = utf8_chars s @ [[CHR 0x0A]]"
proof (induction s rule: utf8_chars.induct)
  case (2 d s)
  have nl: "\<not> is_continuation (CHR 0x0A)" by (simp add: is_continuation_def)
  then have "takeWhile is_continuation (s @ [CHR 0x0A]) = takeWhile is_continuation s"
    "dropWhile is_continuation (s @ [CHR 0x0A]) = dropWhile is_continuation s @ [CHR 0x0A]"
    by (induction s) auto
  then show ?case using 2 by simp
qed simp

lemma trim_end_newline: "trim_end (s @ [CHR 0x0A]) = trim_end s"
  by (simp add: trim_end_def utf8_chars_newline is_whitespace_def del: utf8_chars.simps)

text \<open>Recording writes every golden file, each with its query's output.\<close>

lemma recorded_files:
  assumes "compare_snapshots E True qs files ds = (files', Inr ds')"
    and "inj_on (golden_path (sx_stem E)) (fst ` set qs)" and "distinct (map fst qs)"
  shows "ds' = ds \<and> (\<forall>(name, sql) \<in> set qs. \<exists>actual. snapshot E sql = Inr actual \<and>
      files' (golden_path (sx_stem E) name) = Some (actual @ [CHR 0x0A])) \<and>
    (\<forall>p. p \<notin> golden_path (sx_stem E) ` fst ` set qs \<longrightarrow> files' p = files p)"
  using assms
proof (induction qs arbitrary: files)
  case (Cons q qs)
  obtain name sql where q: "q = (name, sql)" by (cases q)
  let ?path = "golden_path (sx_stem E) name"
  obtain actual where actual: "snapshot E sql = Inr actual"
      "compare_snapshots E True qs (files(?path \<mapsto> actual @ [CHR 0x0A])) ds = (files', Inr ds')"
    using Cons.prems(1) by (auto simp: q Let_def split: sum.splits if_splits)
  have inj: "inj_on (golden_path (sx_stem E)) (fst ` set qs)" "distinct (map fst qs)"
    using Cons.prems(2,3) by (auto simp: inj_on_def)
  have "?path \<notin> golden_path (sx_stem E) ` fst ` set qs"
    using Cons.prems(2,3) by (auto simp: q inj_on_def)
  then show ?case using Cons.IH [OF actual(2) inj] actual(1) by (auto simp: q)
qed simp

lemma clean_compare:
  assumes "\<forall>(name, sql) \<in> set qs. \<exists>actual. snapshot E sql = Inr actual \<and>
      files (golden_path (sx_stem E) name) = Some (actual @ [CHR 0x0A])"
  shows "compare_snapshots E False qs files ds = (files, Inr ds)"
  using assms by (induction qs) (auto simp: Let_def trim_end_newline)

text \<open>Golden files recorded with \<open>--update\<close> pass the comparison against the same database.\<close>

theorem recorded_snapshots_pass:
  assumes "snapshots E True files = (files', Inr ())" and "snapshot_queries E = Inr queries"
    and "distinct (map fst queries)" and "inj_on (golden_path (sx_stem E)) (fst ` set queries)"
  shows "snapshots E False files' = (files', Inr ())"
proof -
  obtain ds where update: "compare_snapshots E True queries files [] = (files', Inr ds)" and ok: "sx_fixture E" "sx_step E = None"
    using assms(1,2) by (auto simp: snapshots_def split: if_splits option.splits prod.splits sum.splits)
  then have "compare_snapshots E False queries files' [] = (files', Inr [])"
    using recorded_files [OF update assms(4,3)] by (intro clean_compare) blast
  then show ?thesis using ok assms(2) by (simp add: snapshots_def)
qed

definition sample_snapshots :: snapshot_env where
  "sample_snapshots =
     \<lparr> sx_fixture = True, sx_names = Some [''b.sql'', ''a.SQL'', ''golden''], sx_sql = Some, sx_step = None,
       sx_query = (\<lambda>sql. Inr (sql @ ''|1'' @ [CHR 0x0A])), sx_stem = Some ''f'', sx_writable = (\<lambda>_. True) \<rparr>"

lemma sample_queries: "snapshot_queries sample_snapshots = Inr [(''a.SQL'', ''a.SQL''), (''b.sql'', ''b.sql'')]"
  by code_simp

lemma sample_fields:
  "sx_fixture sample_snapshots" "sx_step sample_snapshots = None" "sx_query sample_snapshots sql = Inr (sql @ ''|1'' @ [CHR 0x0A])"
  "sx_writable sample_snapshots path" "sx_stem sample_snapshots = Some ''f''"
  by (simp_all add: sample_snapshots_def)

theorem recorded_snapshots_pass_witness:
  "snapshots sample_snapshots False (fst (snapshots sample_snapshots True (\<lambda>_. None))) =
     (fst (snapshots sample_snapshots True (\<lambda>_. None)), Inr ())"
proof (rule recorded_snapshots_pass [OF _ sample_queries])
  have "snd (snapshots sample_snapshots True (\<lambda>_. None)) = Inr ()"
    by (simp add: snapshots_def sample_queries snapshot_def sample_fields Let_def)
  then show "snapshots sample_snapshots True (\<lambda>_. None) = (fst (snapshots sample_snapshots True (\<lambda>_. None)), Inr ())"
    by (metis prod.collapse)
  show "inj_on (golden_path (sx_stem sample_snapshots)) (fst ` set [(''a.SQL'', ''a.SQL''), (''b.sql'', ''b.sql'')])"
    by (simp add: golden_path_def strip_suffix_def ends_with_def starts_with_def)
qed simp

text \<open>What \<open>generate-docs\<close> has written, its check accepts.\<close>

theorem written_docs_current:
  assumes "generate_docs parent_ok write_ok pretty label out False files = (files', Inr ())"
  shows "generate_docs parent' write' pretty label out True files' = (files', Inr ())"
  using assms by (auto simp: generate_docs_def Let_def split: if_splits)

theorem written_docs_current_witness:
  "generate_docs False False ''{}'' ''l'' ''o'' True [''o'' \<mapsto> ''{}'' @ [CHR 0x0A]] = ([''o'' \<mapsto> ''{}'' @ [CHR 0x0A]], Inr ())"
  by (rule written_docs_current [of True True _ _ _ "\<lambda>_. None"]) (simp add: generate_docs_def)

theorem installed_tools_answer_witness:
  "list_all (\<lambda>t. rn_succeeds \<lparr> rn_succeeds = (\<lambda>c s. cs_program c \<noteq> ''just'' \<or> s), rn_run = (\<lambda>_ _. (True, Inr ())) \<rparr>
     (mt_probe t) True) managed_tools"
  by (rule installed_tools_answer [where check_only = False and s = False])
    (auto simp: install_deps_def prerequisites_def managed_tools_def cargo_tool_def CommandSpec_new_def)

end
