(* ===== verification/Served_Imports.thy ===== *)
theory Served_Imports
  imports Identity_Guarantees Api_App "HOL-Library.Countable"
begin

text \<open>
  An import and the read API on the same tables: the rows \<open>aircraft_db::ingestion_repository\<close> promotes a record to are
  the rows the model and family readers select, so what the readers need of their tables, what they then answer for
  an imported record, and how a model finds its family can be said of the import itself.
\<close>

subsection \<open>The tables a reader sees\<close>

text \<open>The columns no import writes, by the row's key.\<close>

record unwritten_columns =
  uw_model :: "int \<Rightarrow> Catalog_Readers.model_row"
  uw_family :: "int \<Rightarrow> Catalog_Readers.family_row"
  uw_lookups :: "Catalog \<Rightarrow> lookup_row list"

definition model_columns :: "unwritten_columns \<Rightarrow> Identity.model_row \<Rightarrow> Catalog_Readers.model_row" where
  "model_columns R m = uw_model R (ml_id m) \<lparr> mr_slug := ml_slug m, mr_name := ml_name m, mr_family_id := ml_family_id m \<rparr>"

definition family_columns :: "unwritten_columns \<Rightarrow> Identity.family_row \<Rightarrow> Catalog_Readers.family_row" where
  "family_columns R f = uw_family R (fm_id f)
     \<lparr> fr_id := fm_id f, fr_slug := fm_slug f, fr_name := fm_name f, fr_manufacturer_org_id := Some (fm_org f) \<rparr>"

definition catalog_view :: "unwritten_columns \<Rightarrow> identity_tables \<Rightarrow> catalog_tables" where
  "catalog_view R T =
     \<lparr> models = map (model_columns R) (t_models T), families = map (family_columns R) (t_families T),
       organizations = map (\<lambda>o'. \<lparr> or_id = og_id o', or_slug = og_slug o' \<rparr>) (t_orgs T), lookups = uw_lookups R \<rparr>"

text \<open>What the schema's keys, references and domains guarantee of the three tables.\<close>

definition catalog_rows_ok :: "identity_tables \<Rightarrow> bool" where
  "catalog_rows_ok T \<longleftrightarrow>
     distinct (map ml_slug (t_models T)) \<and> distinct (map fm_slug (t_families T)) \<and> distinct (map fm_id (t_families T)) \<and>
     list_all (slug_check \<circ> ml_slug) (t_models T) \<and> list_all (slug_check \<circ> fm_slug) (t_families T) \<and>
     list_all (slug_check \<circ> og_slug) (t_orgs T) \<and>
     list_all (\<lambda>m. ml_family_id m \<in> fm_id ` set (t_families T)) (t_models T)"

definition countries_ok :: "unwritten_columns \<Rightarrow> bool" where
  "countries_ok R \<longleftrightarrow> (\<forall>i. case fr_country (uw_family R i) of None \<Rightarrow> True | Some c \<Rightarrow> country_check c)"

text \<open>The slug of the family a slug's model belongs to.\<close>

definition family_of_id :: "identity_tables \<Rightarrow> int \<Rightarrow> string option" where
  "family_of_id T i = map_option fm_slug (List.find (\<lambda>f. fm_id f = i) (t_families T))"

definition model_family :: "identity_tables \<Rightarrow> string \<Rightarrow> string option" where
  "model_family T s = Option.bind (List.find (\<lambda>m. ml_slug m = s) (t_models T)) (\<lambda>m. family_of_id T (ml_family_id m))"

definition record_model :: "identity_env \<Rightarrow> PreparedAircraftRecord \<Rightarrow> string" where
  "record_model I r = slugify I (manufacturer_name (rec_identity r) @ ''-'' @ aircraft_name (rec_identity r))"

definition record_family :: "identity_env \<Rightarrow> PreparedAircraftRecord \<Rightarrow> string" where
  "record_family I r = slugify I (manufacturer_name (rec_identity r) @ ''-family'')"

subsection \<open>Upserts by a unique key\<close>

lemma upsert_keyed:
  assumes up: "upsert (\<lambda>q. key q = k) change fresh rows = (rows', x)" and key: "\<And>q. key (change q) = key q" "key fresh = k"
    and "distinct (map key rows)"
  shows "distinct (map key rows')" "x \<in> set rows'" "key x = k" "set rows' \<subseteq> insert x (set rows)"
    "List.find (\<lambda>q. key q = k') rows' = (if k' = k then Some x else List.find (\<lambda>q. key q = k') rows)"
proof -
  let ?m = "\<lambda>q. if key q = k then change q else q"
  have find: "List.find (\<lambda>q. key q = k') (map ?m rows) = map_option ?m (List.find (\<lambda>q. key q = k') rows)" for k'
    by (rule find_map_key) (simp add: key)
  have keys: "map key (map ?m rows) = map key rows" by (simp add: key)
  have "distinct (map key rows') \<and> x \<in> set rows' \<and> key x = k \<and> set rows' \<subseteq> insert x (set rows) \<and>
      List.find (\<lambda>q. key q = k') rows' = (if k' = k then Some x else List.find (\<lambda>q. key q = k') rows)"
  proof (cases "List.find (\<lambda>q. key q = k) rows")
    case None
    then have none: "k \<notin> key ` set rows" by (auto simp: find_None_iff)
    then show ?thesis using up None assms(4) key(2) by (auto simp: upsert_def find_append split: option.splits)
  next
    case (Some r)
    then have r: "r \<in> set rows" "key r = k" using find_SomeD[OF Some] by simp_all
    have x: "x = change r" "rows' = map ?m rows" using up Some by (auto simp: upsert_def)
    have "q = r" if "q \<in> set rows" "key q = k" for q
      using that r assms(4) by (auto simp: distinct_map inj_on_def)
    then have "set rows' \<subseteq> insert x (set rows)" by (auto simp: x)
    moreover have "List.find (\<lambda>q. key q = k') rows' = (if k' = k then Some x else List.find (\<lambda>q. key q = k') rows)"
    proof (cases "k' = k")
      case True
      then show ?thesis unfolding x find Some using r(2) by (simp add: Some)
    next
      case False
      then show ?thesis
        unfolding x(2) find using find_SomeD[of "\<lambda>q. key q = k'" rows] by (cases "List.find (\<lambda>q. key q = k') rows") auto
    qed
    moreover have "x \<in> set rows'" using r by (force simp: x)
    moreover have "distinct (map key rows')" "key x = k" using assms(4) keys key(1) r(2) by (simp_all only: x)
    ultimately show ?thesis by blast
  qed
  then show "distinct (map key rows')" "x \<in> set rows'" "key x = k" "set rows' \<subseteq> insert x (set rows)"
    "List.find (\<lambda>q. key q = k') rows' = (if k' = k then Some x else List.find (\<lambda>q. key q = k') rows)"
    by blast+
qed

text \<open>The row's own key next to the one it is looked up by.\<close>

lemma upsert_ident:
  assumes up: "upsert (\<lambda>q. key q = k) change fresh rows = (rows', x)"
    and ident: "\<And>q. ident (change q) = ident q" "ident fresh \<notin> ident ` set rows" "distinct (map ident rows)"
  shows "distinct (map ident rows')" "ident ` set rows \<subseteq> ident ` set rows'"
    "i \<in> ident ` set rows \<Longrightarrow> \<exists>q r. List.find (\<lambda>q. ident q = i) rows = Some q \<and> List.find (\<lambda>q. ident q = i) rows' = Some r \<and> r \<in> {q, change q}"
    "x \<in> set rows' \<Longrightarrow> List.find (\<lambda>q. ident q = ident x) rows' = Some x"
proof -
  let ?m = "\<lambda>q. if key q = k then change q else q"
  have rows': "rows' = rows @ [fresh] \<or> rows' = map ?m rows"
    using up by (auto simp: upsert_def split: option.splits)
  have find: "List.find (\<lambda>q. ident q = i) (map ?m rows) = map_option ?m (List.find (\<lambda>q. ident q = i) rows)" for i
    by (rule find_map_key) (simp add: ident)
  have idents: "map ident (map ?m rows) = map ident rows" by (simp add: ident)
  then have "ident ` set (map ?m rows) = ident ` set rows" by (metis list.set_map)
  then show "ident ` set rows \<subseteq> ident ` set rows'" using rows' by (auto simp del: set_map list.set_map)
  show distinct: "distinct (map ident rows')"
    using rows'
  proof
    assume "rows' = map ?m rows"
    then show ?thesis using idents ident(3) by metis
  qed (use ident(2,3) in auto)
  show "\<exists>q r. List.find (\<lambda>q. ident q = i) rows = Some q \<and> List.find (\<lambda>q. ident q = i) rows' = Some r \<and> r \<in> {q, change q}"
    if "i \<in> ident ` set rows"
  proof -
    note mem = that
    obtain q where "List.find (\<lambda>q. ident q = i) rows = Some q"
      using mem find_None_iff[of "\<lambda>q. ident q = i" rows] by (cases "List.find (\<lambda>q. ident q = i) rows") auto
    then show ?thesis using rows' by (elim disjE) (auto simp: find_append find simp del: set_map list.map)
  qed
  show "List.find (\<lambda>q. ident q = ident x) rows' = Some x" if "x \<in> set rows'"
  proof -
    note mem = that
    obtain y where y: "List.find (\<lambda>q. ident q = ident x) rows' = Some y"
      using mem by (cases "List.find (\<lambda>q. ident q = ident x) rows'") (auto simp: find_None_iff)
    then show ?thesis using mem find_SomeD[OF y] distinct by (auto simp: distinct_map dest: inj_onD)
  qed
qed

subsection \<open>What a record's promotion does to the catalogue\<close>

definition catalog_part :: "identity_tables \<Rightarrow> Identity.organization_row list \<times> Identity.family_row list \<times> Identity.model_row list" where
  "catalog_part T = (t_orgs T, t_families T, t_models T)"

lemma catalog_part_frame:
  "upsert_variant I mid r T = Inr (T', v) \<Longrightarrow> catalog_part T' = catalog_part T"
  "link_primary_manufacturer I variant org T = Inr T' \<Longrightarrow> catalog_part T' = catalog_part T"
  "flag_slug_collision I variant slug T = Inr T' \<Longrightarrow> catalog_part T' = catalog_part T"
  "upsert_source I T = Inr (T', source) \<Longrightarrow> catalog_part T' = catalog_part T"
  "insert_document I r variant source T = Inr (T', document) \<Longrightarrow> catalog_part T' = catalog_part T"
  "link_powerplant I variant engine count document T = Inr T' \<Longrightarrow> catalog_part T' = catalog_part T"
  "stage I r T = Inr (T', staged) \<Longrightarrow> catalog_part T' = catalog_part T"
  "finish_staged I staged variant status T = Inr T' \<Longrightarrow> catalog_part T' = catalog_part T"
  "finish_document I document T = Inr T' \<Longrightarrow> catalog_part T' = catalog_part T"
  unfolding catalog_part_def upsert_variant_def link_primary_manufacturer_def flag_slug_collision_def upsert_source_def
    insert_document_def link_powerplant_def stage_def finish_staged_def finish_document_def Let_def
  by (auto simp: and_then_Inr_iff split: prod.splits if_splits option.splits)

lemma catalog_part_frames:
  "promote_variant I model org r T = Inr (T', i) \<Longrightarrow> catalog_part T' = catalog_part T"
  "promote_document I P r variant s = Inr ((T', st), document) \<Longrightarrow> catalog_part T' = catalog_part (fst s)"
  "promote_engine I P r variant document T = Inr T' \<Longrightarrow> catalog_part T' = catalog_part T"
proof -
  show "promote_variant I model org r T = Inr (T', i) \<Longrightarrow> catalog_part T' = catalog_part T"
    unfolding promote_variant_def by (auto simp: and_then_Inr_iff split: if_splits dest!: catalog_part_frame)
  show "promote_document I P r variant s = Inr ((T', st), document) \<Longrightarrow> catalog_part T' = catalog_part (fst s)"
    unfolding promote_document_def by (auto simp: and_then_Inr_iff dest!: catalog_part_frame)
  show "promote_engine I P r variant document T = Inr T' \<Longrightarrow> catalog_part T' = catalog_part T"
    unfolding promote_engine_def Let_def
    by (auto simp: and_then_Inr_iff catalog_part_def split: prod.splits option.splits dest!: catalog_part_frame(6))
qed

lemma catalog_part_same:
  assumes "catalog_part T' = catalog_part T"
  shows "catalog_rows_ok T' = catalog_rows_ok T" "model_family T' = model_family T" "catalog_view R T' = catalog_view R T"
  using assms by (auto simp: catalog_part_def catalog_rows_ok_def model_family_def family_of_id_def catalog_view_def fun_eq_iff)

lemma promote_organization_ok:
  assumes "promote_organization I name T = Inr (T', org)" "catalog_rows_ok T"
  shows "catalog_rows_ok T'" "model_family T' = model_family T"
proof -
  have rest: "t_families T' = t_families T" "t_models T' = t_models T"
    using assms(1) by (auto simp: promote_organization_def Let_def and_then_Inr_iff split: if_splits prod.splits)
  then show "model_family T' = model_family T" by (simp add: model_family_def family_of_id_def fun_eq_iff)
  have "\<forall>q \<in> set (t_orgs T'). slug_check (og_slug q)"
    using assms
    by (auto simp: promote_organization_def Let_def and_then_Inr_iff upsert_def catalog_rows_ok_def list_all_iff
        split: if_splits prod.splits option.splits)
  then show "catalog_rows_ok T'" using assms(2) rest by (auto simp: catalog_rows_ok_def list_all_iff)
qed

lemma promote_family_ok:
  assumes run: "promote_family I manufacturer org T = Inr (T', f)" and ok: "catalog_rows_ok T"
  shows "catalog_rows_ok T'" "model_family T' = model_family T"
    "f \<in> fm_id ` set (t_families T')" "family_of_id T' f = Some (slugify I (manufacturer @ ''-family''))"
proof -
  let ?slug = "slugify I (manufacturer @ ''-family'')"
  let ?fresh = "\<lparr> fm_id = next_key (map fm_id (t_families T)), fm_name = id_initcap I manufacturer, fm_slug = ?slug, fm_org = org \<rparr>"
  let ?change = "\<lambda>f. f \<lparr> fm_org := org \<rparr>"
  obtain rows x where up: "upsert (\<lambda>f. fm_slug f = ?slug) ?change ?fresh (t_families T) = (rows, x)"
      and slug: "slug_check ?slug" and T': "T' = T \<lparr> t_families := rows \<rparr>" "f = fm_id x"
    using run by (auto simp: promote_family_def Let_def and_then_Inr_iff split: prod.splits)
  have distinct: "distinct (map fm_slug (t_families T))" "distinct (map fm_id (t_families T))"
    using ok by (simp_all add: catalog_rows_ok_def)
  have new: "fm_id ?fresh \<notin> fm_id ` set (t_families T)"
    using next_key_fresh[of _ "map fm_id (t_families T)"] by auto
  note keyed = upsert_keyed[where key = fm_slug, OF up _ _ distinct(1), simplified]
  note ident = upsert_ident[where ident = fm_id, OF up _ new distinct(2), simplified]
  show "f \<in> fm_id ` set (t_families T')" using keyed(2) by (simp add: T')
  show "family_of_id T' f = Some ?slug" using keyed(2,3) ident(4) by (simp add: T' family_of_id_def)
  have slugs: "family_of_id T' i = family_of_id T i" if "i \<in> fm_id ` set (t_families T)" for i
    using ident(3)[OF that] by (auto simp: T' family_of_id_def)
  show "catalog_rows_ok T'"
    using ok keyed(1,3,4) ident(1,2) slug by (auto simp: T' catalog_rows_ok_def list_all_iff)
  show "model_family T' = model_family T"
  proof
    fix s
    show "model_family T' s = model_family T s"
    proof (cases "List.find (\<lambda>m. ml_slug m = s) (t_models T)")
      case (Some m)
      then have "ml_family_id m \<in> fm_id ` set (t_families T)"
        using ok find_SomeD[OF Some] by (auto simp: catalog_rows_ok_def list_all_iff)
      then show ?thesis using slugs Some by (simp add: model_family_def T')
    qed (simp add: model_family_def T')
  qed
qed

lemma promote_model_ok:
  assumes run: "promote_model I manufacturer aircraft family T = Inr (T', m)" and ok: "catalog_rows_ok T"
    and family: "family \<in> fm_id ` set (t_families T)"
  shows "catalog_rows_ok T'"
    "model_family T' s = (if s = slugify I (manufacturer @ ''-'' @ aircraft) then family_of_id T family else model_family T s)"
proof -
  let ?slug = "slugify I (manufacturer @ ''-'' @ aircraft)"
  let ?fresh = "\<lparr> ml_id = next_key (map ml_id (t_models T)), ml_name = aircraft, ml_slug = ?slug, ml_family_id = family \<rparr>"
  let ?change = "\<lambda>m. m \<lparr> ml_family_id := family \<rparr>"
  obtain rows x where up: "upsert (\<lambda>m. ml_slug m = ?slug) ?change ?fresh (t_models T) = (rows, x)"
      and slug: "slug_check ?slug" and T': "T' = T \<lparr> t_models := rows \<rparr>"
    using run by (auto simp: promote_model_def Let_def and_then_Inr_iff split: prod.splits)
  have distinct: "distinct (map ml_slug (t_models T))" using ok by (simp add: catalog_rows_ok_def)
  note keyed = upsert_keyed[where key = ml_slug, OF up _ _ distinct, simplified]
  have x: "ml_family_id x = family" using up by (auto simp: upsert_def split: option.splits)
  show "catalog_rows_ok T'"
    using ok keyed(1,3,4) slug x family by (auto simp: T' catalog_rows_ok_def list_all_iff)
  show "model_family T' s = (if s = ?slug then family_of_id T family else model_family T s)"
    using keyed(5)[of s] x by (simp add: T' model_family_def family_of_id_def)
qed

text \<open>The record's model is under the record's family; every other model is where it was.\<close>

definition catalog_step :: "identity_env \<Rightarrow> PreparedAircraftRecord \<Rightarrow> identity_tables \<Rightarrow> identity_tables \<Rightarrow> bool" where
  "catalog_step I r T T' \<longleftrightarrow> catalog_rows_ok T' \<and>
     model_family T' = (model_family T)(record_model I r \<mapsto> record_family I r)"

lemma promote_identity_catalog:
  assumes run: "promote_identity I r T = Inr (T', i)" and ok: "catalog_rows_ok T"
  shows "catalog_step I r T T'"
proof -
  let ?maker = "manufacturer_name (rec_identity r)" and ?name = "aircraft_name (rec_identity r)"
  obtain T1 org T2 family T3 model where steps: "promote_organization I ?maker T = Inr (T1, org)"
      "promote_family I ?maker org T1 = Inr (T2, family)" "promote_model I ?maker ?name family T2 = Inr (T3, model)"
      "promote_variant I model org r T3 = Inr (T', i)"
    using run by (auto simp: promote_identity_def Let_def and_then_Inr_iff)
  note org = promote_organization_ok[OF steps(1) ok]
  note family = promote_family_ok[OF steps(2) org(1)]
  note model = promote_model_ok[OF steps(3) family(1,3)]
  show ?thesis
    using catalog_part_same(1,2)[OF catalog_part_frames(1)[OF steps(4)]] model org(2) family(2,4)
    by (auto simp: catalog_step_def record_model_def record_family_def fun_eq_iff)
qed

lemma stage_and_promote_catalog:
  assumes run: "stage_and_promote_rows I P r s = Inr (s', out)" and ok: "catalog_rows_ok (fst s)"
  shows "catalog_step I r (fst s) (fst s')"
proof -
  obtain T1 staged T2 i T3 st3 document T4 status T5 where steps: "stage I r (fst s) = Inr (T1, staged)"
      "promote_identity I r T1 = Inr (T2, i)" "promote_document I P r i (T2, snd s) = Inr ((T3, st3), document)"
      "promote_engine I P r i document T3 = Inr T4"
      "finish_staged I staged i status T4 = Inr T5" "finish_document I document T5 = Inr (fst s')"
    using run by (rule stage_and_promote_parts)
  note before = catalog_part_same(1,2)[OF catalog_part_frame(7)[OF steps(1)]]
  have "catalog_part (fst s') = catalog_part T2"
    using catalog_part_frame(8)[OF steps(5)] catalog_part_frame(9)[OF steps(6)] catalog_part_frames(3)[OF steps(4)]
      catalog_part_frames(2)[OF steps(3)] by simp
  note after = catalog_part_same(1,2)[OF this]
  show ?thesis
    using promote_identity_catalog[OF steps(2)] ok before after by (simp add: catalog_step_def)
qed

text \<open>Over an import the last record of a model's slug decides.\<close>

definition imported_family :: "identity_env \<Rightarrow> PreparedAircraftRecord list \<Rightarrow> string \<Rightarrow> string option" where
  "imported_family I rs = map_of (rev (map (\<lambda>r. (record_model I r, record_family I r)) rs))"

lemma promote_all_rows_catalog:
  assumes "promote_all_rows I P rs s = Inr s'" "catalog_rows_ok (fst s)"
  shows "catalog_rows_ok (fst s') \<and> model_family (fst s') = model_family (fst s) ++ imported_family I rs"
  using assms
proof (induction rs arbitrary: s)
  case Nil
  then show ?case by (simp add: promote_all_rows_def imported_family_def)
next
  case (Cons r rs)
  obtain s1 out where first: "stage_and_promote_rows I P r s = Inr (s1, out)" and rest: "promote_all_rows I P rs s1 = Inr s'"
    using Cons.prems(1) by (auto simp: promote_all_rows_def and_then_Inr_iff)
  have step: "catalog_step I r (fst s) (fst s1)" by (rule stage_and_promote_catalog[OF first Cons.prems(2)])
  show ?case
    using Cons.IH[OF rest] step
    by (auto simp: catalog_step_def imported_family_def fun_eq_iff map_add_def split: option.splits)
qed

lemma imported_family_record:
  assumes "r \<in> set rs"
  shows "\<exists>q \<in> set rs. record_model I q = record_model I r \<and> imported_family I rs (record_model I r) = Some (record_family I q)"
proof -
  obtain f where "imported_family I rs (record_model I r) = Some f"
    using assms by (cases "imported_family I rs (record_model I r)") (auto simp: imported_family_def map_of_eq_None_iff image_image)
  moreover from this have "(record_model I r, f) \<in> (\<lambda>r. (record_model I r, record_family I r)) ` set rs"
    unfolding imported_family_def by (auto dest!: map_of_SomeD)
  then obtain q where "q \<in> set rs" "record_model I q = record_model I r" "f = record_family I q" by auto
  ultimately show ?thesis by blast
qed

subsection \<open>The readers on the imported rows\<close>

lemma view_simps [simp]:
  "mr_slug (model_columns R m) = ml_slug m" "mr_family_id (model_columns R m) = ml_family_id m"
  "fr_id (family_columns R f) = fm_id f" "fr_slug (family_columns R f) = fm_slug f"
  "fr_manufacturer_org_id (family_columns R f) = Some (fm_org f)"
  "fr_country (family_columns R f) = fr_country (uw_family R (fm_id f))"
  by (simp_all add: model_columns_def family_columns_def)

lemma find_of_map: "List.find P (map f xs) = map_option f (List.find (\<lambda>x. P (f x)) xs)"
  by (induction xs) auto

lemma family_slug_view: "family_slug (catalog_view R T) (model_columns R m) = family_of_id T (ml_family_id m)"
  by (simp add: family_slug_def catalog_view_def family_of_id_def find_of_map option.map_comp comp_def)

lemma catalog_view_ok:
  assumes ok: "catalog_rows_ok T" and countries: "countries_ok R" and "inj_on rank {s. slug_check s}"
  shows "models_ok rank (catalog_view R T)" "families_ok rank (catalog_view R T)"
proof -
  have distinct: "distinct (map (rank \<circ> f) xs)" if "distinct (map f xs)" "list_all (slug_check \<circ> f) xs" for f :: "'b \<Rightarrow> string" and xs
    using that inj_on_subset[OF assms(3), of "set (map f xs)"] unfolding map_map[symmetric] distinct_map[of rank]
    by (auto simp: list_all_iff)
  have family: "\<exists>s. family_of_id T (ml_family_id m) = Some s \<and> slug_check s" if "m \<in> set (t_models T)" for m
  proof -
    have "ml_family_id m \<in> fm_id ` set (t_families T)" using ok that by (auto simp: catalog_rows_ok_def list_all_iff)
    then obtain f where f: "List.find (\<lambda>f. fm_id f = ml_family_id m) (t_families T) = Some f"
      using find_None_iff[of "\<lambda>f. fm_id f = ml_family_id m" "t_families T"]
      by (cases "List.find (\<lambda>f. fm_id f = ml_family_id m) (t_families T)") auto
    then show ?thesis using find_SomeD[OF f] ok by (auto simp: family_of_id_def catalog_rows_ok_def list_all_iff)
  qed
  show "models_ok rank (catalog_view R T)"
    unfolding models_ok_def
  proof (intro conjI)
    show "distinct (map (\<lambda>m. rank (mr_slug m)) (models (catalog_view R T)))"
      using distinct[of ml_slug "t_models T"] ok by (simp add: catalog_view_def catalog_rows_ok_def comp_def)
    show "list_all (\<lambda>m. valid_slug (mr_slug m)) (models (catalog_view R T))"
      using ok by (simp add: catalog_view_def catalog_rows_ok_def list_all_iff valid_slug_iff)
    show "list_all (\<lambda>m. case family_slug (catalog_view R T) m of None \<Rightarrow> False | Some s \<Rightarrow> valid_slug s) (models (catalog_view R T))"
      using family family_slug_view[of R T] by (fastforce simp: catalog_view_def list_all_iff valid_slug_iff)
  qed
  show "families_ok rank (catalog_view R T)"
    unfolding families_ok_def
  proof (intro conjI)
    show "distinct (map (\<lambda>f. rank (fr_slug f)) (families (catalog_view R T)))"
      using distinct[of fm_slug "t_families T"] ok by (simp add: catalog_view_def catalog_rows_ok_def comp_def)
    show "list_all (\<lambda>f. valid_slug (fr_slug f)) (families (catalog_view R T))"
      using ok by (simp add: catalog_view_def catalog_rows_ok_def list_all_iff valid_slug_iff)
    show "list_all (\<lambda>f. case manufacturer_slug (catalog_view R T) f of None \<Rightarrow> True | Some s \<Rightarrow> valid_slug s) (families (catalog_view R T))"
      using ok
      by (auto simp: catalog_view_def catalog_rows_ok_def list_all_iff valid_slug_iff manufacturer_slug_def
          dest!: find_SomeD split: option.splits)
    show "list_all (\<lambda>f. case fr_country f of None \<Rightarrow> True | Some c \<Rightarrow> country_check c) (families (catalog_view R T))"
      using countries by (auto simp: catalog_view_def list_all_iff countries_ok_def)
  qed
qed

lemma find_catalog_model:
  assumes ok: "catalog_rows_ok T" and family: "model_family T s = Some f"
  shows "\<exists>detail. find_model no_read_faults (catalog_view R T) (Slug s) = Inr (Some detail) \<and>
    ms_slug (md_summary detail) = Slug s \<and> ms_family (md_summary detail) = Slug f \<and> Slug_try_from s = Inr (Slug s)"
proof -
  obtain m where m: "List.find (\<lambda>m. ml_slug m = s) (t_models T) = Some m" "family_of_id T (ml_family_id m) = Some f"
    using family by (auto simp: model_family_def split: bind_splits)
  then have row: "List.find (\<lambda>m. mr_slug m = s) (models (catalog_view R T)) = Some (model_columns R m)"
    by (simp add: catalog_view_def find_of_map)
  have "ml_slug m = s" "slug_check s" using find_SomeD[OF m(1)] ok by (auto simp: catalog_rows_ok_def list_all_iff)
  moreover have "slug_check f"
    using m(2) ok by (auto simp: family_of_id_def catalog_rows_ok_def list_all_iff dest!: find_SomeD)
  ultimately show ?thesis
    using m(2) row
    by (auto simp: find_model_def model_summary_def family_slug_view slug_of_column_def Slug_try_from_valid valid_slug_iff)
qed

text \<open>
  C34: an import leaves the tables as the readers need them, whatever records it promotes and whatever columns others
  write: every page of models and of families can be read afterwards, with any filter, from any key.
\<close>

theorem imports_keep_catalog_readable:
  assumes "catalog_rows_ok (fst s)" and "promote_all_rows I P rs s = Inr s'" and "countries_ok R"
    and "inj_on rank {s. slug_check s}"
  shows "\<exists>page fpage. list_models rank no_read_faults flt (catalog_view R (fst s')) limit after = Inr page \<and>
    list_families rank no_read_faults fflt (catalog_view R (fst s')) flimit fafter = Inr fpage"
proof -
  note ok = catalog_view_ok[OF promote_all_rows_catalog[OF assms(2,1), THEN conjunct1] assms(3,4)]
  show ?thesis using model_pages.listed[OF ok(1)] family_pages.listed[OF ok(2)] by blast
qed

definition no_columns :: unwritten_columns where
  "no_columns =
     \<lparr> uw_model = (\<lambda>_. \<lparr> mr_slug = [], mr_name = [], mr_display_name = None, mr_family_id = 0, mr_series = None,
         mr_generation = None, mr_first_flight_year = None, mr_certification_year = None, mr_name_aliases = None,
         mr_description = None \<rparr>),
       uw_family = (\<lambda>_. \<lparr> fr_id = 0, fr_slug = [], fr_name = [], fr_common_name = None, fr_manufacturer_org_id = None,
         fr_country = None, fr_first_flight_year = None, fr_name_aliases = None, fr_description = None \<rparr>),
       uw_lookups = (\<lambda>_. []) \<rparr>"

lemma no_rows_readable: "catalog_rows_ok no_rows" "countries_ok no_columns"
  by (simp_all add: catalog_rows_ok_def no_rows_def countries_ok_def no_columns_def)

theorem imports_keep_catalog_readable_witness:
  "\<exists>s' page. promote_all_rows sample_identity sample_promotion [bare_record] (no_rows, served_costs) = Inr s' \<and>
     list_models (to_nat :: string \<Rightarrow> nat) no_read_faults \<lparr> mf_family = None \<rparr> (catalog_view no_columns (fst s'))
       (PageLimit 50) None = Inr page"
proof -
  obtain s' where s': "promote_all_rows sample_identity sample_promotion [bare_record] (no_rows, served_costs) = Inr s'"
    by (rule sample_reimported)
  have "inj_on (to_nat :: string \<Rightarrow> nat) {s. slug_check s}" by simp
  from imports_keep_catalog_readable[OF _ s' no_rows_readable(2) this, of "\<lparr> mf_family = None \<rparr>" "PageLimit 50" None]
  show ?thesis using s' no_rows_readable(1) by auto
qed

text \<open>
  Every record of a promoted batch can be read: the model route answers its slug, under the family of a record of the
  batch that has the same model slug.
\<close>

lemma promoted_model_served:
  assumes "catalog_rows_ok (fst s)" and "promote_all_rows I P rs s = Inr s'" and "r \<in> set rs"
    and "st_tables w = catalog_view R (fst s')" and "st_faults w = no_read_faults" and "ex_segment X rq = record_model I r"
  shows "\<exists>detail. \<exists>q \<in> set rs. snd (model_handler G X rq w) = json_response (JObject (detail_members (ModelDetailResponse_from detail))) \<and>
    ms_slug (md_summary detail) = Slug (record_model I r) \<and>
    ms_family (md_summary detail) = Slug (record_family I q) \<and> record_model I q = record_model I r"
proof -
  obtain q where q: "q \<in> set rs" "record_model I q = record_model I r"
      "imported_family I rs (record_model I r) = Some (record_family I q)"
    using imported_family_record[OF assms(3)] by blast
  note rows = promote_all_rows_catalog[OF assms(2,1)]
  have "model_family (fst s') (record_model I r) = Some (record_family I q)" using rows q(3) by simp
  from find_catalog_model[OF rows[THEN conjunct1] this, of R]
  obtain detail where "find_model no_read_faults (catalog_view R (fst s')) (Slug (record_model I r)) = Inr (Some detail)"
      "ms_slug (md_summary detail) = Slug (record_model I r)" "ms_family (md_summary detail) = Slug (record_family I q)"
      "Slug_try_from (record_model I r) = Inr (Slug (record_model I r))"
    by blast
  then show ?thesis using assms(4-6) q by (auto simp: model_handler_def model_route_def intro!: exI[of _ detail] bexI[of _ q])
qed

text \<open>
  Two manufacturers whose names join to one model slug share the model: the later record's family takes it over, where
  the variants of the two are kept apart and the collision is flagged.
\<close>

lemma colliding_model_moves:
  assumes "catalog_rows_ok (fst s)" and "promote_all_rows I P (rs @ [r]) s = Inr s'"
  shows "model_family (fst s') (record_model I r) = Some (record_family I r)"
  using promote_all_rows_catalog[OF assms(2,1)] by (simp add: imported_family_def)

end
