(* ===== verification/Row_Imports.thy ===== *)
theory Row_Imports
  imports Served_Imports Import_Guarantees
begin

text \<open>
  The import service over the rows: \<open>Import_Store\<close> keeps the promoted records of a committed transaction as a batch,
  here the transaction carries the tables themselves, every record of it written by \<open>stage_and_promote_rows\<close> and made
  visible by the commit. One import runs at a time, as the command line runs it.
\<close>

subsection \<open>A store whose unit of work writes rows\<close>

text \<open>
  \<open>visible\<close> is what a new transaction reads, \<open>written\<close> what a unit of work has made of it, \<open>env_of\<close> the source, run
  and label it writes for.
\<close>

locale promoting_store = ingestion_store ops batches staged run_of
  for ops :: "('st, 'uow) store_ops" and batches staged run_of +
  fixes visible :: "'st \<Rightarrow> 'rows"
    and written :: "'uow \<Rightarrow> 'rows"
    and env_of :: "'uow \<Rightarrow> 'env"
    and env :: "ImportRequest \<Rightarrow> int \<Rightarrow> 'env"
    and put :: "'env \<Rightarrow> PreparedAircraftRecord \<Rightarrow> 'rows \<Rightarrow> PersistenceError + 'rows"
  assumes start_visible: "start_import_op ops st req = (st', res) \<Longrightarrow> visible st' = visible st"
    and start_written: "start_import_op ops st req = (st', Inr (Ready run att u)) \<Longrightarrow>
      written u = visible st' \<and> env_of u = env req run"
    and stage_written: "stage_op ops u r = (u', Inr out) \<Longrightarrow>
      put (env_of u) r (written u) = Inr (written u') \<and> env_of u' = env_of u"
    and refresh_written: "refresh_op ops u = (u', Inr x) \<Longrightarrow> written u' = written u \<and> env_of u' = env_of u"
    and success_written: "mark_succeeded_op ops u rep = (u', Inr x) \<Longrightarrow> written u' = written u \<and> env_of u' = env_of u"
    and commit_visible: "commit_op ops st u = (st', Inr x) \<Longrightarrow> visible st' = written u"
    and commit_unsure: "commit_op ops st u = (st', Inl e) \<Longrightarrow>
      visible st' = visible st \<and> batches st' = batches st \<or>
      visible st' = written u \<and> batches st' = batches st @ [(run_of u, staged u)]"
    and rollback_visible: "visible (fst (rollback_op ops st u)) = visible st"
    and mark_failed_visible: "visible (fst (mark_failed_op ops st run att code msg)) = visible st"
begin

lemma consume_loop_writes:
  assumes "consume_loop ops msgs u co = (u', Inr co')"
  shows "\<exists>rs. msgs = map Inr rs \<and> promote_all (put (env_of u)) rs (written u) = Inr (written u') \<and> env_of u' = env_of u"
  using assms
proof (induction msgs arbitrary: u co)
  case (Cons m msgs)
  obtain r where m: "m = Inr r" using Cons.prems by (cases m) auto
  have clear: "List.find is_error (rec_issues r) = None"
    using Cons.prems by (cases "List.find is_error (rec_issues r)") (auto simp: m Let_def)
  obtain u1 out co1 where stage: "stage_op ops u r = (u1, Inr out)" and rest: "consume_loop ops msgs u1 co1 = (u', Inr co')"
    using Cons.prems clear by (auto simp: m Let_def split: prod.splits sum.splits)
  from Cons.IH[OF rest] stage_written[OF stage] m show ?case
    by (metis and_then_Inr_iff list.simps(9) promote_all.simps(2))
qed simp

lemma consume_records_writes:
  assumes "consume_records sha ops req msgs u run att = (u', Inr rep)"
  shows "\<exists>rs. msgs = map Inr rs \<and> promote_all (put (env_of u)) rs (written u) = Inr (written u') \<and> env_of u' = env_of u"
proof -
  obtain u1 co where loop: "consume_loop ops msgs u \<lparr> co_count = 0, co_hashed = [], co_report = new_report req run att \<rparr> = (u1, Inr co)"
    and refresh: "refresh_op ops u1 = (u', Inr ())"
    using assms by (auto simp: consume_records_def Let_def split: if_splits prod.splits sum.splits)
  show ?thesis using consume_loop_writes[OF loop] refresh_written[OF refresh] by simp
qed

text \<open>The batch of a verified request, with the rows its records make.\<close>

definition writes_batch :: "(string \<Rightarrow> string) \<Rightarrow> ImportRequest \<Rightarrow> message list \<Rightarrow> 'st \<Rightarrow> 'st \<Rightarrow> bool" where
  "writes_batch sha req msgs st st' \<longleftrightarrow>
     (\<exists>run rs. msgs = map Inr rs \<and> matches_preflight sha req rs \<and> batches st' = batches st @ [(run, rs)] \<and>
        promote_all (put (env req run)) rs (visible st) = Inr (visible st'))"

definition writes_nothing :: "'st \<Rightarrow> 'st \<Rightarrow> bool" where
  "writes_nothing st st' \<longleftrightarrow> visible st' = visible st \<and> batches st' = batches st"

lemma rollback_and_audit_visible: "visible (rollback_and_audit ops st u run att e) = visible st"
  by (simp add: rollback_and_audit_def audit_failure_def mark_failed_visible rollback_visible)

lemma import_writes:
  assumes "import_records sha ops st req msgs = (st', res)"
  shows "case res of
      Inr rep \<Rightarrow> if already_imported rep then writes_nothing st st' else writes_batch sha req msgs st st'
    | Inl e \<Rightarrow> writes_nothing st st' \<or> (\<exists>p. e = Persistence p) \<and> writes_batch sha req msgs st st'"
proof -
  obtain st1 r1 where start: "start_import_op ops st req = (st1, r1)" by fastforce
  note same = start_batches[OF start] start_visible[OF start]
  show ?thesis
  proof (cases "\<exists>run att u. r1 = Inr (Ready run att u)")
    case False
    with assms start same show ?thesis
      by (auto simp: import_records_def writes_nothing_def dest: start_already split: sum.splits ImportStart.splits)
  next
    case True
    then obtain run att u where r1: "r1 = Inr (Ready run att u)" by blast
    note ready = start_ready[OF start[unfolded r1]] start_written[OF start[unfolded r1]]
    obtain u1 r2 where consume: "consume_records sha ops req msgs u run att = (u1, r2)" by fastforce
    show ?thesis
    proof (cases r2)
      case (Inl e)
      with assms start r1 consume same show ?thesis
        by (auto simp: import_records_def writes_nothing_def rollback_and_audit_visible rollback_and_audit_batches)
    next
      case (Inr rep)
      from consume_records_ok[OF consume[unfolded Inr]] ready obtain rs where rs: "msgs = map Inr rs"
        "matches_preflight sha req rs" "staged u1 = rs" "run_of u1 = run" "rep = report_for req run att rs" by auto
      from consume_records_writes[OF consume[unfolded Inr]] ready same rs(1)
      have rows: "promote_all (put (env req run)) rs (visible st) = Inr (written u1)"
        by (auto dest: map_injective[of Inr] simp: inj_def)
      have fresh: "\<not> already_imported rep" by (simp add: rs report_for_def new_report_def)
      obtain u2 r3 where mark: "mark_succeeded_op ops u1 rep = (u2, r3)" by fastforce
      show ?thesis
      proof (cases r3)
        case (Inl e)
        with assms start r1 consume Inr mark same show ?thesis
          by (auto simp: import_records_def writes_nothing_def rollback_and_audit_visible rollback_and_audit_batches)
      next
        case (Inr x)
        note u2 = success_ok[OF mark[unfolded Inr]] success_written[OF mark[unfolded Inr]]
        obtain st2 r4 where commit: "commit_op ops st1 u2 = (st2, r4)" by fastforce
        show ?thesis
        proof (cases r4)
          case (Inr y)
          with assms start r1 consume \<open>r2 = Inr rep\<close> mark \<open>r3 = Inr x\<close> commit
          have "st' = st2" "res = Inr rep" by (auto simp: import_records_def)
          with commit_ok[OF commit[unfolded Inr]] commit_visible[OF commit[unfolded Inr]] u2 rs rows same fresh
          show ?thesis by (auto simp: writes_batch_def)
        next
          case (Inl e)
          with assms start r1 consume \<open>r2 = Inr rep\<close> mark \<open>r3 = Inr x\<close> commit
          have "st' = audit_failure ops st2 run att (Persistence e)" "res = Inl (Persistence e)"
            by (auto simp: import_records_def)
          with commit_unsure[OF commit[unfolded Inl]] u2 rs rows same show ?thesis
            by (auto simp: audit_failure_def mark_failed_batches mark_failed_visible writes_batch_def writes_nothing_def)
        qed
      qed
    qed
  qed
qed

end

subsection \<open>The database as that store\<close>

record row_store =
  rs_store :: import_store
  rs_rows :: promotion_state

record row_work =
  rw_uow :: unit_of_work
  rw_source :: SourceDescriptor
  rw_rows :: promotion_state

text \<open>The members of \<open>SqlxIngestionUnitOfWork\<close> a promotion reads.\<close>

definition identity_for :: "identity_env \<Rightarrow> SourceDescriptor \<Rightarrow> int \<Rightarrow> string \<Rightarrow> identity_env" where
  "identity_for I source run label = I \<lparr> id_source := source, id_run := run, id_label := label \<rparr>"

definition work_identity :: "identity_env \<Rightarrow> row_work \<Rightarrow> identity_env" where
  "work_identity I u = identity_for I (rw_source u) (uow_run (rw_uow u)) (uow_label (rw_uow u))"

definition row_start ::
  "db_env \<Rightarrow> row_store \<Rightarrow> ImportRequest \<Rightarrow> row_store \<times> (PersistenceError + row_work ImportStart)" where
  "row_start E w req =
     (case start_import E (rs_store w) req of
        (st, Inl e) \<Rightarrow> (w \<lparr> rs_store := st \<rparr>, Inl e)
      | (st, Inr (AlreadySucceeded rep)) \<Rightarrow> (w \<lparr> rs_store := st \<rparr>, Inr (AlreadySucceeded rep))
      | (st, Inr Busy) \<Rightarrow> (w \<lparr> rs_store := st \<rparr>, Inr Busy)
      | (st, Inr (Ready run att u)) \<Rightarrow> (w \<lparr> rs_store := st \<rparr>,
          Inr (Ready run att \<lparr> rw_uow = u, rw_source = req_source req, rw_rows = rs_rows w \<rparr>)))"

definition row_mark_failed ::
  "db_env \<Rightarrow> row_store \<Rightarrow> int \<Rightarrow> int \<Rightarrow> string \<Rightarrow> string \<Rightarrow> row_store \<times> (PersistenceError + unit)" where
  "row_mark_failed E w run att code msg =
     (case mark_failed E (rs_store w) run att code msg of (st, res) \<Rightarrow> (w \<lparr> rs_store := st \<rparr>, res))"

definition row_stage ::
  "db_env \<Rightarrow> identity_env \<Rightarrow> promotion_env \<Rightarrow> row_work \<Rightarrow> PreparedAircraftRecord \<Rightarrow>
     row_work \<times> (PersistenceError + RecordOutcome)" where
  "row_stage E I P u r =
     guarded E (StageRecord (length (uow_staged (rw_uow u)))) u
       (case stage_and_promote_rows (work_identity I u) P r (rw_rows u) of
          Inl e \<Rightarrow> (u, Inl e)
        | Inr (rows, out) \<Rightarrow>
            (u \<lparr> rw_uow := (rw_uow u) \<lparr> uow_staged := uow_staged (rw_uow u) @ [r] \<rparr>, rw_rows := rows \<rparr>, Inr out))"

definition on_work :: "(unit_of_work \<Rightarrow> unit_of_work \<times> 'a) \<Rightarrow> row_work \<Rightarrow> row_work \<times> 'a" where
  "on_work f u = (case f (rw_uow u) of (v, res) \<Rightarrow> (u \<lparr> rw_uow := v \<rparr>, res))"

definition row_commit :: "db_env \<Rightarrow> row_store \<Rightarrow> row_work \<Rightarrow> row_store \<times> (PersistenceError + unit)" where
  "row_commit E w u = committed E CommitImport (w \<lparr> rs_store := release (rw_uow u) (rs_store w) \<rparr>)
     \<lparr> rs_store = release (rw_uow u) (publish (rs_store w) (rw_uow u)), rs_rows = rw_rows u \<rparr> ()"

definition row_rollback :: "db_env \<Rightarrow> row_store \<Rightarrow> row_work \<Rightarrow> row_store \<times> (PersistenceError + unit)" where
  "row_rollback E w u =
     (case rollback_import E (rs_store w) (rw_uow u) of (st, res) \<Rightarrow> (w \<lparr> rs_store := st \<rparr>, res))"

definition row_ops :: "db_env \<Rightarrow> identity_env \<Rightarrow> promotion_env \<Rightarrow> (row_store, row_work) store_ops" where
  "row_ops E I P =
     \<lparr> start_import_op = row_start E, mark_failed_op = row_mark_failed E, stage_op = row_stage E I P,
       refresh_op = on_work (refresh_read_models E), mark_succeeded_op = (\<lambda>u rep. on_work (\<lambda>v. mark_succeeded E v rep) u),
       commit_op = row_commit E, rollback_op = row_rollback E \<rparr>"

text \<open>\<open>run_label\<close> as \<open>start_import\<close> makes it.\<close>

definition request_label :: "ImportRequest \<Rightarrow> string" where
  "request_label req =
     (case prefix16 (content_sha256 (req_artifact req)) of
        None \<Rightarrow> []
      | Some hash_prefix \<Rightarrow> src_slug (req_source req) @ ''_'' @ hash_prefix @ ''_'' @
          dots_to_underscores (src_parser_version (req_source req)))"

definition request_identity :: "identity_env \<Rightarrow> ImportRequest \<Rightarrow> int \<Rightarrow> identity_env" where
  "request_identity I req run = identity_for I (req_source req) run (request_label req)"

definition promote_rows ::
  "promotion_env \<Rightarrow> identity_env \<Rightarrow> PreparedAircraftRecord \<Rightarrow> promotion_state \<Rightarrow> PersistenceError + promotion_state" where
  "promote_rows P I r s = and_then (stage_and_promote_rows I P r s) (\<lambda>(s', _). Inr s')"

lemma promote_rows_all: "promote_all (promote_rows P I) = promote_all_rows I P"
  by (simp add: promote_all_rows_def promote_rows_def[abs_def])

lemma row_start_op:
  assumes "row_start E w req = (w', res)"
  obtains st r where "start_import E (rs_store w) req = (st, r)" "w' = w \<lparr> rs_store := st \<rparr>"
    "res = (case r of Inl e \<Rightarrow> Inl e | Inr (AlreadySucceeded rep) \<Rightarrow> Inr (AlreadySucceeded rep) | Inr Busy \<Rightarrow> Inr Busy
      | Inr (Ready run att u) \<Rightarrow> Inr (Ready run att \<lparr> rw_uow = u, rw_source = req_source req, rw_rows = rs_rows w \<rparr>))"
  using assms by (auto simp: row_start_def split: prod.splits sum.splits ImportStart.splits)

lemma start_import_label:
  assumes "start_import E st req = (st', Inr (Ready run att u))"
  shows "uow_label u = request_label req"
  using assms unfolding start_import_def Let_def
  by (auto simp: guarded_eq committed_eq request_label_def split: option.splits if_splits sum.splits prod.splits)

lemma row_start_ready:
  assumes "row_start E w req = (w', Inr (Ready run att u))"
  obtains st v where "start_import E (rs_store w) req = (st, Inr (Ready run att v))" "w' = w \<lparr> rs_store := st \<rparr>"
    "u = \<lparr> rw_uow = v, rw_source = req_source req, rw_rows = rs_rows w \<rparr>"
proof -
  obtain st r where start: "start_import E (rs_store w) req = (st, r)" "w' = w \<lparr> rs_store := st \<rparr>"
    and res: "Inr (Ready run att u) = (case r of Inl e \<Rightarrow> Inl e | Inr (AlreadySucceeded rep) \<Rightarrow> Inr (AlreadySucceeded rep)
      | Inr Busy \<Rightarrow> Inr Busy
      | Inr (Ready run att u) \<Rightarrow> Inr (Ready run att \<lparr> rw_uow = u, rw_source = req_source req, rw_rows = rs_rows w \<rparr>))"
    using assms by (rule row_start_op)
  from res obtain v where "r = Inr (Ready run att v)" "u = \<lparr> rw_uow = v, rw_source = req_source req, rw_rows = rs_rows w \<rparr>"
    by (cases r) (auto split: ImportStart.splits)
  with start show ?thesis using that by blast
qed

lemma outcome_of_rows: "stage_and_promote_rows I P r s = Inr (s', out) \<Longrightarrow> out = record_outcome r"
  by (auto simp: stage_and_promote_rows_def and_then_Inr_iff)

lemma row_stage_op:
  assumes "row_stage E I P u r = (u', Inr out)"
  shows "stage_and_promote_rows (work_identity I u) P r (rw_rows u) = Inr (rw_rows u', out)"
    and "u' = u \<lparr> rw_uow := (rw_uow u) \<lparr> uow_staged := uow_staged (rw_uow u) @ [r] \<rparr>, rw_rows := rw_rows u' \<rparr>"
  using assms by (auto simp: row_stage_def guarded_eq split: sum.splits)

lemma on_work_op: "on_work f u = (u', res) \<longleftrightarrow> f (rw_uow u) = (rw_uow u', res) \<and> u' = u \<lparr> rw_uow := rw_uow u' \<rparr>"
  by (auto simp: on_work_def split: prod.splits)

text \<open>The unit of work keeps its run and label.\<close>

lemma mark_succeeded_frame:
  assumes "mark_succeeded E v rep = (v', res)"
  shows "uow_staged v' = uow_staged v" "uow_run v' = uow_run v" "uow_label v' = uow_label v" "uow_lock v' = uow_lock v"
  using assms by (auto simp: mark_succeeded_def guarded_eq split: sum.splits)

lemma refresh_read_models_same: "refresh_read_models E v = (v', res) \<Longrightarrow> v' = v"
  by (auto simp: refresh_read_models_def guarded_eq)

interpretation rows: ingestion_store "row_ops E I P" "\<lambda>w. promoted_batches (rs_store w)" "\<lambda>u. uow_staged (rw_uow u)"
  "\<lambda>u. uow_run (rw_uow u)" for E I P
proof
  fix st req st' res
  assume "start_import_op (row_ops E I P) st req = (st', res)"
  then have "row_start E st req = (st', res)" by (simp add: row_ops_def)
  then show "promoted_batches (rs_store st') = promoted_batches (rs_store st)"
  proof (rule row_start_op)
    fix st1 r assume "start_import E (rs_store st) req = (st1, r)" "st' = st \<lparr> rs_store := st1 \<rparr>"
    then show ?thesis using pg.start_batches[of E "rs_store st" req st1 r] by (simp add: sqlx_store_def)
  qed
next
  fix st req st' run att u
  assume "start_import_op (row_ops E I P) st req = (st', Inr (Ready run att u))"
  then have "row_start E st req = (st', Inr (Ready run att u))" by (simp add: row_ops_def)
  then show "uow_staged (rw_uow u) = [] \<and> uow_run (rw_uow u) = run"
  proof (rule row_start_ready)
    fix st1 v assume "start_import E (rs_store st) req = (st1, Inr (Ready run att v))"
      "u = \<lparr> rw_uow = v, rw_source = req_source req, rw_rows = rs_rows st \<rparr>"
    then show ?thesis using pg.start_ready[of E "rs_store st" req st1 run att v] by (simp add: sqlx_store_def)
  qed
next
  fix st req st' rep
  assume "start_import_op (row_ops E I P) st req = (st', Inr (AlreadySucceeded rep))"
  then have "start_import E (rs_store st) req = (rs_store st', Inr (AlreadySucceeded rep))"
    by (auto simp: row_ops_def row_start_def split: prod.splits sum.splits ImportStart.splits)
  then show "already_imported rep"
    using pg.start_already[of E "rs_store st" req "rs_store st'" rep] by (simp add: sqlx_store_def)
next
  fix u r u' out
  assume "stage_op (row_ops E I P) u r = (u', Inr out)"
  then have "row_stage E I P u r = (u', Inr out)" by (simp add: row_ops_def)
  note staged = row_stage_op[OF this]
  show "uow_staged (rw_uow u') = uow_staged (rw_uow u) @ [r] \<and> uow_run (rw_uow u') = uow_run (rw_uow u) \<and> out = record_outcome r"
    by (subst staged(2), subst staged(2)) (simp add: outcome_of_rows[OF staged(1)])
next
  fix u u' and x :: unit
  assume "refresh_op (row_ops E I P) u = (u', Inr x)"
  then show "uow_staged (rw_uow u') = uow_staged (rw_uow u) \<and> uow_run (rw_uow u') = uow_run (rw_uow u)"
    by (auto simp: row_ops_def on_work_op dest: refresh_read_models_same)
next
  fix u rep u' and x :: unit
  assume "mark_succeeded_op (row_ops E I P) u rep = (u', Inr x)"
  then show "uow_staged (rw_uow u') = uow_staged (rw_uow u) \<and> uow_run (rw_uow u') = uow_run (rw_uow u)"
    by (auto simp: row_ops_def on_work_op dest: mark_succeeded_frame)
qed (auto simp: row_ops_def row_commit_def row_rollback_def rollback_import_def row_mark_failed_def mark_failed_def
      guarded_eq committed_eq guarded_def committed_def publish_def release_def fail_unless_succeeded_def Let_def
      split: option.splits prod.splits if_splits)

interpretation rows: promoting_store "row_ops E I P" "\<lambda>w. promoted_batches (rs_store w)" "\<lambda>u. uow_staged (rw_uow u)"
  "\<lambda>u. uow_run (rw_uow u)" rs_rows rw_rows "work_identity I" "request_identity I" "promote_rows P" for E I P
proof
  fix st req st' res
  assume "start_import_op (row_ops E I P) st req = (st', res)"
  then show "rs_rows st' = rs_rows st"
    by (auto simp: row_ops_def row_start_def split: prod.splits sum.splits ImportStart.splits)
next
  fix st req st' run att u
  assume ready: "start_import_op (row_ops E I P) st req = (st', Inr (Ready run att u))"
  then have "row_start E st req = (st', Inr (Ready run att u))" by (simp add: row_ops_def)
  then show "rw_rows u = rs_rows st' \<and> work_identity I u = request_identity I req run"
  proof (rule row_start_ready)
    fix st1 v assume "start_import E (rs_store st) req = (st1, Inr (Ready run att v))" "st' = st \<lparr> rs_store := st1 \<rparr>"
      "u = \<lparr> rw_uow = v, rw_source = req_source req, rw_rows = rs_rows st \<rparr>"
    then show ?thesis
      using rows.start_ready[OF ready] by (simp add: work_identity_def request_identity_def start_import_label)
  qed
next
  fix u r u' out
  assume "stage_op (row_ops E I P) u r = (u', Inr out)"
  then have "row_stage E I P u r = (u', Inr out)" by (simp add: row_ops_def)
  note staged = row_stage_op[OF this]
  have "work_identity I u' = work_identity I u" by (subst staged(2)) (simp add: work_identity_def)
  then show "promote_rows P (work_identity I u) r (rw_rows u) = Inr (rw_rows u') \<and> work_identity I u' = work_identity I u"
    using staged(1) by (simp add: promote_rows_def)
next
  fix u u' and x :: unit
  assume "refresh_op (row_ops E I P) u = (u', Inr x)"
  then show "rw_rows u' = rw_rows u \<and> work_identity I u' = work_identity I u"
    by (auto simp: row_ops_def on_work_op dest!: refresh_read_models_same)
next
  fix u rep u' and x :: unit
  assume "mark_succeeded_op (row_ops E I P) u rep = (u', Inr x)"
  then have "mark_succeeded E (rw_uow u) rep = (rw_uow u', Inr x)" "u' = u \<lparr> rw_uow := rw_uow u' \<rparr>"
    by (simp_all add: row_ops_def on_work_op)
  moreover from this(2) have "rw_rows u' = rw_rows u" "rw_source u' = rw_source u"
    by (metis row_work.select_convs row_work.surjective row_work.update_convs(1))+
  ultimately show "rw_rows u' = rw_rows u \<and> work_identity I u' = work_identity I u"
    using mark_succeeded_frame by (simp add: work_identity_def)
qed (auto simp: row_ops_def row_commit_def row_rollback_def rollback_import_def row_mark_failed_def mark_failed_def
      guarded_eq committed_eq guarded_def committed_def publish_def release_def Let_def
      split: option.splits prod.splits if_splits)

end
