(* ===== verification/Row_Guarantees.thy ===== *)
theory Row_Guarantees
  imports Row_Imports
begin

text \<open>
  What an import does to the tables: it promotes every record of its stream or changes no row, and which of the two is
  for the tables to say; what it promoted is what the API serves.
\<close>

subsection \<open>The tables decide\<close>

lemma consume_rows:
  assumes "no_faults E" and "\<forall>r \<in> set rs. \<not> has_error r"
  shows "case promote_all_rows (work_identity I u) P rs (rw_rows u) of
      Inl e \<Rightarrow> \<exists>u'. consume_loop (row_ops E I P) (map Inr rs) u (consumed req run att earlier) = (u', Inl (Persistence e))
    | Inr s \<Rightarrow> consume_loop (row_ops E I P) (map Inr rs) u (consumed req run att earlier) =
        (u \<lparr> rw_uow := (rw_uow u) \<lparr> uow_staged := uow_staged (rw_uow u) @ rs \<rparr>, rw_rows := s \<rparr>,
         Inr (consumed req run att (earlier @ rs)))"
  using assms(2)
proof (induction rs arbitrary: u earlier)
  case Nil
  then show ?case by (simp add: promote_all_rows_def)
next
  case (Cons r rs)
  have clear: "List.find is_error (rec_issues r) = None" using Cons.prems by (simp add: find_error_None)
  show ?case
  proof (cases "stage_and_promote_rows (work_identity I u) P r (rw_rows u)")
    case (Inl e)
    then show ?thesis
      using clear by (simp add: promote_all_rows_def Let_def row_ops_def row_stage_def no_faults_simps[OF assms(1)])
  next
    case (Inr res)
    obtain s out where res: "res = (s, out)" by fastforce
    let ?u = "u \<lparr> rw_uow := (rw_uow u) \<lparr> uow_staged := uow_staged (rw_uow u) @ [r] \<rparr>, rw_rows := s \<rparr>"
    have "out = record_outcome r" using Inr res outcome_of_rows by auto
    then have step: "consume_loop (row_ops E I P) (map Inr (r # rs)) u (consumed req run att earlier) =
        consume_loop (row_ops E I P) (map Inr rs) ?u (consumed req run att (earlier @ [r]))"
      using clear Inr res consumed_snoc[of req run att earlier r]
      by (simp add: Let_def row_ops_def row_stage_def no_faults_simps[OF assms(1)])
    have same: "work_identity I ?u = work_identity I u" by (simp add: work_identity_def)
    have rows: "promote_all_rows (work_identity I u) P (r # rs) (rw_rows u) = promote_all_rows (work_identity I u) P rs s"
      using Inr res by (simp add: promote_all_rows_def)
    show ?thesis
      using Cons.IH[of ?u "earlier @ [r]"] Cons.prems unfolding step rows same
      by (cases "promote_all_rows (work_identity I u) P rs s") simp_all
  qed
qed

lemma consume_records_rows:
  assumes "no_faults E" and ok: "matches_preflight sha req rs"
  shows "case promote_all_rows (work_identity I u) P rs (rw_rows u) of
      Inl e \<Rightarrow> \<exists>u'. consume_records sha (row_ops E I P) req (map Inr rs) u run att = (u', Inl (Persistence e))
    | Inr s \<Rightarrow> consume_records sha (row_ops E I P) req (map Inr rs) u run att =
        (u \<lparr> rw_uow := (rw_uow u) \<lparr> uow_staged := uow_staged (rw_uow u) @ rs \<rparr>, rw_rows := s \<rparr>,
         Inr (report_for req run att rs))"
proof -
  have clean: "\<forall>r \<in> set rs. \<not> has_error r" using ok by (simp add: matches_preflight_def)
  have warnings: "rep_warning_count (report_for req run att rs) = warnings_in rs" by (simp add: report_for_def)
  note loop = consume_rows[OF assms(1) clean, where I = I and u = u and P = P and req = req and run = run and att = att and
      earlier = "[]", unfolded consumed_Nil]
  show ?thesis
  proof (cases "promote_all_rows (work_identity I u) P rs (rw_rows u)")
    case (Inl e)
    then show ?thesis using loop by (auto simp: consume_records_def)
  next
    case (Inr s)
    then show ?thesis
      using loop ok warnings
      by (simp add: consume_records_def consumed_def matches_preflight_def row_ops_def on_work_def
          refresh_read_models_def no_faults_simps[OF assms(1)] Let_def)
  qed
qed

lemma row_import_decided:
  assumes "matches_preflight sha req rs" and "no_faults E" and "request_fits req"
    and "lock_hash E (lock_key (request_key req)) \<notin> locks (rs_store w)"
    and "\<forall>r \<in> set (runs (rs_store w)). run_key r = request_key req \<longrightarrow> run_status r \<noteq> Succeeded"
  shows "\<exists>run att w' res. import_records sha (row_ops E I P) w req (map Inr rs) = (w', res) \<and>
    (case promote_all_rows (request_identity I req run) P rs (rs_rows w) of
       Inl e \<Rightarrow> res = Inl (Persistence e) \<and> rs_rows w' = rs_rows w
     | Inr s \<Rightarrow> res = Inr (report_for req run att rs) \<and> rs_rows w' = s)"
proof -
  obtain st run att v where start: "start_import E (rs_store w) req = (st, Inr (Ready run att v))"
    using start_import_fresh[OF assms(2-5)] by blast
  let ?u = "\<lparr> rw_uow = v, rw_source = req_source req, rw_rows = rs_rows w \<rparr>" and ?w = "w \<lparr> rs_store := st \<rparr>"
  have run: "row_start E w req = (?w, Inr (Ready run att ?u))" by (simp add: row_start_def start)
  have ident: "work_identity I ?u = request_identity I req run"
    using rows.start_written[where st = w and u = ?u and st' = ?w and E = E and req = req and run = run and att = att and I = I] run by (simp add: row_ops_def)
  note consume = consume_records_rows[OF assms(2,1), where I = I and u = ?u and P = P and run = run and att = att]
  show ?thesis
  proof (cases "promote_all_rows (request_identity I req run) P rs (rs_rows w)")
    case (Inl e)
    with consume ident obtain u' where
      "consume_records sha (row_ops E I P) req (map Inr rs) ?u run att = (u', Inl (Persistence e))" by auto
    then have "import_records sha (row_ops E I P) w req (map Inr rs) =
        (rollback_and_audit (row_ops E I P) ?w u' run att (Persistence e), Inl (Persistence e))"
      using run by (simp add: import_records_def row_ops_def)
    moreover have "rs_rows (rollback_and_audit (row_ops E I P) ?w u' run att (Persistence e)) = rs_rows w"
      by (simp add: rows.rollback_and_audit_visible)
    ultimately show ?thesis
      using Inl by (intro exI[of _ run] exI[of _ att]
          exI[of _ "rollback_and_audit (row_ops E I P) ?w u' run att (Persistence e)"]) simp
  next
    case (Inr s)
    let ?rep = "report_for req run att rs"
    let ?u1 = "?u \<lparr> rw_uow := v \<lparr> uow_staged := uow_staged v @ rs \<rparr>, rw_rows := s \<rparr>"
    let ?u2 = "?u1 \<lparr> rw_uow := v \<lparr> uow_staged := uow_staged v @ rs, uow_success := Some ?rep \<rparr> \<rparr>"
    have "consume_records sha (row_ops E I P) req (map Inr rs) ?u run att = (?u1, Inr ?rep)"
      using consume ident Inr by simp
    moreover have "on_work (\<lambda>v. mark_succeeded E v ?rep) ?u1 = (?u2, Inr ())"
      using report_counts_fit[OF assms(3,1), of run att]
      by (auto simp: on_work_def mark_succeeded_def no_faults_simps[OF assms(2)])
    moreover have "row_commit E ?w ?u2 = (\<lparr> rs_store = release (rw_uow ?u2) (publish st (rw_uow ?u2)), rs_rows = s \<rparr>, Inr ())"
      by (simp add: row_commit_def no_faults_simps[OF assms(2)])
    ultimately have "import_records sha (row_ops E I P) w req (map Inr rs) =
        (\<lparr> rs_store = release (rw_uow ?u2) (publish st (rw_uow ?u2)), rs_rows = s \<rparr>, Inr ?rep)"
      using run by (simp add: import_records_def row_ops_def)
    then show ?thesis
      using Inr by (intro exI[of _ run] exI[of _ att]
          exI[of _ "\<lparr> rs_store = release (rw_uow ?u2) (publish st (rw_uow ?u2)), rs_rows = s \<rparr>"]) simp
  qed
qed

subsection \<open>A concrete import\<close>

definition bare_request :: ImportRequest where
  "bare_request = sample_request \<lparr> req_preflight := \<lparr> pf_record_count = 1, pf_warning_count = warnings_in [bare_record],
     pf_record_keys_sha256 = hex_digest (keys_preimage [bare_record]) \<rparr> \<rparr>"

definition bare_store :: row_store where
  "bare_store = \<lparr> rs_store = empty_store, rs_rows = (no_rows, served_costs) \<rparr>"

lemma bare_request_ok:
  "matches_preflight (\<lambda>s. s) bare_request [bare_record]" "request_fits bare_request" "no_faults sample_env"
  by (simp_all add: matches_preflight_def bare_request_def sample_request_def has_error_def bare_record_def sample_record_def
      request_fits_def prefix16_def i64_max_def i32_max_def warnings_in_def no_faults_def sample_env_def)

lemma bare_rows:
  "\<exists>s. promote_all_rows (request_identity sample_identity bare_request run) sample_promotion [bare_record]
     (no_rows, served_costs) = Inr s"
proof -
  have "\<not> isl (promote_all_rows (request_identity sample_identity bare_request run) sample_promotion [bare_record]
      (no_rows, served_costs))"
    by (simp add: request_identity_def identity_for_def bare_request_def sample_request_def request_label_def prefix16_def
        dots_to_underscores_def sample_evals)
  then show ?thesis by (metis sum.collapse(2))
qed

lemma bare_fresh:
  "lock_hash sample_env (lock_key (request_key bare_request)) \<notin> locks (rs_store bare_store)"
  "\<forall>r \<in> set (runs (rs_store bare_store)). run_key r = request_key bare_request \<longrightarrow> run_status r \<noteq> Succeeded"
  "rs_rows bare_store = (no_rows, served_costs)"
  by (simp_all add: bare_store_def empty_store_def)

lemma bare_import:
  obtains run att w' where
    "import_records (\<lambda>s. s) (row_ops sample_env sample_identity sample_promotion) bare_store bare_request [Inr bare_record] =
       (w', Inr (report_for bare_request run att [bare_record]))"
    "promote_all_rows (request_identity sample_identity bare_request run) sample_promotion [bare_record] (no_rows, served_costs) =
       Inr (rs_rows w')"
proof -
  obtain run att w' res where run:
    "import_records (\<lambda>s. s) (row_ops sample_env sample_identity sample_promotion) bare_store bare_request (map Inr [bare_record]) = (w', res)"
    and res: "case promote_all_rows (request_identity sample_identity bare_request run) sample_promotion [bare_record] (rs_rows bare_store) of
      Inl e \<Rightarrow> res = Inl (Persistence e) \<and> rs_rows w' = rs_rows bare_store
    | Inr s \<Rightarrow> res = Inr (report_for bare_request run att [bare_record]) \<and> rs_rows w' = s"
    using row_import_decided[OF bare_request_ok(1,3,2) bare_fresh(1,2), of sample_identity sample_promotion] by blast
  obtain s where "promote_all_rows (request_identity sample_identity bare_request run) sample_promotion [bare_record]
      (no_rows, served_costs) = Inr s"
    using bare_rows by blast
  then show ?thesis using run res bare_fresh(3) that[of w' run att] by simp
qed

subsection \<open>All rows or none\<close>

text \<open>
  C8: an import through the rows of the database, whatever statements fail, either makes visible exactly what promoting
  every record of its verified stream in order makes of the tables, under the request's source, run and label, or
  changes no row. A success without rows is only reported for an artifact already imported, a success with rows is
  reported with the true counts, and a failure that changes rows is a commit whose reply was lost.
\<close>

theorem import_all_rows_or_none:
  assumes "import_records sha (row_ops E I P) w req msgs = (w', res)"
  shows "rs_rows w' = rs_rows w \<and> promoted_batches (rs_store w') = promoted_batches (rs_store w) \<and>
      (\<forall>rep. res = Inr rep \<longrightarrow> already_imported rep) \<or>
    (\<exists>run att rs. msgs = map Inr rs \<and> matches_preflight sha req rs \<and>
      promote_all_rows (request_identity I req run) P rs (rs_rows w) = Inr (rs_rows w') \<and>
      promoted_batches (rs_store w') = promoted_batches (rs_store w) @ [(run, rs)] \<and>
      (case res of Inl e \<Rightarrow> \<exists>p. e = Persistence p | Inr rep \<Rightarrow> rep = report_for req run att rs))"
  using rows.import_writes[OF assms] rows.import_all_or_nothing[OF assms]
  by (auto simp: rows.writes_batch_def rows.writes_nothing_def promote_rows_all inj_eq split: sum.splits if_splits)

theorem import_all_rows_or_none_witness:
  "\<exists>w' rep. import_records (\<lambda>s. s) (row_ops sample_env sample_identity sample_promotion) bare_store bare_request
       [Inr bare_record] = (w', Inr rep) \<and> rep_promoted_records rep = 1 \<and>
     (\<exists>run. promote_all_rows (request_identity sample_identity bare_request run) sample_promotion [bare_record]
        (no_rows, served_costs) = Inr (rs_rows w'))"
proof -
  obtain run att w' where run: "import_records (\<lambda>s. s) (row_ops sample_env sample_identity sample_promotion) bare_store
      bare_request [Inr bare_record] = (w', Inr (report_for bare_request run att [bare_record]))"
    by (rule bare_import)
  have "\<not> already_imported (report_for bare_request run att [bare_record])" by (simp add: report_for_def new_report_def)
  then have "\<exists>run'. promote_all_rows (request_identity sample_identity bare_request run') sample_promotion [bare_record]
      (rs_rows bare_store) = Inr (rs_rows w')"
    using import_all_rows_or_none[OF run] by auto
  then show ?thesis using run bare_fresh(3) by (auto simp: report_for_def)
qed

subsection \<open>The tables decide\<close>

text \<open>
  C10: when the connection fails no statement, a verified stream is imported or refused by the tables alone: if they
  accept its records in order the import reports them and commits their rows, and otherwise it ends with the very error
  of the first statement that refused one, with every table as before.
\<close>

theorem tables_decide:
  assumes "matches_preflight sha req rs" and "no_faults E" and "request_fits req"
    and "lock_hash E (lock_key (request_key req)) \<notin> locks (rs_store w)"
    and "\<forall>r \<in> set (runs (rs_store w)). run_key r = request_key req \<longrightarrow> run_status r \<noteq> Succeeded"
  shows "\<exists>run att w' res. import_records sha (row_ops E I P) w req (map Inr rs) = (w', res) \<and>
    (case promote_all_rows (request_identity I req run) P rs (rs_rows w) of
       Inl e \<Rightarrow> res = Inl (Persistence e) \<and> rs_rows w' = rs_rows w
     | Inr s \<Rightarrow> res = Inr (report_for req run att rs) \<and> rs_rows w' = s)"
  using assms by (rule row_import_decided)

theorem tables_decide_witness:
  "\<exists>run att w'. import_records (\<lambda>s. s) (row_ops sample_env sample_identity sample_promotion) bare_store bare_request
       [Inr bare_record] = (w', Inr (report_for bare_request run att [bare_record]))"
proof -
  obtain run att w' res where run:
    "import_records (\<lambda>s. s) (row_ops sample_env sample_identity sample_promotion) bare_store bare_request (map Inr [bare_record]) = (w', res)"
    and res: "case promote_all_rows (request_identity sample_identity bare_request run) sample_promotion [bare_record] (rs_rows bare_store) of
      Inl e \<Rightarrow> res = Inl (Persistence e) \<and> rs_rows w' = rs_rows bare_store
    | Inr s \<Rightarrow> res = Inr (report_for bare_request run att [bare_record]) \<and> rs_rows w' = s"
    using tables_decide[OF bare_request_ok(1,3,2) bare_fresh(1,2), of sample_identity sample_promotion] by blast
  obtain s where "promote_all_rows (request_identity sample_identity bare_request run) sample_promotion [bare_record]
      (no_rows, served_costs) = Inr s"
    using bare_rows by blast
  then show ?thesis using run res bare_fresh(3) by auto
qed

subsection \<open>What was imported is served\<close>

lemma record_names_request [simp]:
  "record_model (request_identity I req run) = record_model I" "record_family (request_identity I req run) = record_family I"
  by (simp_all add: fun_eq_iff record_model_def record_family_def request_identity_def identity_for_def slugify_def)

text \<open>
  C9: from a successful import to the read API: after an import of the service that reported fresh success, the model
  route answers the slug of every record of the stream with a model of that slug, under the family of a record of the
  import that has the same model slug, whatever columns others write.
\<close>

theorem import_served:
  assumes "import_records sha (row_ops E I P) w req (map Inr rs) = (w', Inr rep)" and "\<not> already_imported rep"
    and "catalog_rows_ok (fst (rs_rows w))" and "r \<in> set rs"
    and "st_tables v = catalog_view R (fst (rs_rows w'))" and "st_faults v = no_read_faults"
    and "ex_segment X rq = record_model I r"
  shows "\<exists>detail. \<exists>q \<in> set rs. snd (model_handler G X rq v) = json_response (JObject (detail_members (ModelDetailResponse_from detail))) \<and>
    ms_slug (md_summary detail) = Slug (record_model I r) \<and>
    ms_family (md_summary detail) = Slug (record_family I q) \<and> record_model I q = record_model I r"
proof -
  obtain run where "promote_all_rows (request_identity I req run) P rs (rs_rows w) = Inr (rs_rows w')"
    using rows.import_writes[OF assms(1)] assms(2) by (auto simp: rows.writes_batch_def promote_rows_all inj_eq)
  from promoted_model_served[OF assms(3) this assms(4-6), of X rq G] assms(7) show ?thesis by simp
qed

theorem import_served_witness:
  "\<exists>w' rep detail (store :: bool auth_store). import_records (\<lambda>s. s) (row_ops sample_env sample_identity sample_promotion)
       bare_store bare_request [Inr bare_record] = (w', Inr rep) \<and>
     snd (model_handler (sample_gate store) \<lparr> ex_segment = (\<lambda>_. ''a-b''), ex_query = (\<lambda>_. Inl ()) \<rparr> (sample_http [])
       (world (sample_state (catalog_view no_columns (fst (rs_rows w')))))) = json_response (JObject (detail_members (ModelDetailResponse_from detail)))"
proof -
  obtain run att w' where run: "import_records (\<lambda>s. s) (row_ops sample_env sample_identity sample_promotion) bare_store
      bare_request (map Inr [bare_record]) = (w', Inr (report_for bare_request run att [bare_record]))"
    by (rule bare_import) simp
  have fresh: "\<not> already_imported (report_for bare_request run att [bare_record])" by (simp add: report_for_def new_report_def)
  have slug: "record_model sample_identity bare_record = ''a-b''"
    by (simp add: record_model_def sample_evals)
  have "catalog_rows_ok (fst (rs_rows bare_store))" using no_rows_readable(1) bare_fresh(3) by simp
  from import_served[OF run fresh this, of bare_record "world (sample_state (catalog_view no_columns (fst (rs_rows w'))))" no_columns
      "\<lparr> ex_segment = (\<lambda>_. ''a-b''), ex_query = (\<lambda>_. Inl ()) \<rparr>" "sample_http []" "sample_gate store" for store]
  show ?thesis using run slug by (simp add: sample_state_def) blast
qed

end
