(* ===== verification/Logging.thy ===== *)
theory Logging
  imports Rust_Str
begin

text \<open>
  \<open>aircraft_observability::logging\<close>: which filter the process's subscriber gets. Parsing a filter is the crate's, a
  parameter; the default is a boundary, so what it names is shown.
\<close>

definition FILTER_VARIABLE :: string where "FILTER_VARIABLE = ''RUST_LOG''"

definition DEFAULT_FILTER :: string where
  "DEFAULT_FILTER =
     ''error,aircraft_server=info,aircraft_api=info,aircraft_app=info,aircraft_db=info,aircraft_ingest=info,aircraft_observability=info''"

text \<open>\<open>env\<close> is the environment, its values decoded strictly: an undecodable one reads as unset.\<close>

definition filter_directives :: "(string \<rightharpoonup> string) \<Rightarrow> string" where
  "filter_directives env =
     (let configured = (case env FILTER_VARIABLE of Some v \<Rightarrow> v | None \<Rightarrow> []) in
      if trim configured = [] then DEFAULT_FILTER else configured)"

definition env_filter :: "(string \<Rightarrow> 'f) \<Rightarrow> (string \<rightharpoonup> string) \<Rightarrow> 'f" where
  "env_filter parse_lossy env = parse_lossy (filter_directives env)"

text \<open>A blank variable is no variable.\<close>

lemma blank_is_unset:
  assumes "trim v = []"
  shows "env_filter parse (env(FILTER_VARIABLE \<mapsto> v)) = env_filter parse (env(FILTER_VARIABLE := None))"
proof -
  have "trim [] = []" by (simp add: trim_def trim_start_def trim_end_def)
  then show ?thesis using assms by (simp add: env_filter_def filter_directives_def Let_def)
qed

text \<open>
  The default's only unqualified directive is the floor, and every target it opens below the floor is a crate of this
  workspace.
\<close>

lemma default_opens_own_crates:
  "case split_char (CHR '','') DEFAULT_FILTER of
     floor # opened \<Rightarrow> floor = ''error'' \<and> list_all (\<lambda>d. starts_with ''aircraft_'' d \<and> ends_with ''=info'' d) opened
   | [] \<Rightarrow> False"
  by (simp add: DEFAULT_FILTER_def starts_with_def ends_with_def)

end
